(* ===== verification/Pika_Prelude.thy ===== *)
theory Pika_Prelude
  imports Main "HOL-Library.Word" "HOL-Library.Multiset"
begin

text \<open>
  Shared vocabulary of the development: the machine integers of the source as words, byte
  strings (\<^verbatim>\<open>std::string\<close> and \<^verbatim>\<open>slash::Slice\<close>) as char lists, the status
  values every fallible operation returns, and the list lemmas the components share.
\<close>

section \<open>Machine integers and byte strings\<close>

type_synonym u8 = "8 word"
type_synonym u16 = "16 word"
type_synonym u32 = "32 word"
type_synonym u64 = "64 word"
type_synonym i32 = "32 word"
type_synonym bytes = string

text \<open>Collections used by the component proofs.\<close>

named_theorems offset_simps \<open>comparison operators of the offset structs, unfolded\<close>
named_theorems status_simps \<open>status predicates, unfolded\<close>

section \<open>Status\<close>

text \<open>
  The values of \<^verbatim>\<open>slash::Status\<close> the source constructs or tests, with the message the
  constructor is given.
\<close>

datatype Status =
    OK
  | NotFound string
  | Corruption string
  | InvalidArgument string
  | IOError string
  | EndFile string
  | Incomplete string
  | Busy string

primrec ok :: "Status \<Rightarrow> bool" where
  "ok OK = True"
| "ok (NotFound m) = False"
| "ok (Corruption m) = False"
| "ok (InvalidArgument m) = False"
| "ok (IOError m) = False"
| "ok (EndFile m) = False"
| "ok (Incomplete m) = False"
| "ok (Busy m) = False"

definition IsEndFile :: "Status \<Rightarrow> bool" where
  "IsEndFile s = (case s of EndFile m \<Rightarrow> True | _ \<Rightarrow> False)"

definition IsNotFound :: "Status \<Rightarrow> bool" where
  "IsNotFound s = (case s of NotFound m \<Rightarrow> True | _ \<Rightarrow> False)"

definition IsCorruption :: "Status \<Rightarrow> bool" where
  "IsCorruption s = (case s of Corruption m \<Rightarrow> True | _ \<Rightarrow> False)"

definition IsIOError :: "Status \<Rightarrow> bool" where
  "IsIOError s = (case s of IOError m \<Rightarrow> True | _ \<Rightarrow> False)"

declare IsEndFile_def [status_simps] IsNotFound_def [status_simps]
  IsCorruption_def [status_simps] IsIOError_def [status_simps]

lemma ok_iff [simp]: "ok s \<longleftrightarrow> s = OK"
  by (cases s) simp_all

section \<open>Lists\<close>

text \<open>The longest prefix of elements that satisfy a predicate, as the loops that pop a queue see it.\<close>

lemma dropWhile_hd_not: "dropWhile P xs = y # ys \<Longrightarrow> \<not> P y"
  by (metis hd_dropWhile list.distinct(1) list.sel(1))

lemma takeWhile_all_prefix:
  assumes "\<forall>x \<in> set xs. P x"
  shows "takeWhile P (xs @ ys) = xs @ takeWhile P ys" and "dropWhile P (xs @ ys) = dropWhile P ys"
  using assms by (induction xs) auto

lemma sum_list_map_append3:
  "sum_list (map f (xs @ ys @ zs)) = sum_list (map f xs) + sum_list (map f ys) + (sum_list (map f zs) :: 'a :: comm_monoid_add)"
  by (simp add: add.assoc)

lemma split_at_two:
  assumes "i \<le> j" and "j < length xs"
  shows "xs = take i xs @ take (Suc j - i) (drop i xs) @ drop (Suc j) xs"
proof -
  have "take (Suc j - i) (drop i xs) @ drop (Suc j) xs = drop i xs"
    using assms append_take_drop_id [of "Suc j - i" "drop i xs"] by simp
  then show ?thesis by simp
qed

section \<open>Bytes\<close>

lemma char_of_of_char_nat [simp]: "char_of (of_char c :: nat) = c"
  by simp

text \<open>
  The object representation of an unsigned integer of \<open>k\<close> bytes, least significant byte first,
  as \<^verbatim>\<open>memcpy\<close> reads and writes it on the supported machines.
\<close>

primrec le_bytes :: "nat \<Rightarrow> nat \<Rightarrow> bytes" where
  "le_bytes 0 n = []"
| "le_bytes (Suc k) n = char_of n # le_bytes k (n div 256)"

primrec le_val :: "bytes \<Rightarrow> nat" where
  "le_val [] = 0"
| "le_val (c # cs) = of_char c + 256 * le_val cs"

lemma length_le_bytes [simp]: "length (le_bytes k n) = k"
  by (induction k arbitrary: n) simp_all

lemma le_val_le_bytes: "le_val (le_bytes k n) = n mod 256 ^ k"
proof (induction k arbitrary: n)
  case (Suc k)
  have "n mod (256 * 256 ^ k) = 256 * (n div 256 mod 256 ^ k) + n mod 256"
    by (rule mod_mult2_eq)
  with Suc show ?case by simp
qed simp

lemma le_val_less: "le_val cs < 256 ^ length cs"
proof (induction cs)
  case (Cons c cs)
  have "(of_char c :: nat) < 256" by simp
  moreover have "256 * Suc (le_val cs) \<le> 256 * 256 ^ length cs"
    using Cons by (intro mult_le_mono2) simp
  ultimately have "of_char c + 256 * le_val cs < 256 * 256 ^ length cs"
    unfolding mult_Suc_right by linarith
  then show ?case by simp
qed simp

lemma char_of_of_char_add [simp]: "char_of (of_char c + 256 * (x :: nat)) = c"
proof -
  have "char_of (of_char c + 256 * x) = (char_of ((of_char c + 256 * x) mod 256) :: char)"
    by (rule char_of_mod_256 [symmetric])
  also have "(of_char c + 256 * x) mod 256 = (of_char c :: nat)" by simp
  finally show ?thesis by simp
qed

lemma le_bytes_le_val: "length cs = k \<Longrightarrow> le_bytes k (le_val cs) = cs"
  by (induction cs arbitrary: k) auto

definition u16_bytes :: "u16 \<Rightarrow> bytes" where "u16_bytes x = le_bytes 2 (unat x)"
definition u32_bytes :: "u32 \<Rightarrow> bytes" where "u32_bytes x = le_bytes 4 (unat x)"
definition u64_bytes :: "u64 \<Rightarrow> bytes" where "u64_bytes x = le_bytes 8 (unat x)"

lemma length_word_bytes [simp]:
  "length (u16_bytes a) = 2" "length (u32_bytes b) = 4" "length (u64_bytes c) = 8"
  by (simp_all add: u16_bytes_def u32_bytes_def u64_bytes_def)

lemma le_val_word:
  fixes x :: "'a :: len word"
  assumes "2 ^ LENGTH('a) = (256 :: nat) ^ k"
  shows "of_nat (le_val (le_bytes k (unat x))) = x"
proof -
  have "unat x < 256 ^ k" unfolding assms [symmetric] by (rule unsigned_less)
  then show ?thesis by (simp add: le_val_le_bytes)
qed

lemma word_of_bytes [simp]:
  "of_nat (le_val (u16_bytes a)) = a"
  "of_nat (le_val (u32_bytes b)) = b"
  "of_nat (le_val (u64_bytes c)) = c"
  unfolding u16_bytes_def u32_bytes_def u64_bytes_def by (rule le_val_word; simp)+

text \<open>\<^verbatim>\<open>memcpy\<close> into a buffer: \<open>d\<close> overwrites the bytes from position \<open>i\<close> on.\<close>

definition mem_write :: "bytes \<Rightarrow> nat \<Rightarrow> bytes \<Rightarrow> bytes" where
  "mem_write m i d = take i m @ d @ drop (i + length d) m"

definition mem_read :: "bytes \<Rightarrow> nat \<Rightarrow> nat \<Rightarrow> bytes" where
  "mem_read m i n = take n (drop i m)"

lemma length_mem_write [simp]: "i + length d \<le> length m \<Longrightarrow> length (mem_write m i d) = length m"
  by (simp add: mem_write_def)

lemma mem_read_write_same: "i + length d \<le> length m \<Longrightarrow> n = length d \<Longrightarrow> mem_read (mem_write m i d) i n = d"
  by (simp add: mem_read_def mem_write_def)

lemma mem_read_write_before:
  "j + n \<le> i \<Longrightarrow> i + length d \<le> length m \<Longrightarrow> mem_read (mem_write m i d) j n = mem_read m j n"
  by (rule nth_equalityI) (auto simp: mem_read_def mem_write_def nth_append)

lemma mem_read_write_after:
  "i + length d \<le> j \<Longrightarrow> i + length d \<le> length m \<Longrightarrow> mem_read (mem_write m i d) j n = mem_read m j n"
  by (simp add: mem_read_def mem_write_def)

lemmas mem_simps = mem_read_write_same mem_read_write_before mem_read_write_after

section \<open>Conversions between widths\<close>

lemma scast_minus_of_nat: "(scast (n :: i32) :: u64) - of_nat k = word_of_int (sint n - int k)"
  by transfer (simp add: take_bit_diff)

lemma sint_ucast_of_int: "sint (ucast (word_of_int x :: u64) :: i32) = signed_take_bit 31 x"
  by transfer (simp add: signed_take_bit_take_bit)

lemma unat_of_nat_small: "n < 2 ^ LENGTH('a) \<Longrightarrow> unat (of_nat n :: 'a :: len word) = n"
  by (simp add: unsigned_of_nat take_bit_nat_eq_self)

lemma of_nat_word_eq_iff:
  "m < 2 ^ LENGTH('a) \<Longrightarrow> n < 2 ^ LENGTH('a) \<Longrightarrow> (of_nat m :: 'a :: len word) = of_nat n \<longleftrightarrow> m = n"
  by (metis unat_of_nat_small)

section \<open>Decimal numerals\<close>

text \<open>
  The decimal representation of an integer, as \<^verbatim>\<open>std::to_string\<close> and the stream operators of
  the standard library print it.
\<close>

fun dec_digits :: "nat \<Rightarrow> string" where
  "dec_digits n = (if n < 10 then [char_of (48 + n)] else dec_digits (n div 10) @ [char_of (48 + n mod 10)])"

declare dec_digits.simps [simp del]

definition dec_string :: "int \<Rightarrow> string" where
  "dec_string i = (if i < 0 then CHR ''-'' # dec_digits (nat (- i)) else dec_digits (nat i))"

text \<open>Reading a decimal numeral back.\<close>

definition is_digit :: "char \<Rightarrow> bool" where
  "is_digit c = (48 \<le> (of_char c :: nat) \<and> (of_char c :: nat) \<le> 57)"

definition dec_val :: "string \<Rightarrow> nat" where
  "dec_val = foldl (\<lambda>a c. a * 10 + (of_char c - 48)) 0"

lemma dec_digits_not_Nil [simp]: "dec_digits n \<noteq> []"
  by (subst dec_digits.simps) simp

lemma dec_digits_digits: "c \<in> set (dec_digits n) \<Longrightarrow> is_digit c"
proof (induction n rule: dec_digits.induct)
  case (1 n)
  show ?case
  proof (cases "n < 10")
    case True
    with "1.prems" show ?thesis by (auto simp: dec_digits.simps [of n] is_digit_def)
  next
    case False
    have "n mod 10 < 10" by simp
    then have "(48 + n mod 10) mod 256 = 48 + n mod 10" by simp
    with False "1.prems" "1.IH" show ?thesis
      by (auto simp: dec_digits.simps [of n] is_digit_def)
  qed
qed

lemma dec_val_dec_digits [simp]: "dec_val (dec_digits n) = n"
proof (induction n rule: dec_digits.induct)
  case (1 n)
  show ?case
  proof (cases "n < 10")
    case True
    then show ?thesis by (simp add: dec_digits.simps [of n] dec_val_def)
  next
    case False
    have "n mod 10 < 10" by simp
    then have "(48 + n mod 10) mod 256 = 48 + n mod 10" by simp
    with False "1.IH" show ?thesis
      by (simp add: dec_digits.simps [of n] dec_val_def)
  qed
qed

lemma length_dec_digits_le: "n < 10 ^ k \<Longrightarrow> 0 < k \<Longrightarrow> length (dec_digits n) \<le> k"
proof (induction n arbitrary: k rule: dec_digits.induct)
  case (1 n)
  show ?case
  proof (cases "n < 10")
    case True
    with "1.prems" show ?thesis by (simp add: dec_digits.simps [of n])
  next
    case False
    from "1.prems"(2) obtain k' where k: "k = Suc k'" by (cases k) auto
    with "1.prems"(1) False have k': "0 < k'" by (cases k') auto
    from "1.prems"(1) k have "n div 10 < 10 ^ k'" by (simp add: less_mult_imp_div_less mult.commute)
    with "1.IH" [OF False, of k'] k k' False show ?thesis by (simp add: dec_digits.simps [of n])
  qed
qed

end
