(* ===== verification/Pika_Define.thy ===== *)
theory Pika_Define
  imports Pika_Prelude
begin

text \<open>
  The shared definitions of \<^verbatim>\<open>include/pika_define.h\<close>: binlog and logic offsets with their
  comparison operators, partition identities, replication nodes, and the enumerations of the
  replication state machines and of the binlog record format.
\<close>

section \<open>Constants and enumerations\<close>

definition kBlockSize :: nat where
  "kBlockSize = 64 * 1024"

definition kHeaderSize :: nat where
  "kHeaderSize = 1 + 3 + 4"

definition kBinlogPrefix :: string where
  "kBinlogPrefix = ''write2file''"

definition kManifest :: string where
  "kManifest = ''manifest''"

lemma kBlockSize_eq [simp]: "kBlockSize = 65536"
  by (simp add: kBlockSize_def)

lemma kHeaderSize_eq [simp]: "kHeaderSize = 8"
  by (simp add: kHeaderSize_def)

datatype RecordType =
    kZeroType | kFullType | kFirstType | kMiddleType | kLastType | kEof | kBadRecord | kOldRecord

text \<open>The numbers the C++ enumeration gives its constants; the record header stores them in a byte.\<close>

primrec RecordType_code :: "RecordType \<Rightarrow> nat" where
  "RecordType_code kZeroType = 0"
| "RecordType_code kFullType = 1"
| "RecordType_code kFirstType = 2"
| "RecordType_code kMiddleType = 3"
| "RecordType_code kLastType = 4"
| "RecordType_code kEof = 5"
| "RecordType_code kBadRecord = 6"
| "RecordType_code kOldRecord = 7"

lemma RecordType_code_inject [simp]: "RecordType_code a = RecordType_code b \<longleftrightarrow> a = b"
  by (cases a; cases b) simp_all

lemma RecordType_code_less: "RecordType_code t < 8"
  by (cases t) simp_all

datatype ReplState =
    kNoConnect | kTryConnect | kTryDBSync | kWaitDBSync | kWaitReply | kConnected | kError | kDBNoConnect

datatype SlaveState = kSlaveNotSync | kSlaveDbSync | kSlaveBinlogSync

datatype BinlogSyncState = kNotSync | kReadFromCache | kReadFromFile

section \<open>Offsets\<close>

record LogicOffset =
  lo_term :: u32
  lo_index :: u64

datatype BinlogOffset = BinlogOffset (bo_filenum: u32) (bo_offset: u64)

record LogOffset =
  b_offset :: BinlogOffset
  l_offset :: LogicOffset

text \<open>The default constructors.\<close>

definition LogicOffset0 :: LogicOffset where
  "LogicOffset0 = \<lparr>lo_term = 0, lo_index = 0\<rparr>"

definition BinlogOffset0 :: BinlogOffset where
  "BinlogOffset0 = BinlogOffset 0 0"

definition LogOffset0 :: LogOffset where
  "LogOffset0 = \<lparr>b_offset = BinlogOffset0, l_offset = LogicOffset0\<rparr>"

definition LogicOffset_eq :: "LogicOffset \<Rightarrow> LogicOffset \<Rightarrow> bool" where
  "LogicOffset_eq a b = (lo_term a = lo_term b \<and> lo_index a = lo_index b)"

definition BinlogOffset_eq :: "BinlogOffset \<Rightarrow> BinlogOffset \<Rightarrow> bool" where
  "BinlogOffset_eq a b =
     (if bo_filenum a = bo_filenum b \<and> bo_offset a = bo_offset b then True else False)"

definition BinlogOffset_gt :: "BinlogOffset \<Rightarrow> BinlogOffset \<Rightarrow> bool" where
  "BinlogOffset_gt a b =
     (if bo_filenum a > bo_filenum b \<or> (bo_filenum a = bo_filenum b \<and> bo_offset a > bo_offset b)
      then True else False)"

definition BinlogOffset_lt :: "BinlogOffset \<Rightarrow> BinlogOffset \<Rightarrow> bool" where
  "BinlogOffset_lt a b =
     (if bo_filenum a < bo_filenum b \<or> (bo_filenum a = bo_filenum b \<and> bo_offset a < bo_offset b)
      then True else False)"

definition BinlogOffset_le :: "BinlogOffset \<Rightarrow> BinlogOffset \<Rightarrow> bool" where
  "BinlogOffset_le a b =
     (if bo_filenum a < bo_filenum b \<or> (bo_filenum a = bo_filenum b \<and> bo_offset a \<le> bo_offset b)
      then True else False)"

definition BinlogOffset_ge :: "BinlogOffset \<Rightarrow> BinlogOffset \<Rightarrow> bool" where
  "BinlogOffset_ge a b =
     (if bo_filenum a > bo_filenum b \<or> (bo_filenum a = bo_filenum b \<and> bo_offset a \<ge> bo_offset b)
      then True else False)"

definition LogOffset_lt :: "LogOffset \<Rightarrow> LogOffset \<Rightarrow> bool" where
  "LogOffset_lt a b = BinlogOffset_lt (b_offset a) (b_offset b)"

definition LogOffset_eq :: "LogOffset \<Rightarrow> LogOffset \<Rightarrow> bool" where
  "LogOffset_eq a b = BinlogOffset_eq (b_offset a) (b_offset b)"

definition LogOffset_le :: "LogOffset \<Rightarrow> LogOffset \<Rightarrow> bool" where
  "LogOffset_le a b = BinlogOffset_le (b_offset a) (b_offset b)"

definition LogOffset_ge :: "LogOffset \<Rightarrow> LogOffset \<Rightarrow> bool" where
  "LogOffset_ge a b = BinlogOffset_ge (b_offset a) (b_offset b)"

definition LogOffset_gt :: "LogOffset \<Rightarrow> LogOffset \<Rightarrow> bool" where
  "LogOffset_gt a b = BinlogOffset_gt (b_offset a) (b_offset b)"

text \<open>
  The operators of \<^verbatim>\<open>BinlogOffset\<close> make it a linear order: the library's order lemmas apply
  to it.
\<close>

instantiation BinlogOffset :: linorder
begin

definition less_eq_BinlogOffset :: "BinlogOffset \<Rightarrow> BinlogOffset \<Rightarrow> bool" where
  "less_eq_BinlogOffset = BinlogOffset_le"

definition less_BinlogOffset :: "BinlogOffset \<Rightarrow> BinlogOffset \<Rightarrow> bool" where
  "less_BinlogOffset = BinlogOffset_lt"

instance
  by standard
    (auto simp: less_eq_BinlogOffset_def less_BinlogOffset_def BinlogOffset_le_def
      BinlogOffset_lt_def split: if_splits intro: BinlogOffset.expand)

end

lemma BinlogOffset_ops [simp, offset_simps]:
  "BinlogOffset_lt a b \<longleftrightarrow> a < b"
  "BinlogOffset_le a b \<longleftrightarrow> a \<le> b"
  "BinlogOffset_gt a b \<longleftrightarrow> b < a"
  "BinlogOffset_ge a b \<longleftrightarrow> b \<le> a"
  "BinlogOffset_eq a b \<longleftrightarrow> a = b"
  by (auto simp: less_eq_BinlogOffset_def less_BinlogOffset_def BinlogOffset_le_def
      BinlogOffset_lt_def BinlogOffset_gt_def BinlogOffset_ge_def BinlogOffset_eq_def
      BinlogOffset.expand)

lemma LogOffset_ops [offset_simps]:
  "LogOffset_lt x y \<longleftrightarrow> b_offset x < b_offset y"
  "LogOffset_le x y \<longleftrightarrow> b_offset x \<le> b_offset y"
  "LogOffset_gt x y \<longleftrightarrow> b_offset y < b_offset x"
  "LogOffset_ge x y \<longleftrightarrow> b_offset y \<le> b_offset x"
  "LogOffset_eq x y \<longleftrightarrow> b_offset x = b_offset y"
  by (simp_all add: LogOffset_lt_def LogOffset_le_def LogOffset_gt_def LogOffset_ge_def LogOffset_eq_def)

lemma less_BinlogOffset_iff:
  "BinlogOffset f o1 < BinlogOffset g o2 \<longleftrightarrow> f < g \<or> f = g \<and> o1 < o2"
  by (auto simp: less_BinlogOffset_def BinlogOffset_lt_def simp del: BinlogOffset_ops)

lemma BinlogOffset0_le [simp]: "BinlogOffset0 \<le> b"
  by (auto simp: BinlogOffset0_def less_eq_BinlogOffset_def BinlogOffset_le_def word_gt_0
      simp del: BinlogOffset_ops)

lemma LogOffset0_sel [simp]:
  "b_offset LogOffset0 = BinlogOffset0" "l_offset LogOffset0 = LogicOffset0"
  by (simp_all add: LogOffset0_def)

section \<open>Comparison operators as an interface\<close>

text \<open>
  What the logs and windows rely on of the five operators of an offset type: they are the
  comparisons of one linear preorder. Searches in a log ordered by it stop at the right place.
\<close>

locale offset_order =
  fixes lt le gt ge eq :: "'a \<Rightarrow> 'a \<Rightarrow> bool"
  assumes le_refl: "le a a"
    and le_trans: "le a b \<Longrightarrow> le b c \<Longrightarrow> le a c"
    and le_linear: "le a b \<or> le b a"
    and lt_iff: "lt a b \<longleftrightarrow> le a b \<and> \<not> le b a"
    and eq_iff: "eq a b \<longleftrightarrow> le a b \<and> le b a"
    and gt_iff: "gt a b \<longleftrightarrow> lt b a"
    and ge_iff: "ge a b \<longleftrightarrow> le b a"
begin

lemma lt_trans: "lt a b \<Longrightarrow> lt b c \<Longrightarrow> lt a c"
  unfolding lt_iff by (meson le_trans)

lemma trichotomy: "lt a b \<or> eq a b \<or> gt a b"
  using le_linear [of a b] by (auto simp: lt_iff eq_iff gt_iff)

lemma exclusive: "\<not> (lt a b \<and> eq a b)" "\<not> (gt a b \<and> eq a b)" "\<not> (lt a b \<and> gt a b)"
  by (auto simp: lt_iff eq_iff gt_iff)

lemma eq_sym: "eq a b \<longleftrightarrow> eq b a"
  by (auto simp: eq_iff)

lemma not_gt: "\<not> gt a b \<longleftrightarrow> le a b"
  using le_linear [of a b] by (auto simp: gt_iff lt_iff)

lemma lt_eq_trans: "lt a b \<Longrightarrow> eq b c \<Longrightarrow> lt a c"
  unfolding lt_iff eq_iff by (meson le_trans)

text \<open>In a strictly ordered log at most one entry equals a given offset.\<close>

lemma sorted_eq_unique:
  assumes "sorted_wrt lt xs" and "i < length xs" and "j < length xs"
    and "eq (xs ! i) k" and "eq (xs ! j) k"
  shows "i = j"
proof (rule ccontr)
  assume "i \<noteq> j"
  then consider "i < j" | "j < i" by linarith
  then show False
  proof cases
    case 1
    with assms(1,3) have "lt (xs ! i) (xs ! j)" by (simp add: sorted_wrt_nth_less)
    with assms(4,5) show False by (meson eq_iff le_trans lt_iff)
  next
    case 2
    with assms(1,2) have "lt (xs ! j) (xs ! i)" by (simp add: sorted_wrt_nth_less)
    with assms(4,5) show False by (meson eq_iff le_trans lt_iff)
  qed
qed

end

interpretation bo: offset_order BinlogOffset_lt BinlogOffset_le BinlogOffset_gt BinlogOffset_ge BinlogOffset_eq
  by unfold_locales auto

interpretation lo: offset_order LogOffset_lt LogOffset_le LogOffset_gt LogOffset_ge LogOffset_eq
  by unfold_locales (auto simp: LogOffset_ops)

section \<open>Partitions and nodes\<close>

record PartitionInfo =
  pi_table_name :: string
  pi_partition_id :: u32

definition PartitionInfo_eq :: "PartitionInfo \<Rightarrow> PartitionInfo \<Rightarrow> bool" where
  "PartitionInfo_eq a b =
     (if pi_table_name a = pi_table_name b \<and> pi_partition_id a = pi_partition_id b then True else False)"

text \<open>
  The C library's \<^verbatim>\<open>strcmp\<close>: the strings end at their first NUL, and the sign of the result is
  that of the difference of the first differing bytes.
\<close>

fun strcmp :: "string \<Rightarrow> string \<Rightarrow> int" where
  "strcmp [] [] = 0"
| "strcmp [] (b # bs) = (if b = CHR 0x00 then 0 else -1)"
| "strcmp (a # as) [] = (if a = CHR 0x00 then 0 else 1)"
| "strcmp (a # as) (b # bs) =
     (if a \<noteq> b then (if (of_char a :: int) < of_char b then -1 else 1)
      else if a = CHR 0x00 then 0 else strcmp as bs)"

text \<open>\<^verbatim>\<open>operator<\<close> of \<^verbatim>\<open>PartitionInfo\<close> returns an \<^verbatim>\<open>int\<close>.\<close>

definition PartitionInfo_lt :: "PartitionInfo \<Rightarrow> PartitionInfo \<Rightarrow> int" where
  "PartitionInfo_lt a b =
     (let ret = strcmp (pi_table_name a) (pi_table_name b)
      in if ret = 0 then
           (if pi_partition_id a < pi_partition_id b then -1
            else if pi_partition_id a > pi_partition_id b then 1 else 0)
         else ret)"

record RmNode =
  rn_ip :: string
  rn_port :: int
  rn_partition_info :: PartitionInfo
  rn_session_id :: i32
  rn_last_send_time :: u64
  rn_last_recv_time :: u64

definition RmNode_new :: "string \<Rightarrow> int \<Rightarrow> string \<Rightarrow> u32 \<Rightarrow> i32 \<Rightarrow> RmNode" where
  "RmNode_new ip port tbl pid sid =
     \<lparr>rn_ip = ip, rn_port = port,
      rn_partition_info = \<lparr>pi_table_name = tbl, pi_partition_id = pid\<rparr>,
      rn_session_id = sid, rn_last_send_time = 0, rn_last_recv_time = 0\<rparr>"

definition RmNode_eq :: "RmNode \<Rightarrow> RmNode \<Rightarrow> bool" where
  "RmNode_eq a b =
     (if pi_table_name (rn_partition_info a) = pi_table_name (rn_partition_info b)
        \<and> pi_partition_id (rn_partition_info a) = pi_partition_id (rn_partition_info b)
        \<and> rn_ip a = rn_ip b \<and> rn_port a = rn_port b
      then True else False)"

lemma strcmp_eq_0:
  assumes "CHR 0x00 \<notin> set a" and "CHR 0x00 \<notin> set b"
  shows "strcmp a b = 0 \<longleftrightarrow> a = b"
  using assms by (induction a b rule: strcmp.induct) auto

end
