(* ===== verification/Pika_Sync_Window.thy ===== *)
theory Pika_Sync_Window
  imports Pika_Define
begin

text \<open>
  \<^verbatim>\<open>SyncWindow\<close> of \<^verbatim>\<open>include/pika_slave_node.h\<close> and \<^verbatim>\<open>src/pika_slave_node.cc\<close>: the
  window of offsets that were sent (or scheduled to be applied) and not yet acknowledged in order.
  The window is shown to implement cumulative acknowledgement over the history of pushed offsets,
  stated as the interface \<open>cumulative_ack\<close> its two clients (slave nodes and the applied
  index of a partition) rely on.
\<close>

section \<open>Model\<close>

record SyncWinItem =
  swi_offset :: LogOffset
  swi_binlog_size :: u64
  swi_acked :: bool

definition SyncWinItem_eq :: "SyncWinItem \<Rightarrow> SyncWinItem \<Rightarrow> bool" where
  "SyncWinItem_eq a b =
     (bo_filenum (b_offset (swi_offset a)) = bo_filenum (b_offset (swi_offset b))
      \<and> bo_offset (b_offset (swi_offset a)) = bo_offset (b_offset (swi_offset b)))"

definition SyncWinItem_new :: "LogOffset \<Rightarrow> u64 \<Rightarrow> SyncWinItem" where
  "SyncWinItem_new off sz = \<lparr>swi_offset = off, swi_binlog_size = sz, swi_acked = False\<rparr>"

record SyncWindow =
  sw_win :: "SyncWinItem list"
  sw_total_size :: u64

definition SyncWindow0 :: SyncWindow where
  "SyncWindow0 = \<lparr>sw_win = [], sw_total_size = 0\<rparr>"

definition SyncWindow_Push :: "SyncWinItem \<Rightarrow> SyncWindow \<Rightarrow> SyncWindow" where
  "SyncWindow_Push item w =
     w\<lparr>sw_win := sw_win w @ [item], sw_total_size := sw_total_size w + swi_binlog_size item\<rparr>"

text \<open>
  The search loop of \<^verbatim>\<open>Update\<close>: \<open>i\<close> is the loop index, \<open>sp\<close> and \<open>ep\<close> the start and
  end positions found so far. It stops at the first item equal to the end item.
\<close>

fun update_scan :: "SyncWinItem \<Rightarrow> SyncWinItem \<Rightarrow> nat \<Rightarrow> SyncWinItem list \<Rightarrow> nat \<Rightarrow> nat \<Rightarrow> nat \<times> nat" where
  "update_scan s e i [] sp ep = (sp, ep)"
| "update_scan s e i (x # xs) sp ep =
     (let sp' = (if SyncWinItem_eq x s then i else sp)
      in if SyncWinItem_eq x e then (sp', i) else update_scan s e (Suc i) xs sp' ep)"

text \<open>One iteration of the marking loop.\<close>

definition mark_acked :: "SyncWindow \<Rightarrow> nat \<Rightarrow> SyncWindow" where
  "mark_acked w i =
     w\<lparr>sw_win := (sw_win w)[i := (sw_win w ! i)\<lparr>swi_acked := True\<rparr>],
       sw_total_size := sw_total_size w - swi_binlog_size (sw_win w ! i)\<rparr>"

text \<open>The loop that pops the acknowledged front; it returns the offset popped last.\<close>

fun pop_acked :: "SyncWinItem list \<Rightarrow> LogOffset \<Rightarrow> LogOffset \<times> SyncWinItem list" where
  "pop_acked [] acked_offset = (acked_offset, [])"
| "pop_acked (x # xs) acked_offset =
     (if swi_acked x then pop_acked xs (swi_offset x) else (acked_offset, x # xs))"

definition SyncWindow_Update ::
  "SyncWinItem \<Rightarrow> SyncWinItem \<Rightarrow> LogOffset \<Rightarrow> SyncWindow \<Rightarrow> bool \<times> LogOffset \<times> SyncWindow" where
  "SyncWindow_Update start_item end_item acked_offset w =
     (let n = length (sw_win w);
          (start_pos, end_pos) = update_scan start_item end_item 0 (sw_win w) n n
      in if start_pos = n \<or> end_pos = n then (False, acked_offset, w)
         else let w1 = foldl mark_acked w [start_pos..<Suc end_pos];
                  (acked, rest) = pop_acked (sw_win w1) acked_offset
              in (True, acked, w1\<lparr>sw_win := rest\<rparr>))"

text \<open>
  \<^verbatim>\<open>Remaining\<close>: the subtraction is done in \<^verbatim>\<open>size_t\<close> and the result converted to
  \<^verbatim>\<open>int\<close>; the argument is the configured \<^verbatim>\<open>sync_window_size\<close>.
\<close>

definition SyncWindow_Remaining :: "i32 \<Rightarrow> SyncWindow \<Rightarrow> int" where
  "SyncWindow_Remaining sync_window_size w =
     (let remaining_size = (scast sync_window_size :: u64) - of_nat (length (sw_win w))
      in if remaining_size > 0 then sint (ucast remaining_size :: i32) else 0)"

definition SyncWindow_Reset :: "SyncWindow \<Rightarrow> SyncWindow" where
  "SyncWindow_Reset w = w\<lparr>sw_win := [], sw_total_size := 0\<rparr>"

definition SyncWindow_GetTotalBinlogSize :: "SyncWindow \<Rightarrow> u64" where
  "SyncWindow_GetTotalBinlogSize w = sw_total_size w"

section \<open>Cumulative acknowledgement\<close>

text \<open>
  The abstract history: the offsets pushed so far, oldest first, and the set of binlog offsets
  acknowledged so far. What is still pending starts at the first offset that was not acknowledged;
  the offset reported is the last one before it.
\<close>

definition cum_acked :: "LogOffset list \<Rightarrow> BinlogOffset set \<Rightarrow> LogOffset list" where
  "cum_acked p A = takeWhile (\<lambda>x. b_offset x \<in> A) p"

definition pending :: "LogOffset list \<Rightarrow> BinlogOffset set \<Rightarrow> LogOffset list" where
  "pending p A = dropWhile (\<lambda>x. b_offset x \<in> A) p"

definition reported :: "LogOffset \<Rightarrow> LogOffset list \<Rightarrow> BinlogOffset set \<Rightarrow> LogOffset" where
  "reported d p A = (if cum_acked p A = [] then d else last (cum_acked p A))"

definition ack_range :: "LogOffset list \<Rightarrow> LogOffset \<Rightarrow> LogOffset \<Rightarrow> BinlogOffset set" where
  "ack_range p s e = {b \<in> b_offset ` set p. b_offset s \<le> b \<and> b \<le> b_offset e}"

abbreviation offsets_sorted :: "LogOffset list \<Rightarrow> bool" where
  "offsets_sorted p \<equiv> sorted_wrt (\<lambda>a b. b_offset a < b_offset b) p"

lemma takeWhile_mono_split:
  assumes "\<And>x. P x \<Longrightarrow> Q x"
  shows "takeWhile Q xs = takeWhile P xs @ takeWhile Q (dropWhile P xs)"
    and "dropWhile Q (dropWhile P xs) = dropWhile Q xs"
  by (induction xs) (auto simp: assms)

lemma cum_acked_mono: "A \<subseteq> B \<Longrightarrow> cum_acked p B = cum_acked p A @ cum_acked (pending p A) B"
  unfolding cum_acked_def pending_def by (rule takeWhile_mono_split) auto

lemma pending_mono: "A \<subseteq> B \<Longrightarrow> pending (pending p A) B = pending p B"
  unfolding pending_def by (rule takeWhile_mono_split) auto

lemma set_pending: "set (pending p A) \<subseteq> set p"
  unfolding pending_def by (rule set_dropWhileD [THEN subsetI])

lemma cum_acked_subset: "x \<in> set (cum_acked p A) \<Longrightarrow> x \<in> set p \<and> b_offset x \<in> A"
  unfolding cum_acked_def by (auto dest: set_takeWhileD)

lemma pending_append:
  "b_offset x \<notin> A \<Longrightarrow> pending (p @ [x]) A = pending p A @ [x]"
  unfolding pending_def by (induction p) auto

lemma cum_acked_append: "b_offset x \<notin> A \<Longrightarrow> cum_acked (p @ [x]) A = cum_acked p A"
  unfolding cum_acked_def by (induction p) auto

text \<open>
  In an ordered history the reported offset is the boundary of what was acknowledged without a
  gap.
\<close>

lemma reported_boundary:
  assumes "offsets_sorted p" and "cum_acked p A \<noteq> []" and "x \<in> set p"
    and "b_offset x \<le> b_offset (reported d p A)"
  shows "b_offset x \<in> A"
proof -
  let ?c = "cum_acked p A"
  have split: "p = ?c @ pending p A"
    by (simp add: cum_acked_def pending_def)
  have l: "last ?c \<in> set ?c" using assms(2) by simp
  have "x \<notin> set (pending p A)"
  proof
    assume "x \<in> set (pending p A)"
    with assms(1) split l have "b_offset (last ?c) < b_offset x"
      by (metis sorted_wrt_append)
    with assms(2,4) show False by (simp add: reported_def)
  qed
  with assms(3) split have "x \<in> set ?c" by (metis Un_iff set_append)
  then show ?thesis by (simp add: cum_acked_subset)
qed

section \<open>The window as an interface\<close>

text \<open>
  What the clients of a window rely on. \<open>rep w p A\<close> says that the window \<open>w\<close> stands for
  the history \<open>p\<close> with the acknowledgements \<open>A\<close>.
\<close>

locale cumulative_ack =
  fixes rep :: "'w \<Rightarrow> LogOffset list \<Rightarrow> BinlogOffset set \<Rightarrow> bool"
    and push :: "LogOffset \<Rightarrow> 'w \<Rightarrow> 'w"
    and update :: "LogOffset \<Rightarrow> LogOffset \<Rightarrow> LogOffset \<Rightarrow> 'w \<Rightarrow> bool \<times> LogOffset \<times> 'w"
  assumes rep_push:
      "rep w p A \<Longrightarrow> \<forall>y \<in> set p. b_offset y < b_offset x \<Longrightarrow> b_offset x \<notin> A
       \<Longrightarrow> rep (push x w) (p @ [x]) A"
    and update_accepts:
      "rep w p A \<Longrightarrow> fst (update s e d w) \<longleftrightarrow>
         b_offset s \<in> b_offset ` set (pending p A) \<and> b_offset e \<in> b_offset ` set (pending p A)
         \<and> b_offset s \<le> b_offset e"
    and update_rejects: "rep w p A \<Longrightarrow> update s e d w = (False, d', w') \<Longrightarrow> d' = d \<and> w' = w"
    and update_acks:
      "rep w p A \<Longrightarrow> update s e d w = (True, d', w') \<Longrightarrow>
         rep w' p (A \<union> ack_range p s e) \<and> d' = reported d (pending p A) (A \<union> ack_range p s e)"
begin

text \<open>
  Both clients start an update from the default offset and keep their own value when nothing was
  popped: they then report the cumulative acknowledgement of the whole history.
\<close>

lemma client_reports:
  assumes "rep w p A" and "update s e LogOffset0 w = (True, d', w')"
    and "\<forall>x \<in> set p. b_offset x \<noteq> BinlogOffset0"
  shows "reported d p (A \<union> ack_range p s e) =
           (if b_offset d' = BinlogOffset0 then reported d p A else d')"
proof -
  let ?B = "A \<union> ack_range p s e"
  have d': "d' = reported LogOffset0 (pending p A) ?B"
    using update_acks [OF assms(1,2)] by simp
  have split: "cum_acked p ?B = cum_acked p A @ cum_acked (pending p A) ?B"
    by (rule cum_acked_mono) simp
  show ?thesis
  proof (cases "cum_acked (pending p A) ?B = []")
    case True
    with d' split show ?thesis by (simp add: reported_def)
  next
    case False
    then have "last (cum_acked (pending p A) ?B) \<in> set p"
      using cum_acked_subset set_pending last_in_set by blast
    with False d' split assms(3) show ?thesis by (simp add: reported_def)
  qed
qed

lemma client_keeps_rep:
  assumes "rep w p A" and "update s e LogOffset0 w = (r, d', w')"
  shows "rep w' p (if r then A \<union> ack_range p s e else A)"
  using assms update_acks update_rejects by (cases r) fastforce+

end

section \<open>The window implements the interface\<close>

definition win_rep :: "SyncWindow \<Rightarrow> LogOffset list \<Rightarrow> BinlogOffset set \<Rightarrow> bool" where
  "win_rep w p A \<longleftrightarrow>
     offsets_sorted p
     \<and> map swi_offset (sw_win w) = pending p A
     \<and> (\<forall>x \<in> set (sw_win w). swi_acked x \<longleftrightarrow> b_offset (swi_offset x) \<in> A)"

abbreviation win_push :: "LogOffset \<Rightarrow> SyncWindow \<Rightarrow> SyncWindow" where
  "win_push x w \<equiv> SyncWindow_Push (SyncWinItem_new x 0) w"

abbreviation win_update :: "LogOffset \<Rightarrow> LogOffset \<Rightarrow> LogOffset \<Rightarrow> SyncWindow \<Rightarrow> bool \<times> LogOffset \<times> SyncWindow" where
  "win_update s e d w \<equiv> SyncWindow_Update (SyncWinItem_new s 0) (SyncWinItem_new e 0) d w"

lemma SyncWinItem_eq_iff: "SyncWinItem_eq a b \<longleftrightarrow> b_offset (swi_offset a) = b_offset (swi_offset b)"
  by (auto simp: SyncWinItem_eq_def BinlogOffset.expand)

lemma SyncWinItem_new_sel [simp]:
  "swi_offset (SyncWinItem_new x n) = x" "swi_binlog_size (SyncWinItem_new x n) = n"
  "swi_acked (SyncWinItem_new x n) = False"
  by (simp_all add: SyncWinItem_new_def)

abbreviation item_key :: "SyncWinItem \<Rightarrow> BinlogOffset" where
  "item_key x \<equiv> b_offset (swi_offset x)"

text \<open>The search loop: where the end item is, and where the start item is before it.\<close>

lemma update_scan_no_end:
  "item_key e \<notin> item_key ` set xs \<Longrightarrow> snd (update_scan s e i xs sp ep) = ep"
  by (induction xs arbitrary: i sp) (auto simp: SyncWinItem_eq_iff Let_def)

lemma distinct_head_key:
  "distinct (map f (x # xs)) \<Longrightarrow> i < length xs \<Longrightarrow> f (xs ! i) = a \<Longrightarrow> f x \<noteq> a"
  by auto

lemma update_scan_no_start:
  assumes "distinct (map item_key xs)" and "j < length xs" and "item_key (xs ! j) = item_key e"
    and "\<forall>k \<le> j. item_key (xs ! k) \<noteq> item_key s"
  shows "update_scan s e i xs sp ep = (sp, i + j)"
  using assms
proof (induction xs arbitrary: i j)
  case (Cons x xs)
  from Cons.prems(4) have x: "item_key x \<noteq> item_key s" by (metis le0 nth_Cons_0)
  show ?case
  proof (cases j)
    case 0
    with Cons.prems(3) x show ?thesis by (simp add: SyncWinItem_eq_iff)
  next
    case (Suc j')
    then have e: "item_key x \<noteq> item_key e"
      using Cons.prems(2,3) by (intro distinct_head_key [OF Cons.prems(1), of j']) simp_all
    have "\<forall>k \<le> j'. item_key (xs ! k) \<noteq> item_key s"
      using Cons.prems(4) Suc by (metis Suc_le_mono nth_Cons_Suc)
    with Suc Cons.prems x e Cons.IH [of j' "Suc i"] show ?thesis by (simp add: SyncWinItem_eq_iff)
  qed
qed simp

lemma update_scan_found:
  assumes "distinct (map item_key xs)" and "j < length xs" and "item_key (xs ! j) = item_key e"
    and "k \<le> j" and "item_key (xs ! k) = item_key s"
  shows "update_scan s e i xs sp ep = (i + k, i + j)"
  using assms
proof (induction xs arbitrary: i j k sp)
  case (Cons x xs)
  show ?case
  proof (cases j)
    case 0
    with Cons.prems show ?thesis by (simp add: SyncWinItem_eq_iff)
  next
    case (Suc j')
    then have e: "item_key x \<noteq> item_key e"
      using Cons.prems(2,3) by (intro distinct_head_key [OF Cons.prems(1), of j']) simp_all
    show ?thesis
    proof (cases k)
      case 0
      with Cons.prems(5) have x: "item_key x = item_key s" by simp
      have "\<forall>m \<le> j'. item_key (xs ! m) \<noteq> item_key s"
        using distinct_head_key [OF Cons.prems(1)] x Cons.prems(2) Suc
        by (metis Suc_less_eq le_less_trans length_Cons)
      with 0 x Suc e Cons.prems update_scan_no_start [of xs j' e s "Suc i" i ep] show ?thesis
        by (simp add: SyncWinItem_eq_iff)
    next
      case (Suc k')
      then have s: "item_key x \<noteq> item_key s"
        using Cons.prems(2,4,5) \<open>j = Suc j'\<close>
        by (intro distinct_head_key [OF Cons.prems(1), of k']) simp_all
      with Suc \<open>j = Suc j'\<close> e Cons.prems Cons.IH [of j' k' "Suc i" sp] show ?thesis
        by (simp add: SyncWinItem_eq_iff)
    qed
  qed
qed simp

text \<open>The marking loop: exactly the items of the range are marked, and their sizes subtracted.\<close>

lemma mark_acked_sel [simp]:
  "sw_win (mark_acked w i) = (sw_win w)[i := (sw_win w ! i)\<lparr>swi_acked := True\<rparr>]"
  "sw_total_size (mark_acked w i) = sw_total_size w - swi_binlog_size (sw_win w ! i)"
  by (simp_all add: mark_acked_def)

lemma length_mark_range [simp]:
  "length (sw_win (foldl mark_acked w is)) = length (sw_win w)"
  by (induction "is" arbitrary: w) simp_all

lemma mark_range_nth:
  "k < length (sw_win w) \<Longrightarrow>
     sw_win (foldl mark_acked w [i..<j]) ! k =
       (if i \<le> k \<and> k < j then (sw_win w ! k)\<lparr>swi_acked := True\<rparr> else sw_win w ! k)"
proof (induction j)
  case (Suc j)
  then show ?case by (auto simp: nth_list_update less_Suc_eq)
qed simp

lemma mark_range_total:
  "j \<le> length (sw_win w) \<Longrightarrow>
     sw_total_size (foldl mark_acked w [i..<j]) =
       sw_total_size w - sum_list (map swi_binlog_size (map ((!) (sw_win w)) [i..<j]))"
proof (induction j)
  case (Suc j)
  then show ?case by (simp add: mark_range_nth)
qed simp

text \<open>The popping loop.\<close>

lemma pop_acked_eq:
  "pop_acked xs d =
     (if takeWhile swi_acked xs = [] then d else swi_offset (last (takeWhile swi_acked xs)),
      dropWhile swi_acked xs)"
  by (induction xs d rule: pop_acked.induct) auto

text \<open>The window stands for a suffix of the history, so its keys are distinct and ordered.\<close>

lemma win_rep_keys:
  assumes "win_rep w p A"
  shows "map item_key (sw_win w) = map b_offset (pending p A)"
    and "offsets_sorted (map swi_offset (sw_win w))" and "distinct (map item_key (sw_win w))"
proof -
  from assms have m: "map swi_offset (sw_win w) = pending p A" and s: "offsets_sorted p"
    by (auto simp: win_rep_def)
  show "map item_key (sw_win w) = map b_offset (pending p A)"
    by (simp flip: m)
  have "p = cum_acked p A @ pending p A" by (simp add: cum_acked_def pending_def)
  with s m show sorted: "offsets_sorted (map swi_offset (sw_win w))"
    by (metis sorted_wrt_append)
  then have "sorted_wrt (<) (map item_key (sw_win w))"
    by (simp add: sorted_wrt_map)
  then show "distinct (map item_key (sw_win w))"
    using strict_sorted_iff by blast
qed

lemma win_rep_update_iff:
  assumes "win_rep w p A"
  shows "fst (win_update s e d w) \<longleftrightarrow>
     (\<exists>i j. i \<le> j \<and> j < length (sw_win w) \<and> item_key (sw_win w ! i) = b_offset s
        \<and> item_key (sw_win w ! j) = b_offset e
        \<and> update_scan (SyncWinItem_new s 0) (SyncWinItem_new e 0) 0 (sw_win w)
             (length (sw_win w)) (length (sw_win w)) = (i, j))"
    (is "_ \<longleftrightarrow> ?found")
proof -
  let ?xs = "sw_win w"
  let ?scan = "update_scan (SyncWinItem_new s 0) (SyncWinItem_new e 0) 0 ?xs (length ?xs) (length ?xs)"
  note dist = win_rep_keys(3) [OF assms]
  have acc: "fst (win_update s e d w) \<longleftrightarrow> fst ?scan \<noteq> length ?xs \<and> snd ?scan \<noteq> length ?xs"
    by (auto simp: SyncWindow_Update_def Let_def split: prod.splits)
  show ?thesis
  proof (cases "\<exists>j < length ?xs. item_key (?xs ! j) = b_offset e")
    case True
    then obtain j where j: "j < length ?xs" "item_key (?xs ! j) = b_offset e" by blast
    show ?thesis
    proof (cases "\<exists>i \<le> j. item_key (?xs ! i) = b_offset s")
      case True
      then obtain i where i: "i \<le> j" "item_key (?xs ! i) = b_offset s" by blast
      have scan: "?scan = (0 + i, 0 + j)"
        by (rule update_scan_found) (use dist j i in simp_all)
      then show ?thesis using acc i j by auto
    next
      case False
      have scan: "?scan = (length ?xs, 0 + j)"
        by (rule update_scan_no_start) (use dist j False in simp_all)
      then show ?thesis using acc by auto
    qed
  next
    case False
    then have "snd ?scan = length ?xs"
      by (intro update_scan_no_end) (auto simp: in_set_conv_nth)
    with acc False show ?thesis by auto
  qed
qed

lemma sorted_nth_between:
  assumes "sorted_wrt (<) (ks :: 'a :: linorder list)" and "i < length ks" and "j < length ks" and "k < length ks"
  shows "ks ! i \<le> ks ! k \<and> ks ! k \<le> ks ! j \<longleftrightarrow> i \<le> k \<and> k \<le> j"
  using assms by (metis leD leI le_less nat_neq_iff order.order_iff_strict sorted_wrt_nth_less)

text \<open>A successful update, in terms of the history.\<close>

lemma win_rep_update_True:
  assumes rep: "win_rep w p A" and upd: "win_update s e d w = (True, d', w')"
  shows "win_rep w' p (A \<union> ack_range p s e) \<and> d' = reported d (pending p A) (A \<union> ack_range p s e)"
proof -
  let ?xs = "sw_win w"
  let ?B = "A \<union> ack_range p s e"
  obtain i j where ij: "i \<le> j" "j < length ?xs" "item_key (?xs ! i) = b_offset s"
      "item_key (?xs ! j) = b_offset e"
    and scan: "update_scan (SyncWinItem_new s 0) (SyncWinItem_new e 0) 0 ?xs (length ?xs) (length ?xs) = (i, j)"
    using win_rep_update_iff [OF rep, of s e d] upd by auto
  let ?ys = "sw_win (foldl mark_acked w [i..<Suc j])"
  have ys: "?ys ! k = (if i \<le> k \<and> k \<le> j then (?xs ! k)\<lparr>swi_acked := True\<rparr> else ?xs ! k)"
    if "k < length ?xs" for k
    using mark_range_nth [OF that, of i "Suc j"] by auto
  from upd scan ij have w': "sw_win w' = dropWhile swi_acked ?ys"
    and d': "d' = (if takeWhile swi_acked ?ys = [] then d else swi_offset (last (takeWhile swi_acked ?ys)))"
    by (auto simp: SyncWindow_Update_def Let_def pop_acked_eq simp del: upt_Suc)
  have offs: "map swi_offset ?ys = map swi_offset ?xs"
    by (rule nth_equalityI) (simp_all add: ys del: upt_Suc)
  have pend: "map swi_offset ?xs = pending p A" using rep by (simp add: win_rep_def)
  have keys: "sorted_wrt (<) (map item_key ?xs)"
    using win_rep_keys(2) [OF rep] by (simp add: sorted_wrt_map)
  have acked: "swi_acked y \<longleftrightarrow> item_key y \<in> ?B" if "y \<in> set ?ys" for y
  proof -
    from that obtain k where k: "k < length ?xs" "y = ?ys ! k" by (auto simp: in_set_conv_nth simp del: upt_Suc)
    have "item_key (?xs ! k) \<in> b_offset ` set p"
      using k pend set_pending [of p A] by (metis image_eqI nth_map nth_mem length_map subsetD)
    moreover have "b_offset s \<le> item_key (?xs ! k) \<and> item_key (?xs ! k) \<le> b_offset e \<longleftrightarrow> i \<le> k \<and> k \<le> j"
      using sorted_nth_between [OF keys, of i j k] ij k(1) by simp
    moreover have "swi_acked (?xs ! k) \<longleftrightarrow> item_key (?xs ! k) \<in> A"
      using rep k(1) by (auto simp: win_rep_def)
    ultimately show ?thesis using k ys [OF k(1)] by (auto simp: ack_range_def)
  qed
  have dw: "map swi_offset (dropWhile swi_acked ?ys) = pending (map swi_offset ?ys) ?B"
    and tw: "map swi_offset (takeWhile swi_acked ?ys) = cum_acked (map swi_offset ?ys) ?B"
    using acked by (auto simp: pending_def cum_acked_def dropWhile_map takeWhile_map comp_def
        cong: dropWhile_cong takeWhile_cong simp del: upt_Suc)
  have "win_rep w' p ?B"
    using rep w' dw offs pend acked pending_mono [of A ?B p]
    by (auto simp: win_rep_def dest: set_dropWhileD simp del: upt_Suc)
  moreover have "cum_acked (pending p A) ?B = map swi_offset (takeWhile swi_acked ?ys)"
    using tw offs pend by (simp del: upt_Suc)
  then have "d' = reported d (pending p A) ?B"
    unfolding d' reported_def by (simp add: last_map del: upt_Suc)
  ultimately show ?thesis by blast
qed

lemma win_rep_push:
  assumes "win_rep w p A" and "\<forall>y \<in> set p. b_offset y < b_offset x" and "b_offset x \<notin> A"
  shows "win_rep (SyncWindow_Push (SyncWinItem_new x n) w) (p @ [x]) A"
  using assms by (auto simp: win_rep_def SyncWindow_Push_def pending_append sorted_wrt_append)

lemma win_update_False: "win_update s e d w = (False, d', w') \<Longrightarrow> d' = d \<and> w' = w"
  by (auto simp: SyncWindow_Update_def Let_def split: prod.splits if_splits)

interpretation win: cumulative_ack win_rep win_push win_update
proof unfold_locales
  fix w p A and s e d :: LogOffset
  assume rep: "win_rep w p A"
  let ?ks = "map item_key (sw_win w)"
  have ks: "b_offset ` set (pending p A) = set ?ks"
    using win_rep_keys(1) [OF rep] by (metis list.set_map)
  have sorted: "sorted_wrt (<) ?ks" using win_rep_keys(2) [OF rep] by (simp add: sorted_wrt_map)
  show "fst (win_update s e d w) \<longleftrightarrow>
      b_offset s \<in> b_offset ` set (pending p A) \<and> b_offset e \<in> b_offset ` set (pending p A)
      \<and> b_offset s \<le> b_offset e" (is "?acc \<longleftrightarrow> ?in")
  proof
    assume ?acc
    then obtain i j where ij: "i \<le> j" "j < length ?ks" "?ks ! i = b_offset s" "?ks ! j = b_offset e"
      using win_rep_update_iff [OF rep, of s e d] by auto
    moreover have "?ks ! i \<le> ?ks ! j"
      using ij sorted_nth_between [OF sorted, of i j i] by simp
    ultimately show ?in
      unfolding ks by (metis le_less_trans nth_mem)
  next
    assume ?in
    then obtain i j where ij: "i < length ?ks" "?ks ! i = b_offset s" "j < length ?ks" "?ks ! j = b_offset e"
      and le: "b_offset s \<le> b_offset e"
      unfolding ks in_set_conv_nth by blast
    then have "i \<le> j" using sorted_nth_between [OF sorted, of i j i] by simp
    with ij update_scan_found [OF win_rep_keys(3) [OF rep], of j "SyncWinItem_new e 0" i "SyncWinItem_new s 0" 0]
    show ?acc unfolding win_rep_update_iff [OF rep] by (intro exI [of _ i] exI [of _ j]) simp
  qed
qed (use win_rep_push win_update_False win_rep_update_True in blast)+

section \<open>Histories\<close>

text \<open>
  Every state a window reaches from the empty one, with the history that led to it: the offsets
  pushed (their order is that of the binlog, and no binlog entry ends at the default offset), the
  offsets acknowledged by an update that was accepted, and the last offset reported.
\<close>

inductive win_reach :: "SyncWindow \<Rightarrow> LogOffset list \<Rightarrow> BinlogOffset set \<Rightarrow> LogOffset \<Rightarrow> bool" where
  win_init: "win_reach SyncWindow0 [] {} LogOffset0"
| win_pushed:
    "win_reach w p A r \<Longrightarrow> \<forall>y \<in> set p. b_offset y < b_offset x \<Longrightarrow> b_offset x \<noteq> BinlogOffset0
     \<Longrightarrow> win_reach (SyncWindow_Push (SyncWinItem_new x n) w) (p @ [x]) A r"
| win_acked:
    "win_reach w p A r
     \<Longrightarrow> SyncWindow_Update (SyncWinItem_new s 0) (SyncWinItem_new e 0) LogOffset0 w = (True, d, w')
     \<Longrightarrow> win_reach w' p (A \<union> ack_range p s e) (if LogOffset_eq d LogOffset0 then r else d)"
| win_nacked:
    "win_reach w p A r
     \<Longrightarrow> SyncWindow_Update (SyncWinItem_new s 0) (SyncWinItem_new e 0) LogOffset0 w = (False, d, w')
     \<Longrightarrow> win_reach w' p A r"

lemma win_rep_init: "win_rep SyncWindow0 [] {}"
  by (simp add: win_rep_def SyncWindow0_def pending_def)

lemma win_reach_inv:
  "win_reach w p A r \<Longrightarrow>
     win_rep w p A \<and> A \<subseteq> b_offset ` set p \<and> (\<forall>x \<in> set p. b_offset x \<noteq> BinlogOffset0)
     \<and> r = reported LogOffset0 p A"
proof (induction rule: win_reach.induct)
  case win_init
  then show ?case by (simp add: win_rep_init reported_def cum_acked_def)
next
  case (win_pushed w p A r x n)
  then have x: "b_offset x \<notin> A" by fastforce
  with win_pushed show ?case
    by (auto intro: win_rep_push simp: reported_def cum_acked_append)
next
  case (win_acked w p A r s e d w')
  then have rep: "win_rep w p A" by blast
  show ?case
    using win_acked win.client_reports [OF rep win_acked.hyps(2), of LogOffset0]
      win.update_acks [OF rep win_acked.hyps(2)]
    by (auto simp: LogOffset_ops ack_range_def)
next
  case (win_nacked w p A r s e d w')
  then show ?case using win_update_False by blast
qed

section \<open>Size accounting\<close>

definition unacked_size :: "SyncWindow \<Rightarrow> u64" where
  "unacked_size w = sum_list (map swi_binlog_size (filter (\<lambda>x. \<not> swi_acked x) (sw_win w)))"

lemma sum_unacked_dropWhile:
  "sum_list (map f (filter (\<lambda>x. \<not> P x) (dropWhile P xs))) = sum_list (map f (filter (\<lambda>x. \<not> P x) xs))"
  by (induction xs) auto

lemma sum_filter_update:
  assumes "i < length xs" and "\<not> swi_acked (xs ! i)"
  shows "sum_list (map swi_binlog_size (filter (\<lambda>x. \<not> swi_acked x) (xs[i := (xs ! i)\<lparr>swi_acked := True\<rparr>])))
    = sum_list (map swi_binlog_size (filter (\<lambda>x. \<not> swi_acked x) xs)) - swi_binlog_size (xs ! i)"
  using assms
proof (induction xs arbitrary: i)
  case (Cons x xs)
  then show ?case by (cases i) (auto simp: algebra_simps)
qed simp

lemma unacked_size_mark:
  assumes "i < length (sw_win w)" and "\<not> swi_acked (sw_win w ! i)"
  shows "unacked_size (mark_acked w i) = unacked_size w - swi_binlog_size (sw_win w ! i)"
  using sum_filter_update [OF assms] by (simp add: unacked_size_def)

lemma unacked_size_mark_range:
  assumes "j \<le> length (sw_win w)" and "\<forall>k. i \<le> k \<and> k < j \<longrightarrow> \<not> swi_acked (sw_win w ! k)"
  shows "unacked_size (foldl mark_acked w [i..<j]) =
    unacked_size w - sum_list (map swi_binlog_size (map ((!) (sw_win w)) [i..<j]))"
  using assms
proof (induction j)
  case (Suc j)
  show ?case
  proof (cases "i \<le> j")
    case True
    with Suc show ?thesis
      by (simp add: unacked_size_mark mark_range_nth)
  next
    case False
    then show ?thesis by simp
  qed
qed simp

lemma SyncWindow_Update_total:
  assumes "SyncWindow_Update s e d w = (True, d', w')"
    and "update_scan s e 0 (sw_win w) (length (sw_win w)) (length (sw_win w)) = (i, j)"
    and "j < length (sw_win w)" and "\<forall>k. i \<le> k \<and> k \<le> j \<longrightarrow> \<not> swi_acked (sw_win w ! k)"
    and "sw_total_size w = unacked_size w"
  shows "sw_total_size w' = unacked_size w'"
proof -
  let ?w1 = "foldl mark_acked w [i..<Suc j]"
  from assms(1,2) have w': "sw_total_size w' = sw_total_size ?w1" "sw_win w' = dropWhile swi_acked (sw_win ?w1)"
    by (auto simp: SyncWindow_Update_def Let_def pop_acked_eq split: if_splits simp del: upt_Suc)
  then have "unacked_size w' = unacked_size ?w1"
    by (simp add: unacked_size_def sum_unacked_dropWhile del: upt_Suc)
  with w'(1) assms(3,4,5) show ?thesis
    using mark_range_total [of "Suc j" w i] unacked_size_mark_range [of "Suc j" w i]
    by (simp add: less_Suc_eq_le del: upt_Suc)
qed

section \<open>Properties\<close>

text \<open>
  C7: In every reachable window the reported offset is the cumulative acknowledgement of the
  history: no offset at or below it is unacknowledged, the window holds exactly the history from
  the first unacknowledged offset on, and that first offset is not acknowledged.
\<close>

theorem sync_window_cumulative:
  assumes "win_reach w p A r"
  shows "map swi_offset (sw_win w) = pending p A
    \<and> r = reported LogOffset0 p A
    \<and> (\<forall>x \<in> set p. b_offset x \<le> b_offset r \<longrightarrow> b_offset x \<in> A)
    \<and> (sw_win w \<noteq> [] \<longrightarrow> \<not> swi_acked (hd (sw_win w)) \<and> b_offset r < b_offset (swi_offset (hd (sw_win w))))"
proof -
  from win_reach_inv [OF assms] have rep: "win_rep w p A" and r: "r = reported LogOffset0 p A"
    and nz: "\<forall>x \<in> set p. b_offset x \<noteq> BinlogOffset0" by auto
  then have win: "map swi_offset (sw_win w) = pending p A" and sorted: "offsets_sorted p"
    by (auto simp: win_rep_def)
  have split: "p = cum_acked p A @ pending p A" by (simp add: cum_acked_def pending_def)
  have below: "b_offset x \<in> A" if "x \<in> set p" "b_offset x \<le> b_offset r" for x
  proof (cases "cum_acked p A = []")
    case True
    with that nz r show ?thesis by (auto simp: reported_def) (metis BinlogOffset0_le order_antisym)
  qed (use reported_boundary [OF sorted] that r in blast)
  have hd: "\<not> swi_acked (hd (sw_win w)) \<and> b_offset r < b_offset (swi_offset (hd (sw_win w)))"
    if ne: "sw_win w \<noteq> []"
  proof -
    obtain y ys where y: "pending p A = y # ys" "swi_offset (hd (sw_win w)) = y"
      using ne win by (metis list.exhaust_sel list.map_sel(1) map_is_Nil_conv)
    then have "b_offset y \<notin> A" by (auto simp: pending_def dest: dropWhile_hd_not)
    moreover have "y \<in> set p" using y split by (metis in_set_conv_decomp)
    ultimately show ?thesis using below rep ne y(2) by (force simp: win_rep_def not_le)
  qed
  show ?thesis using win r below hd by blast
qed

definition wit_off :: "nat \<Rightarrow> LogOffset" where
  "wit_off n = \<lparr>b_offset = BinlogOffset 0 (of_nat (100 * n)), l_offset = \<lparr>lo_term = 1, lo_index = of_nat n\<rparr>\<rparr>"

lemmas window_eval = SyncWindow_Update_def SyncWindow_Push_def SyncWinItem_eq_def mark_acked_def
  SyncWindow0_def SyncWinItem_new_def wit_off_def

theorem sync_window_cumulative_witness:
  "\<exists>w p A r. win_reach w p A r \<and> sw_win w \<noteq> []
     \<and> r = reported LogOffset0 p A \<and> b_offset (wit_off 1) \<in> A \<and> r = wit_off 1"
proof -
  let ?w1 = "SyncWindow_Push (SyncWinItem_new (wit_off 1) 10) SyncWindow0"
  let ?w2 = "SyncWindow_Push (SyncWinItem_new (wit_off 2) 20) ?w1"
  let ?w3 = "\<lparr>sw_win = [SyncWinItem_new (wit_off 2) 20], sw_total_size = 20\<rparr>"
  have 1: "win_reach ?w1 ([] @ [wit_off 1]) {} LogOffset0"
    by (rule win_reach.intros(2) [OF win_init]) (simp_all add: wit_off_def BinlogOffset0_def)
  have 2: "win_reach ?w2 (([] @ [wit_off 1]) @ [wit_off 2]) {} LogOffset0"
    by (rule win_reach.intros(2) [OF 1]) (simp_all add: wit_off_def BinlogOffset0_def less_BinlogOffset_iff)
  have u: "SyncWindow_Update (SyncWinItem_new (wit_off 1) 0) (SyncWinItem_new (wit_off 1) 0) LogOffset0 ?w2
      = (True, wit_off 1, ?w3)"
    by (simp add: window_eval)
  have ne: "\<not> LogOffset_eq (wit_off 1) LogOffset0"
    by (simp add: LogOffset_ops wit_off_def BinlogOffset0_def)
  from win_reach.intros(3) [OF 2 u] ne
  have 3: "win_reach ?w3 ([wit_off 1] @ [wit_off 2]) ({} \<union> ack_range ([wit_off 1] @ [wit_off 2]) (wit_off 1) (wit_off 1)) (wit_off 1)"
    by simp
  from sync_window_cumulative [OF 3] 3 show ?thesis by (intro exI conjI) (rule 3, auto simp: ack_range_def)
qed

text \<open>
  The byte count kept with the window is the sum of the sizes of its unacknowledged items, and
  an update whose range holds no item acknowledged before keeps it so.
\<close>

theorem sync_window_total_size:
  assumes "SyncWindow_Update s e d w = (True, d', w')"
    and "update_scan s e 0 (sw_win w) (length (sw_win w)) (length (sw_win w)) = (i, j)"
    and "j < length (sw_win w)" and "\<forall>k. i \<le> k \<and> k \<le> j \<longrightarrow> \<not> swi_acked (sw_win w ! k)"
    and "SyncWindow_GetTotalBinlogSize w = unacked_size w"
  shows "SyncWindow_GetTotalBinlogSize w' = unacked_size w'"
  using SyncWindow_Update_total assms by (auto simp: SyncWindow_GetTotalBinlogSize_def)

theorem sync_window_total_size_witness:
  "SyncWindow_GetTotalBinlogSize (snd (snd (SyncWindow_Update (SyncWinItem_new (wit_off 2) 0) (SyncWinItem_new (wit_off 2) 0) LogOffset0
      (SyncWindow_Push (SyncWinItem_new (wit_off 2) 20) (SyncWindow_Push (SyncWinItem_new (wit_off 1) 10) SyncWindow0))))) = 10"
proof -
  let ?w = "SyncWindow_Push (SyncWinItem_new (wit_off 2) 20) (SyncWindow_Push (SyncWinItem_new (wit_off 1) 10) SyncWindow0)"
  let ?i = "SyncWinItem_new (wit_off 2) 0"
  let ?w' = "\<lparr>sw_win = [SyncWinItem_new (wit_off 1) 10, (SyncWinItem_new (wit_off 2) 20)\<lparr>swi_acked := True\<rparr>], sw_total_size = 10\<rparr>"
  have u: "SyncWindow_Update ?i ?i LogOffset0 ?w = (True, LogOffset0, ?w')"
    by (simp add: window_eval)
  have "SyncWindow_GetTotalBinlogSize ?w' = unacked_size ?w'"
    by (rule sync_window_total_size [OF u, of 1 1])
      (simp_all add: window_eval unacked_size_def SyncWindow_GetTotalBinlogSize_def le_antisym)
  with u show ?thesis by (simp add: unacked_size_def)
qed

text \<open>
  Acknowledging a range that covers an item acknowledged before subtracts its size a second
  time: the unsigned count wraps around although nothing is left in the window.
\<close>

theorem sync_window_double_ack_underflow:
  "let w2 = SyncWindow_Push (SyncWinItem_new (wit_off 2) 20) (SyncWindow_Push (SyncWinItem_new (wit_off 1) 10) SyncWindow0);
       (r3, d3, w3) = SyncWindow_Update (SyncWinItem_new (wit_off 2) 0) (SyncWinItem_new (wit_off 2) 0) LogOffset0 w2;
       (r4, d4, w4) = SyncWindow_Update (SyncWinItem_new (wit_off 1) 0) (SyncWinItem_new (wit_off 2) 0) LogOffset0 w3
   in r3 \<and> r4 \<and> sw_win w4 = [] \<and> unat (SyncWindow_GetTotalBinlogSize w4) = 2 ^ 64 - 20"
  by (simp add: window_eval SyncWindow_GetTotalBinlogSize_def)

text \<open>
  \<open>Remaining\<close> is the configured window size less the number of items, also when the window
  holds more items than the size allows: the result is then negative, the comparison with 0 being
  made on an unsigned value.
\<close>

theorem sync_window_remaining:
  assumes "0 \<le> sint n" and "length (sw_win w) < 2 ^ 31"
  shows "SyncWindow_Remaining n w = sint n - int (length (sw_win w))"
proof -
  let ?k = "length (sw_win w)"
  let ?r = "(scast n :: u64) - of_nat ?k"
  have bound: "- (2 ^ 31) \<le> sint n - int ?k" "sint n - int ?k < 2 ^ 31"
    using assms sint_lt [of n] by auto
  have "sint (ucast ?r :: i32) = signed_take_bit 31 (sint n - int ?k)"
    by (simp only: scast_minus_of_nat sint_ucast_of_int)
  also have "\<dots> = sint n - int ?k"
    using bound by (simp only: signed_take_bit_int_eq_self)
  finally have cast: "sint (ucast ?r :: i32) = sint n - int ?k" .
  show ?thesis
  proof (cases "?r > 0")
    case True
    with cast show ?thesis by (simp add: SyncWindow_Remaining_def Let_def)
  next
    case False
    then have "?r = 0" by (simp only: word_neq_0_conv not_less word_le_0_iff)
    with cast False show ?thesis by (simp add: SyncWindow_Remaining_def Let_def)
  qed
qed

theorem sync_window_remaining_witness:
  "SyncWindow_Remaining 1 (SyncWindow_Push (SyncWinItem_new (wit_off 2) 20) (SyncWindow_Push (SyncWinItem_new (wit_off 1) 10) SyncWindow0)) = -1"
  using sync_window_remaining [of 1 "SyncWindow_Push (SyncWinItem_new (wit_off 2) 20) (SyncWindow_Push (SyncWinItem_new (wit_off 1) 10) SyncWindow0)"]
  by (simp add: window_eval)

end
