(* ===== verification/Pika_Slash.thy ===== *)
theory Pika_Slash
  imports Pika_Define
begin

text \<open>
  The interfaces of the slash library the modelled code calls. Its sources are not part of the
  repository, so its operations are parameters of the model: the file operations of
  \<^verbatim>\<open>slash/include/env.h\<close> as the record \<open>slash_env\<close> over an abstract world, the fixed-width
  integer coding of \<^verbatim>\<open>slash/include/slash_coding.h\<close> as the record \<open>slash_coding\<close>. The locales
  state the documented behaviour the code relies on; the in-memory environment at the end satisfies
  them and is what concrete runs are evaluated on.
\<close>

section \<open>Files\<close>

text \<open>
  A writable file is named by its path. A sequential file is a handle, which its operations return
  updated. A read-write file (the manifest) is a mapped buffer, \<open>None\<close> when there is no such file
  or its data pointer is NULL. \<open>env_open\<close> and \<open>env_ftruncate\<close> are the system calls, \<open>env_now\<close> the seconds of
  \<^verbatim>\<open>gettimeofday\<close>.
\<close>

record ('w, 'h) slash_env =
  env_FileExists :: "string \<Rightarrow> 'w \<Rightarrow> bool"
  env_DeleteFile :: "string \<Rightarrow> 'w \<Rightarrow> Status \<times> 'w"
  env_NewWritableFile :: "string \<Rightarrow> 'w \<Rightarrow> Status \<times> 'w"
  env_AppendWritableFile :: "string \<Rightarrow> u64 \<Rightarrow> 'w \<Rightarrow> Status \<times> 'w"
  env_Append :: "string \<Rightarrow> bytes \<Rightarrow> 'w \<Rightarrow> Status \<times> 'w"
  env_Flush :: "string \<Rightarrow> 'w \<Rightarrow> Status \<times> 'w"
  env_Filesize :: "string \<Rightarrow> 'w \<Rightarrow> u64"
  env_NewSequentialFile :: "string \<Rightarrow> 'w \<Rightarrow> Status \<times> 'h"
  env_Read :: "'h \<Rightarrow> nat \<Rightarrow> 'w \<Rightarrow> Status \<times> bytes \<times> 'h"
  env_Skip :: "'h \<Rightarrow> nat \<Rightarrow> 'w \<Rightarrow> Status \<times> 'h"
  env_NewRWFile :: "string \<Rightarrow> 'w \<Rightarrow> Status \<times> 'w"
  env_RWData :: "string \<Rightarrow> 'w \<Rightarrow> bytes option"
  env_RWWrite :: "string \<Rightarrow> nat \<Rightarrow> bytes \<Rightarrow> 'w \<Rightarrow> 'w"
  env_GetChildren :: "string \<Rightarrow> 'w \<Rightarrow> int \<times> string list"
  env_open :: "string \<Rightarrow> 'w \<Rightarrow> bool"
  env_ftruncate :: "string \<Rightarrow> u64 \<Rightarrow> 'w \<Rightarrow> bool \<times> 'w"
  env_now :: "'w \<Rightarrow> u64"

text \<open>
  The file laws. \<open>fs w p\<close> is the content of the log file at path \<open>p\<close>, \<open>None\<close> when there is
  no file; \<open>hpos h\<close> is the path and the position of a sequential file. Operations that fail may
  leave the file they work on in any state. Skipping is a seek, which may go past the end of the
  file. A read there reports the end of the file or, from a file that is still mapped by its writer,
  zero bytes.
\<close>

locale slash_fs =
  fixes E :: "('w, 'h) slash_env"
    and fs :: "'w \<Rightarrow> string \<Rightarrow> bytes option"
    and hpos :: "'h \<Rightarrow> string \<times> nat"
  assumes exists_iff: "env_FileExists E p w \<longleftrightarrow> fs w p \<noteq> None \<or> env_RWData E p w \<noteq> None"
    and append_ok: "env_Append E p d w = (OK, w') \<Longrightarrow> fs w p = Some c \<Longrightarrow> fs w' = (fs w)(p \<mapsto> c @ d)"
    and flush_ok: "env_Flush E p w = (OK, w') \<Longrightarrow> fs w' = fs w"
    and filesize: "fs w p = Some c \<Longrightarrow> length c < 2 ^ 63 \<Longrightarrow> env_Filesize E p w = of_nat (length c)"
    and new_writable_ok: "env_NewWritableFile E p w = (OK, w') \<Longrightarrow> fs w' = (fs w)(p \<mapsto> [])"
    and append_writable_ok:
      "env_AppendWritableFile E p sz w = (OK, w') \<Longrightarrow> fs w p = Some c \<Longrightarrow> unat sz \<le> length c
       \<Longrightarrow> fs w' = (fs w)(p \<mapsto> take (unat sz) c)"
    and delete_ok: "env_DeleteFile E p w = (OK, w') \<Longrightarrow> fs w' = (fs w)(p := None)"
    and open_ok: "env_open E p w \<Longrightarrow> fs w p \<noteq> None"
    and ftruncate_ok:
      "env_ftruncate E p sz w = (True, w') \<Longrightarrow> fs w p = Some c \<Longrightarrow> unat sz \<le> length c
       \<Longrightarrow> fs w' = (fs w)(p \<mapsto> take (unat sz) c)"
    and new_sequential:
      "fs w p = Some c \<Longrightarrow> \<exists>h. env_NewSequentialFile E p w = (OK, h) \<and> hpos h = (p, 0)"
    and read_ok:
      "fs w p = Some c \<Longrightarrow> hpos h = (p, i) \<Longrightarrow> i + n \<le> length c
       \<Longrightarrow> \<exists>h'. env_Read E h n w = (OK, take n (drop i c), h') \<and> hpos h' = (p, i + n)"
    and read_end:
      "fs w p = Some c \<Longrightarrow> hpos h = (p, i) \<Longrightarrow> length c \<le> i \<Longrightarrow> env_Read E h 8 w = (s, d, h')
       \<Longrightarrow> IsEndFile s \<or> s = OK \<and> d = replicate 8 (CHR 0x00)"
    and skip_ok:
      "fs w p = Some c \<Longrightarrow> hpos h = (p, i)
       \<Longrightarrow> \<exists>h'. env_Skip E h n w = (OK, h') \<and> hpos h' = (p, i + n)"
    and new_rw_fs: "env_NewRWFile E p w = (OK, w') \<Longrightarrow> fs w' = fs w"
    and new_rw_mapped: "env_NewRWFile E p w = (OK, w') \<Longrightarrow> \<exists>m. env_RWData E p w' = Some m \<and> 32 \<le> length m"
    and new_rw_keep: "env_NewRWFile E p w = (OK, w') \<Longrightarrow> env_RWData E p w = Some m \<Longrightarrow> \<exists>r. env_RWData E p w' = Some (m @ r)"
    and rw_write_ok:
      "env_RWData E p w = Some m \<Longrightarrow> i + length d \<le> length m
       \<Longrightarrow> env_RWData E p (env_RWWrite E p i d w) = Some (mem_write m i d)"
    and rw_write_fs: "fs (env_RWWrite E p i d w) = fs w"
    and rw_write_other: "p \<noteq> q \<Longrightarrow> env_RWData E q (env_RWWrite E p i d w) = env_RWData E q w"
    and rw_append: "env_Append E q d w = (s, w') \<Longrightarrow> env_RWData E p w' = env_RWData E p w"
    and rw_flush: "env_Flush E q w = (s, w') \<Longrightarrow> env_RWData E p w' = env_RWData E p w"
    and rw_new_writable: "env_NewWritableFile E q w = (s, w') \<Longrightarrow> env_RWData E p w' = env_RWData E p w"
    and rw_append_writable:
      "env_AppendWritableFile E q sz w = (s, w') \<Longrightarrow> env_RWData E p w' = env_RWData E p w"
    and rw_delete:
      "env_DeleteFile E q w = (s, w') \<Longrightarrow> env_RWData E q w = None \<or> p \<noteq> q
       \<Longrightarrow> env_RWData E p w' = env_RWData E p w"
    and rw_ftruncate: "env_ftruncate E q sz w = (b, w') \<Longrightarrow> env_RWData E p w' = env_RWData E p w"
begin

lemmas rw_frames = rw_append rw_flush rw_new_writable rw_append_writable rw_delete rw_ftruncate

lemma read_exact:
  assumes "fs w p = Some (a @ d @ b)" and "hpos h = (p, length a)" and "n = length d"
  obtains h' where "env_Read E h n w = (OK, d, h')" and "hpos h' = (p, length a + n)"
  using read_ok [OF assms(1,2), of n] assms(3) by auto

end

section \<open>Fixed-width coding\<close>

text \<open>
  \<^verbatim>\<open>PutFixedN\<close> appends an integer to a string, \<^verbatim>\<open>GetFixedN\<close> takes one from the front of a string
  into a variable.
\<close>

record slash_coding =
  PutFixed16 :: "bytes \<Rightarrow> u16 \<Rightarrow> bytes"
  PutFixed32 :: "bytes \<Rightarrow> u32 \<Rightarrow> bytes"
  PutFixed64 :: "bytes \<Rightarrow> u64 \<Rightarrow> bytes"
  GetFixed16 :: "bytes \<Rightarrow> u16 \<Rightarrow> bytes \<times> u16"
  GetFixed32 :: "bytes \<Rightarrow> u32 \<Rightarrow> bytes \<times> u32"
  GetFixed64 :: "bytes \<Rightarrow> u64 \<Rightarrow> bytes \<times> u64"

locale fixed_coding =
  fixes C :: slash_coding
  assumes put16: "PutFixed16 C s x = s @ PutFixed16 C [] x"
    and put32: "PutFixed32 C s y = s @ PutFixed32 C [] y"
    and put64: "PutFixed64 C s z = s @ PutFixed64 C [] z"
    and len16: "length (PutFixed16 C [] x) = 2"
    and len32: "length (PutFixed32 C [] y) = 4"
    and len64: "length (PutFixed64 C [] z) = 8"
    and get16: "GetFixed16 C (PutFixed16 C [] x @ r) x0 = (r, x)"
    and get32: "GetFixed32 C (PutFixed32 C [] y @ r) y0 = (r, y)"
    and get64: "GetFixed64 C (PutFixed64 C [] z @ r) z0 = (r, z)"

section \<open>An in-memory environment\<close>

record mem_world =
  mw_files :: "string \<Rightarrow> bytes option"
  mw_rw :: "string \<Rightarrow> bytes option"

definition mem_world0 :: mem_world where
  "mem_world0 = \<lparr>mw_files = (\<lambda>_. None), mw_rw = (\<lambda>_. None)\<rparr>"

definition mem_set :: "string \<Rightarrow> bytes option \<Rightarrow> mem_world \<Rightarrow> mem_world" where
  "mem_set p c w = w\<lparr>mw_files := (mw_files w)(p := c)\<rparr>"

definition mem_env :: "(mem_world, string \<times> nat) slash_env" where
  "mem_env = \<lparr>
     env_FileExists = (\<lambda>p w. mw_files w p \<noteq> None \<or> mw_rw w p \<noteq> None),
     env_DeleteFile = (\<lambda>p w. (OK, mem_set p None w)),
     env_NewWritableFile = (\<lambda>p w. (OK, mem_set p (Some []) w)),
     env_AppendWritableFile = (\<lambda>p n w. case mw_files w p of
        None \<Rightarrow> (IOError p, w) | Some c \<Rightarrow> (OK, mem_set p (Some (take (unat n) c)) w)),
     env_Append = (\<lambda>p d w. case mw_files w p of
        None \<Rightarrow> (IOError p, w) | Some c \<Rightarrow> (OK, mem_set p (Some (c @ d)) w)),
     env_Flush = (\<lambda>p w. (OK, w)),
     env_Filesize = (\<lambda>p w. case mw_files w p of None \<Rightarrow> 0 | Some c \<Rightarrow> of_nat (length c)),
     env_NewSequentialFile = (\<lambda>p w. (if mw_files w p = None then IOError p else OK, (p, 0))),
     env_Read = (\<lambda>(p, i) n w. case mw_files w p of
        None \<Rightarrow> (IOError p, [], (p, i))
      | Some c \<Rightarrow> if length c \<le> i \<and> 0 < n then (EndFile p, [], (p, i))
                   else (OK, take n (drop i c), (p, i + length (take n (drop i c))))),
     env_Skip = (\<lambda>(p, i) n w. (OK, (p, i + n))),
     env_NewRWFile = (\<lambda>p w. let m = (case mw_rw w p of None \<Rightarrow> [] | Some m \<Rightarrow> m) in
        (OK, w\<lparr>mw_rw := (mw_rw w)(p \<mapsto> m @ replicate (32 - length m) (CHR 0x00))\<rparr>)),
     env_RWData = (\<lambda>p w. mw_rw w p),
     env_RWWrite = (\<lambda>p i d w. case mw_rw w p of
        None \<Rightarrow> w | Some m \<Rightarrow> w\<lparr>mw_rw := (mw_rw w)(p \<mapsto> mem_write m i d)\<rparr>),
     env_GetChildren = (\<lambda>p w. (0, [])),
     env_open = (\<lambda>p w. mw_files w p \<noteq> None),
     env_ftruncate = (\<lambda>p n w. case mw_files w p of
        None \<Rightarrow> (False, w) | Some c \<Rightarrow> (True, mem_set p (Some (take (unat n) c)) w)),
     env_now = (\<lambda>w. 0)\<rparr>"

lemma mem_set_sel [simp]:
  "mw_files (mem_set p c w) = (mw_files w)(p := c)" "mw_rw (mem_set p c w) = mw_rw w"
  by (simp_all add: mem_set_def)

lemma mem_env_simps:
  "env_FileExists mem_env = (\<lambda>p w. mw_files w p \<noteq> None \<or> mw_rw w p \<noteq> None)"
  "env_DeleteFile mem_env = (\<lambda>p w. (OK, mem_set p None w))"
  "env_NewWritableFile mem_env = (\<lambda>p w. (OK, mem_set p (Some []) w))"
  "env_AppendWritableFile mem_env = (\<lambda>p n w. case mw_files w p of
        None \<Rightarrow> (IOError p, w) | Some c \<Rightarrow> (OK, mem_set p (Some (take (unat n) c)) w))"
  "env_Append mem_env = (\<lambda>p d w. case mw_files w p of
        None \<Rightarrow> (IOError p, w) | Some c \<Rightarrow> (OK, mem_set p (Some (c @ d)) w))"
  "env_Flush mem_env = (\<lambda>p w. (OK, w))"
  "env_Filesize mem_env = (\<lambda>p w. case mw_files w p of None \<Rightarrow> 0 | Some c \<Rightarrow> of_nat (length c))"
  "env_NewSequentialFile mem_env = (\<lambda>p w. (if mw_files w p = None then IOError p else OK, (p, 0)))"
  "env_Read mem_env = (\<lambda>(p, i) n w. case mw_files w p of
        None \<Rightarrow> (IOError p, [], (p, i))
      | Some c \<Rightarrow> if length c \<le> i \<and> 0 < n then (EndFile p, [], (p, i))
                   else (OK, take n (drop i c), (p, i + length (take n (drop i c)))))"
  "env_Skip mem_env = (\<lambda>(p, i) n w. (OK, (p, i + n)))"
  "env_NewRWFile mem_env = (\<lambda>p w. let m = (case mw_rw w p of None \<Rightarrow> [] | Some m \<Rightarrow> m) in
        (OK, w\<lparr>mw_rw := (mw_rw w)(p \<mapsto> m @ replicate (32 - length m) (CHR 0x00))\<rparr>))"
  "env_RWData mem_env = (\<lambda>p w. mw_rw w p)"
  "env_RWWrite mem_env = (\<lambda>p i d w. case mw_rw w p of
        None \<Rightarrow> w | Some m \<Rightarrow> w\<lparr>mw_rw := (mw_rw w)(p \<mapsto> mem_write m i d)\<rparr>)"
  "env_GetChildren mem_env = (\<lambda>p w. (0, []))"
  "env_open mem_env = (\<lambda>p w. mw_files w p \<noteq> None)"
  "env_ftruncate mem_env = (\<lambda>p n w. case mw_files w p of
        None \<Rightarrow> (False, w) | Some c \<Rightarrow> (True, mem_set p (Some (take (unat n) c)) w))"
  "env_now mem_env = (\<lambda>w. 0)"
  by (simp_all add: mem_env_def)

interpretation mem: slash_fs mem_env mw_files id
  by unfold_locales (auto simp: mem_env_def status_simps min_def split: option.splits if_splits)

definition le_coding :: slash_coding where
  "le_coding = \<lparr>
     PutFixed16 = (\<lambda>s x. s @ u16_bytes x),
     PutFixed32 = (\<lambda>s x. s @ u32_bytes x),
     PutFixed64 = (\<lambda>s x. s @ u64_bytes x),
     GetFixed16 = (\<lambda>s x. (drop 2 s, of_nat (le_val (take 2 s)))),
     GetFixed32 = (\<lambda>s x. (drop 4 s, of_nat (le_val (take 4 s)))),
     GetFixed64 = (\<lambda>s x. (drop 8 s, of_nat (le_val (take 8 s))))\<rparr>"

interpretation le: fixed_coding le_coding
  by unfold_locales (simp_all add: le_coding_def)

end
