(* ===== verification/Pika_Transverter.thy ===== *)
theory Pika_Transverter
  imports Pika_Slash
begin

text \<open>
  The binlog item format of \<^verbatim>\<open>include/pika_binlog_transverter.h\<close> and
  \<^verbatim>\<open>src/pika_binlog_transverter.cc\<close>, and the two RESP helpers of \<^verbatim>\<open>include/pika_command.h\<close> it
  uses. The integer coding is that of the slash library, a parameter; \<open>ll2string\<close> stands for
  \<^verbatim>\<open>slash::ll2string\<close>.
\<close>

section \<open>Model\<close>

definition BINLOG_ENCODE_LEN :: nat where "BINLOG_ENCODE_LEN = 34"
definition BINLOG_ITEM_HEADER_SIZE :: nat where "BINLOG_ITEM_HEADER_SIZE = 34"
definition PADDING_BINLOG_PROTOCOL_SIZE :: nat where "PADDING_BINLOG_PROTOCOL_SIZE = 22"
definition SPACE_STROE_PARAMETER_LENGTH :: nat where "SPACE_STROE_PARAMETER_LENGTH = 5"

datatype BinlogType = TypeFirst

primrec BinlogType_code :: "BinlogType \<Rightarrow> u16" where
  "BinlogType_code TypeFirst = 1"

record BinlogItem =
  bi_exec_time :: u32
  bi_term_id :: u32
  bi_logic_id :: u64
  bi_filenum :: u32
  bi_offset :: u64
  bi_content :: bytes

definition BinlogItem0 :: BinlogItem where
  "BinlogItem0 = \<lparr>bi_exec_time = 0, bi_term_id = 0, bi_logic_id = 0, bi_filenum = 0, bi_offset = 0,
     bi_content = []\<rparr>"

definition kNewLine :: string where
  "kNewLine = [CHR 0x0D, CHR 0x0A]"

definition RedisAppendContent :: "string \<Rightarrow> string \<Rightarrow> string" where
  "RedisAppendContent str v = str @ v @ kNewLine"

definition RedisAppendLen :: "(int \<Rightarrow> string) \<Rightarrow> string \<Rightarrow> int \<Rightarrow> string \<Rightarrow> string" where
  "RedisAppendLen ll2string str ori prefix = str @ prefix @ ll2string ori @ kNewLine"

definition BinlogEncode ::
  "slash_coding \<Rightarrow> BinlogType \<Rightarrow> u32 \<Rightarrow> u32 \<Rightarrow> u64 \<Rightarrow> u32 \<Rightarrow> u64 \<Rightarrow> bytes \<Rightarrow> string list \<Rightarrow> bytes" where
  "BinlogEncode C type exec_time term_id logic_id filenum offset content extends =
     (let binlog = PutFixed16 C [] (BinlogType_code type);
          binlog = PutFixed32 C binlog exec_time;
          binlog = PutFixed32 C binlog term_id;
          binlog = PutFixed64 C binlog logic_id;
          binlog = PutFixed32 C binlog filenum;
          binlog = PutFixed64 C binlog offset;
          content_length = of_nat (length content) :: u32;
          binlog = PutFixed32 C binlog content_length
      in binlog @ content)"

text \<open>
  Decoding returns the verdict and the item, whose fields are assigned one after the other; the
  item keeps what was assigned when a later check fails.
\<close>

definition BinlogDecode :: "slash_coding \<Rightarrow> BinlogType \<Rightarrow> bytes \<Rightarrow> BinlogItem \<Rightarrow> bool \<times> BinlogItem" where
  "BinlogDecode C type binlog item =
     (let (str, binlog_type) = GetFixed16 C binlog 0
      in if binlog_type \<noteq> BinlogType_code type then (False, item)
         else let (str, t) = GetFixed32 C str (bi_exec_time item); item = item\<lparr>bi_exec_time := t\<rparr>;
                  (str, t) = GetFixed32 C str (bi_term_id item); item = item\<lparr>bi_term_id := t\<rparr>;
                  (str, l) = GetFixed64 C str (bi_logic_id item); item = item\<lparr>bi_logic_id := l\<rparr>;
                  (str, f) = GetFixed32 C str (bi_filenum item); item = item\<lparr>bi_filenum := f\<rparr>;
                  (str, off) = GetFixed64 C str (bi_offset item); item = item\<lparr>bi_offset := off\<rparr>;
                  (str, content_length) = GetFixed32 C str 0
              in if length str = unat content_length then (True, item\<lparr>bi_content := str\<rparr>)
                 else (False, item))"

definition BinlogItemWithoutContentDecode ::
  "slash_coding \<Rightarrow> BinlogType \<Rightarrow> bytes \<Rightarrow> BinlogItem \<Rightarrow> bool \<times> BinlogItem" where
  "BinlogItemWithoutContentDecode C type binlog item =
     (let (str, binlog_type) = GetFixed16 C binlog 0
      in if binlog_type \<noteq> BinlogType_code type then (False, item)
         else let (str, t) = GetFixed32 C str (bi_exec_time item); item = item\<lparr>bi_exec_time := t\<rparr>;
                  (str, t) = GetFixed32 C str (bi_term_id item); item = item\<lparr>bi_term_id := t\<rparr>;
                  (str, l) = GetFixed64 C str (bi_logic_id item); item = item\<lparr>bi_logic_id := l\<rparr>;
                  (str, f) = GetFixed32 C str (bi_filenum item); item = item\<lparr>bi_filenum := f\<rparr>;
                  (str, off) = GetFixed64 C str (bi_offset item); item = item\<lparr>bi_offset := off\<rparr>
              in (True, item))"

text \<open>
  \<^verbatim>\<open>ConstructPaddingBinlog\<close>: \<open>None\<close> is a failed assertion. The lengths are \<^verbatim>\<open>int32_t\<close> in the
  source; the assertions keep them in range.
\<close>

definition ConstructPaddingBinlog ::
  "slash_coding \<Rightarrow> (int \<Rightarrow> string) \<Rightarrow> BinlogType \<Rightarrow> u32 \<Rightarrow> bytes option" where
  "ConstructPaddingBinlog C ll2string type sz =
     (if \<not> (unat sz \<le> kBlockSize - kHeaderSize) then None
      else if \<not> (BINLOG_ITEM_HEADER_SIZE + PADDING_BINLOG_PROTOCOL_SIZE + SPACE_STROE_PARAMETER_LENGTH \<le> unat sz)
      then None
      else
       let binlog = PutFixed16 C [] (BinlogType_code type);
           binlog = PutFixed32 C binlog 0;
           binlog = PutFixed32 C binlog 0;
           binlog = PutFixed64 C binlog 0;
           binlog = PutFixed32 C binlog 0;
           binlog = PutFixed64 C binlog 0;
           content_len = int (unat sz) - int BINLOG_ITEM_HEADER_SIZE;
           parameter_len = content_len - int PADDING_BINLOG_PROTOCOL_SIZE - int SPACE_STROE_PARAMETER_LENGTH
       in if parameter_len < 0 then Some []
          else let content = RedisAppendLen ll2string [] 2 ''*'';
                   content = RedisAppendLen ll2string content 7 ''$'';
                   content = RedisAppendContent content ''padding'';
                   parameter_len_str = dec_string parameter_len
               in if length parameter_len_str > SPACE_STROE_PARAMETER_LENGTH then Some []
                  else let content = content @ ''$'';
                           content = content @ replicate (SPACE_STROE_PARAMETER_LENGTH - length parameter_len_str) (CHR ''0'');
                           content = content @ parameter_len_str;
                           content = content @ kNewLine;
                           content = RedisAppendContent content (replicate (nat parameter_len) (CHR ''*''));
                           binlog = PutFixed32 C binlog (of_int content_len)
                       in Some (binlog @ content))"

lemmas transverter_consts = BINLOG_ENCODE_LEN_def BINLOG_ITEM_HEADER_SIZE_def
  PADDING_BINLOG_PROTOCOL_SIZE_def SPACE_STROE_PARAMETER_LENGTH_def

section \<open>Lemmas\<close>

text \<open>The encoding as a header of fixed width followed by the content.\<close>

definition item_header :: "slash_coding \<Rightarrow> BinlogType \<Rightarrow> u32 \<Rightarrow> u32 \<Rightarrow> u64 \<Rightarrow> u32 \<Rightarrow> u64 \<Rightarrow> u32 \<Rightarrow> bytes" where
  "item_header C type e t l f off n =
     PutFixed16 C [] (BinlogType_code type) @ PutFixed32 C [] e @ PutFixed32 C [] t @ PutFixed64 C [] l
     @ PutFixed32 C [] f @ PutFixed64 C [] off @ PutFixed32 C [] n"

context fixed_coding
begin

lemma BinlogEncode_eq:
  "BinlogEncode C type e t l f off content ext
   = item_header C type e t l f off (of_nat (length content)) @ content"
  unfolding BinlogEncode_def item_header_def Let_def
  by (metis append.assoc put32 put64)

lemma length_item_header: "length (item_header C type e t l f off n) = BINLOG_ITEM_HEADER_SIZE"
  by (simp add: item_header_def len16 len32 len64 transverter_consts)

lemma BinlogDecode_item_header:
  "BinlogDecode C type (item_header C type e t l f off n @ content) item =
     (if length content = unat n
      then (True, \<lparr>bi_exec_time = e, bi_term_id = t, bi_logic_id = l, bi_filenum = f, bi_offset = off,
                   bi_content = content, \<dots> = BinlogItem.more item\<rparr>)
      else (False, \<lparr>bi_exec_time = e, bi_term_id = t, bi_logic_id = l, bi_filenum = f, bi_offset = off,
                   bi_content = bi_content item, \<dots> = BinlogItem.more item\<rparr>))"
  by (simp add: BinlogDecode_def item_header_def get16 get32 get64)

lemma WithoutContentDecode_item_header:
  "BinlogItemWithoutContentDecode C type (item_header C type e t l f off n @ content) item =
     (True, \<lparr>bi_exec_time = e, bi_term_id = t, bi_logic_id = l, bi_filenum = f, bi_offset = off,
             bi_content = bi_content item, \<dots> = BinlogItem.more item\<rparr>)"
  by (simp add: BinlogItemWithoutContentDecode_def item_header_def get16 get32 get64)

end

section \<open>Padding items\<close>

lemma padding_content_length:
  assumes "ll2string = dec_string"
  shows "length (RedisAppendContent (RedisAppendLen ll2string (RedisAppendLen ll2string [] 2 ''*'') 7 ''$'') ''padding'') = 17"
  by (simp add: assms RedisAppendContent_def RedisAppendLen_def kNewLine_def dec_string_def dec_digits.simps)

lemma dec_string_small: "0 \<le> i \<Longrightarrow> i < 100000 \<Longrightarrow> length (dec_string i) \<le> 5"
  using length_dec_digits_le [of "nat i" 5] by (simp add: dec_string_def)

context fixed_coding
begin

lemma ConstructPaddingBinlog_eq:
  assumes ll: "ll2string = dec_string" and lo: "61 \<le> unat sz" and hi: "unat sz \<le> kBlockSize - kHeaderSize"
  shows "\<exists>content. ConstructPaddingBinlog C ll2string type sz
       = Some (item_header C type 0 0 0 0 0 (of_nat (length content)) @ content)
     \<and> length content = unat sz - BINLOG_ITEM_HEADER_SIZE"
proof -
  define k where "k = unat sz"
  let ?n = "int k - 61"
  let ?pre = "RedisAppendContent (RedisAppendLen ll2string (RedisAppendLen ll2string [] 2 ''*'') 7 ''$'') ''padding''"
  let ?d = "dec_string ?n"
  let ?content = "RedisAppendContent (?pre @ ''$'' @ replicate (5 - length ?d) (CHR ''0'') @ ?d @ kNewLine)
     (replicate (nat ?n) (CHR ''*''))"
  have k: "61 \<le> k" "k \<le> 65528" using lo hi by (simp_all add: k_def)
  have d: "length ?d \<le> 5" using k by (intro dec_string_small) auto
  have len: "length ?content = k - 34"
    using d k padding_content_length [OF ll] by (simp add: RedisAppendContent_def [of _ "replicate _ _"] kNewLine_def)
  have len': "(of_nat (length ?content) :: u32) = of_int (int k - 34)"
    unfolding len using k by (simp add: of_nat_diff)
  have hdr: "PutFixed32 C (PutFixed64 C (PutFixed32 C (PutFixed64 C (PutFixed32 C (PutFixed32 C
      (PutFixed16 C [] (BinlogType_code type)) 0) 0) 0) 0) 0) n = item_header C type 0 0 0 0 0 n" for n
    unfolding item_header_def by (metis append.assoc put32 put64)
  have "ConstructPaddingBinlog C ll2string type sz
      = Some (item_header C type 0 0 0 0 0 (of_int (int k - 34)) @ ?content)"
    using k d unfolding ConstructPaddingBinlog_def transverter_consts Let_def hdr k_def [symmetric] by simp
  with len len' show ?thesis unfolding k_def [symmetric]
    by (intro exI [of _ ?content]) (simp add: transverter_consts)
qed

end

section \<open>Properties\<close>

lemma Decode_Encode:
  assumes "fixed_coding C"
  shows "BinlogDecode C type (BinlogEncode C type e t l f off content ext) BinlogItem0 =
     (if length content < 2 ^ 32
      then (True, \<lparr>bi_exec_time = e, bi_term_id = t, bi_logic_id = l, bi_filenum = f, bi_offset = off,
                   bi_content = content\<rparr>)
      else (False, \<lparr>bi_exec_time = e, bi_term_id = t, bi_logic_id = l, bi_filenum = f, bi_offset = off,
                   bi_content = []\<rparr>))"
proof -
  have "length content = unat (of_nat (length content) :: u32) \<longleftrightarrow> length content < 2 ^ 32"
    by (simp add: unsigned_of_nat take_bit_eq_mod) (metis mod_less mod_less_divisor zero_less_numeral)
  then show ?thesis
    by (simp add: fixed_coding.BinlogEncode_eq [OF assms] fixed_coding.BinlogDecode_item_header [OF assms]
        BinlogItem0_def)
qed

text \<open>
  C17: Decoding an encoded binlog item gives its fields and its content back exactly when the
  content is shorter than 2^32 bytes, the range of the length field; for longer content the length
  is truncated by the encoder and decoding reports the failure.
\<close>

theorem binlog_item_roundtrip:
  assumes "fixed_coding C"
  shows "BinlogDecode C type (BinlogEncode C type e t l f off content ext) BinlogItem0 =
     (if length content < 2 ^ 32
      then (True, \<lparr>bi_exec_time = e, bi_term_id = t, bi_logic_id = l, bi_filenum = f, bi_offset = off,
                   bi_content = content\<rparr>)
      else (False, \<lparr>bi_exec_time = e, bi_term_id = t, bi_logic_id = l, bi_filenum = f, bi_offset = off,
                   bi_content = []\<rparr>))"
  by (rule Decode_Encode [OF assms])

theorem binlog_item_roundtrip_witness:
  "BinlogDecode le_coding TypeFirst (BinlogEncode le_coding TypeFirst 7 1 42 3 1000 ''*1'' []) BinlogItem0 =
     (True, \<lparr>bi_exec_time = 7, bi_term_id = 1, bi_logic_id = 42, bi_filenum = 3, bi_offset = 1000, bi_content = ''*1''\<rparr>)"
  using binlog_item_roundtrip [OF le.fixed_coding_axioms, of TypeFirst 7 1 42 3 1000 "''*1''" "[]"] by simp

text \<open>
  A padding item has exactly the size asked for, for every size the assertions allow, and
  decodes as an item with execution time 0 whose content fills it.
\<close>

theorem padding_binlog_exact_size:
  assumes "fixed_coding C" and "ll2string = dec_string"
    and "61 \<le> unat sz" and "unat sz \<le> kBlockSize - kHeaderSize"
  shows "\<exists>b content. ConstructPaddingBinlog C ll2string type sz = Some b \<and> length b = unat sz
     \<and> BinlogDecode C type b BinlogItem0 = (True, BinlogItem0\<lparr>bi_content := content\<rparr>)
     \<and> length content = unat sz - BINLOG_ITEM_HEADER_SIZE"
proof -
  obtain content where c: "ConstructPaddingBinlog C ll2string type sz
       = Some (item_header C type 0 0 0 0 0 (of_nat (length content)) @ content)"
    and len: "length content = unat sz - BINLOG_ITEM_HEADER_SIZE"
    using fixed_coding.ConstructPaddingBinlog_eq [OF assms] by blast
  have "unat (of_nat (length content) :: u32) = length content"
    using len assms(4) by (intro unat_of_nat_small) simp
  with c len assms(3) show ?thesis
    by (auto simp: fixed_coding.length_item_header [OF assms(1)]
        fixed_coding.BinlogDecode_item_header [OF assms(1)] BinlogItem0_def transverter_consts)
qed

theorem padding_binlog_exact_size_witness:
  "\<exists>b. ConstructPaddingBinlog le_coding dec_string TypeFirst 100 = Some b \<and> length b = 100"
  using padding_binlog_exact_size [OF le.fixed_coding_axioms refl, of 100 TypeFirst] by auto

end
