(* ===== verification/Pika_Binlog.thy ===== *)
theory Pika_Binlog
  imports Pika_Slash
begin

text \<open>
  The binlog writer of \<^verbatim>\<open>include/pika_binlog.h\<close> and \<^verbatim>\<open>src/pika_binlog.cc\<close>: the manifest
  (\<^verbatim>\<open>Version\<close>), the physical record format, and the operations that append to, pad, roll, reset
  and truncate the log. A result of \<open>None\<close> is an abort: a failed assertion, a \<^verbatim>\<open>LOG(FATAL)\<close> or a
  null pointer. Locks are not modelled; every operation is the body that runs under its lock.
\<close>

section \<open>Version\<close>

definition NewFileName :: "string \<Rightarrow> u32 \<Rightarrow> string" where
  "NewFileName name current = take 255 (name @ dec_string (int (unat current)))"

record Version =
  ver_pro_num :: u32
  ver_pro_offset :: u64
  ver_logic_id :: u64
  ver_term :: u32
  ver_save :: string

text \<open>
  The constructor gives \<^verbatim>\<open>term_\<close> no value; the argument \<open>indet\<close> stands for what happens to
  be in memory.
\<close>

definition Version_new :: "u32 \<Rightarrow> string \<Rightarrow> Version" where
  "Version_new indet save =
     \<lparr>ver_pro_num = 0, ver_pro_offset = 0, ver_logic_id = 0, ver_term = indet, ver_save = save\<rparr>"

definition Version_StableSave :: "('w, 'h) slash_env \<Rightarrow> Version \<Rightarrow> 'w \<Rightarrow> Status \<times> 'w" where
  "Version_StableSave E v w =
     (let w = env_RWWrite E (ver_save v) 0 (u32_bytes (ver_pro_num v)) w;
          w = env_RWWrite E (ver_save v) 4 (u64_bytes (ver_pro_offset v)) w;
          w = env_RWWrite E (ver_save v) 12 (u64_bytes (ver_logic_id v)) w;
          w = env_RWWrite E (ver_save v) 20 (u32_bytes (ver_term v)) w
      in (OK, w))"

definition Version_Init :: "('w, 'h) slash_env \<Rightarrow> Version \<Rightarrow> 'w \<Rightarrow> Status \<times> Version" where
  "Version_Init E v w =
     (case env_RWData E (ver_save v) w of
        Some m \<Rightarrow>
          (OK, v\<lparr>ver_pro_num := of_nat (le_val (mem_read m 0 4)),
                 ver_pro_offset := of_nat (le_val (mem_read m 4 8)),
                 ver_logic_id := of_nat (le_val (mem_read m 12 8)),
                 ver_term := of_nat (le_val (mem_read m 20 4))\<rparr>)
      | None \<Rightarrow> (Corruption ''version init error'', v))"

section \<open>Binlog\<close>

record Binlog =
  bl_opened :: bool
  bl_version :: Version
  bl_queue :: "string option"
  bl_pro_num :: u32
  bl_block_offset :: nat
  bl_file_size :: u64
  bl_filename :: string
  bl_binlog_io_error :: bool

definition Binlog_InitLogFile :: "('w, 'h) slash_env \<Rightarrow> Binlog \<Rightarrow> 'w \<Rightarrow> Binlog option" where
  "Binlog_InitLogFile E b w =
     (case bl_queue b of
        None \<Rightarrow> None
      | Some q \<Rightarrow> Some (b\<lparr>bl_block_offset := unat (env_Filesize E q w) mod kBlockSize, bl_opened := True\<rparr>))"

text \<open>
  The constructor; \<^verbatim>\<open>CreateDir\<close>, whose result it ignores, and the unused members are left out.
\<close>

definition Binlog_new :: "('w, 'h) slash_env \<Rightarrow> u32 \<Rightarrow> string \<Rightarrow> i32 \<Rightarrow> 'w \<Rightarrow> (Binlog \<times> 'w) option" where
  "Binlog_new E indet binlog_path file_size w =
     (let filename = binlog_path @ kBinlogPrefix;
          manifest = binlog_path @ kManifest;
          b0 = \<lparr>bl_opened = False, bl_version = Version_new indet manifest, bl_queue = None, bl_pro_num = 0,
                bl_block_offset = 0, bl_file_size = scast file_size, bl_filename = filename,
                bl_binlog_io_error = False\<rparr>
      in if \<not> env_FileExists E manifest w then
           let profile = NewFileName filename (bl_pro_num b0);
               (s, w) = env_NewWritableFile E profile w
           in if \<not> ok s then None
              else let (s, w) = env_NewRWFile E manifest w
                   in if \<not> ok s then None
                      else let (s, w) = Version_StableSave E (bl_version b0) w
                           in map_option (\<lambda>b. (b, w)) (Binlog_InitLogFile E (b0\<lparr>bl_queue := Some profile\<rparr>) w)
         else
           let (s, w) = env_NewRWFile E manifest w
           in if \<not> ok s then None
              else let (s, v) = Version_Init E (bl_version b0) w;
                       profile = NewFileName filename (ver_pro_num v);
                       (s, w) = env_AppendWritableFile E profile (ver_pro_offset v) w
                   in if \<not> ok s then None
                      else map_option (\<lambda>b. (b, w))
                             (Binlog_InitLogFile E
                                (b0\<lparr>bl_version := v, bl_pro_num := ver_pro_num v, bl_queue := Some profile\<rparr>) w))"

definition Binlog_Close :: "Binlog \<Rightarrow> Binlog" where
  "Binlog_Close b = (if \<not> bl_opened b then b else b\<lparr>bl_opened := False\<rparr>)"

text \<open>The producer status is the file number, the offset, the term and the logic id.\<close>

definition Binlog_GetProducerStatus :: "Binlog \<Rightarrow> Status \<times> (u32 \<times> u64 \<times> u32 \<times> u64) option" where
  "Binlog_GetProducerStatus b =
     (if \<not> bl_opened b then (Busy ''Binlog is not open yet'', None)
      else (OK, Some (ver_pro_num (bl_version b), ver_pro_offset (bl_version b),
                      ver_term (bl_version b), ver_logic_id (bl_version b))))"

definition Binlog_SetTerm :: "('w, 'h) slash_env \<Rightarrow> u32 \<Rightarrow> Binlog \<Rightarrow> 'w \<Rightarrow> Binlog \<times> 'w" where
  "Binlog_SetTerm E trm b w =
     (let v = (bl_version b)\<lparr>ver_term := trm\<rparr>; (s, w) = Version_StableSave E v w
      in (b\<lparr>bl_version := v\<rparr>, w))"

definition Binlog_term :: "Binlog \<Rightarrow> u32" where
  "Binlog_term b = ver_term (bl_version b)"

section \<open>Physical records\<close>

text \<open>The eight header bytes: length (3), time (4), type (1); \<^verbatim>\<open>static_cast<char>\<close> keeps the low byte.\<close>

definition record_header :: "RecordType \<Rightarrow> nat \<Rightarrow> u64 \<Rightarrow> bytes" where
  "record_header t n now =
     [char_of n, char_of (n div 2 ^ 8), char_of (n div 2 ^ 16),
      char_of (unat now), char_of (unat now div 2 ^ 8), char_of (unat now div 2 ^ 16), char_of (unat now div 2 ^ 24),
      char_of (RecordType_code t)]"

definition EmitPhysicalRecord ::
  "('w, 'h) slash_env \<Rightarrow> string \<Rightarrow> RecordType \<Rightarrow> bytes \<Rightarrow> nat \<Rightarrow> i32 \<Rightarrow> 'w \<Rightarrow> (Status \<times> nat \<times> i32 \<times> 'w) option" where
  "EmitPhysicalRecord E q t ptr block_offset temp_pro_offset w =
     (let n = length ptr
      in if \<not> n \<le> 0xffffff then None
         else if \<not> block_offset + kHeaderSize + n \<le> kBlockSize then None
         else let buf = record_header t n (env_now E w);
                  (s, w) = env_Append E q buf w;
                  (s, w) = (if ok s
                            then let (s, w) = env_Append E q ptr w
                                 in if ok s then env_Flush E q w else (s, w)
                            else (s, w))
              in Some (s, block_offset + (kHeaderSize + n), temp_pro_offset + of_nat (kHeaderSize + n), w))"

text \<open>
  The start of an iteration of \<^verbatim>\<open>Produce\<close>: when less than a header fits into the block, the rest of
  the block is filled with zero bytes and the next block begins.
\<close>

definition produce_trailer ::
  "('w, 'h) slash_env \<Rightarrow> string \<Rightarrow> nat \<Rightarrow> i32 \<Rightarrow> 'w \<Rightarrow> Status \<times> nat \<times> i32 \<times> 'w" where
  "produce_trailer E q block_offset temp_pro_offset w =
     (let leftover = kBlockSize - block_offset
      in if leftover < kHeaderSize then
           (if leftover > 0 then
              (let (s, w) = env_Append E q (replicate leftover (CHR 0x00)) w
               in if \<not> ok s then (s, block_offset, temp_pro_offset, w)
                  else (s, 0, temp_pro_offset + of_nat leftover, w))
            else (OK, 0, temp_pro_offset, w))
         else (OK, block_offset, temp_pro_offset, w))"

definition record_type :: "bool \<Rightarrow> bool \<Rightarrow> RecordType" where
  "record_type beg fin =
     (if beg \<and> fin then kFullType else if beg then kFirstType else if fin then kLastType else kMiddleType)"

lemma produce_trailer_offset:
  "produce_trailer E q bo tmp w = (OK, bo1, tmp1, w1) \<Longrightarrow> bo \<le> kBlockSize
   \<Longrightarrow> bo1 = (if kBlockSize - bo < kHeaderSize then 0 else bo)"
  by (auto simp: produce_trailer_def Let_def split: prod.splits if_splits)

lemma EmitPhysicalRecord_offset:
  "EmitPhysicalRecord E q t ptr bo tmp w = Some (s, bo1, tmp1, w1) \<Longrightarrow>
     bo1 = bo + (kHeaderSize + length ptr) \<and> tmp1 = tmp + of_nat (kHeaderSize + length ptr)"
  by (auto simp: EmitPhysicalRecord_def Let_def split: prod.splits if_splits)

text \<open>
  The loop of \<^verbatim>\<open>Produce\<close>. It ends because an iteration either takes a part of the item or, when a
  block has room for a header only, moves to the next block.
\<close>

function produce_loop ::
  "('w, 'h) slash_env \<Rightarrow> string \<Rightarrow> bool \<Rightarrow> bytes \<Rightarrow> nat \<Rightarrow> i32 \<Rightarrow> 'w \<Rightarrow> (Status \<times> nat \<times> i32 \<times> 'w) option" where
  "produce_loop E q beg left block_offset temp_pro_offset w =
     (if kBlockSize < block_offset then None
      else case produce_trailer E q block_offset temp_pro_offset w of
        (s, bo, tmp, w1) \<Rightarrow>
          if s \<noteq> OK then Some (s, bo, tmp, w1)
          else let avail = kBlockSize - bo - kHeaderSize;
                   fragment_length = (if length left < avail then length left else avail);
                   fin = (length left = fragment_length)
               in case EmitPhysicalRecord E q (record_type beg fin) (take fragment_length left) bo tmp w1 of
                    None \<Rightarrow> None
                  | Some (s, bo, tmp, w2) \<Rightarrow>
                      if s = OK \<and> drop fragment_length left \<noteq> []
                      then produce_loop E q False (drop fragment_length left) bo tmp w2
                      else Some (s, bo, tmp, w2))"
  by pat_completeness auto
termination
  by (relation "measure (\<lambda>(E, q, beg, left, bo, tmp, w). 2 * length left + (if bo = 65528 then 1 else 0))")
    (auto simp: not_less dest!: EmitPhysicalRecord_offset dest: produce_trailer_offset [OF sym] split: if_splits)

declare produce_loop.simps [simp del]

definition Binlog_Produce ::
  "('w, 'h) slash_env \<Rightarrow> bytes \<Rightarrow> Binlog \<Rightarrow> 'w \<Rightarrow> (Status \<times> i32 \<times> Binlog \<times> 'w) option" where
  "Binlog_Produce E item b w =
     (case bl_queue b of
        None \<Rightarrow> None
      | Some q \<Rightarrow>
          (case produce_loop E q True item (bl_block_offset b) (ucast (ver_pro_offset (bl_version b))) w of
             None \<Rightarrow> None
           | Some (s, bo, tmp, w) \<Rightarrow> Some (s, tmp, b\<lparr>bl_block_offset := bo\<rparr>, w)))"

text \<open>
  Rolling to a new file, the first part of the private \<^verbatim>\<open>Put\<close>. The status of
  \<^verbatim>\<open>NewWritableFile\<close> is not looked at; without a file the assertion of \<^verbatim>\<open>InitLogFile\<close> fails.
\<close>

definition Binlog_roll :: "('w, 'h) slash_env \<Rightarrow> Binlog \<Rightarrow> 'w \<Rightarrow> (Binlog \<times> 'w) option" where
  "Binlog_roll E b w =
     (let pro_num = bl_pro_num b + 1;
          profile = NewFileName (bl_filename b) pro_num;
          (s, w) = env_NewWritableFile E profile w;
          v = (bl_version b)\<lparr>ver_pro_offset := 0, ver_pro_num := pro_num\<rparr>;
          (s2, w) = Version_StableSave E v w;
          b = b\<lparr>bl_queue := (if ok s then Some profile else None), bl_pro_num := pro_num, bl_version := v\<rparr>
      in map_option (\<lambda>b. (b, w)) (Binlog_InitLogFile E b w))"

text \<open>
  The private \<^verbatim>\<open>Put\<close>. Its length argument is an \<^verbatim>\<open>int\<close>: an item of 2^31 bytes or more has no
  defined behaviour.
\<close>

definition Binlog_Put_raw ::
  "('w, 'h) slash_env \<Rightarrow> bytes \<Rightarrow> Binlog \<Rightarrow> 'w \<Rightarrow> (Status \<times> Binlog \<times> 'w) option" where
  "Binlog_Put_raw E item b w =
     (if \<not> length item < 2 ^ 31 then None
      else case bl_queue b of
        None \<Rightarrow> None
      | Some q \<Rightarrow>
          (case (if env_Filesize E q w > bl_file_size b then Binlog_roll E b w else Some (b, w)) of
             None \<Rightarrow> None
           | Some (b, w) \<Rightarrow>
               (case Binlog_Produce E item b w of
                  None \<Rightarrow> None
                | Some (s, pro_offset, b, w) \<Rightarrow>
                    if ok s then
                      let v = (bl_version b)\<lparr>ver_pro_offset := scast pro_offset,
                                            ver_logic_id := ver_logic_id (bl_version b) + 1\<rparr>;
                          (s2, w) = Version_StableSave E v w
                      in Some (s, b\<lparr>bl_version := v\<rparr>, w)
                    else Some (s, b, w))))"

definition Binlog_Put ::
  "('w, 'h) slash_env \<Rightarrow> bytes \<Rightarrow> Binlog \<Rightarrow> 'w \<Rightarrow> (Status \<times> Binlog \<times> 'w) option" where
  "Binlog_Put E item b w =
     (if \<not> bl_opened b then Some (Busy ''Binlog is not open yet'', b, w)
      else case Binlog_Put_raw E item b w of
        None \<Rightarrow> None
      | Some (s, b, w) \<Rightarrow>
          Some (s, if \<not> ok s then b\<lparr>bl_binlog_io_error := True\<rparr> else b, w))"

text \<open>
  \<^verbatim>\<open>AppendPadding\<close>: the loop returns its status and what is left; the length becomes what was
  written.
\<close>

function padding_loop :: "('w, 'h) slash_env \<Rightarrow> string \<Rightarrow> u64 \<Rightarrow> nat \<Rightarrow> 'w \<Rightarrow> Status \<times> nat \<times> 'w" where
  "padding_loop E q now left w =
     (if left = 0 then (OK, left, w)
      else let sz = (if left \<ge> kBlockSize then kBlockSize else left)
           in if sz < kHeaderSize then (OK, left, w)
              else let bsize = sz - kHeaderSize;
                       (s, w1) = env_Append E q (record_header kBadRecord bsize now) w
                   in if s \<noteq> OK then (s, left, w1)
                      else let (s, w2) = env_Append E q (replicate bsize (CHR ''*'')) w1
                           in if s \<noteq> OK then (s, left, w2)
                              else let (s, w3) = env_Flush E q w2
                                   in if s \<noteq> OK then (s, left - sz, w3)
                                      else padding_loop E q now (left - sz) w3)"
  by pat_completeness auto
termination
  by (relation "measure (\<lambda>(E, q, now, left, w). left)") auto

declare padding_loop.simps [simp del]

definition Binlog_AppendPadding ::
  "('w, 'h) slash_env \<Rightarrow> string \<Rightarrow> u64 \<Rightarrow> 'w \<Rightarrow> Status \<times> u64 \<times> 'w" where
  "Binlog_AppendPadding E q len w =
     (if unat len < kHeaderSize then (OK, len, w)
      else let (s, left, w) = padding_loop E q (env_now E w) (unat len) w
           in (s, len - of_nat left, w))"

definition Binlog_SetProducerStatus ::
  "('w, 'h) slash_env \<Rightarrow> u32 \<Rightarrow> u64 \<Rightarrow> u32 \<Rightarrow> u64 \<Rightarrow> Binlog \<Rightarrow> 'w \<Rightarrow> (Status \<times> Binlog \<times> 'w) option" where
  "Binlog_SetProducerStatus E pro_num pro_offset trm index b w =
     (if \<not> bl_opened b then Some (Busy ''Binlog is not open yet'', b, w)
      else let pro_offset = (if pro_offset < 4 then 0 else pro_offset);
               init_profile = NewFileName (bl_filename b) 0;
               w = (if env_FileExists E init_profile w then snd (env_DeleteFile E init_profile w) else w);
               profile = NewFileName (bl_filename b) pro_num;
               w = (if env_FileExists E profile w then snd (env_DeleteFile E profile w) else w);
               (s, w) = env_NewWritableFile E profile w
           in if \<not> ok s then None
              else let (s, pro_offset, w) = Binlog_AppendPadding E profile pro_offset w;
                       v = (bl_version b)\<lparr>ver_pro_num := pro_num, ver_pro_offset := pro_offset,
                                         ver_term := trm, ver_logic_id := index\<rparr>;
                       (s2, w) = Version_StableSave E v w
                   in map_option (\<lambda>b. (OK, b, w))
                        (Binlog_InitLogFile E
                           (b\<lparr>bl_queue := Some profile, bl_pro_num := pro_num, bl_version := v\<rparr>) w))"

text \<open>
  \<^verbatim>\<open>Truncate\<close>. The queue is deleted first, so after an early return the object holds a dangling
  pointer: the model keeps no queue then.
\<close>

definition Binlog_Truncate ::
  "('w, 'h) slash_env \<Rightarrow> u32 \<Rightarrow> u64 \<Rightarrow> u64 \<Rightarrow> Binlog \<Rightarrow> 'w \<Rightarrow> (Status \<times> Binlog \<times> 'w) option" where
  "Binlog_Truncate E pro_num pro_offset index b w =
     (let b = b\<lparr>bl_queue := None\<rparr>;
          profile = NewFileName (bl_filename b) pro_num
      in if \<not> env_open E profile w then Some (IOError ''fd open failed'', b, w)
         else let (r, w) = env_ftruncate E profile pro_offset w
              in if \<not> r then Some (IOError ''ftruncate failed'', b, w)
                 else let v = (bl_version b)\<lparr>ver_pro_num := pro_num, ver_pro_offset := pro_offset,
                                            ver_logic_id := index\<rparr>;
                          b = b\<lparr>bl_pro_num := pro_num, bl_version := v\<rparr>;
                          (s2, w) = Version_StableSave E v w;
                          (s, w) = env_AppendWritableFile E profile (ver_pro_offset v) w
                      in if \<not> ok s then Some (s, b, w)
                         else map_option (\<lambda>b. (OK, b, w))
                                (Binlog_InitLogFile E (b\<lparr>bl_queue := Some profile\<rparr>) w))"

section \<open>The format as a relation\<close>

text \<open>
  \<open>frames bo beg item bs bo'\<close>: the bytes \<open>bs\<close>, written from block offset \<open>bo\<close> on, hold
  \<open>item\<close> (the rest of an item when \<open>beg\<close> is false) cut into records, and end at block offset
  \<open>bo'\<close>. The time bytes of the headers are not determined.
\<close>

definition block_start :: "nat \<Rightarrow> nat" where
  "block_start bo = (if kBlockSize - bo < kHeaderSize then 0 else bo)"

definition block_trailer :: "nat \<Rightarrow> bytes" where
  "block_trailer bo = (if kBlockSize - bo < kHeaderSize then replicate (kBlockSize - bo) (CHR 0x00) else [])"

definition block_avail :: "nat \<Rightarrow> nat" where
  "block_avail bo = kBlockSize - block_start bo - kHeaderSize"

inductive frames :: "nat \<Rightarrow> bool \<Rightarrow> bytes \<Rightarrow> bytes \<Rightarrow> nat \<Rightarrow> bool" where
  frames_last:
    "length item \<le> block_avail bo \<Longrightarrow>
     frames bo beg item
       (block_trailer bo @ record_header (record_type beg True) (length item) now @ item)
       (block_start bo + (kHeaderSize + length item))"
| frames_more:
    "block_avail bo < length item \<Longrightarrow>
     frames (block_start bo + (kHeaderSize + block_avail bo)) False (drop (block_avail bo) item) bs bo' \<Longrightarrow>
     frames bo beg item
       (block_trailer bo @ record_header (record_type beg False) (block_avail bo) now
          @ take (block_avail bo) item @ bs)
       bo'"

lemma length_record_header [simp]: "length (record_header t n now) = 8"
  by (simp add: record_header_def)

lemma block_start_le: "bo \<le> kBlockSize \<Longrightarrow> block_start bo + (kHeaderSize + block_avail bo) = kBlockSize"
  by (auto simp: block_start_def block_avail_def)

lemma block_start_avail: "bo \<le> kBlockSize \<Longrightarrow> n \<le> block_avail bo \<Longrightarrow> block_start bo + (kHeaderSize + n) \<le> kBlockSize"
  by (auto simp: block_start_def block_avail_def)

lemma block_start_mod:
  "bo \<le> kBlockSize \<Longrightarrow> (bo + length (block_trailer bo)) mod kBlockSize = block_start bo mod kBlockSize"
  by (auto simp: block_start_def block_trailer_def)

text \<open>The block offset follows the position in the file.\<close>

lemma frames_offset:
  assumes "frames bo beg item bs bo'" and "bo \<le> kBlockSize"
  shows "bo' \<le> kBlockSize \<and> bo' mod kBlockSize = (bo + length bs) mod kBlockSize"
  using assms
proof (induction rule: frames.induct)
  case (frames_last item bo beg now)
  have "(bo + length (block_trailer bo) + (kHeaderSize + length item)) mod kBlockSize
      = (block_start bo + (kHeaderSize + length item)) mod kBlockSize"
    by (rule mod_add_cong [OF block_start_mod [OF frames_last.prems] refl])
  with frames_last show ?case
    using block_start_avail [of bo "length item"] by (simp add: add.assoc)
next
  case (frames_more bo item bs bo' beg now)
  note full = block_start_le [OF frames_more.prems]
  have "(bo + length (block_trailer bo) + (kHeaderSize + block_avail bo)) mod kBlockSize
      = (block_start bo + (kHeaderSize + block_avail bo)) mod kBlockSize"
    by (rule mod_add_cong [OF block_start_mod [OF frames_more.prems] refl])
  then have "(bo + length (block_trailer bo) + (kHeaderSize + block_avail bo) + length bs) mod kBlockSize
      = (kBlockSize + length bs) mod kBlockSize"
    unfolding full by (rule mod_add_cong) simp
  moreover have "length (take (block_avail bo) item) = block_avail bo"
    using frames_more.hyps(1) by simp
  ultimately show ?case
    using frames_more.IH unfolding full by (simp add: add.assoc)
qed

lemma frames_length: "frames bo beg item bs bo' \<Longrightarrow> 8 + length item \<le> length bs"
  by (induction rule: frames.induct) auto

section \<open>Writing\<close>

lemma EmitPhysicalRecord_not_None:
  "bo + kHeaderSize + length d \<le> kBlockSize \<Longrightarrow> EmitPhysicalRecord E q t d bo tmp w \<noteq> None"
  by (auto simp: EmitPhysicalRecord_def Let_def split: prod.splits)

context slash_fs
begin

lemma EmitPhysicalRecord_ok:
  assumes "EmitPhysicalRecord E q t d bo tmp w = Some (OK, bo', tmp', w')" and "fs w q = Some c"
  shows "fs w' = (fs w)(q \<mapsto> c @ record_header t (length d) (env_now E w) @ d)"
    and "env_RWData E p w' = env_RWData E p w"
proof -
  from assms(1) obtain w1 w2 where
      a1: "env_Append E q (record_header t (length d) (env_now E w)) w = (OK, w1)"
    and a2: "env_Append E q d w1 = (OK, w2)" and a3: "env_Flush E q w2 = (OK, w')"
    by (auto simp: EmitPhysicalRecord_def Let_def split: prod.splits if_splits)
  show "fs w' = (fs w)(q \<mapsto> c @ record_header t (length d) (env_now E w) @ d)"
    using append_ok [OF a1 assms(2)] append_ok [OF a2] flush_ok [OF a3] by simp
  show "env_RWData E p w' = env_RWData E p w"
    using rw_append [OF a1] rw_append [OF a2] rw_flush [OF a3] by simp
qed

lemma produce_trailer_ok:
  assumes "produce_trailer E q bo tmp w = (OK, bo1, tmp1, w1)" and "fs w q = Some c" and "bo \<le> kBlockSize"
  shows "bo1 = block_start bo" and "tmp1 = tmp + of_nat (length (block_trailer bo))"
    and "fs w1 = (fs w)(q \<mapsto> c @ block_trailer bo)" and "env_RWData E p w1 = env_RWData E p w"
  using assms
  by (auto simp: produce_trailer_def block_start_def block_trailer_def Let_def
      dest: append_ok rw_append split: prod.splits if_splits)

end

text \<open>The loop writes an encoding of the item at the end of the file.\<close>

lemma produce_loop_step:
  assumes "bo \<le> kBlockSize" and "produce_trailer E q bo tmp w = (OK, block_start bo, tmp1, w1)"
    and n_def: "n = min (length left) (block_avail bo)"
  shows "produce_loop E q beg left bo tmp w =
     (case EmitPhysicalRecord E q (record_type beg (length left = n)) (take n left) (block_start bo) tmp1 w1 of
        None \<Rightarrow> None
      | Some (s, bo, tmp, w2) \<Rightarrow>
          if s = OK \<and> length left \<noteq> n then produce_loop E q False (drop n left) bo tmp w2
          else Some (s, bo, tmp, w2))"
proof -
  have "n = (if length left < 65528 - block_start bo then length left else 65528 - block_start bo)"
    by (simp add: n_def block_avail_def)
  moreover have "drop n left \<noteq> [] \<longleftrightarrow> length left \<noteq> n" by (auto simp: n_def)
  ultimately show ?thesis
    using assms(1,2) by (subst produce_loop.simps) (simp add: Let_def cong: if_cong option.case_cong prod.case_cong)
qed

lemma produce_loop_unfold:
  assumes "produce_loop E q beg left bo tmp w = Some (OK, bo', tmp', w')" and "bo \<le> kBlockSize"
  obtains tmp1 w1 tmp2 w2 n
  where "n = min (length left) (block_avail bo)"
    and "produce_trailer E q bo tmp w = (OK, block_start bo, tmp1, w1)"
    and "EmitPhysicalRecord E q (record_type beg (length left = n)) (take n left) (block_start bo) tmp1 w1
          = Some (OK, block_start bo + (kHeaderSize + n), tmp2, w2)"
    and "if length left = n then bo' = block_start bo + (kHeaderSize + n) \<and> tmp' = tmp2 \<and> w' = w2
         else produce_loop E q False (drop n left) (block_start bo + (kHeaderSize + n)) tmp2 w2
              = Some (OK, bo', tmp', w')"
proof -
  obtain s bo1 tmp1 w1 where t: "produce_trailer E q bo tmp w = (s, bo1, tmp1, w1)"
    by (cases "produce_trailer E q bo tmp w")
  with assms have "s = OK" by (subst (asm) produce_loop.simps) (auto split: if_splits)
  with t assms(2) have t: "produce_trailer E q bo tmp w = (OK, block_start bo, tmp1, w1)"
    by (auto dest: produce_trailer_offset simp: block_start_def)
  define n where "n = min (length left) (block_avail bo)"
  let ?e = "EmitPhysicalRecord E q (record_type beg (length left = n)) (take n left) (block_start bo) tmp1 w1"
  note eq = assms(1) [unfolded produce_loop_step [OF assms(2) t n_def]]
  from eq obtain bo2 tmp2 w2 where e: "?e = Some (OK, bo2, tmp2, w2)"
    and r: "if length left = n then bo' = bo2 \<and> tmp' = tmp2 \<and> w' = w2
         else produce_loop E q False (drop n left) bo2 tmp2 w2 = Some (OK, bo', tmp', w')"
    by (auto split: option.splits prod.splits if_splits)
  have bo2: "bo2 = block_start bo + (kHeaderSize + n)"
    using EmitPhysicalRecord_offset [OF e] by (simp add: n_def)
  show thesis
    by (rule that [OF n_def t e [unfolded bo2] r [unfolded bo2]])
qed

lemma produce_loop_ok:
  assumes "slash_fs E fs hpos" and "produce_loop E q beg left bo tmp w = Some (OK, bo', tmp', w')"
    and "fs w q = Some c" and "bo \<le> kBlockSize"
  shows "\<exists>bs. frames bo beg left bs bo' \<and> fs w' = (fs w)(q \<mapsto> c @ bs) \<and> tmp' = tmp + of_nat (length bs)
    \<and> (\<forall>p. env_RWData E p w' = env_RWData E p w)"
  using assms(2-)
proof (induction "2 * length left + (if bo = 65528 then 1 else 0)" arbitrary: beg left bo tmp w c rule: less_induct)
  case less
  note L = assms(1)
  from less.prems(1,3) obtain tmp1 w1 tmp2 w2 n where n: "n = min (length left) (block_avail bo)"
    and t: "produce_trailer E q bo tmp w = (OK, block_start bo, tmp1, w1)"
    and e: "EmitPhysicalRecord E q (record_type beg (length left = n)) (take n left) (block_start bo) tmp1 w1
          = Some (OK, block_start bo + (kHeaderSize + n), tmp2, w2)"
    and r: "if length left = n then bo' = block_start bo + (kHeaderSize + n) \<and> tmp' = tmp2 \<and> w' = w2
         else produce_loop E q False (drop n left) (block_start bo + (kHeaderSize + n)) tmp2 w2
              = Some (OK, bo', tmp', w')"
    by (rule produce_loop_unfold)
  have ln: "length (take n left) = n" by (simp add: n)
  note t_ok = slash_fs.produce_trailer_ok [OF L t less.prems(2,3)]
  have "fs w1 q = Some (c @ block_trailer bo)" by (simp add: t_ok)
  note e_ok = slash_fs.EmitPhysicalRecord_ok [OF L e this, unfolded ln]
  let ?hd = "record_header (record_type beg (length left = n)) n (env_now E w1)"
  have tmp2: "tmp2 = tmp + of_nat (length (block_trailer bo) + (8 + n))"
    using EmitPhysicalRecord_offset [OF e] t_ok(2) by (simp add: ln)
  have w2: "fs w2 = (fs w)(q \<mapsto> c @ block_trailer bo @ ?hd @ take n left)"
    "env_RWData E p w2 = env_RWData E p w" for p
    unfolding e_ok t_ok by simp_all
  show ?case
  proof (cases "length left = n")
    case True
    with n have "frames bo beg left (block_trailer bo @ ?hd @ left) (block_start bo + (kHeaderSize + n))"
      using frames_last [of left bo beg "env_now E w1"] by simp
    with True r w2 tmp2 show ?thesis by (intro exI) auto
  next
    case False
    with n have n': "n = block_avail bo" "block_avail bo < length left" by auto
    let ?bo = "block_start bo + (kHeaderSize + n)"
    have bo: "?bo = kBlockSize" unfolding n' by (rule block_start_le [OF less.prems(3)])
    have dec: "2 * length (drop n left) + (if ?bo = 65528 then 1 else 0)
      < 2 * length left + (if bo = 65528 then 1 else 0)"
      using n' bo by (auto simp: block_avail_def block_start_def split: if_splits)
    have "produce_loop E q False (drop n left) ?bo tmp2 w2 = Some (OK, bo', tmp', w')" using r False by simp
    from less.hyps [OF dec this, of "c @ block_trailer bo @ ?hd @ take n left"]
    obtain bs where bs: "frames ?bo False (drop n left) bs bo'"
      "fs w' = (fs w2)(q \<mapsto> (c @ block_trailer bo @ ?hd @ take n left) @ bs)"
      "tmp' = tmp2 + of_nat (length bs)" "\<forall>p. env_RWData E p w' = env_RWData E p w2"
      using bo w2(1) by (metis fun_upd_same order_refl)
    have "frames bo beg left (block_trailer bo @ ?hd @ take n left @ bs) bo'"
      using frames_more [OF n'(2) bs(1) [unfolded n'(1)], of beg "env_now E w1"] False n' by simp
    then show ?thesis
      using bs(2-) w2 tmp2 by (intro exI [of _ "block_trailer bo @ ?hd @ take n left @ bs"]) (simp add: ln [simplified] add_ac)
  qed
qed

text \<open>No assertion of the writer fails: the block offset stays within the block.\<close>

lemma produce_loop_not_None:
  assumes "bo \<le> kBlockSize"
  shows "produce_loop E q beg left bo tmp w \<noteq> None"
  using assms
proof (induction "2 * length left + (if bo = 65528 then 1 else 0)" arbitrary: beg left bo tmp w rule: less_induct)
  case less
  obtain s bo1 tmp1 w1 where t: "produce_trailer E q bo tmp w = (s, bo1, tmp1, w1)"
    by (cases "produce_trailer E q bo tmp w")
  show ?case
  proof (cases "s = OK")
    case False
    with t less.prems show ?thesis by (subst produce_loop.simps) simp
  next
    case True
    with t less.prems have t: "produce_trailer E q bo tmp w = (OK, block_start bo, tmp1, w1)"
      by (auto dest: produce_trailer_offset simp: block_start_def)
    define n where "n = min (length left) (block_avail bo)"
    let ?bo = "block_start bo + (kHeaderSize + n)"
    let ?e = "EmitPhysicalRecord E q (record_type beg (length left = n)) (take n left) (block_start bo) tmp1 w1"
    have le: "?bo \<le> kBlockSize"
      using block_start_avail [OF less.prems(1), of n] by (simp add: n_def)
    then obtain s2 bo2 tmp2 w2 where e: "?e = Some (s2, bo2, tmp2, w2)"
      using EmitPhysicalRecord_not_None [of "block_start bo" "take n left" E q _ tmp1 w1] by (force simp: n_def)
    have bo2: "bo2 = ?bo"
      using EmitPhysicalRecord_offset [OF e] by (simp add: n_def)
    have dec: "2 * length (drop n left) + (if ?bo = 65528 then 1 else 0)
      < 2 * length left + (if bo = 65528 then 1 else 0)" if "length left \<noteq> n"
      using that block_start_le [OF less.prems(1)]
      by (auto simp: n_def block_avail_def block_start_def min_def split: if_splits)
    then show ?thesis
      using less.hyps [OF dec le] e
      unfolding produce_loop_step [OF less.prems(1) t n_def] bo2 by simp
  qed
qed

lemma frames_length_le: "frames bo beg item bs bo' \<Longrightarrow> bo \<le> kBlockSize \<Longrightarrow>
    length bs \<le> 2 * length item + (if bo = kBlockSize then 8 else 23)"
proof (induction rule: frames.induct)
  case (frames_last item bo beg now)
  then show ?case by (auto simp: block_trailer_def)
next
  case (frames_more bo item bs bo' beg now)
  have full: "block_start bo + (kHeaderSize + block_avail bo) = kBlockSize"
    by (rule block_start_le [OF frames_more.prems])
  have "length bs \<le> 2 * length (drop (block_avail bo) item) + 8"
    using frames_more.IH unfolding full by simp
  moreover have "length (block_trailer bo) \<le> (if bo = kBlockSize then 0 else 7)"
    "bo = kBlockSize \<longrightarrow> block_avail bo = 65528"
    by (auto simp: block_trailer_def block_avail_def block_start_def)
  ultimately show ?case using frames_more.hyps(1) by (auto split: if_splits)
qed

text \<open>Only the position in the block matters: a full block and an empty one are the same.\<close>

lemma frames_mod: "bo \<le> kBlockSize \<Longrightarrow> frames bo beg item bs bo' = frames (bo mod kBlockSize) beg item bs bo'"
proof (cases "bo = kBlockSize")
  case True
  have *: "block_start 65536 = block_start 0" "block_trailer 65536 = block_trailer 0" "block_avail 65536 = block_avail 0"
    by (simp_all add: block_start_def block_trailer_def block_avail_def)
  show ?thesis
    unfolding True by (simp, subst (1 2) frames.simps) (simp add: *)
qed simp

section \<open>The manifest\<close>

definition manifest_bytes :: "Version \<Rightarrow> bytes" where
  "manifest_bytes v = u32_bytes (ver_pro_num v) @ u64_bytes (ver_pro_offset v) @ u64_bytes (ver_logic_id v)
     @ u32_bytes (ver_term v)"

definition manifest_mapped :: "('w, 'h) slash_env \<Rightarrow> string \<Rightarrow> 'w \<Rightarrow> bool" where
  "manifest_mapped E p w \<longleftrightarrow> (case env_RWData E p w of None \<Rightarrow> False | Some m \<Rightarrow> 24 \<le> length m)"

definition manifest_holds :: "('w, 'h) slash_env \<Rightarrow> Version \<Rightarrow> 'w \<Rightarrow> bool" where
  "manifest_holds E v w \<longleftrightarrow>
     (case env_RWData E (ver_save v) w of None \<Rightarrow> False | Some m \<Rightarrow> take 24 m = manifest_bytes v)"

lemma length_manifest_bytes [simp]: "length (manifest_bytes v) = 24"
  by (simp add: manifest_bytes_def)

lemma manifest_holds_mapped: "manifest_holds E v w \<Longrightarrow> manifest_mapped E (ver_save v) w"
proof -
  have "take 24 m = manifest_bytes v \<Longrightarrow> 24 \<le> length m" for m
    by (drule arg_cong [where f = length]) (simp add: min_def split: if_splits)
  then show "manifest_holds E v w \<Longrightarrow> manifest_mapped E (ver_save v) w"
    by (auto simp: manifest_holds_def manifest_mapped_def split: option.splits)
qed

lemma Version_Init_manifest:
  assumes "manifest_holds E v w" and "ver_save v0 = ver_save v"
  shows "Version_Init E v0 w = (OK, v)"
proof -
  from assms(1) obtain m where m: "env_RWData E (ver_save v) w = Some m" "take 24 m = manifest_bytes v"
    by (auto simp: manifest_holds_def split: option.splits)
  have "m = manifest_bytes v @ drop 24 m" using m(2) by (metis append_take_drop_id)
  then obtain r where r: "m = manifest_bytes v @ r" ..
  show ?thesis
    using m(1) assms(2) by (simp add: Version_Init_def r manifest_bytes_def mem_read_def)
qed

context slash_fs
begin

lemma StableSave_ok:
  assumes "manifest_mapped E (ver_save v) w" and "Version_StableSave E v w = (s, w')"
  shows "s = OK" and "fs w' = fs w" and "manifest_holds E v w'"
proof -
  from assms(1) obtain m where m: "env_RWData E (ver_save v) w = Some m" "24 \<le> length m"
    by (auto simp: manifest_mapped_def split: option.splits)
  show "s = OK" "fs w' = fs w"
    using assms(2) by (auto simp: Version_StableSave_def Let_def rw_write_fs)
  have "take 24 (mem_write (mem_write (mem_write (mem_write m 0 (u32_bytes a)) 4 (u64_bytes b)) 12 (u64_bytes c))
      20 (u32_bytes d)) = u32_bytes a @ u64_bytes b @ u64_bytes c @ u32_bytes d" for a b c d
    using m(2) by (simp add: mem_write_def)
  then show "manifest_holds E v w'"
    using assms(2) m by (auto simp: Version_StableSave_def Let_def manifest_holds_def manifest_bytes_def
        rw_write_ok mem_write_def)
qed

end

section \<open>The invariant of an open log\<close>

text \<open>
  The current file is the one the manifest names, its length is the producer offset, and the block
  offset is the position in its last block.
\<close>

definition binlog_ok ::
  "('w, 'h) slash_env \<Rightarrow> ('w \<Rightarrow> string \<Rightarrow> bytes option) \<Rightarrow> Binlog \<Rightarrow> 'w \<Rightarrow> bool" where
  "binlog_ok E fs b w \<longleftrightarrow>
     bl_opened b \<and> bl_queue b = Some (NewFileName (bl_filename b) (bl_pro_num b)) \<and>
     bl_pro_num b = ver_pro_num (bl_version b) \<and> manifest_holds E (bl_version b) w \<and>
     (case fs w (NewFileName (bl_filename b) (bl_pro_num b)) of
        None \<Rightarrow> False
      | Some c \<Rightarrow> length c = unat (ver_pro_offset (bl_version b)) \<and> length c < 2 ^ 31 \<and>
                  bl_block_offset b \<le> kBlockSize \<and> bl_block_offset b mod kBlockSize = length c mod kBlockSize)"

lemma binlog_okE:
  assumes "binlog_ok E fs b w"
  obtains q c where "bl_opened b" "q = NewFileName (bl_filename b) (bl_pro_num b)" "bl_queue b = Some q"
    "bl_pro_num b = ver_pro_num (bl_version b)" "manifest_holds E (bl_version b) w" "fs w q = Some c"
    "length c = unat (ver_pro_offset (bl_version b))" "length c < 2 ^ 31" "bl_block_offset b \<le> kBlockSize"
    "bl_block_offset b mod kBlockSize = length c mod kBlockSize"
  using assms unfolding binlog_ok_def by (auto split: option.splits)

lemma int_offset:
  assumes "off = (of_nat n :: u64)" and "n + k < 2 ^ 31"
  shows "(scast (ucast off + of_nat k :: i32) :: u64) = of_nat (n + k)"
proof -
  have "(ucast off :: i32) = of_nat n"
    using assms(2) unfolding assms(1) by (simp add: unsigned_of_nat take_bit_nat_eq_self)
  moreover have "(scast (of_nat (n + k) :: i32) :: u64) = of_nat (n + k)"
    using assms(2) by (simp add: signed_of_nat signed_take_bit_int_eq_self del: of_nat_add)
  ultimately show ?thesis by simp
qed

context slash_fs
begin

lemma InitLogFile_ok:
  assumes "Binlog_InitLogFile E b w = Some b'" and "bl_queue b = Some q" and "fs w q = Some c" and "length c < 2 ^ 31"
  shows "b' = b\<lparr>bl_block_offset := length c mod kBlockSize, bl_opened := True\<rparr>"
  using assms filesize [OF assms(3)] unat_of_nat_small [of "length c", where 'a = 64]
  by (simp add: Binlog_InitLogFile_def)

lemma roll_ok:
  assumes "Binlog_roll E b w = Some (b', w')" and "manifest_mapped E (ver_save (bl_version b)) w"
  defines "q \<equiv> NewFileName (bl_filename b) (bl_pro_num b + 1)"
  shows "b' = b\<lparr>bl_queue := Some q, bl_pro_num := bl_pro_num b + 1, bl_block_offset := 0, bl_opened := True,
      bl_version := (bl_version b)\<lparr>ver_pro_offset := 0, ver_pro_num := bl_pro_num b + 1\<rparr>\<rparr>"
    and "fs w' = (fs w)(q \<mapsto> [])" and "manifest_holds E (bl_version b') w'"
proof -
  let ?v = "(bl_version b)\<lparr>ver_pro_offset := 0, ver_pro_num := bl_pro_num b + 1\<rparr>"
  let ?b = "b\<lparr>bl_queue := Some q, bl_pro_num := bl_pro_num b + 1, bl_version := ?v\<rparr>"
  from assms(1) obtain w1 where n: "env_NewWritableFile E q w = (OK, w1)"
    and s: "Version_StableSave E ?v w1 = (OK, w')" and i: "Binlog_InitLogFile E ?b w' = Some b'"
    by (auto simp: Binlog_roll_def q_def Let_def Version_StableSave_def Binlog_InitLogFile_def
        split: prod.splits if_splits option.splits)
  have "manifest_mapped E (ver_save ?v) w1"
    using assms(2) rw_new_writable [OF n] by (simp add: manifest_mapped_def)
  note st = StableSave_ok [OF this s]
  show fs': "fs w' = (fs w)(q \<mapsto> [])" using st(2) new_writable_ok [OF n] by simp
  show "b' = b\<lparr>bl_queue := Some q, bl_pro_num := bl_pro_num b + 1, bl_block_offset := 0, bl_opened := True,
      bl_version := ?v\<rparr>"
    using InitLogFile_ok [OF i, of q "[]"] fs' by simp
  then show "manifest_holds E (bl_version b') w'" using st(3) by simp
qed

lemma roll_binlog_ok:
  assumes "Binlog_roll E b w = Some (b', w')" and "manifest_mapped E (ver_save (bl_version b)) w"
  shows "binlog_ok E fs b' w'"
  using roll_ok [OF assms] by (simp add: binlog_ok_def)

lemma Produce_ok:
  assumes "binlog_ok E fs b w" and "Binlog_Produce E item b w = Some (OK, off, b', w')"
    and "unat (ver_pro_offset (bl_version b)) + 2 * length item + 23 < 2 ^ 31"
  defines "q \<equiv> NewFileName (bl_filename b) (bl_pro_num b)"
  obtains c bs bo where "fs w q = Some c" and "frames (length c mod kBlockSize) True item bs bo"
    and "fs w' = (fs w)(q \<mapsto> c @ bs)" and "b' = b\<lparr>bl_block_offset := bo\<rparr>" and "bo \<le> kBlockSize"
    and "bo mod kBlockSize = (length c + length bs) mod kBlockSize"
    and "length c + length bs < 2 ^ 31" and "(scast off :: u64) = of_nat (length c + length bs)"
    and "manifest_mapped E (ver_save (bl_version b)) w'"
proof -
  from assms(1) obtain c where b: "bl_queue b = Some q" "fs w q = Some c"
    "length c = unat (ver_pro_offset (bl_version b))" "bl_block_offset b \<le> kBlockSize"
    "bl_block_offset b mod kBlockSize = length c mod kBlockSize" "manifest_holds E (bl_version b) w"
    unfolding q_def by (blast elim: binlog_okE)
  from assms(2) b(1) obtain bo where
    p: "produce_loop E q True item (bl_block_offset b) (ucast (ver_pro_offset (bl_version b))) w = Some (OK, bo, off, w')"
    and b': "b' = b\<lparr>bl_block_offset := bo\<rparr>"
    by (auto simp: Binlog_Produce_def split: option.splits)
  from produce_loop_ok [OF slash_fs_axioms p b(2,4)] obtain bs where
    fr: "frames (bl_block_offset b) True item bs bo" and fs': "fs w' = (fs w)(q \<mapsto> c @ bs)"
    and off: "off = ucast (ver_pro_offset (bl_version b)) + of_nat (length bs)"
    and rw: "\<forall>p. env_RWData E p w' = env_RWData E p w"
    by blast
  have le: "length c + length bs < 2 ^ 31"
    using frames_length_le [OF fr b(4)] assms(3) b(3) by (simp split: if_splits)
  have "ver_pro_offset (bl_version b) = of_nat (length c)" using b(3) by simp
  then have "scast off = (of_nat (length c + length bs) :: u64)" unfolding off by (rule int_offset [OF _ le])
  moreover have "frames (length c mod kBlockSize) True item bs bo"
    using fr frames_mod [OF b(4)] b(5) by simp
  moreover have "manifest_mapped E (ver_save (bl_version b)) w'"
    using manifest_holds_mapped [OF b(6)] rw by (simp add: manifest_mapped_def)
  moreover have "bo mod kBlockSize = (length c + length bs) mod kBlockSize"
    using frames_offset [OF fr b(4)] b(5) by (metis mod_add_left_eq)
  ultimately show thesis using that b(2) fs' b' le frames_offset [OF fr b(4)] by blast
qed

text \<open>
  What a successful \<^verbatim>\<open>Put\<close> that does not roll does to the log, and what a rolling one does.
\<close>

lemma Put_append:
  assumes "binlog_ok E fs b w" and "Binlog_Produce E item b w = Some (OK, off, b1, w1)"
    and "unat (ver_pro_offset (bl_version b)) + 2 * length item + 23 < 2 ^ 31"
    and "Version_StableSave E ((bl_version b1)\<lparr>ver_pro_offset := scast off,
           ver_logic_id := ver_logic_id (bl_version b1) + 1\<rparr>) w1 = (s, w')"
  defines "q \<equiv> NewFileName (bl_filename b) (bl_pro_num b)"
    and "b' \<equiv> b1\<lparr>bl_version := (bl_version b1)\<lparr>ver_pro_offset := scast off,
           ver_logic_id := ver_logic_id (bl_version b1) + 1\<rparr>\<rparr>"
  shows "binlog_ok E fs b' w' \<and> bl_pro_num b' = bl_pro_num b \<and> bl_filename b' = bl_filename b
    \<and> ver_logic_id (bl_version b') = ver_logic_id (bl_version b) + 1
    \<and> ver_term (bl_version b') = ver_term (bl_version b)
    \<and> (\<exists>c bs bo. fs w q = Some c \<and> frames (length c mod kBlockSize) True item bs bo \<and> fs w' = (fs w)(q \<mapsto> c @ bs))"
proof -
  from assms(1-3) obtain c bs bo where c: "fs w q = Some c" and fr: "frames (length c mod kBlockSize) True item bs bo"
    and w1: "fs w1 = (fs w)(q \<mapsto> c @ bs)" and b1: "b1 = b\<lparr>bl_block_offset := bo\<rparr>"
    and bo: "bo \<le> kBlockSize" "bo mod kBlockSize = (length c + length bs) mod kBlockSize"
    and le: "length c + length bs < 2 ^ 31" and off: "(scast off :: u64) = of_nat (length c + length bs)"
    and mm: "manifest_mapped E (ver_save (bl_version b)) w1"
    unfolding q_def by (rule Produce_ok)
  note st = StableSave_ok [OF _ assms(4)]
  have w': "fs w' = (fs w)(q \<mapsto> c @ bs)" "manifest_holds E (bl_version b') w'"
    using st mm w1 by (simp_all add: b'_def b1)
  have "unat (of_nat (length c + length bs) :: u64) = length c + length bs"
    using le by (intro unat_of_nat_small) simp
  then have "binlog_ok E fs b' w'"
    using assms(1) w' bo le by (simp add: binlog_ok_def b'_def b1 q_def off)
  then show ?thesis using w' c fr by (auto simp: b'_def b1)
qed

lemma Put_filesize:
  assumes "binlog_ok E fs b w"
  shows "bl_queue b = Some q \<Longrightarrow> env_Filesize E q w = ver_pro_offset (bl_version b)"
  using assms filesize by (elim binlog_okE) auto

end

section \<open>A concrete log\<close>

text \<open>An open, empty log in memory with logic id 5 and term 7, on which the properties are evaluated.\<close>

definition wit_version :: Version where
  "wit_version = \<lparr>ver_pro_num = 0, ver_pro_offset = 0, ver_logic_id = 5, ver_term = 7, ver_save = ''m''\<rparr>"

definition wit_binlog :: Binlog where
  "wit_binlog = \<lparr>bl_opened = True, bl_version = wit_version, bl_queue = Some (NewFileName ''f'' 0), bl_pro_num = 0,
     bl_block_offset = 0, bl_file_size = 100, bl_filename = ''f'', bl_binlog_io_error = False\<rparr>"

definition wit_world :: mem_world where
  "wit_world = \<lparr>mw_files = [NewFileName ''f'' 0 \<mapsto> []], mw_rw = [''m'' \<mapsto> manifest_bytes wit_version]\<rparr>"

lemmas wit_simps = wit_version_def wit_binlog_def wit_world_def mem_env_simps

lemmas put_eval = Binlog_Put_def Binlog_Put_raw_def Binlog_Produce_def produce_loop.simps produce_trailer_def
  EmitPhysicalRecord_def record_type_def Version_StableSave_def Let_def

lemma wit_binlog_ok: "binlog_ok mem_env mw_files wit_binlog wit_world"
  by (simp add: wit_simps binlog_ok_def manifest_holds_def)

lemma wit_put: "\<exists>b' w'. Binlog_Put mem_env ''abc'' wit_binlog wit_world = Some (OK, b', w')"
  by (simp add: wit_simps put_eval)

lemma Put_effect:
  assumes "slash_fs E fs hpos" and "binlog_ok E fs b w" and "Binlog_Put E item b w = Some (OK, b', w')"
    and "unat (ver_pro_offset (bl_version b)) + 2 * length item + 23 < 2 ^ 31"
  shows "binlog_ok E fs b' w' \<and> bl_filename b' = bl_filename b
    \<and> ver_logic_id (bl_version b') = ver_logic_id (bl_version b) + 1
    \<and> ver_term (bl_version b') = ver_term (bl_version b)
    \<and> (if bl_file_size b < ver_pro_offset (bl_version b)
       then bl_pro_num b' = bl_pro_num b + 1
         \<and> (\<exists>bs bo. frames 0 True item bs bo \<and> fs w' = (fs w)(NewFileName (bl_filename b) (bl_pro_num b + 1) \<mapsto> bs))
       else bl_pro_num b' = bl_pro_num b
         \<and> (\<exists>c bs bo. fs w (NewFileName (bl_filename b) (bl_pro_num b)) = Some c
              \<and> frames (length c mod kBlockSize) True item bs bo
              \<and> fs w' = (fs w)(NewFileName (bl_filename b) (bl_pro_num b) \<mapsto> c @ bs)))"
proof -
  note L = assms(1)
  obtain q where q: "bl_queue b = Some q" "bl_opened b" and mh: "manifest_holds E (bl_version b) w"
    using assms(2) by (elim binlog_okE)
  note fsz = slash_fs.Put_filesize [OF L assms(2) q(1)]
  from assms(3) q obtain b0 w0 off b1 w1 s2 where
      r: "(if bl_file_size b < ver_pro_offset (bl_version b) then Binlog_roll E b w else Some (b, w)) = Some (b0, w0)"
    and p: "Binlog_Produce E item b0 w0 = Some (OK, off, b1, w1)"
    and s: "Version_StableSave E ((bl_version b1)\<lparr>ver_pro_offset := scast off,
           ver_logic_id := ver_logic_id (bl_version b1) + 1\<rparr>) w1 = (s2, w')"
    and b': "b' = b1\<lparr>bl_version := (bl_version b1)\<lparr>ver_pro_offset := scast off,
           ver_logic_id := ver_logic_id (bl_version b1) + 1\<rparr>\<rparr>"
    unfolding fsz [symmetric]
    by (auto simp: Binlog_Put_def Binlog_Put_raw_def Let_def split: option.splits prod.splits if_splits)
  show ?thesis
  proof (cases "bl_file_size b < ver_pro_offset (bl_version b)")
    case False
    with r have [simp]: "b0 = b" "w0 = w" by auto
    show ?thesis
      using slash_fs.Put_append [OF L assms(2) p [simplified] assms(4) s] False unfolding b' by auto
  next
    case True
    with r have r: "Binlog_roll E b w = Some (b0, w0)" by simp
    note ro = slash_fs.roll_ok [OF L r manifest_holds_mapped [OF mh]]
    have "unat (ver_pro_offset (bl_version b0)) + 2 * length item + 23 < 2 ^ 31"
      using assms(4) by (simp add: ro(1))
    from slash_fs.Put_append [OF L slash_fs.roll_binlog_ok [OF L r manifest_holds_mapped [OF mh]] p this s]
    show ?thesis using True ro(2) unfolding b' by (auto simp: ro(1))
  qed
qed

text \<open>
  The only ways a \<^verbatim>\<open>Put\<close> can abort an open log are an item of 2^31 bytes or more and a new
  file that cannot be created: no assertion of the record writer fails.
\<close>

theorem binlog_put_no_abort:
  assumes "slash_fs E fs hpos" and "binlog_ok E fs b w" and "length item < 2 ^ 31"
    and "bl_file_size b < ver_pro_offset (bl_version b) \<Longrightarrow>
      \<exists>w1. env_NewWritableFile E (NewFileName (bl_filename b) (bl_pro_num b + 1)) w = (OK, w1)"
  shows "\<exists>s b' w'. Binlog_Put E item b w = Some (s, b', w')"
proof -
  obtain q where q: "bl_queue b = Some q" "bl_opened b" "bl_block_offset b \<le> kBlockSize"
    using assms(2) by (elim binlog_okE)
  have prod: "\<exists>s off b2 w2. Binlog_Produce E item b1 w1 = Some (s, off, b2, w2)"
    if "bl_queue b1 = Some q1" "bl_block_offset b1 \<le> kBlockSize" for b1 w1 q1
    using that produce_loop_not_None [OF that(2)]
    by (auto simp: Binlog_Produce_def split: option.splits)
  show ?thesis
  proof (cases "bl_file_size b < ver_pro_offset (bl_version b)")
    case False
    then show ?thesis
      using q assms(3) prod [OF q(1,3), of w] slash_fs.Put_filesize [OF assms(1,2) q(1)]
      by (auto simp: Binlog_Put_def Binlog_Put_raw_def Let_def split: prod.splits)
  next
    case True
    then obtain w1 where n: "env_NewWritableFile E (NewFileName (bl_filename b) (bl_pro_num b + 1)) w = (OK, w1)"
      using assms(4) by blast
    obtain b1 w2 where r: "Binlog_roll E b w = Some (b1, w2)"
      using n by (auto simp: Binlog_roll_def Binlog_InitLogFile_def Version_StableSave_def Let_def)
    have "manifest_mapped E (ver_save (bl_version b)) w"
      using assms(2) by (elim binlog_okE) (rule manifest_holds_mapped)
    from slash_fs.roll_ok(1) [OF assms(1) r this] obtain q1 where "bl_queue b1 = Some q1" "bl_block_offset b1 \<le> kBlockSize"
      by simp
    from prod [OF this, of w2] show ?thesis
      using q assms(3) r True slash_fs.Put_filesize [OF assms(1,2) q(1)]
      by (auto simp: Binlog_Put_def Binlog_Put_raw_def Let_def split: prod.splits)
  qed
qed

theorem binlog_put_no_abort_witness: "\<exists>s b' w'. Binlog_Put mem_env ''abc'' wit_binlog wit_world = Some (s, b', w')"
  by (rule binlog_put_no_abort [OF mem.slash_fs_axioms wit_binlog_ok]) (simp_all add: wit_simps)

text \<open>
  C3: A \<^verbatim>\<open>Put\<close> that returns OK keeps the invariant of the log, adds one to the logic id and
  leaves the term. When the current file is larger than the configured size it creates the next file
  with the item as its only content; otherwise it appends an encoding of the item to the current file.
  No other file changes.
\<close>

theorem binlog_put_appends:
  assumes "slash_fs E fs hpos" and "binlog_ok E fs b w" and "Binlog_Put E item b w = Some (OK, b', w')"
    and "unat (ver_pro_offset (bl_version b)) + 2 * length item + 23 < 2 ^ 31"
  shows "binlog_ok E fs b' w' \<and> bl_filename b' = bl_filename b
    \<and> ver_logic_id (bl_version b') = ver_logic_id (bl_version b) + 1
    \<and> ver_term (bl_version b') = ver_term (bl_version b)
    \<and> (if bl_file_size b < ver_pro_offset (bl_version b)
       then bl_pro_num b' = bl_pro_num b + 1
         \<and> (\<exists>bs bo. frames 0 True item bs bo \<and> fs w' = (fs w)(NewFileName (bl_filename b) (bl_pro_num b + 1) \<mapsto> bs))
       else bl_pro_num b' = bl_pro_num b
         \<and> (\<exists>c bs bo. fs w (NewFileName (bl_filename b) (bl_pro_num b)) = Some c
              \<and> frames (length c mod kBlockSize) True item bs bo
              \<and> fs w' = (fs w)(NewFileName (bl_filename b) (bl_pro_num b) \<mapsto> c @ bs)))"
  by (rule Put_effect [OF assms])

theorem binlog_put_appends_witness:
  "\<exists>b' w'. Binlog_Put mem_env ''abc'' wit_binlog wit_world = Some (OK, b', w')
    \<and> binlog_ok mem_env mw_files b' w' \<and> ver_logic_id (bl_version b') = 6"
  using wit_put binlog_put_appends [OF mem.slash_fs_axioms wit_binlog_ok, of "''abc''"]
  by (fastforce simp: wit_binlog_def wit_version_def)

end
