(* ===== verification/Pika_Binlog_Recovery.thy ===== *)
theory Pika_Binlog_Recovery
  imports Pika_Binlog
begin

text \<open>
  What the operations that set the position of the binlog establish: the constructor on a fresh and
  on an existing directory, \<^verbatim>\<open>SetProducerStatus\<close> with its padding, \<^verbatim>\<open>Truncate\<close> and \<^verbatim>\<open>SetTerm\<close>
  of \<^verbatim>\<open>src/pika_binlog.cc\<close>.
\<close>

section \<open>File names\<close>

lemma NewFileName_inj:
  assumes "length name \<le> 245"
  shows "NewFileName name m = NewFileName name n \<longleftrightarrow> m = n"
proof -
  have "NewFileName name k = name @ dec_string (int (unat k))" for k
  proof -
    have "unat k < 2 ^ 32" using unsigned_less [of k, where 'a = nat] by simp
    then have "unat k < 10 ^ 10" by simp
    then have "length (dec_digits (unat k)) \<le> 10" by (intro length_dec_digits_le) simp_all
    then show ?thesis using assms by (simp add: NewFileName_def dec_string_def)
  qed
  moreover have "dec_string (int (unat m)) = dec_string (int (unat n)) \<longleftrightarrow> m = n"
    using dec_val_dec_digits by (metis dec_string_def nat_int of_nat_less_0_iff word_unat_eq_iff)
  ultimately show ?thesis by simp
qed

section \<open>Opening\<close>

context slash_fs
begin

lemma NewRWFile_manifest:
  assumes "env_NewRWFile E (ver_save v) w = (OK, w')" and "manifest_holds E v w"
  shows "manifest_holds E v w'"
proof -
  from assms(2) obtain m where m: "env_RWData E (ver_save v) w = Some m" "take 24 m = manifest_bytes v"
    by (auto simp: manifest_holds_def split: option.splits)
  moreover have "24 \<le> length m"
    using manifest_holds_mapped [OF assms(2)] m(1) by (simp add: manifest_mapped_def)
  ultimately show ?thesis
    using new_rw_keep [OF assms(1) m(1)] by (auto simp: manifest_holds_def)
qed

lemma manifest_holds_append_writable:
  "env_AppendWritableFile E q sz w = (s, w') \<Longrightarrow> manifest_holds E v w' = manifest_holds E v w"
  by (simp add: manifest_holds_def rw_append_writable)

end

text \<open>The log of a directory, with logic id 5 and term 7.\<close>

definition rec_version :: Version where
  "rec_version = \<lparr>ver_pro_num = 0, ver_pro_offset = 0, ver_logic_id = 5, ver_term = 7, ver_save = ''d/'' @ kManifest\<rparr>"

definition rec_binlog :: Binlog where
  "rec_binlog = \<lparr>bl_opened = True, bl_version = rec_version, bl_queue = Some (NewFileName (''d/'' @ kBinlogPrefix) 0),
     bl_pro_num = 0, bl_block_offset = 0, bl_file_size = 100, bl_filename = ''d/'' @ kBinlogPrefix,
     bl_binlog_io_error = False\<rparr>"

definition rec_world :: mem_world where
  "rec_world = \<lparr>mw_files = [NewFileName (''d/'' @ kBinlogPrefix) 0 \<mapsto> []],
     mw_rw = [''d/'' @ kManifest \<mapsto> manifest_bytes rec_version]\<rparr>"

lemma rec_binlog_ok: "binlog_ok mem_env mw_files rec_binlog rec_world"
  by (simp add: rec_binlog_def rec_world_def rec_version_def mem_env_simps binlog_ok_def manifest_holds_def)

lemma rec_new: "\<exists>b' w'. Binlog_new mem_env 0 ''d/'' 100 rec_world = Some (b', w')"
  by (simp add: rec_world_def rec_version_def mem_env_simps Binlog_new_def Binlog_InitLogFile_def Version_Init_def
      Version_new_def manifest_bytes_def mem_read_def Let_def)

text \<open>
  C6: Reopening a log after any run that kept its invariant (a crash, too: the manifest is mapped)
  restores the file number, offset, term and logic id that were current, keeps every file, and
  establishes the invariant.
\<close>

theorem binlog_reopen_restores:
  assumes "slash_fs E fs hpos" and "binlog_ok E fs b w"
    and "bl_filename b = path @ kBinlogPrefix" and "ver_save (bl_version b) = path @ kManifest"
    and "Binlog_new E indet path file_size w = Some (b', w')"
  shows "binlog_ok E fs b' w' \<and> Binlog_GetProducerStatus b' = Binlog_GetProducerStatus b \<and> fs w' = fs w"
proof -
  note L = assms(1)
  let ?v = "bl_version b"
  from assms(2) obtain q c where b: "bl_opened b" "q = NewFileName (bl_filename b) (bl_pro_num b)"
    "bl_pro_num b = ver_pro_num ?v" "manifest_holds E ?v w" "fs w q = Some c" "length c = unat (ver_pro_offset ?v)"
    "length c < 2 ^ 31" by (elim binlog_okE)
  have ex: "env_FileExists E (path @ kManifest) w"
    using b(4) assms(4) slash_fs.exists_iff [OF L] by (auto simp: manifest_holds_def split: option.splits)
  obtain s w1 where n: "env_NewRWFile E (path @ kManifest) w = (s, w1)" by fastforce
  with assms(5) ex have [simp]: "s = OK" by (simp add: Binlog_new_def Let_def split: if_splits)
  from n assms(4) have n': "env_NewRWFile E (ver_save ?v) w = (OK, w1)" by simp
  note mh = slash_fs.NewRWFile_manifest [OF L n' b(4)]
  have init: "Version_Init E (Version_new indet (path @ kManifest)) w1 = (OK, ?v)"
    using assms(4) by (intro Version_Init_manifest [OF mh]) (simp add: Version_new_def)
  have q: "NewFileName (path @ kBinlogPrefix) (ver_pro_num ?v) = q" using b(2,3) assms(3) by simp
  obtain s2 w2 where a: "env_AppendWritableFile E q (ver_pro_offset ?v) w1 = (s2, w2)" by fastforce
  with assms(5) ex n init q have [simp]: "s2 = OK" by (simp add: Binlog_new_def Let_def split: if_splits)
  have fs1: "fs w1 = fs w" by (rule slash_fs.new_rw_fs [OF L n'])
  have fs2: "fs w2 = fs w"
    using slash_fs.append_writable_ok [OF L a [simplified], of c] b(5,6) fs1 by (auto simp: fun_upd_idem)
  let ?b = "\<lparr>bl_opened = False, bl_version = ?v, bl_queue = Some q, bl_pro_num = ver_pro_num ?v,
    bl_block_offset = 0, bl_file_size = scast file_size, bl_filename = path @ kBinlogPrefix, bl_binlog_io_error = False\<rparr>"
  from assms(5) ex n init q a have i: "Binlog_InitLogFile E ?b w2 = Some b'" and [simp]: "w' = w2"
    by (auto simp: Binlog_new_def Let_def)
  have "b' = ?b\<lparr>bl_block_offset := length c mod kBlockSize, bl_opened := True\<rparr>"
    using b(5,7) fs2 by (intro slash_fs.InitLogFile_ok [OF L i]) simp_all
  then show ?thesis
    using b q fs2 mh slash_fs.manifest_holds_append_writable [OF L a]
    by (simp add: binlog_ok_def Binlog_GetProducerStatus_def)
qed

theorem binlog_reopen_restores_witness:
  "\<exists>b' w'. Binlog_new mem_env 0 ''d/'' 100 rec_world = Some (b', w')
    \<and> Binlog_GetProducerStatus b' = (OK, Some (0, 0, 7, 5))"
proof -
  obtain b' w' where n: "Binlog_new mem_env 0 ''d/'' 100 rec_world = Some (b', w')"
    using rec_new by blast
  from binlog_reopen_restores [OF mem.slash_fs_axioms rec_binlog_ok _ _ n] show ?thesis
    using n by (simp add: rec_binlog_def rec_version_def Binlog_GetProducerStatus_def)
qed

text \<open>
  On a directory without a manifest the constructor creates an empty file 0 and a manifest, and
  the log starts at file 0, offset 0 and logic id 0. Its term is whatever the memory of the object held.
\<close>

theorem binlog_new_fresh:
  assumes "slash_fs E fs hpos" and "\<not> env_FileExists E (path @ kManifest) w"
    and "Binlog_new E indet path file_size w = Some (b', w')"
  shows "binlog_ok E fs b' w' \<and> Binlog_GetProducerStatus b' = (OK, Some (0, 0, indet, 0))
    \<and> fs w' = (fs w)(NewFileName (path @ kBinlogPrefix) 0 \<mapsto> [])"
proof -
  note L = assms(1)
  let ?q = "NewFileName (path @ kBinlogPrefix) 0" and ?v = "Version_new indet (path @ kManifest)"
  let ?b = "\<lparr>bl_opened = False, bl_version = ?v, bl_queue = Some ?q, bl_pro_num = 0,
    bl_block_offset = 0, bl_file_size = scast file_size, bl_filename = path @ kBinlogPrefix, bl_binlog_io_error = False\<rparr>"
  from assms(2,3) obtain w1 w2 s where n: "env_NewWritableFile E ?q w = (OK, w1)"
    and r: "env_NewRWFile E (ver_save ?v) w1 = (OK, w2)" and st: "Version_StableSave E ?v w2 = (s, w')"
    and i: "Binlog_InitLogFile E ?b w' = Some b'"
    by (auto simp: Binlog_new_def Let_def Version_new_def split: prod.splits if_splits)
  have "manifest_mapped E (ver_save ?v) w2"
    using slash_fs.new_rw_mapped [OF L r] by (auto simp: manifest_mapped_def)
  note st = slash_fs.StableSave_ok [OF L this st]
  have fs': "fs w' = (fs w)(?q \<mapsto> [])"
    using st(2) slash_fs.new_rw_fs [OF L r] slash_fs.new_writable_ok [OF L n] by simp
  have "b' = ?b\<lparr>bl_block_offset := 0, bl_opened := True\<rparr>"
    using fs' slash_fs.InitLogFile_ok [OF L i, of ?q "[]"] by simp
  then show ?thesis
    using fs' st(3) by (simp add: binlog_ok_def Binlog_GetProducerStatus_def Version_new_def)
qed

theorem binlog_new_fresh_witness:
  "\<exists>b' w'. Binlog_new mem_env 9 ''d/'' 100 mem_world0 = Some (b', w')
    \<and> Binlog_GetProducerStatus b' = (OK, Some (0, 0, 9, 0))"
proof -
  have "\<exists>b' w'. Binlog_new mem_env 9 ''d/'' 100 mem_world0 = Some (b', w')"
    by (simp add: mem_world0_def mem_env_simps Binlog_new_def Binlog_InitLogFile_def Version_StableSave_def Let_def)
  then obtain b' w' where n: "Binlog_new mem_env 9 ''d/'' 100 mem_world0 = Some (b', w')" by blast
  from binlog_new_fresh [OF mem.slash_fs_axioms _ n] show ?thesis
    using n by (simp add: mem_world0_def mem_env_simps)
qed

section \<open>Padding\<close>

text \<open>What \<open>padding_loop\<close> writes: blocks of padding, the last one as long as a header allows.\<close>

function pad_blocks :: "u64 \<Rightarrow> nat \<Rightarrow> bytes" where
  "pad_blocks now left =
     (if left < kHeaderSize then []
      else record_header kBadRecord (min left kBlockSize - kHeaderSize) now
             @ replicate (min left kBlockSize - kHeaderSize) (CHR ''*'') @ pad_blocks now (left - min left kBlockSize))"
  by pat_completeness auto
termination
  by (relation "measure (\<lambda>(now, left). left)") auto

declare pad_blocks.simps [simp del]

lemma length_pad_blocks:
  "length (pad_blocks now left) = left - (if left mod kBlockSize < kHeaderSize then left mod kBlockSize else 0)"
proof (induction now left rule: pad_blocks.induct)
  case (1 now left)
  show ?case
  proof (cases "left < kBlockSize")
    case True
    then show ?thesis by (subst pad_blocks.simps) (simp add: pad_blocks.simps [of now 0])
  next
    case False
    then have "length (pad_blocks now (left - kBlockSize)) = left - kBlockSize -
        (if left mod kBlockSize < kHeaderSize then left mod kBlockSize else 0)"
      using 1 by (simp add: le_mod_geq)
    moreover have "left mod kBlockSize \<le> left - kBlockSize"
      using False by (simp add: le_mod_geq)
    ultimately show ?thesis using False
      by (subst pad_blocks.simps) (simp add: min_def pad_blocks.simps [of now 0])
  qed
qed

lemma padding_loop_ok:
  assumes "slash_fs E fs hpos" and "padding_loop E q now left w = (OK, left', w')" and "fs w q = Some c"
  shows "fs w' = (fs w)(q \<mapsto> c @ pad_blocks now left) \<and> left' = left - length (pad_blocks now left)
    \<and> (\<forall>p. env_RWData E p w' = env_RWData E p w)"
  using assms(2-)
proof (induction left arbitrary: w c rule: less_induct)
  case (less left)
  note L = assms(1)
  show ?case
  proof (cases "left < kHeaderSize")
    case True
    then show ?thesis using less.prems
      by (auto simp: padding_loop.simps [of E q now left] pad_blocks.simps [of now left] fun_upd_idem split: if_splits)
  next
    case False
    define sz where "sz = min left kBlockSize"
    have sz: "(if left \<ge> kBlockSize then kBlockSize else left) = sz" "\<not> sz < kHeaderSize" "sz \<le> left" "0 < sz"
      using False by (auto simp: sz_def)
    from less.prems(1) False obtain w1 w2 w3 where
        a1: "env_Append E q (record_header kBadRecord (sz - kHeaderSize) now) w = (OK, w1)"
      and a2: "env_Append E q (replicate (sz - kHeaderSize) (CHR ''*'')) w1 = (OK, w2)"
      and a3: "env_Flush E q w2 = (OK, w3)" and r: "padding_loop E q now (left - sz) w3 = (OK, left', w')"
      using sz(2,4) by (subst (asm) padding_loop.simps [of E q now left w]) (auto simp: Let_def sz(1) [simplified] split: prod.splits if_splits)
    let ?d = "record_header kBadRecord (sz - kHeaderSize) now @ replicate (sz - kHeaderSize) (CHR ''*'')"
    have w3: "fs w3 = (fs w)(q \<mapsto> c @ ?d)" "env_RWData E p w3 = env_RWData E p w" for p
      using slash_fs.append_ok [OF L a1 less.prems(2)] slash_fs.append_ok [OF L a2] slash_fs.flush_ok [OF L a3]
        slash_fs.rw_append [OF L a1] slash_fs.rw_append [OF L a2] slash_fs.rw_flush [OF L a3] by simp_all
    have "left - sz < left" using sz by simp
    from less.IH [OF this r, of "c @ ?d"] w3
    have "fs w' = (fs w)(q \<mapsto> (c @ ?d) @ pad_blocks now (left - sz))"
      "left' = left - sz - length (pad_blocks now (left - sz))" "\<forall>p. env_RWData E p w' = env_RWData E p w"
      by auto
    moreover have "pad_blocks now left = ?d @ pad_blocks now (left - sz)"
      using False by (subst pad_blocks.simps) (simp add: sz_def)
    ultimately show ?thesis using sz by simp
  qed
qed

section \<open>Setting the producer status\<close>

text \<open>A disk on which no write fails; the operations below do not look at these results.\<close>

definition disk_ok :: "('w, 'h) slash_env \<Rightarrow> ('w \<Rightarrow> string \<Rightarrow> bytes option) \<Rightarrow> bool" where
  "disk_ok E fs \<longleftrightarrow>
     (\<forall>p d w. fs w p \<noteq> None \<longrightarrow> fst (env_Append E p d w) = OK) \<and>
     (\<forall>p w. fs w p \<noteq> None \<longrightarrow> fst (env_Flush E p w) = OK) \<and>
     (\<forall>p w. fs w p \<noteq> None \<longrightarrow> fst (env_DeleteFile E p w) = OK)"

lemma mem_disk_ok: "disk_ok mem_env mw_files"
  by (auto simp: disk_ok_def mem_env_def split: option.splits)

lemma padding_loop_disk:
  assumes "slash_fs E fs hpos" and "disk_ok E fs" and "fs w q \<noteq> None"
  shows "fst (padding_loop E q now left w) = OK"
  using assms(3)
proof (induction left arbitrary: w rule: less_induct)
  case (less left)
  note L = assms(1)
  let ?sz = "if left \<ge> kBlockSize then kBlockSize else left"
  from less.prems obtain c where c: "fs w q = Some c" by auto
  define h where "h = record_header kBadRecord (?sz - kHeaderSize) now"
  define d where "d = replicate (?sz - kHeaderSize) (CHR ''*'')"
  obtain w1 where a1: "env_Append E q h w = (OK, w1)"
    using assms(2) c by (metis disk_ok_def option.distinct(1) prod.collapse)
  note w1 = slash_fs.append_ok [OF L a1 c]
  obtain w2 where a2: "env_Append E q d w1 = (OK, w2)"
    using assms(2) w1 by (metis disk_ok_def fun_upd_same option.distinct(1) prod.collapse)
  have w2: "fs w2 q = Some ((c @ h) @ d)" using slash_fs.append_ok [OF L a2, of "c @ h"] w1 by simp
  obtain w3 where a3: "env_Flush E q w2 = (OK, w3)"
    using assms(2) w2 by (metis disk_ok_def option.distinct(1) prod.collapse)
  have w3: "fs w3 q \<noteq> None" using slash_fs.flush_ok [OF L a3] w2 by simp
  show ?case
    using less.IH [OF _ w3, of "left - ?sz"] a1 a2 a3 unfolding h_def d_def
    by (subst padding_loop.simps) (auto simp: Let_def)
qed

definition set_offset :: "u64 \<Rightarrow> u64" where
  "set_offset off = (if off < 4 then 0 else off)"

definition set_file_length :: "u64 \<Rightarrow> nat" where
  "set_file_length off = unat (set_offset off)
     - (if unat (set_offset off) mod kBlockSize < kHeaderSize then unat (set_offset off) mod kBlockSize else 0)"

lemma AppendPadding_ok:
  assumes "slash_fs E fs hpos" and "disk_ok E fs" and "fs w q = Some []"
    and "Binlog_AppendPadding E q off w = (s, off', w')"
  shows "fs w' = (fs w)(q \<mapsto> pad_blocks (env_now E w) (unat off))"
    and "off' = (if unat off < kHeaderSize then off else of_nat (length (pad_blocks (env_now E w) (unat off))))"
    and "env_RWData E p w' = env_RWData E p w"
proof -
  have "fst (padding_loop E q (env_now E w) (unat off) w) = OK"
    by (rule padding_loop_disk [OF assms(1,2)]) (simp add: assms(3))
  then obtain left' w2 where l: "padding_loop E q (env_now E w) (unat off) w = (OK, left', w2)"
    by (metis prod.collapse)
  note ok = padding_loop_ok [OF assms(1) l assms(3)]
  have small: "pad_blocks (env_now E w) (unat off) = []" if "unat off < kHeaderSize"
    using that by (subst pad_blocks.simps) simp
  have "off - of_nat (unat off - n) = of_nat n" if "n \<le> unat off" for n
    using that by (simp add: of_nat_diff)
  from this [of "length (pad_blocks (env_now E w) (unat off))"]
  have sub: "off - of_nat (unat off - length (pad_blocks (env_now E w) (unat off)))
      = of_nat (length (pad_blocks (env_now E w) (unat off)))"
    by (simp add: length_pad_blocks)
  show "fs w' = (fs w)(q \<mapsto> pad_blocks (env_now E w) (unat off))"
    "off' = (if unat off < kHeaderSize then off else of_nat (length (pad_blocks (env_now E w) (unat off))))"
    "env_RWData E p w' = env_RWData E p w"
    using assms(3,4) l ok small sub by (auto simp: Binlog_AppendPadding_def fun_upd_idem split: if_splits)
qed

lemma delete_if_exists:
  assumes "slash_fs E fs hpos" and "disk_ok E fs" and "env_RWData E q w = None"
    and "w' = (if env_FileExists E q w then snd (env_DeleteFile E q w) else w)"
  shows "fs w' = (fs w)(q := None)" and "env_RWData E p w' = env_RWData E p w"
proof -
  have *: "fs w q \<noteq> None \<Longrightarrow> env_DeleteFile E q w = (OK, snd (env_DeleteFile E q w))"
    using assms(2) by (metis disk_ok_def prod.collapse)
  show "fs w' = (fs w)(q := None)"
    using assms(3,4) slash_fs.exists_iff [OF assms(1), of q w] slash_fs.delete_ok [OF assms(1) *]
    by (auto simp: fun_upd_idem)
  show "env_RWData E p w' = env_RWData E p w"
    using assms(3,4) slash_fs.exists_iff [OF assms(1), of q w] slash_fs.rw_delete [OF assms(1) *]
    by auto
qed

lemma SetProducerStatus_core:
  assumes "slash_fs E fs hpos" and "disk_ok E fs" and "bl_opened b"
    and "manifest_mapped E (ver_save (bl_version b)) w"
    and "env_RWData E (NewFileName (bl_filename b) 0) w = None \<and> env_RWData E (NewFileName (bl_filename b) pro_num) w = None"
    and "unat pro_offset < 2 ^ 31"
    and "Binlog_SetProducerStatus E pro_num pro_offset trm index b w = Some (s, b', w')"
  defines "q \<equiv> NewFileName (bl_filename b) pro_num" and "n \<equiv> unat (set_offset pro_offset)"
  shows "\<exists>now. s = OK \<and> fs w' = (fs w)(NewFileName (bl_filename b) 0 := None, q \<mapsto> pad_blocks now n)
    \<and> b' = b\<lparr>bl_queue := Some q, bl_pro_num := pro_num, bl_block_offset := length (pad_blocks now n) mod kBlockSize,
        bl_version := (bl_version b)\<lparr>ver_pro_num := pro_num, ver_term := trm, ver_logic_id := index,
          ver_pro_offset := if n < kHeaderSize then set_offset pro_offset else of_nat (length (pad_blocks now n))\<rparr>\<rparr>
    \<and> manifest_holds E (bl_version b') w'"
proof -
  note L = assms(1) and f = assms(5)
  let ?i = "NewFileName (bl_filename b) 0" and ?sv = "ver_save (bl_version b)"
  define w1 where "w1 = (if env_FileExists E ?i w then snd (env_DeleteFile E ?i w) else w)"
  define w2 where "w2 = (if env_FileExists E q w1 then snd (env_DeleteFile E q w1) else w1)"
  obtain s3 w3 where n3: "env_NewWritableFile E q w2 = (s3, w3)" by fastforce
  obtain s4 off w4 where p4: "Binlog_AppendPadding E q (set_offset pro_offset) w3 = (s4, off, w4)"
    using prod_cases3 by blast
  let ?v = "(bl_version b)\<lparr>ver_pro_num := pro_num, ver_pro_offset := off, ver_term := trm, ver_logic_id := index\<rparr>"
  obtain s5 w5 where s5: "Version_StableSave E ?v w4 = (s5, w5)" by fastforce
  let ?b = "b\<lparr>bl_queue := Some q, bl_pro_num := pro_num, bl_version := ?v\<rparr>"
  from assms(7) have "s3 = OK" "s = OK" and w': "w' = w5" and i: "Binlog_InitLogFile E ?b w5 = Some b'"
    using assms(3) n3 p4 s5
    by (auto simp: Binlog_SetProducerStatus_def Let_def set_offset_def w1_def w2_def q_def split: if_splits)
  note n3 = n3 [unfolded \<open>s3 = OK\<close>]
  have i0: "env_RWData E ?i w = None" and q0: "env_RWData E q w = None" using f by (simp_all add: q_def)
  note d1 = delete_if_exists [OF L assms(2) i0 w1_def]
  note d2 = delete_if_exists [OF L assms(2) _ w2_def, unfolded d1, OF q0]
  have w3: "fs w3 = (fs w)(?i := None, q \<mapsto> [])" "env_RWData E ?sv w3 = env_RWData E ?sv w"
    using slash_fs.new_writable_ok [OF L n3] slash_fs.rw_new_writable [OF L n3, of ?sv] d2 by simp_all
  note ap = AppendPadding_ok [OF L assms(2) _ p4, folded n_def]
  let ?c = "pad_blocks (env_now E w3) n"
  have w4: "fs w4 = (fs w)(?i := None, q \<mapsto> ?c)" "manifest_mapped E (ver_save ?v) w4"
    using ap w3 assms(4) by (simp_all add: manifest_mapped_def)
  note st = slash_fs.StableSave_ok [OF L w4(2) s5]
  have "length ?c < 2 ^ 31"
    using assms(6) by (auto simp: length_pad_blocks n_def set_offset_def intro: le_less_trans [OF diff_le_self])
  then have "b' = ?b\<lparr>bl_block_offset := length ?c mod kBlockSize, bl_opened := True\<rparr>"
    using st(2) w4 slash_fs.InitLogFile_ok [OF L i, of q ?c] by simp
  then show ?thesis
    using \<open>s = OK\<close> w' st w4 ap(2) w3(1) assms(3) by (intro exI [of _ "env_now E w3"]) simp
qed

lemma SetProducerStatus_ok:
  assumes "slash_fs E fs hpos" and "disk_ok E fs" and "binlog_ok E fs b w"
    and "env_RWData E (NewFileName (bl_filename b) 0) w = None \<and> env_RWData E (NewFileName (bl_filename b) pro_num) w = None"
    and "unat pro_offset < 2 ^ 31" and "pro_offset < 4 \<or> kHeaderSize \<le> unat pro_offset"
    and "Binlog_SetProducerStatus E pro_num pro_offset trm index b w = Some (s, b', w')"
  shows "s = OK \<and> binlog_ok E fs b' w'
    \<and> Binlog_GetProducerStatus b' = (OK, Some (pro_num, of_nat (set_file_length pro_offset), trm, index))
    \<and> (\<exists>now. fs w' = (fs w)(NewFileName (bl_filename b) 0 := None,
          NewFileName (bl_filename b) pro_num \<mapsto> pad_blocks now (unat (set_offset pro_offset))))"
proof -
  from assms(3) have b: "bl_opened b" "manifest_mapped E (ver_save (bl_version b)) w"
    by (auto elim!: binlog_okE intro: manifest_holds_mapped)
  let ?n = "unat (set_offset pro_offset)"
  have small: "?n = 0" if "?n < kHeaderSize"
    using assms(6) that by (auto simp: set_offset_def)
  have len: "length (pad_blocks now ?n) = set_file_length pro_offset" for now
    by (simp add: length_pad_blocks set_file_length_def)
  have lt: "set_file_length pro_offset < 2 ^ 31"
    using assms(5) by (auto simp: set_file_length_def set_offset_def intro: le_less_trans [OF diff_le_self])
  then have un: "unat (of_nat (set_file_length pro_offset) :: u64) = set_file_length pro_offset"
    by (intro unat_of_nat_small) simp
  have off: "(if ?n < kHeaderSize then set_offset pro_offset else of_nat (set_file_length pro_offset))
      = of_nat (set_file_length pro_offset)"
    using small by (auto simp: set_file_length_def simp flip: unat_eq_zero)
  show ?thesis
    using SetProducerStatus_core [OF assms(1,2) b assms(4,5,7)] b(1) lt un
    unfolding len off by (auto simp: binlog_ok_def Binlog_GetProducerStatus_def len)
qed

text \<open>
  \<^verbatim>\<open>SetProducerStatus\<close>, with an offset that is below 4 or has room for a record header, leaves a
  log that satisfies the invariant, with the given file number, term and logic id. The new file holds
  padding records only, the initial file is gone, no other file changes. The offset becomes the given
  one, less the bytes of its last block when they are too few for a header.
\<close>

theorem set_producer_status_ok:
  assumes "slash_fs E fs hpos" and "disk_ok E fs" and "binlog_ok E fs b w"
    and "env_RWData E (NewFileName (bl_filename b) 0) w = None \<and> env_RWData E (NewFileName (bl_filename b) pro_num) w = None"
    and "unat pro_offset < 2 ^ 31" and "pro_offset < 4 \<or> kHeaderSize \<le> unat pro_offset"
    and "Binlog_SetProducerStatus E pro_num pro_offset trm index b w = Some (s, b', w')"
  shows "s = OK \<and> binlog_ok E fs b' w'
    \<and> Binlog_GetProducerStatus b' = (OK, Some (pro_num, of_nat (set_file_length pro_offset), trm, index))
    \<and> (\<exists>now. fs w' = (fs w)(NewFileName (bl_filename b) 0 := None,
          NewFileName (bl_filename b) pro_num \<mapsto> pad_blocks now (unat (set_offset pro_offset))))"
  by (rule SetProducerStatus_ok [OF assms])

lemma wit_set:
  assumes "off < kHeaderSize"
  shows "\<exists>b' w'. Binlog_SetProducerStatus mem_env 3 (of_nat off) 8 40 wit_binlog wit_world = Some (OK, b', w')"
  using assms by (simp add: wit_simps Binlog_SetProducerStatus_def Binlog_AppendPadding_def Binlog_InitLogFile_def
      Version_StableSave_def Let_def unat_of_nat_small)

lemma wit_unmapped: "env_RWData mem_env (NewFileName (bl_filename wit_binlog) 0) wit_world = None
    \<and> env_RWData mem_env (NewFileName (bl_filename wit_binlog) 3) wit_world = None"
  by (simp add: wit_simps NewFileName_def)

theorem set_producer_status_ok_witness:
  "\<exists>b' w'. Binlog_SetProducerStatus mem_env 3 0 8 40 wit_binlog wit_world = Some (OK, b', w')
    \<and> binlog_ok mem_env mw_files b' w' \<and> Binlog_GetProducerStatus b' = (OK, Some (3, 0, 8, 40))"
  using wit_set [of 0] set_producer_status_ok [OF mem.slash_fs_axioms mem_disk_ok wit_binlog_ok wit_unmapped, of 0 8 40]
  by (fastforce simp: set_file_length_def set_offset_def)

text \<open>
  For an offset from 4 to 7 \<^verbatim>\<open>SetProducerStatus\<close> creates an empty file but records the offset
  itself: the length of the file and the producer offset disagree. The guard against offsets smaller
  than the first header compares with 4, the header has 8 bytes.
\<close>

theorem set_producer_status_gap:
  assumes "slash_fs E fs hpos" and "disk_ok E fs" and "binlog_ok E fs b w"
    and "env_RWData E (NewFileName (bl_filename b) 0) w = None \<and> env_RWData E (NewFileName (bl_filename b) pro_num) w = None"
    and "4 \<le> pro_offset" and "unat pro_offset < kHeaderSize"
    and "Binlog_SetProducerStatus E pro_num pro_offset trm index b w = Some (s, b', w')"
  shows "fs w' (NewFileName (bl_filename b) pro_num) = Some []
    \<and> Binlog_GetProducerStatus b' = (OK, Some (pro_num, pro_offset, trm, index)) \<and> \<not> binlog_ok E fs b' w'"
proof -
  from assms(3) have b: "bl_opened b" "manifest_mapped E (ver_save (bl_version b)) w"
    by (auto elim!: binlog_okE intro: manifest_holds_mapped)
  have "unat pro_offset < 2 ^ 31" using assms(6) by simp
  note core = SetProducerStatus_core [OF assms(1,2) b assms(4) this assms(7)]
  have so: "set_offset pro_offset = pro_offset" using assms(5) by (simp add: set_offset_def not_less [symmetric])
  moreover have "pad_blocks now (unat pro_offset) = []" for now
    using assms(6) by (subst pad_blocks.simps) simp
  moreover have "pro_offset \<noteq> 0" using assms(5) by auto
  ultimately show ?thesis
    using core b(1) assms(6) by (auto simp: binlog_ok_def Binlog_GetProducerStatus_def unat_eq_zero)
qed

theorem set_producer_status_gap_witness:
  "\<exists>b' w'. Binlog_SetProducerStatus mem_env 3 5 8 40 wit_binlog wit_world = Some (OK, b', w')
    \<and> \<not> binlog_ok mem_env mw_files b' w' \<and> Binlog_GetProducerStatus b' = (OK, Some (3, 5, 8, 40))"
  using wit_set [of 5] set_producer_status_gap [OF mem.slash_fs_axioms mem_disk_ok wit_binlog_ok wit_unmapped, of 5 8 40]
  by fastforce

section \<open>Truncating\<close>

lemma Truncate_effect:
  assumes "slash_fs E fs hpos" and "bl_opened b" and "manifest_mapped E (ver_save (bl_version b)) w"
    and "fs w (NewFileName (bl_filename b) pro_num) = Some c" and "unat pro_offset \<le> length c" and "unat pro_offset < 2 ^ 31"
    and "Binlog_Truncate E pro_num pro_offset index b w = Some (OK, b', w')"
  shows "binlog_ok E fs b' w'
    \<and> Binlog_GetProducerStatus b' = (OK, Some (pro_num, pro_offset, ver_term (bl_version b), index))
    \<and> fs w' = (fs w)(NewFileName (bl_filename b) pro_num \<mapsto> take (unat pro_offset) c)"
proof -
  note L = assms(1)
  let ?q = "NewFileName (bl_filename b) pro_num"
  let ?v = "(bl_version b)\<lparr>ver_pro_num := pro_num, ver_pro_offset := pro_offset, ver_logic_id := index\<rparr>"
  let ?b = "b\<lparr>bl_pro_num := pro_num, bl_version := ?v, bl_queue := Some ?q\<rparr>"
  from assms(7) obtain w1 s2 w2 where t: "env_ftruncate E ?q pro_offset w = (True, w1)"
    and st: "Version_StableSave E ?v w1 = (s2, w2)" and a: "env_AppendWritableFile E ?q pro_offset w2 = (OK, w')"
    and i: "Binlog_InitLogFile E ?b w' = Some b'"
    by (auto simp: Binlog_Truncate_def Let_def split: if_splits prod.splits)
  note w1 = slash_fs.ftruncate_ok [OF L t assms(4,5)]
  have "manifest_mapped E (ver_save ?v) w1"
    using assms(3) slash_fs.rw_ftruncate [OF L t] by (simp add: manifest_mapped_def)
  note st = slash_fs.StableSave_ok [OF L this st]
  let ?c = "take (unat pro_offset) c"
  have fs': "fs w' = (fs w)(?q \<mapsto> ?c)"
    using slash_fs.append_writable_ok [OF L a, of ?c] st(2) w1 assms(5) by simp
  moreover have "manifest_holds E ?v w'"
    using st(3) slash_fs.manifest_holds_append_writable [OF L a] by blast
  moreover have "b' = ?b\<lparr>bl_block_offset := length ?c mod kBlockSize, bl_opened := True\<rparr>"
    using fs' assms(6) slash_fs.InitLogFile_ok [OF L i, of ?q ?c] by (simp add: min_def)
  ultimately show ?thesis
    using assms(5,6) by (simp add: binlog_ok_def Binlog_GetProducerStatus_def min_def)
qed

text \<open>
  \<^verbatim>\<open>Truncate\<close> to a position inside an existing file leaves a log that satisfies the invariant at
  exactly that position, with the given logic id; the file keeps its bytes up to the position and no
  other file changes.
\<close>

theorem binlog_truncate_ok:
  assumes "slash_fs E fs hpos" and "bl_opened b" and "manifest_mapped E (ver_save (bl_version b)) w"
    and "fs w (NewFileName (bl_filename b) pro_num) = Some c" and "unat pro_offset \<le> length c" and "unat pro_offset < 2 ^ 31"
    and "Binlog_Truncate E pro_num pro_offset index b w = Some (OK, b', w')"
  shows "binlog_ok E fs b' w'
    \<and> Binlog_GetProducerStatus b' = (OK, Some (pro_num, pro_offset, ver_term (bl_version b), index))
    \<and> fs w' = (fs w)(NewFileName (bl_filename b) pro_num \<mapsto> take (unat pro_offset) c)"
  by (rule Truncate_effect [OF assms])

theorem binlog_truncate_ok_witness:
  "\<exists>b' w'. Binlog_Truncate mem_env 0 0 4 wit_binlog wit_world = Some (OK, b', w')
    \<and> binlog_ok mem_env mw_files b' w' \<and> Binlog_GetProducerStatus b' = (OK, Some (0, 0, 7, 4))"
proof -
  have "\<exists>b' w'. Binlog_Truncate mem_env 0 0 4 wit_binlog wit_world = Some (OK, b', w')"
    by (simp add: wit_simps Binlog_Truncate_def Binlog_InitLogFile_def Version_StableSave_def manifest_bytes_def Let_def)
  then obtain b' w' where n: "Binlog_Truncate mem_env 0 0 4 wit_binlog wit_world = Some (OK, b', w')" by blast
  from binlog_truncate_ok [OF mem.slash_fs_axioms _ _ _ _ _ n, of "[]"] show ?thesis
    using n by (simp add: wit_simps manifest_mapped_def)
qed

end
