(* ===== verification/Pika_Binlog_Reader.thy ===== *)
theory Pika_Binlog_Reader
  imports Pika_Binlog_Recovery
begin

text \<open>
  The binlog reader of \<^verbatim>\<open>include/pika_binlog_reader.h\<close> and \<^verbatim>\<open>src/pika_binlog_reader.cc\<close>, and the
  contract of the log as a whole: a writer and a reader form a first-in first-out channel. The reader
  shares the \<^verbatim>\<open>Binlog\<close> it reads with the writer, so the operations that look at \<^verbatim>\<open>logger_\<close> take the
  current log as an argument. \<open>None\<close> is undefined behaviour (a null queue, a header shorter than
  its eight bytes, the status of a log that is not open) or a loop that does not end.
\<close>

unbundle bit_operations_syntax

section \<open>Operations\<close>

record 'h PikaBinlogReader =
  rd_cur_filenum :: u32
  rd_cur_offset :: u64
  rd_last_record_offset :: u64
  rd_logger :: bool
  rd_queue :: "'h option"

definition PikaBinlogReader_new :: "u32 \<Rightarrow> u64 \<Rightarrow> 'h PikaBinlogReader" where
  "PikaBinlogReader_new cur_filenum cur_offset =
     \<lparr>rd_cur_filenum = cur_filenum, rd_cur_offset = cur_offset,
      rd_last_record_offset = cur_offset mod of_nat kBlockSize, rd_logger = False, rd_queue = None\<rparr>"

definition PikaBinlogReader_new0 :: "'h PikaBinlogReader" where
  "PikaBinlogReader_new0 =
     \<lparr>rd_cur_filenum = 0, rd_cur_offset = 0, rd_last_record_offset = 0, rd_logger = False, rd_queue = None\<rparr>"

definition GetReaderStatus :: "'h PikaBinlogReader \<Rightarrow> u32 \<times> u64" where
  "GetReaderStatus r = (rd_cur_filenum r, rd_cur_offset r)"

definition ReadToTheEnd :: "Binlog \<Rightarrow> 'h PikaBinlogReader \<Rightarrow> bool option" where
  "ReadToTheEnd b r =
     (case snd (Binlog_GetProducerStatus b) of
        None \<Rightarrow> None
      | Some (pro_num, pro_offset, _, _) \<Rightarrow> Some (pro_num = rd_cur_filenum r \<and> pro_offset = rd_cur_offset r))"

abbreviation type_code :: "RecordType \<Rightarrow> u32" where
  "type_code t \<equiv> of_nat (RecordType_code t)"

text \<open>The length and the type of a header; the type byte is a signed \<^verbatim>\<open>char\<close>.\<close>

definition header_fields :: "bytes \<Rightarrow> (nat \<times> u32) option" where
  "header_fields header =
     (if length header < kHeaderSize then None
      else let a = of_char (header ! 0); b = of_char (header ! 1); c = of_char (header ! 2)
           in Some (a OR push_bit 8 b OR push_bit 16 c, scast (of_nat (of_char (header ! 7)) :: u8)))"

text \<open>\<^verbatim>\<open>GetNext\<close> gives the error flag and the size of the item it passed.\<close>

partial_function (option) get_next_loop ::
  "('w, 'h) slash_env \<Rightarrow> u64 \<Rightarrow> 'h PikaBinlogReader \<Rightarrow> 'w \<Rightarrow> (bool \<times> u64 \<times> 'h PikaBinlogReader) option" where
  [code]: "get_next_loop E offset r w =
     (case rd_queue r of
        None \<Rightarrow> None
      | Some h \<Rightarrow>
          (case env_Read E h kHeaderSize w of
             (s, buf, h) \<Rightarrow>
               if \<not> ok s then Some (True, 0, r\<lparr>rd_queue := Some h\<rparr>)
               else case header_fields buf of
                 None \<Rightarrow> None
               | Some (len, type) \<Rightarrow>
                   if len > kBlockSize - kHeaderSize then Some (True, 0, r\<lparr>rd_queue := Some h\<rparr>)
                   else if type = type_code kFullType \<or> type = type_code kLastType \<or> type = type_code kBadRecord then
                     (case env_Read E h len w of
                        (s, buf, h) \<Rightarrow> Some (False, offset + of_nat (kHeaderSize + len), r\<lparr>rd_queue := Some h\<rparr>))
                   else if type = type_code kFirstType \<or> type = type_code kMiddleType then
                     (case env_Read E h len w of
                        (s, buf, h) \<Rightarrow> get_next_loop E (offset + of_nat (kHeaderSize + len)) (r\<lparr>rd_queue := Some h\<rparr>) w)
                   else Some (True, offset, r\<lparr>rd_queue := Some h\<rparr>)))"

definition GetNext ::
  "('w, 'h) slash_env \<Rightarrow> 'h PikaBinlogReader \<Rightarrow> 'w \<Rightarrow> (bool \<times> u64 \<times> 'h PikaBinlogReader) option" where
  "GetNext E r w = get_next_loop E 0 r w"

partial_function (option) seek_loop ::
  "('w, 'h) slash_env \<Rightarrow> u64 \<Rightarrow> u64 \<Rightarrow> u64 \<Rightarrow> 'h PikaBinlogReader \<Rightarrow> 'w \<Rightarrow> (int \<times> 'h PikaBinlogReader) option" where
  [code]: "seek_loop E start_block block_offset res r w =
     (if res \<ge> block_offset then Some (0, r\<lparr>rd_cur_offset := start_block + res\<rparr>)
      else case GetNext E r w of
             None \<Rightarrow> None
           | Some (is_error, ret, r) \<Rightarrow>
               if is_error then Some (- 1, r)
               else seek_loop E start_block block_offset (res + ret) r w)"

definition Seek ::
  "('w, 'h) slash_env \<Rightarrow> Binlog \<Rightarrow> u32 \<Rightarrow> u64 \<Rightarrow> 'h PikaBinlogReader \<Rightarrow> 'w \<Rightarrow> (int \<times> 'h PikaBinlogReader) option" where
  "Seek E logger filenum offset r w =
     (let confile = NewFileName (bl_filename logger) filenum
      in if \<not> env_FileExists E confile w then Some (- 1, r)
         else let (s, readfile) = env_NewSequentialFile E confile w
              in if \<not> ok s then Some (- 1, r)
                 else let start_block = offset div of_nat kBlockSize * of_nat kBlockSize;
                          (s, h) = env_Skip E readfile (unat start_block) w;
                          r = r\<lparr>rd_queue := Some h, rd_logger := True, rd_cur_filenum := filenum, rd_cur_offset := offset,
                                rd_last_record_offset := ucast filenum mod of_nat kBlockSize\<rparr>;
                          block_offset = offset mod of_nat kBlockSize
                      in case seek_loop E start_block block_offset 0 r w of
                           None \<Rightarrow> None
                         | Some (ret, r) \<Rightarrow>
                             if ret \<noteq> 0 then Some (ret, r)
                             else Some (0, r\<lparr>rd_last_record_offset := rd_cur_offset r mod of_nat kBlockSize\<rparr>))"

text \<open>
  \<^verbatim>\<open>ReadPhysicalRecord\<close>: the step over the rest of a block without room for a payload, and the
  record itself. The result is the type, the fragment and the out-parameters.
\<close>

definition skip_trailer :: "('w, 'h) slash_env \<Rightarrow> 'h \<Rightarrow> 'h PikaBinlogReader \<Rightarrow> 'w \<Rightarrow> 'h \<times> 'h PikaBinlogReader" where
  "skip_trailer E h r w =
     (let rest = of_nat kBlockSize - rd_last_record_offset r
      in if rest \<le> of_nat kHeaderSize then
           (snd (env_Skip E h (unat rest) w),
            r\<lparr>rd_cur_offset := rd_cur_offset r + rest, rd_last_record_offset := 0\<rparr>)
         else (h, r))"

definition ReadPhysicalRecord ::
  "('w, 'h) slash_env \<Rightarrow> u32 \<Rightarrow> u64 \<Rightarrow> 'h PikaBinlogReader \<Rightarrow> 'w
    \<Rightarrow> (u32 \<times> bytes \<times> u32 \<times> u64 \<times> 'h PikaBinlogReader) option" where
  "ReadPhysicalRecord E filenum offset r w =
     (case rd_queue r of
        None \<Rightarrow> None
      | Some h \<Rightarrow>
          let (h, r) = skip_trailer E h r w;
              (s, buf, h) = env_Read E h kHeaderSize w;
              r = r\<lparr>rd_queue := Some h\<rparr>
          in if IsEndFile s then Some (type_code kEof, [], filenum, offset, r)
             else if \<not> ok s then Some (type_code kBadRecord, [], filenum, offset, r)
             else case header_fields buf of
                    None \<Rightarrow> None
                  | Some (len, type) \<Rightarrow>
                      if len > kBlockSize - kHeaderSize then Some (type_code kBadRecord, [], filenum, offset, r)
                      else if type = type_code kZeroType \<or> len = 0 then Some (type_code kOldRecord, [], filenum, offset, r)
                      else let (s, buf, h) = env_Read E h len w;
                               n = of_nat (kHeaderSize + len);
                               r = r\<lparr>rd_queue := Some h, rd_last_record_offset := rd_last_record_offset r + n\<rparr>
                           in if ok s then
                                Some (type, buf, rd_cur_filenum r, rd_cur_offset r + n, r\<lparr>rd_cur_offset := rd_cur_offset r + n\<rparr>)
                              else Some (type, buf, filenum, offset, r))"

partial_function (option) Consume ::
  "('w, 'h) slash_env \<Rightarrow> bytes \<Rightarrow> u32 \<Rightarrow> u64 \<Rightarrow> 'h PikaBinlogReader \<Rightarrow> 'w
    \<Rightarrow> (Status \<times> bytes \<times> u32 \<times> u64 \<times> 'h PikaBinlogReader) option" where
  [code]: "Consume E scratch filenum offset r w =
     (case ReadPhysicalRecord E filenum offset r w of
        None \<Rightarrow> None
      | Some (rtype, fragment, filenum, offset, r) \<Rightarrow>
          if rtype = type_code kFullType then Some (OK, fragment, filenum, offset, r)
          else if rtype = type_code kFirstType then Consume E fragment filenum offset r w
          else if rtype = type_code kMiddleType then Consume E (scratch @ fragment) filenum offset r w
          else if rtype = type_code kLastType then Some (OK, scratch @ fragment, filenum, offset, r)
          else if rtype = type_code kEof then Some (EndFile ''Eof'', scratch, filenum, offset, r)
          else if rtype = type_code kBadRecord then Some (IOError ''Data Corruption'', scratch, filenum, offset, r)
          else if rtype = type_code kOldRecord then Some (EndFile ''Eof'', scratch, filenum, offset, r)
          else Some (IOError ''Unknow reason'', scratch, filenum, offset, r))"

partial_function (option) get_loop ::
  "('w, 'h) slash_env \<Rightarrow> Binlog \<Rightarrow> bytes \<Rightarrow> u32 \<Rightarrow> u64 \<Rightarrow> 'h PikaBinlogReader \<Rightarrow> 'w
    \<Rightarrow> (Status \<times> bytes \<times> u32 \<times> u64 \<times> 'h PikaBinlogReader) option" where
  [code]: "get_loop E b scratch filenum offset r w =
     (case ReadToTheEnd b r of
        None \<Rightarrow> None
      | Some at_end \<Rightarrow>
          if at_end then Some (EndFile ''End of cur log file'', scratch, filenum, offset, r)
          else (case Consume E scratch filenum offset r w of
             None \<Rightarrow> None
           | Some (s, scratch, filenum, offset, r) \<Rightarrow>
               if IsEndFile s then
                 if env_FileExists E (NewFileName (bl_filename b) (rd_cur_filenum r + 1)) w then
                   (case env_NewSequentialFile E (NewFileName (bl_filename b) (rd_cur_filenum r + 1)) w of
                      (s2, h) \<Rightarrow>
                        get_loop E b scratch filenum offset
                          (r\<lparr>rd_queue := if ok s2 then Some h else None, rd_cur_filenum := rd_cur_filenum r + 1,
                             rd_cur_offset := 0, rd_last_record_offset := 0\<rparr>) w)
                 else Some (IOError ''File Does Not Exists'', scratch, filenum, offset, r)
               else Some (OK, scratch, filenum, offset, r)))"

definition Get ::
  "('w, 'h) slash_env \<Rightarrow> Binlog \<Rightarrow> bytes \<Rightarrow> u32 \<Rightarrow> u64 \<Rightarrow> 'h PikaBinlogReader \<Rightarrow> 'w
    \<Rightarrow> (Status \<times> bytes \<times> u32 \<times> u64 \<times> 'h PikaBinlogReader) option" where
  "Get E b scratch filenum offset r w =
     (if \<not> rd_logger r \<or> rd_queue r = None then Some (Corruption ''Not seek'', scratch, filenum, offset, r)
      else get_loop E b [] filenum offset r w)"

section \<open>Headers\<close>

lemma or_bytes: "n < 2 ^ 24 \<Longrightarrow>
    take_bit 8 n OR push_bit 8 (take_bit 8 (drop_bit 8 n)) OR push_bit 16 (take_bit 8 (drop_bit 16 n)) = (n :: nat)"
proof -
  assume "n < 2 ^ 24"
  then have "take_bit 24 n = n" by (simp add: take_bit_nat_eq_self)
  moreover have "take_bit 8 n OR push_bit 8 (take_bit 8 (drop_bit 8 n)) OR push_bit 16 (take_bit 8 (drop_bit 16 n))
      = take_bit 24 n" (is "?l = _")
  proof (rule bit_eqI)
    fix m
    show "bit ?l m = bit (take_bit 24 n) m"
      by (cases "m < 8"; cases "m < 16") (auto simp: bit_simps)
  qed
  ultimately show ?thesis by simp
qed

lemma header_fields_record:
  assumes "n < 2 ^ 24"
  shows "header_fields (record_header t n now) = Some (n, type_code t)"
proof -
  have "(scast (of_nat (RecordType_code t) :: u8) :: u32) = type_code t"
    by (cases t) simp_all
  moreover have "of_char (char_of (RecordType_code t) :: char) = RecordType_code t"
    using RecordType_code_less [of t] by simp
  moreover have "of_char (char_of n :: char) = take_bit 8 n" "of_char (char_of (n div 256) :: char) = take_bit 8 (drop_bit 8 n)"
    "of_char (char_of (n div 65536) :: char) = take_bit 8 (drop_bit 16 n)"
    by (simp_all add: take_bit_eq_mod drop_bit_eq_div)
  ultimately show ?thesis
    using or_bytes [OF assms] by (simp add: header_fields_def record_header_def Let_def)
qed

section \<open>The position of a reader\<close>

text \<open>
  \<open>reader_at hpos r q n\<close>: the open file of the reader is \<open>q\<close>, and the file position, the current
  offset and the position in the block all stand for \<open>n\<close>.
\<close>

definition reader_at :: "('h \<Rightarrow> string \<times> nat) \<Rightarrow> 'h PikaBinlogReader \<Rightarrow> string \<Rightarrow> nat \<Rightarrow> bool" where
  "reader_at hpos r q n \<longleftrightarrow>
     (case rd_queue r of None \<Rightarrow> False | Some h \<Rightarrow> hpos h = (q, n)) \<and> rd_cur_offset r = of_nat n \<and>
     (\<exists>k \<le> kBlockSize. rd_last_record_offset r = of_nat k \<and> k mod kBlockSize = n mod kBlockSize)"

text \<open>How far the reader steps at position \<open>bo\<close> of a block before it reads a header.\<close>

definition reader_skip :: "nat \<Rightarrow> nat" where
  "reader_skip bo = (if kBlockSize - bo \<le> kHeaderSize then kBlockSize - bo else 0)"

lemma skip_rest:
  "k \<le> kBlockSize \<Longrightarrow> of_nat kBlockSize - (of_nat k :: u64) = of_nat (kBlockSize - k)"
  by (simp add: of_nat_diff)

lemma skip_rest_le:
  "(of_nat (kBlockSize - k) :: u64) \<le> of_nat kHeaderSize \<longleftrightarrow> kBlockSize - k \<le> kHeaderSize"
  "unat (of_nat (kBlockSize - k) :: u64) = kBlockSize - k"
proof -
  show u: "unat (of_nat (kBlockSize - k) :: u64) = kBlockSize - k" by (rule unat_of_nat_small) simp
  show "(of_nat (kBlockSize - k) :: u64) \<le> of_nat kHeaderSize \<longleftrightarrow> kBlockSize - k \<le> kHeaderSize"
    unfolding word_le_nat_alt u by simp
qed

context slash_fs
begin

lemma skip_trailer_at:
  assumes "reader_at hpos r q n" and "rd_queue r = Some h" and "fs w q = Some c"
  defines "m \<equiv> n + reader_skip (n mod kBlockSize)"
  obtains h' where "skip_trailer E h r w
      = (h', r\<lparr>rd_cur_offset := of_nat m, rd_last_record_offset := of_nat (m mod kBlockSize)\<rparr>)" and "hpos h' = (q, m)"
proof -
  from assms(1,2) obtain k where k: "k \<le> kBlockSize" "rd_last_record_offset r = of_nat k" "k mod kBlockSize = n mod kBlockSize"
    and h: "hpos h = (q, n)" "rd_cur_offset r = of_nat n"
    by (auto simp: reader_at_def)
  have st: "skip_trailer E h r w =
      (if kBlockSize - k \<le> kHeaderSize
       then (snd (env_Skip E h (kBlockSize - k) w), r\<lparr>rd_cur_offset := of_nat (n + (kBlockSize - k)), rd_last_record_offset := 0\<rparr>)
       else (h, r))"
    unfolding skip_trailer_def k(2) Let_def skip_rest [OF k(1)] skip_rest_le h(2) of_nat_add by (rule refl)
  show thesis
  proof (cases "kBlockSize - k \<le> kHeaderSize")
    case True
    have m: "m = n + (kBlockSize - k)"
      using k(1,3) True by (cases "k = kBlockSize") (auto simp: m_def reader_skip_def)
    moreover have "m mod kBlockSize = 0"
      unfolding m using k(1,3) by (metis le_add_diff_inverse mod_add_left_eq mod_self)
    ultimately show thesis
      using skip_ok [OF assms(3) h(1), of "kBlockSize - k"] st True that by auto
  next
    case False
    then have m: "m = n" "k mod kBlockSize = k" using k(1,3) by (auto simp: m_def reader_skip_def)
    then show thesis using st False that h k by simp
  qed
qed

lemma ReadPhysicalRecord_data:
  assumes "reader_at hpos r q n" and "fs w q = Some (pre @ record_header t (length d) now @ d @ post)"
    and "length pre = n + reader_skip (n mod kBlockSize)" and "d \<noteq> []" and "t \<noteq> kZeroType"
    and "length pre mod kBlockSize + (kHeaderSize + length d) \<le> kBlockSize"
  obtains r' where "ReadPhysicalRecord E fnum off r w
      = Some (type_code t, d, rd_cur_filenum r, of_nat (length pre + (kHeaderSize + length d)), r')"
    and "reader_at hpos r' q (length pre + (kHeaderSize + length d))"
    and "rd_cur_filenum r' = rd_cur_filenum r" and "rd_logger r' = rd_logger r"
proof -
  from assms(1) obtain h where h: "rd_queue r = Some h" by (auto simp: reader_at_def split: option.splits)
  obtain h1 where st: "skip_trailer E h r w
      = (h1, r\<lparr>rd_cur_offset := of_nat (length pre), rd_last_record_offset := of_nat (length pre mod kBlockSize)\<rparr>)"
    and h1: "hpos h1 = (q, length pre)"
    using skip_trailer_at [OF assms(1) h assms(2)] unfolding assms(3) by blast
  obtain h2 where r2: "env_Read E h1 kHeaderSize w = (OK, record_header t (length d) now, h2)" and h2: "hpos h2 = (q, length pre + kHeaderSize)"
    by (rule read_exact [OF assms(2) h1, of kHeaderSize]) simp
  have "fs w q = Some ((pre @ record_header t (length d) now) @ d @ post)" using assms(2) by simp
  then obtain h3 where r3: "env_Read E h2 (length d) w = (OK, d, h3)" and h3: "hpos h3 = (q, length pre + (kHeaderSize + length d))"
    by (rule read_exact [where n = "length d"]) (use h2 in \<open>simp_all add: add.assoc\<close>)
  have len: "length d \<le> kBlockSize - kHeaderSize" using assms(6) by simp
  then have hf: "header_fields (record_header t (length d) now) = Some (length d, type_code t)"
    by (intro header_fields_record) simp
  have ty: "type_code t \<noteq> type_code kZeroType" using assms(5) by (cases t) simp_all
  define r' where "r' = r\<lparr>rd_cur_offset := of_nat (length pre) + of_nat (kHeaderSize + length d),
      rd_last_record_offset := of_nat (length pre mod kBlockSize) + of_nat (kHeaderSize + length d), rd_queue := Some h3\<rparr>"
  have "ReadPhysicalRecord E fnum off r w
      = Some (type_code t, d, rd_cur_filenum r, of_nat (length pre + (kHeaderSize + length d)), r')"
    using h st r2 hf len ty assms(4) r3 by (simp add: ReadPhysicalRecord_def Let_def r'_def status_simps)
  moreover have "reader_at hpos r' q (length pre + (kHeaderSize + length d))"
    using h3 assms(6) by (auto simp: reader_at_def r'_def mod_add_left_eq
        intro!: exI [of _ "length pre mod kBlockSize + (kHeaderSize + length d)"])
  ultimately show thesis using that by (simp add: r'_def)
qed

lemma ReadPhysicalRecord_end:
  assumes "reader_at hpos r q n" and "fs w q = Some c" and "length c \<le> n"
  obtains t r' where "ReadPhysicalRecord E fnum off r w = Some (t, [], fnum, off, r')"
    and "t = type_code kEof \<or> t = type_code kOldRecord"
    and "rd_cur_filenum r' = rd_cur_filenum r" and "rd_logger r' = rd_logger r"
proof -
  from assms(1) obtain h where h: "rd_queue r = Some h" by (auto simp: reader_at_def split: option.splits)
  define m where "m = n + reader_skip (n mod kBlockSize)"
  define r1 where "r1 = r\<lparr>rd_cur_offset := of_nat m, rd_last_record_offset := of_nat (m mod kBlockSize)\<rparr>"
  obtain h1 where st: "skip_trailer E h r w = (h1, r1)" and h1: "hpos h1 = (q, m)"
    using skip_trailer_at [OF assms(1) h assms(2)] unfolding m_def r1_def by blast
  obtain s d h2 where rd: "env_Read E h1 kHeaderSize w = (s, d, h2)" by (cases "env_Read E h1 kHeaderSize w")
  have "length c \<le> m" using assms(3) by (simp add: m_def)
  with read_end [OF assms(2) h1, of s d h2] rd
  consider "IsEndFile s" | "s = OK" "d = replicate 8 (CHR 0x00)" by fastforce
  then show thesis
  proof cases
    case 1
    with h st rd that [of _ "r1\<lparr>rd_queue := Some h2\<rparr>"] show thesis
      by (simp add: ReadPhysicalRecord_def r1_def)
  next
    case 2
    have "header_fields (replicate 8 (CHR 0x00)) = Some (0, 0)"
      by (simp add: header_fields_def numeral_eq_Suc)
    with 2 h st rd that [of _ "r1\<lparr>rd_queue := Some h2\<rparr>"] show thesis
      by (simp add: ReadPhysicalRecord_def r1_def status_simps)
  qed
qed

end

text \<open>The writer's trailer and the reader's skip agree, except where a block ends in an empty record.\<close>

lemma trailer_skip:
  assumes "bo \<le> kBlockSize" and "n mod kBlockSize = bo mod kBlockSize"
  shows "bo \<noteq> 65528 \<Longrightarrow> length (block_trailer bo) = reader_skip (n mod kBlockSize)"
    and "bo = 65528 \<Longrightarrow> block_trailer bo = [] \<and> reader_skip (n mod kBlockSize) = 8 \<and> block_avail bo = 0"
  using assms
  by (cases "bo = kBlockSize"; auto simp: block_trailer_def reader_skip_def block_avail_def block_start_def)+

lemma data_pos:
  assumes "bo \<le> kBlockSize" and "p mod kBlockSize = bo mod kBlockSize"
  shows "(p + length (block_trailer bo)) mod kBlockSize = block_start bo"
proof -
  have "(p + length (block_trailer bo)) mod kBlockSize = (bo + length (block_trailer bo)) mod kBlockSize"
    by (rule mod_add_cong [OF assms(2) refl])
  also have "\<dots> = block_start bo mod kBlockSize" by (rule block_start_mod [OF assms(1)])
  also have "\<dots> = block_start bo" using assms(1) by (auto simp: block_start_def)
  finally show ?thesis .
qed

lemma record_type_not_zero: "record_type beg fin \<noteq> kZeroType"
  by (simp add: record_type_def)

lemma Consume_final:
  "ReadPhysicalRecord E fnum off r w = Some (type_code (record_type beg True), d, fnum', off', r')
   \<Longrightarrow> (beg \<Longrightarrow> scratch = []) \<Longrightarrow> Consume E scratch fnum off r w = Some (OK, scratch @ d, fnum', off', r')"
  by (subst Consume.simps) (simp add: record_type_def)

lemma Consume_more:
  "ReadPhysicalRecord E fnum off r w = Some (type_code (record_type beg False), d, fnum', off', r')
   \<Longrightarrow> (beg \<Longrightarrow> scratch = []) \<Longrightarrow> Consume E scratch fnum off r w = Consume E (scratch @ d) fnum' off' r' w"
  by (subst Consume.simps) (simp add: record_type_def)

context slash_fs
begin

text \<open>
  Consuming an encoded item gives the item and leaves the reader behind it. The reader may stand
  before bytes it skips in any case.
\<close>

lemma Consume_frames:
  assumes "frames bo beg item bs bo'" and "bo \<le> kBlockSize" and "item \<noteq> []"
    and "fs w q = Some (pre @ bs @ post)" and "length pre mod kBlockSize = bo mod kBlockSize"
    and "reader_at hpos r q n" and "n + reader_skip (n mod kBlockSize) = length pre + reader_skip (length pre mod kBlockSize)"
    and "beg \<Longrightarrow> scratch = []"
  shows "\<exists>r'. Consume E scratch fnum off r w
        = Some (OK, scratch @ item, rd_cur_filenum r, of_nat (length pre + length bs), r')
      \<and> reader_at hpos r' q (length pre + length bs) \<and> rd_cur_filenum r' = rd_cur_filenum r \<and> rd_logger r' = rd_logger r"
  using assms
proof (induction arbitrary: pre r n scratch fnum off rule: frames.induct)
  case (frames_last item bo beg now)
  let ?pre = "pre @ block_trailer bo"
  have "bo \<noteq> 65528" using frames_last.hyps frames_last.prems(2) by (auto simp: block_avail_def block_start_def)
  note sk = trailer_skip(1) [OF frames_last.prems(1,4) this]
  have len: "length ?pre = n + reader_skip (n mod kBlockSize)" using sk frames_last.prems(6) by simp
  have bd: "length ?pre mod kBlockSize + (kHeaderSize + length item) \<le> kBlockSize"
    using data_pos [OF frames_last.prems(1,4)] block_start_avail [OF frames_last.prems(1) frames_last.hyps] by simp
  have c: "fs w q = Some (?pre @ record_header (record_type beg True) (length item) now @ item @ post)"
    using frames_last.prems(3) by simp
  obtain r' where "ReadPhysicalRecord E fnum off r w = Some (type_code (record_type beg True), item, rd_cur_filenum r,
        of_nat (length ?pre + (kHeaderSize + length item)), r')"
      "reader_at hpos r' q (length ?pre + (kHeaderSize + length item))"
      "rd_cur_filenum r' = rd_cur_filenum r" "rd_logger r' = rd_logger r"
    by (rule ReadPhysicalRecord_data [OF frames_last.prems(5) c len frames_last.prems(2) record_type_not_zero bd])
  then show ?case
    using Consume_final [of E fnum off r w beg item _ _ r' scratch] frames_last.prems(7) by (auto simp: add.assoc)
next
  case (frames_more bo item bs bo' beg now)
  let ?d = "take (block_avail bo) item"
  let ?hd = "record_header (record_type beg False) (block_avail bo) now"
  let ?pre = "pre @ block_trailer bo" and ?pre' = "pre @ block_trailer bo @ ?hd @ ?d"
  note full = block_start_le [OF frames_more.prems(1)]
  have d: "length ?d = block_avail bo" using frames_more.hyps(1) by simp
  have "(length ?pre + (kHeaderSize + block_avail bo)) mod kBlockSize = (block_start bo + (kHeaderSize + block_avail bo)) mod kBlockSize"
    using data_pos [OF frames_more.prems(1,4)] by (metis length_append mod_add_left_eq)
  then have pos: "length ?pre' mod kBlockSize = 0" unfolding full by (simp add: d [simplified] add.assoc)
  have IH: "\<exists>r''. Consume E scratch' fnum' off' r' w
        = Some (OK, scratch' @ drop (block_avail bo) item, rd_cur_filenum r', of_nat (length ?pre' + length bs), r'')
      \<and> reader_at hpos r'' q (length ?pre' + length bs) \<and> rd_cur_filenum r'' = rd_cur_filenum r' \<and> rd_logger r'' = rd_logger r'"
    if "reader_at hpos r' q n'" "n' + reader_skip (n' mod kBlockSize) = length ?pre'" for r' n' scratch' fnum' off'
    by (rule frames_more.IH [unfolded full]) (use that frames_more.prems(3) frames_more.hyps(1) pos in \<open>simp_all add: reader_skip_def\<close>)
  show ?case
  proof (cases "bo = 65528")
    case True
    note sk = trailer_skip(2) [OF frames_more.prems(1,4) True]
    have "n + reader_skip (n mod kBlockSize) = length ?pre'" using frames_more.prems(6) sk by simp
    from IH [OF frames_more.prems(5) this, of scratch fnum off] show ?thesis using sk by (simp add: add.assoc)
  next
    case False
    note sk = trailer_skip(1) [OF frames_more.prems(1,4) False]
    have len: "length ?pre = n + reader_skip (n mod kBlockSize)" using sk frames_more.prems(6) by simp
    have bd: "length ?pre mod kBlockSize + (kHeaderSize + length ?d) \<le> kBlockSize"
      using data_pos [OF frames_more.prems(1,4)] full by (simp add: d [simplified])
    have ne: "?d \<noteq> []"
      using False frames_more.prems(1) d by (auto simp: block_avail_def block_start_def split: if_splits)
    have c: "fs w q = Some (?pre @ record_header (record_type beg False) (length ?d) now @ ?d @ bs @ post)"
      using frames_more.prems(3) by (simp add: d [simplified])
    obtain r' where rp: "ReadPhysicalRecord E fnum off r w = Some (type_code (record_type beg False), ?d, rd_cur_filenum r,
          of_nat (length ?pre + (kHeaderSize + length ?d)), r')"
        and at: "reader_at hpos r' q (length ?pre + (kHeaderSize + length ?d))"
        "rd_cur_filenum r' = rd_cur_filenum r" "rd_logger r' = rd_logger r"
      by (rule ReadPhysicalRecord_data [OF frames_more.prems(5) c len ne record_type_not_zero bd])
    have "length ?pre + (kHeaderSize + length ?d) = length ?pre'" by simp
    from IH [OF at(1) [unfolded this], of "scratch @ ?d"] show ?thesis
      using Consume_more [OF rp frames_more.prems(7)] at pos by (auto simp: d [simplified] reader_skip_def add.assoc)
  qed
qed

end

end
