(* ===== verification/Pika_Binlog_Channel.thy ===== *)
theory Pika_Binlog_Channel
  imports Pika_Binlog_Reader
begin

text \<open>
  The contract of the binlog: one writer (\<^verbatim>\<open>Binlog::Put\<close>) and one reader
  (\<^verbatim>\<open>PikaBinlogReader::Get\<close>) are a first-in first-out channel of items, across block boundaries
  and across the files the writer rolls to.
\<close>

section \<open>First-in first-out channels\<close>

datatype 'x chan_op = Enq 'x | Deq

primrec run_ops :: "('x \<Rightarrow> 's \<Rightarrow> 's option) \<Rightarrow> ('s \<Rightarrow> ('x option \<times> 's) option) \<Rightarrow> 'x chan_op list \<Rightarrow> 's
    \<Rightarrow> ('x option list \<times> 's) option" where
  "run_ops put get [] s = Some ([], s)"
| "run_ops put get (op # ops) s =
     (case op of
        Enq x \<Rightarrow> (case put x s of None \<Rightarrow> None | Some s \<Rightarrow> run_ops put get ops s)
      | Deq \<Rightarrow> (case get s of
                  None \<Rightarrow> None
                | Some (out, s) \<Rightarrow> map_option (\<lambda>(outs, s). (out # outs, s)) (run_ops put get ops s)))"

text \<open>The specification: what the reads of a sequence of operations deliver, and what stays queued.\<close>

primrec fifo_spec :: "'x chan_op list \<Rightarrow> 'x list \<Rightarrow> 'x option list \<times> 'x list" where
  "fifo_spec [] xs = ([], xs)"
| "fifo_spec (op # ops) xs =
     (case op of
        Enq x \<Rightarrow> fifo_spec ops (xs @ [x])
      | Deq \<Rightarrow> (case xs of
                  [] \<Rightarrow> map_prod (Cons None) id (fifo_spec ops [])
                | x # xs \<Rightarrow> map_prod (Cons (Some x)) id (fifo_spec ops xs)))"

locale fifo_channel =
  fixes put :: "'x \<Rightarrow> 's \<Rightarrow> 's option"
    and get :: "'s \<Rightarrow> ('x option \<times> 's) option"
    and rep :: "'s \<Rightarrow> 'x list \<Rightarrow> bool"
  assumes put_rep: "rep s xs \<Longrightarrow> put x s = Some s' \<Longrightarrow> rep s' (xs @ [x])"
    and get_empty: "rep s [] \<Longrightarrow> \<exists>s'. get s = Some (None, s') \<and> rep s' []"
    and get_item: "rep s (x # xs) \<Longrightarrow> \<exists>s'. get s = Some (Some x, s') \<and> rep s' xs"
begin

lemma run_fifo:
  "rep s xs \<Longrightarrow> run_ops put get ops s = Some (outs, s') \<Longrightarrow> outs = fst (fifo_spec ops xs) \<and> rep s' (snd (fifo_spec ops xs))"
proof (induction ops arbitrary: s xs outs)
  case (Cons op ops)
  show ?case
  proof (cases op)
    case (Enq x)
    with Cons.prems obtain s1 where s1: "put x s = Some s1" "run_ops put get ops s1 = Some (outs, s')"
      by (auto split: option.splits)
    from Cons.IH [OF put_rep [OF Cons.prems(1) s1(1)] s1(2)] Enq show ?thesis by simp
  next
    case Deq
    show ?thesis
    proof (cases xs)
      case Nil
      then show ?thesis using Cons Deq get_empty [of s] by fastforce
    next
      case (Cons y ys)
      then show ?thesis using Cons.IH Cons.prems Deq get_item [of s y ys] by fastforce
    qed
  qed
qed simp

text \<open>Reads alone never fail, and drain the channel in order.\<close>

lemma run_deq: "rep s xs \<Longrightarrow> \<exists>s'. run_ops put get (replicate (length xs + n) Deq) s = Some (map Some xs @ replicate n None, s')
    \<and> rep s' []"
proof (induction xs arbitrary: s)
  case Nil
  then show ?case
  proof (induction n arbitrary: s)
    case (Suc n)
    then show ?case using get_empty [of s] by fastforce
  qed simp
next
  case (Cons x xs)
  then show ?case using get_item [of s x xs] by fastforce
qed

end

section \<open>What lies ahead of a reader\<close>

text \<open>
  \<open>ahead F pn po f n xs\<close>: the items between position \<open>n\<close> of file \<open>f\<close> and the producer, who is
  at position \<open>po\<close> of file \<open>pn\<close>, are \<open>xs\<close>. \<open>F\<close> gives the contents of the files by number.
\<close>

inductive ahead :: "(u32 \<Rightarrow> bytes option) \<Rightarrow> u32 \<Rightarrow> nat \<Rightarrow> u32 \<Rightarrow> nat \<Rightarrow> bytes list \<Rightarrow> bool"
  for F :: "u32 \<Rightarrow> bytes option" and pn :: u32 and po :: nat where
  ahead_nil: "ahead F pn po pn po []"
| ahead_item: "F f = Some (pre @ bs @ post) \<Longrightarrow> length pre = n \<Longrightarrow> frames (n mod kBlockSize) True x bs bo \<Longrightarrow> x \<noteq> []
    \<Longrightarrow> ahead F pn po f (n + length bs) xs \<Longrightarrow> ahead F pn po f n (x # xs)"
| ahead_roll: "F f = Some c \<Longrightarrow> length c = n \<Longrightarrow> unat f < unat pn \<Longrightarrow> F (f + 1) \<noteq> None
    \<Longrightarrow> ahead F pn po (f + 1) 0 xs \<Longrightarrow> ahead F pn po f n xs"

lemma unat_suc: "unat (f :: u32) < 2 ^ 32 - 1 \<Longrightarrow> unat (f + 1) = unat f + 1"
  using unat_of_nat_small [of "unat f + 1", where 'a = 32, unfolded of_nat_add] by simp

lemma unat_suc_le: "unat (f :: u32) < unat (g :: u32) \<Longrightarrow> unat (f + 1) \<le> unat g"
  using unat_suc [of f] unsigned_less [of g, where 'a = nat] by simp

lemma ahead_le: "ahead F pn po f n xs \<Longrightarrow> unat f \<le> unat pn"
  by (induction rule: ahead.induct) auto

lemma ahead_append:
  assumes "ahead F pn po f n xs" and "F pn = Some c" and "length c = po"
    and "frames (po mod kBlockSize) True x bs' bo'" and "x \<noteq> []"
  shows "ahead (F(pn \<mapsto> c @ bs')) pn (po + length bs') f n (xs @ [x])"
  using assms
proof (induction rule: ahead.induct)
  case ahead_nil
  then show ?case
    using ahead.ahead_item [of "F(pn \<mapsto> c @ bs')" pn c bs' "[]" po x bo' pn "po + length bs'" "[]"]
    by (simp add: ahead.ahead_nil fun_upd_def)
next
  case (ahead_item f pre bs post n y bo xs)
  let ?F = "F(pn \<mapsto> c @ bs')"
  have "?F f = Some (pre @ bs @ (if f = pn then post @ bs' else post))"
    using ahead_item.hyps(1) ahead_item.prems(1) by auto
  then show ?case
    using ahead_item by (auto intro: ahead.ahead_item)
next
  case (ahead_roll f c' n xs)
  then have "f \<noteq> pn" by auto
  have "(F(pn \<mapsto> c @ bs')) f = Some c'" using \<open>f \<noteq> pn\<close> ahead_roll.hyps(1) by simp
  moreover have "(F(pn \<mapsto> c @ bs')) (f + 1) \<noteq> None" using ahead_roll.hyps(4) by simp
  ultimately show ?case
    by (rule ahead.ahead_roll [OF _ ahead_roll.hyps(2,3) _ ahead_roll.IH [OF ahead_roll.prems]])
qed

lemma ahead_new_file:
  assumes "ahead F pn po f n xs" and "F pn = Some c" and "length c = po" and "unat pn < 2 ^ 32 - 1"
    and "frames 0 True x bs' bo'" and "x \<noteq> []"
  shows "ahead (F(pn + 1 \<mapsto> bs')) (pn + 1) (length bs') f n (xs @ [x])"
proof -
  define G where "G = F(pn + 1 \<mapsto> bs')"
  have suc: "unat (pn + 1) = unat pn + 1"
    by (rule unat_suc [OF assms(4)])
  have new: "G (pn + 1) = Some bs'" and keep: "unat g \<le> unat pn \<Longrightarrow> G g = F g" for g
    using suc by (auto simp: G_def)
  have last: "ahead G (pn + 1) (length bs') (pn + 1) 0 [x]"
    using ahead.ahead_item [of G "pn + 1" "[]" bs' "[]" 0 x bo' "pn + 1" "length bs'" "[]"] assms(5,6) new
    by (simp add: ahead.ahead_nil)
  from assms(1) have "ahead G (pn + 1) (length bs') f n (xs @ [x])"
  proof (induction rule: ahead.induct)
    case ahead_nil
    have "G pn = Some c" "G (pn + 1) \<noteq> None" "unat pn < unat (pn + 1)"
      using assms(2) keep new suc by simp_all
    then show ?case using last assms(3) by (auto intro: ahead.ahead_roll)
  next
    case (ahead_item f pre bs post n y bo xs)
    have "G f = Some (pre @ bs @ post)"
      using ahead_item.hyps(1) keep [OF ahead_le [OF ahead_item.hyps(5)]] by simp
    then show ?case using ahead_item by (auto intro: ahead.ahead_item)
  next
    case (ahead_roll f c' n xs)
    have "G f = Some c'" using ahead_roll.hyps(1,3) keep by simp
    moreover have "G (f + 1) \<noteq> None" using ahead_roll.hyps(4) new keep [OF unat_suc_le [OF ahead_roll.hyps(3)]] by simp
    moreover have "unat f < unat (pn + 1)" using ahead_roll.hyps(3) suc by simp
    ultimately show ?case by (intro ahead.ahead_roll [OF _ ahead_roll.hyps(2)] ahead_roll.IH)
  qed
  then show ?thesis by (simp only: G_def)
qed

section \<open>Reading what lies ahead\<close>

definition log_files :: "('w \<Rightarrow> string \<Rightarrow> bytes option) \<Rightarrow> Binlog \<Rightarrow> 'w \<Rightarrow> u32 \<Rightarrow> bytes option" where
  "log_files fs b w = (\<lambda>k. fs w (NewFileName (bl_filename b) k))"

definition reader_ok :: "('h \<Rightarrow> string \<times> nat) \<Rightarrow> Binlog \<Rightarrow> 'h PikaBinlogReader \<Rightarrow> nat \<Rightarrow> bool" where
  "reader_ok hpos b r n \<longleftrightarrow> rd_logger r \<and> reader_at hpos r (NewFileName (bl_filename b) (rd_cur_filenum r)) n"

abbreviation items_ahead :: "('w \<Rightarrow> string \<Rightarrow> bytes option) \<Rightarrow> Binlog \<Rightarrow> 'w \<Rightarrow> u32 \<Rightarrow> nat \<Rightarrow> bytes list \<Rightarrow> bool" where
  "items_ahead fs b w \<equiv> ahead (log_files fs b w) (bl_pro_num b) (unat (ver_pro_offset (bl_version b)))"

text \<open>A writer with its reader.\<close>

definition chan_rep ::
  "('w, 'h) slash_env \<Rightarrow> ('w \<Rightarrow> string \<Rightarrow> bytes option) \<Rightarrow> ('h \<Rightarrow> string \<times> nat)
    \<Rightarrow> Binlog \<times> 'w \<times> 'h PikaBinlogReader \<Rightarrow> bytes list \<Rightarrow> bool" where
  "chan_rep E fs hpos s xs \<longleftrightarrow>
     (case s of (b, w, r) \<Rightarrow>
        binlog_ok E fs b w \<and> (\<exists>n. reader_ok hpos b r n \<and> items_ahead fs b w (rd_cur_filenum r) n xs))"

lemma reader_queue: "reader_ok hpos b r n \<Longrightarrow> rd_queue r \<noteq> None"
  by (auto simp: reader_ok_def reader_at_def split: option.splits)

lemma ReadToTheEnd_at:
  assumes "binlog_ok E fs b w" and "reader_ok hpos b r n" and "rd_cur_filenum r = bl_pro_num b \<Longrightarrow> n < 2 ^ 64"
  shows "ReadToTheEnd b r = Some (rd_cur_filenum r = bl_pro_num b \<and> n = unat (ver_pro_offset (bl_version b)))"
proof -
  have "rd_cur_offset r = of_nat n" using assms(2) by (simp add: reader_ok_def reader_at_def)
  then have "ver_pro_offset (bl_version b) = rd_cur_offset r \<longleftrightarrow> n = unat (ver_pro_offset (bl_version b))"
    if "rd_cur_filenum r = bl_pro_num b"
    using unat_of_nat_small [of n, where 'a = 64] assms(3) that by auto
  moreover have "bl_opened b" "bl_pro_num b = ver_pro_num (bl_version b)"
    using assms(1) by (auto elim: binlog_okE)
  ultimately show ?thesis by (auto simp: ReadToTheEnd_def Binlog_GetProducerStatus_def)
qed

context slash_fs
begin

lemma Consume_end:
  assumes "reader_at hpos r q n" and "fs w q = Some c" and "length c \<le> n"
  obtains r' where "Consume E scratch fnum off r w = Some (EndFile ''Eof'', scratch, fnum, off, r')"
    and "rd_cur_filenum r' = rd_cur_filenum r" and "rd_logger r' = rd_logger r"
proof -
  obtain t r' where "ReadPhysicalRecord E fnum off r w = Some (t, [], fnum, off, r')"
    "t = type_code kEof \<or> t = type_code kOldRecord"
    "rd_cur_filenum r' = rd_cur_filenum r" "rd_logger r' = rd_logger r"
    by (rule ReadPhysicalRecord_end [OF assms])
  then show thesis using that by (subst (asm) Consume.simps) auto
qed

text \<open>A step of the loop of \<^verbatim>\<open>Get\<close> over the end of a file that is followed by another.\<close>

lemma get_loop_roll:
  assumes "binlog_ok E fs b w" and "reader_ok hpos b r n" and "log_files fs b w (rd_cur_filenum r) = Some c"
    and "length c = n" and "rd_cur_filenum r \<noteq> bl_pro_num b"
    and "log_files fs b w (rd_cur_filenum r + 1) \<noteq> None"
  obtains r' where "get_loop E b scratch fnum off r w = get_loop E b scratch fnum off r' w"
    and "reader_ok hpos b r' 0" and "rd_cur_filenum r' = rd_cur_filenum r + 1"
proof -
  let ?q = "NewFileName (bl_filename b) (rd_cur_filenum r)" and ?q' = "NewFileName (bl_filename b) (rd_cur_filenum r + 1)"
  have at: "reader_at hpos r ?q n" "rd_logger r" using assms(2) by (simp_all add: reader_ok_def)
  obtain r1 where c: "Consume E scratch fnum off r w = Some (EndFile ''Eof'', scratch, fnum, off, r1)"
    and r1: "rd_cur_filenum r1 = rd_cur_filenum r" "rd_logger r1 = rd_logger r"
    using Consume_end [OF at(1)] assms(3,4) unfolding log_files_def by (metis order_refl)
  from assms(6) obtain c' where c': "fs w ?q' = Some c'" by (auto simp: log_files_def)
  obtain h where h: "env_NewSequentialFile E ?q' w = (OK, h)" "hpos h = (?q', 0)"
    using new_sequential [OF c'] by blast
  have ex: "env_FileExists E ?q' w" using c' exists_iff by simp
  let ?r = "r1\<lparr>rd_queue := Some h, rd_cur_filenum := rd_cur_filenum r1 + 1, rd_cur_offset := 0, rd_last_record_offset := 0\<rparr>"
  have "get_loop E b scratch fnum off r w = get_loop E b scratch fnum off ?r w"
    using ReadToTheEnd_at [OF assms(1,2)] assms(5) c h ex r1
    by (subst get_loop.simps) (simp add: status_simps)
  moreover have "reader_ok hpos b ?r 0"
    using h(2) at(2) r1 by (auto simp: reader_ok_def reader_at_def intro!: exI [of _ 0])
  ultimately show thesis using that r1 by simp
qed

lemma get_loop_ahead:
  assumes "binlog_ok E fs b w" and "items_ahead fs b w f n ys" and "reader_ok hpos b r n" and "rd_cur_filenum r = f"
  shows "\<exists>s item fnum' off' r' n'. get_loop E b [] fnum off r w = Some (s, item, fnum', off', r') \<and> reader_ok hpos b r' n'
    \<and> (case ys of
         [] \<Rightarrow> IsEndFile s \<and> items_ahead fs b w (rd_cur_filenum r') n' []
                 \<and> (unat f < unat (rd_cur_filenum r') \<or> f = rd_cur_filenum r' \<and> n \<le> n')
       | x # xs \<Rightarrow> s = OK \<and> item = x \<and> fnum' = rd_cur_filenum r' \<and> off' = of_nat n'
                     \<and> items_ahead fs b w (rd_cur_filenum r') n' xs
                     \<and> (unat f < unat (rd_cur_filenum r') \<or> f = rd_cur_filenum r' \<and> n < n')
                     \<and> (\<exists>c. log_files fs b w (rd_cur_filenum r') = Some c \<and> n' \<le> length c))"
  using assms(2-4)
proof (induction arbitrary: r rule: ahead.induct)
  case ahead_nil
  have "ReadToTheEnd b r = Some True"
    using ReadToTheEnd_at [OF assms(1) ahead_nil(1)] ahead_nil(2) unsigned_less [of "ver_pro_offset (bl_version b)", where 'a = nat]
    by simp
  then have "get_loop E b [] fnum off r w = Some (EndFile ''End of cur log file'', [], fnum, off, r)"
    by (subst get_loop.simps) simp
  then show ?case using ahead_nil ahead.ahead_nil by (fastforce simp: status_simps)
next
  case (ahead_item f pre bs post n x bo xs)
  let ?q = "NewFileName (bl_filename b) f"
  have c: "fs w ?q = Some (pre @ bs @ post)" using ahead_item.hyps(1) by (simp add: log_files_def)
  have len: "n < length (pre @ bs @ post)" using frames_length [OF ahead_item.hyps(3)] ahead_item.hyps(2) by auto
  have "length (pre @ bs @ post) = unat (ver_pro_offset (bl_version b)) \<and> length (pre @ bs @ post) < 2 ^ 31"
    if "f = bl_pro_num b" using assms(1) c that by (auto elim!: binlog_okE)
  with len have "f = bl_pro_num b \<Longrightarrow> n < 2 ^ 64 \<and> n \<noteq> unat (ver_pro_offset (bl_version b))" by fastforce
  then have "ReadToTheEnd b r = Some False"
    using ReadToTheEnd_at [OF assms(1) ahead_item.prems(1)] ahead_item.prems(2) by auto
  moreover obtain r' where co: "Consume E [] fnum off r w = Some (OK, x, rd_cur_filenum r, of_nat (n + length bs), r')"
      and r': "reader_at hpos r' ?q (n + length bs)" "rd_cur_filenum r' = rd_cur_filenum r" "rd_logger r' = rd_logger r"
    using Consume_frames [OF ahead_item.hyps(3) _ ahead_item.hyps(4) c, of r n "[]"] ahead_item.prems ahead_item.hyps(2)
    by (auto simp: reader_ok_def)
  ultimately have "get_loop E b [] fnum off r w = Some (OK, x, f, of_nat (n + length bs), r')"
    using ahead_item.prems(2) by (subst get_loop.simps) (simp add: status_simps)
  moreover have "reader_ok hpos b r' (n + length bs)" using r' ahead_item.prems by (simp add: reader_ok_def)
  moreover have "0 < length bs" using frames_length [OF ahead_item.hyps(3)] by auto
  ultimately show ?case using ahead_item.hyps(1,2,5) r'(2) ahead_item.prems(2) by auto
next
  case (ahead_roll f c n xs)
  have "rd_cur_filenum r \<noteq> bl_pro_num b" using ahead_roll.hyps(3) ahead_roll.prems(2) by auto
  then obtain r' where "get_loop E b [] fnum off r w = get_loop E b [] fnum off r' w"
    "reader_ok hpos b r' 0" "rd_cur_filenum r' = f + 1"
    using get_loop_roll [OF assms(1) ahead_roll.prems(1), of c "[]" fnum off] ahead_roll.hyps(1,2,4) ahead_roll.prems(2)
    by blast
  moreover have "unat f < unat (f + 1)"
    using unat_suc [of f] ahead_roll.hyps(3) unsigned_less [of "bl_pro_num b", where 'a = nat] by simp
  ultimately show ?case using ahead_roll.IH [of r'] by (cases xs) fastforce+
qed

end

section \<open>The binlog as a channel\<close>

text \<open>
  A write that the contract covers: a non-empty item, a position the 32-bit arithmetic of
  \<^verbatim>\<open>Produce\<close> can represent, a file number that does not wrap, and a \<^verbatim>\<open>Put\<close> that returns OK.
\<close>

definition chan_put :: "('w, 'h) slash_env \<Rightarrow> bytes \<Rightarrow> Binlog \<times> 'w \<times> 'h PikaBinlogReader
    \<Rightarrow> (Binlog \<times> 'w \<times> 'h PikaBinlogReader) option" where
  "chan_put E x s =
     (case s of (b, w, r) \<Rightarrow>
        if x = [] \<or> \<not> unat (ver_pro_offset (bl_version b)) + 2 * length x + 23 < 2 ^ 31
           \<or> \<not> unat (bl_pro_num b) < 2 ^ 32 - 1 \<or> \<not> length (bl_filename b) \<le> 245 then None
        else case Binlog_Put E x b w of
               None \<Rightarrow> None
             | Some (st, b, w) \<Rightarrow> if st = OK then Some (b, w, r) else None)"

definition chan_get :: "('w, 'h) slash_env \<Rightarrow> Binlog \<times> 'w \<times> 'h PikaBinlogReader
    \<Rightarrow> (bytes option \<times> Binlog \<times> 'w \<times> 'h PikaBinlogReader) option" where
  "chan_get E s =
     (case s of (b, w, r) \<Rightarrow>
        (case Get E b [] 0 0 r w of
           None \<Rightarrow> None
         | Some (st, item, _, _, r) \<Rightarrow> Some (if st = OK then Some item else None, b, w, r)))"

lemma log_files_upd:
  assumes "fs w' = (fs w)(NewFileName (bl_filename b) k \<mapsto> c)" and "bl_filename b' = bl_filename b"
    and "length (bl_filename b) \<le> 245"
  shows "log_files fs b' w' = (log_files fs b w)(k \<mapsto> c)"
  using assms NewFileName_inj [OF assms(3)] by (auto simp: log_files_def fun_eq_iff)

lemma reader_ok_filename: "bl_filename b' = bl_filename b \<Longrightarrow> reader_ok hpos b' r n = reader_ok hpos b r n"
  by (simp add: reader_ok_def)

context slash_fs
begin

lemma Put_ahead:
  assumes "binlog_ok E fs b w" and "Binlog_Put E x b w = Some (OK, b', w')" and "items_ahead fs b w f n xs"
    and "x \<noteq> []" and "unat (ver_pro_offset (bl_version b)) + 2 * length x + 23 < 2 ^ 31"
    and "unat (bl_pro_num b) < 2 ^ 32 - 1" and "length (bl_filename b) \<le> 245"
  shows "items_ahead fs b' w' f n (xs @ [x])"
proof -
  note ef = Put_effect [OF slash_fs_axioms assms(1,2,5)]
  then have ok': "binlog_ok E fs b' w'" and fn: "bl_filename b' = bl_filename b" by blast+
  have po: "fs w (NewFileName (bl_filename b) (bl_pro_num b)) = Some c \<Longrightarrow> length c = unat (ver_pro_offset (bl_version b))"
    if "binlog_ok E fs b w" for b w c using that by (auto elim!: binlog_okE)
  have ex: "\<exists>c. fs w (NewFileName (bl_filename b) (bl_pro_num b)) = Some c"
    using assms(1) by (auto elim!: binlog_okE)
  show ?thesis
  proof (cases "bl_file_size b < ver_pro_offset (bl_version b)")
    case True
    with ef obtain bs bo where fr: "frames 0 True x bs bo" and pn: "bl_pro_num b' = bl_pro_num b + 1"
      and w': "fs w' = (fs w)(NewFileName (bl_filename b) (bl_pro_num b + 1) \<mapsto> bs)" by auto
    have "unat (ver_pro_offset (bl_version b')) = length bs"
      using po [OF ok', of bs] w' fn pn by simp
    with ahead_new_file [OF assms(3) _ _ assms(6) fr assms(4)] ex po [OF assms(1)] show ?thesis
      unfolding log_files_upd [OF w' fn assms(7)] pn by (auto simp: log_files_def)
  next
    case False
    with ef obtain c bs bo where c: "fs w (NewFileName (bl_filename b) (bl_pro_num b)) = Some c"
      and fr: "frames (length c mod kBlockSize) True x bs bo" and pn: "bl_pro_num b' = bl_pro_num b"
      and w': "fs w' = (fs w)(NewFileName (bl_filename b) (bl_pro_num b) \<mapsto> c @ bs)" by auto
    have "unat (ver_pro_offset (bl_version b')) = length c + length bs"
      using po [OF ok', of "c @ bs"] w' fn pn by simp
    with ahead_append [OF assms(3) _ _ _ assms(4), of c bs bo] c po [OF assms(1) c] fr show ?thesis
      unfolding log_files_upd [OF w' fn assms(7)] pn by (simp add: log_files_def)
  qed
qed

lemma chan_put_rep:
  assumes "chan_rep E fs hpos s xs" and "chan_put E x s = Some s'"
  shows "chan_rep E fs hpos s' (xs @ [x])"
proof -
  obtain b w r where s: "s = (b, w, r)" by (cases s)
  from assms(1) obtain n where ok: "binlog_ok E fs b w" and rd: "reader_ok hpos b r n"
    and ah: "items_ahead fs b w (rd_cur_filenum r) n xs" by (auto simp: chan_rep_def s)
  from assms(2) obtain b' w' where p: "Binlog_Put E x b w = Some (OK, b', w')" and s': "s' = (b', w', r)"
    and g: "x \<noteq> []" "unat (ver_pro_offset (bl_version b)) + 2 * length x + 23 < 2 ^ 31"
      "unat (bl_pro_num b) < 2 ^ 32 - 1" "length (bl_filename b) \<le> 245"
    by (auto simp: chan_put_def s split: if_splits option.splits prod.splits)
  from Put_effect [OF slash_fs_axioms ok p g(2)] have ok': "binlog_ok E fs b' w'" "bl_filename b' = bl_filename b" by blast+
  then show ?thesis
    using Put_ahead [OF ok p ah g] rd reader_ok_filename [OF ok'(2)] by (auto simp: chan_rep_def s')
qed

lemma chan_get_rep:
  assumes "chan_rep E fs hpos s xs"
  shows "\<exists>s'. chan_get E s = Some (case xs of [] \<Rightarrow> None | x # _ \<Rightarrow> Some x, s') \<and> chan_rep E fs hpos s' (tl xs)"
proof -
  obtain b w r where s: "s = (b, w, r)" by (cases s)
  from assms obtain n where ok: "binlog_ok E fs b w" and rd: "reader_ok hpos b r n"
    and ah: "items_ahead fs b w (rd_cur_filenum r) n xs" by (auto simp: chan_rep_def s)
  have "Get E b [] 0 0 r w = get_loop E b [] 0 0 r w"
    using rd reader_queue [OF rd] by (auto simp: Get_def reader_ok_def)
  with get_loop_ahead [OF ok ah rd refl, of 0 0] ok show ?thesis
    by (fastforce simp: chan_get_def s chan_rep_def status_simps split: list.splits)
qed

end

sublocale slash_fs \<subseteq> chan: fifo_channel "chan_put E" "chan_get E" "chan_rep E fs hpos"
proof
  show "chan_rep E fs hpos s xs \<Longrightarrow> chan_put E x s = Some s' \<Longrightarrow> chan_rep E fs hpos s' (xs @ [x])" for s xs x s'
    by (rule chan_put_rep)
  show "chan_rep E fs hpos s [] \<Longrightarrow> \<exists>s'. chan_get E s = Some (None, s') \<and> chan_rep E fs hpos s' []" for s
    using chan_get_rep [of s "[]"] by simp
  show "chan_rep E fs hpos s (x # xs) \<Longrightarrow> \<exists>s'. chan_get E s = Some (Some x, s') \<and> chan_rep E fs hpos s' xs" for s x xs
    using chan_get_rep [of s "x # xs"] by simp
qed

end
