(* ===== verification/Pika_Binlog_Seek.thy ===== *)
theory Pika_Binlog_Seek
  imports Pika_Binlog_Channel
begin

text \<open>
  \<^verbatim>\<open>PikaBinlogReader::Seek\<close>: it opens a file at the start of the block of the wanted offset and
  passes whole items until the offset is reached. It finds every position at which an item ends,
  whatever items, continued items and padding the block holds before it.
\<close>

section \<open>The records of the last block\<close>

definition block_tail :: "bytes \<Rightarrow> bytes" where
  "block_tail c = drop (length c - length c mod kBlockSize) c"

lemma block_tail_append: "length c mod kBlockSize + length d < kBlockSize \<Longrightarrow> block_tail (c @ d) = block_tail c @ d"
proof -
  assume "length c mod kBlockSize + length d < kBlockSize"
  then have "length (c @ d) mod kBlockSize = length c mod kBlockSize + length d"
    by (metis length_append mod_add_left_eq mod_less)
  then show ?thesis by (simp add: block_tail_def)
qed

lemma block_tail_full: "length c mod kBlockSize = 0 \<Longrightarrow> block_tail c = []"
  by (simp add: block_tail_def)

lemma length_block_tail: "length (block_tail c) = length c mod kBlockSize"
  by (simp add: block_tail_def)

type_synonym phys_record = "RecordType \<times> u64 \<times> bytes"

definition enc_record :: "phys_record \<Rightarrow> bytes" where
  "enc_record p = (case p of (t, now, d) \<Rightarrow> record_header t (length d) now @ d)"

lemma enc_record_tuple: "enc_record (t, now, d) = record_header t (length d) now @ d"
  by (simp add: enc_record_def)

abbreviation enc_records :: "phys_record list \<Rightarrow> bytes" where
  "enc_records ps \<equiv> concat (map enc_record ps)"

definition ends_item :: "phys_record \<Rightarrow> bool" where
  "ends_item p \<longleftrightarrow> fst p = kFullType \<or> fst p = kLastType \<or> fst p = kBadRecord"

definition starts_or_continues :: "phys_record \<Rightarrow> bool" where
  "starts_or_continues p \<longleftrightarrow> fst p = kFirstType \<or> fst p = kMiddleType"

definition good_record :: "phys_record \<Rightarrow> bool" where
  "good_record p \<longleftrightarrow> (ends_item p \<or> starts_or_continues p) \<and> length (snd (snd p)) \<le> kBlockSize - kHeaderSize"

text \<open>The last block of \<open>c\<close> is made of whole records, the last of which ends an item.\<close>

definition tail_ok :: "bytes \<Rightarrow> bool" where
  "tail_ok c \<longleftrightarrow> (\<exists>ps. block_tail c = enc_records ps \<and> list_all good_record ps \<and> (ps = [] \<or> ends_item (last ps)))"

text \<open>The same without the condition on the last record: what a partly written item leaves.\<close>

definition tail_recs :: "bytes \<Rightarrow> bool" where
  "tail_recs c \<longleftrightarrow> (\<exists>ps. block_tail c = enc_records ps \<and> list_all good_record ps)"

lemma tail_ok_recs: "tail_ok c \<Longrightarrow> tail_recs c"
  by (auto simp: tail_ok_def tail_recs_def)

lemma tail_ok_full: "length c mod kBlockSize = 0 \<Longrightarrow> tail_ok c"
  by (auto simp: tail_ok_def block_tail_full intro: exI [of _ "[]"])

lemma tail_recs_trailer:
  assumes "tail_recs c" and "bo \<le> kBlockSize" and "length c mod kBlockSize = bo mod kBlockSize"
  shows "tail_recs (c @ block_trailer bo)"
proof (cases "block_start bo = 0")
  case True
  then show ?thesis
    using data_pos [OF assms(2,3)] by (intro tail_ok_recs tail_ok_full) simp
next
  case False
  then have "block_trailer bo = []" by (auto simp: block_start_def block_trailer_def split: if_splits)
  then show ?thesis using assms(1) by simp
qed

lemma frames_tail:
  assumes "frames bo beg item bs bo'" and "bo \<le> kBlockSize" and "length c mod kBlockSize = bo mod kBlockSize" and "tail_recs c"
  shows "tail_ok (c @ bs)"
  using assms
proof (induction arbitrary: c rule: frames.induct)
  case (frames_last item bo beg now)
  let ?c = "c @ block_trailer bo" and ?p = "(record_type beg True, now, item)"
  have pos: "length ?c mod kBlockSize = block_start bo"
    using data_pos [OF frames_last.prems(1,2)] by simp
  have le: "block_start bo + (kHeaderSize + length item) \<le> kBlockSize"
    by (rule block_start_avail [OF frames_last.prems(1) frames_last.hyps])
  show ?case
  proof (cases "block_start bo + (kHeaderSize + length item) = kBlockSize")
    case True
    then have "(length ?c + (kHeaderSize + length item)) mod kBlockSize = 0"
      using pos by (metis mod_add_left_eq mod_self)
    then show ?thesis by (intro tail_ok_full) (simp add: add.assoc)
  next
    case False
    from tail_recs_trailer [OF frames_last.prems(3,1,2)] obtain ps where
      ps: "block_tail ?c = enc_records ps" "list_all good_record ps" by (auto simp: tail_recs_def)
    have "block_tail (?c @ enc_record ?p) = enc_records (ps @ [?p])"
      using block_tail_append [of ?c "enc_record ?p"] pos le False ps(1) by (simp add: enc_record_def)
    moreover have "list_all good_record (ps @ [?p])" "ends_item (last (ps @ [?p]))"
      using ps(2) le by (auto simp: good_record_def ends_item_def record_type_def)
    ultimately show ?thesis
      unfolding tail_ok_def by (intro exI [of _ "ps @ [?p]"]) (simp add: enc_record_def)
  qed
next
  case (frames_more bo item bs bo' beg now)
  let ?c = "c @ block_trailer bo"
  let ?d = "record_header (record_type beg False) (block_avail bo) now @ take (block_avail bo) item"
  note full = block_start_le [OF frames_more.prems(1)]
  have "length (?c @ ?d) mod kBlockSize = (length ?c + (kHeaderSize + block_avail bo)) mod kBlockSize"
    using frames_more.hyps(1) by (simp add: add.assoc)
  also have "\<dots> = (block_start bo + (kHeaderSize + block_avail bo)) mod kBlockSize"
    using data_pos [OF frames_more.prems(1,2)] by (metis length_append mod_add_left_eq)
  finally have z: "length (?c @ ?d) mod kBlockSize = 0" unfolding full by simp
  have "tail_ok ((?c @ ?d) @ bs)"
    by (rule frames_more.IH [unfolded full, OF order_refl _ tail_ok_recs [OF tail_ok_full [OF z]]]) (use z in simp)
  then show ?case by simp
qed

text \<open>The files the writer makes: padding, then items.\<close>

inductive log_file :: "bytes \<Rightarrow> bool" where
  log_pad: "log_file (pad_blocks now n)"
| log_snoc: "log_file c \<Longrightarrow> frames (length c mod kBlockSize) True x bs bo \<Longrightarrow> log_file (c @ bs)"

lemma pad_blocks_tail:
  "length c mod kBlockSize = 0 \<Longrightarrow> tail_ok (c @ pad_blocks now n)"
proof (induction now n arbitrary: c rule: pad_blocks.induct)
  case (1 now n)
  consider "n < kHeaderSize" | "kHeaderSize \<le> n" "n < kBlockSize" | "kBlockSize \<le> n" by linarith
  then show ?case
  proof cases
    case 1
    then show ?thesis using "1.prems" by (subst pad_blocks.simps) (simp add: tail_ok_full)
  next
    case 2
    let ?p = "(kBadRecord, now, replicate (n - kHeaderSize) (CHR ''*''))"
    have "pad_blocks now n = enc_record ?p"
      using 2 by (subst pad_blocks.simps) (simp add: enc_record_def pad_blocks.simps [of now 0])
    moreover have "block_tail (c @ enc_record ?p) = enc_records [?p]"
      using block_tail_append [of c "enc_record ?p"] "1.prems" 2 block_tail_full [of c] by (simp add: enc_record_def)
    ultimately show ?thesis
      using 2 unfolding tail_ok_def by (intro exI [of _ "[?p]"]) (simp add: good_record_def ends_item_def)
  next
    case 3
    let ?d = "record_header kBadRecord (kBlockSize - kHeaderSize) now @ replicate (kBlockSize - kHeaderSize) (CHR ''*'')"
    have "pad_blocks now n = ?d @ pad_blocks now (n - kBlockSize)"
      using 3 by (subst pad_blocks.simps) (simp add: min_def)
    moreover have "tail_ok ((c @ ?d) @ pad_blocks now (n - kBlockSize))"
      using "1.IH" [of "c @ ?d"] "1.prems" 3 by (simp add: min_absorb2)
    ultimately show ?thesis by simp
  qed
qed

lemma log_file_empty: "log_file []"
  using log_pad [of 0 0] by (simp add: pad_blocks.simps)

lemma log_file_tail: "log_file c \<Longrightarrow> tail_ok c"
proof (induction rule: log_file.induct)
  case (log_pad now n)
  then show ?case using pad_blocks_tail [of "[]" now n] by simp
next
  case (log_snoc c x bs bo)
  then show ?case by (intro frames_tail [OF log_snoc.hyps(2)] tail_ok_recs) simp_all
qed

section \<open>Passing items\<close>

lemma length_enc_record: "length (enc_record p) = kHeaderSize + length (snd (snd p))"
  by (simp add: enc_record_def split: prod.splits)

context slash_fs
begin

text \<open>\<^verbatim>\<open>GetNext\<close> passes the records up to the first that ends an item.\<close>

lemma get_next_items:
  assumes "fs w q = Some (pre @ enc_records ps @ post)" and "rd_queue r = Some h" and "hpos h = (q, length pre)"
    and "ps \<noteq> []" and "list_all good_record ps" and "ends_item (last ps)"
  shows "\<exists>ps1 ps2 h'. ps = ps1 @ ps2 \<and> ps1 \<noteq> [] \<and> hpos h' = (q, length (pre @ enc_records ps1))
    \<and> get_next_loop E o0 r w = Some (False, o0 + of_nat (length (enc_records ps1)), r\<lparr>rd_queue := Some h'\<rparr>)"
  using assms
proof (induction ps arbitrary: pre r h o0)
  case (Cons p ps)
  obtain t now d where p: "p = (t, now, d)" by (cases p)
  have len: "length d \<le> kBlockSize - kHeaderSize" using Cons.prems(5) by (simp add: p good_record_def)
  have c: "fs w q = Some (pre @ record_header t (length d) now @ d @ enc_records ps @ post)"
    using Cons.prems(1) by (simp add: p enc_record_tuple)
  obtain h1 where r1: "env_Read E h kHeaderSize w = (OK, record_header t (length d) now, h1)"
    and h1: "hpos h1 = (q, length pre + kHeaderSize)"
    by (rule read_exact [OF c Cons.prems(3), of kHeaderSize]) simp
  have c2: "fs w q = Some ((pre @ record_header t (length d) now) @ d @ enc_records ps @ post)" using c by simp
  obtain h2 where r2: "env_Read E h1 (length d) w = (OK, d, h2)" and h2: "hpos h2 = (q, length (pre @ enc_record p))"
    by (rule read_exact [OF c2, of h1 "length d"]) (use h1 in \<open>simp_all add: p enc_record_tuple add.assoc\<close>)
  have hf: "header_fields (record_header t (length d) now) = Some (length d, type_code t)"
    using len by (intro header_fields_record) simp
  note step = get_next_loop.simps [of E o0 r w]
  show ?case
  proof (cases "ends_item p")
    case True
    then have "get_next_loop E o0 r w = Some (False, o0 + of_nat (length (enc_records [p])), r\<lparr>rd_queue := Some h2\<rparr>)"
      using Cons.prems(2) r1 hf len r2 by (subst step) (auto simp: p ends_item_def enc_record_tuple)
    then show ?thesis using h2 by (intro exI [of _ "[p]"] exI [of _ ps] exI [of _ h2]) simp
  next
    case False
    with Cons.prems(5) have "starts_or_continues p" by (simp add: good_record_def)
    then have st: "get_next_loop E o0 r w
        = get_next_loop E (o0 + of_nat (kHeaderSize + length d)) (r\<lparr>rd_queue := Some h2\<rparr>) w"
      using Cons.prems(2) r1 hf len r2 by (subst step) (auto simp: p starts_or_continues_def)
    have ne: "ps \<noteq> []" using False Cons.prems(6) by auto
    have "fs w q = Some ((pre @ enc_record p) @ enc_records ps @ post)" using Cons.prems(1) by simp
    from Cons.IH [OF this, of "r\<lparr>rd_queue := Some h2\<rparr>" h2 "o0 + of_nat (kHeaderSize + length d)"] h2 ne Cons.prems(5,6)
    obtain ps1 ps2 h' where "ps = ps1 @ ps2" "ps1 \<noteq> []" "hpos h' = (q, length ((pre @ enc_record p) @ enc_records ps1))"
      "get_next_loop E (o0 + of_nat (kHeaderSize + length d)) (r\<lparr>rd_queue := Some h2\<rparr>) w
        = Some (False, o0 + of_nat (kHeaderSize + length d) + of_nat (length (enc_records ps1)), r\<lparr>rd_queue := Some h'\<rparr>)"
      by auto
    then show ?thesis
      using st by (intro exI [of _ "p # ps1"] exI [of _ ps2] exI [of _ h']) (simp add: p enc_record_tuple add.assoc)
  qed
qed simp

lemma seek_loop_items:
  assumes "fs w q = Some (pre @ enc_records ps @ post)" and "rd_queue r = Some h" and "hpos h = (q, length pre)"
    and "list_all good_record ps" and "ps = [] \<or> ends_item (last ps)" and "a + length (enc_records ps) < kBlockSize"
  shows "\<exists>h'. hpos h' = (q, length pre + length (enc_records ps))
    \<and> seek_loop E sb (of_nat (a + length (enc_records ps))) (of_nat a) r w
        = Some (0, r\<lparr>rd_queue := Some h', rd_cur_offset := sb + of_nat (a + length (enc_records ps))\<rparr>)"
  using assms
proof (induction "length ps" arbitrary: ps pre r h a rule: less_induct)
  case less
  note step = seek_loop.simps [of E sb "of_nat (a + length (enc_records ps))" "of_nat a" r w]
  show ?case
  proof (cases "ps = []")
    case True
    then show ?thesis using less.prems(2,3) by (subst step) auto
  next
    case False
    then have "0 < length (enc_records ps)" by (cases ps) (simp_all add: length_enc_record)
    then have "(of_nat a :: u64) < of_nat (a + length (enc_records ps))"
      using less.prems(6) unat_of_nat_small [of a, where 'a = 64] unat_of_nat_small [of "a + length (enc_records ps)", where 'a = 64]
      by (simp add: word_less_nat_alt del: of_nat_add)
    moreover obtain ps1 ps2 h' where g: "ps = ps1 @ ps2" "ps1 \<noteq> []" "hpos h' = (q, length (pre @ enc_records ps1))"
      "GetNext E r w = Some (False, of_nat (length (enc_records ps1)), r\<lparr>rd_queue := Some h'\<rparr>)"
      using get_next_items [OF less.prems(1-3) False less.prems(4), of 0] less.prems(5) False by (auto simp: GetNext_def)
    ultimately have st: "seek_loop E sb (of_nat (a + length (enc_records ps))) (of_nat a) r w
      = seek_loop E sb (of_nat (a + length (enc_records ps1) + length (enc_records ps2))) (of_nat (a + length (enc_records ps1)))
          (r\<lparr>rd_queue := Some h'\<rparr>) w"
      by (subst step) (auto simp: add.assoc not_le)
    have "fs w q = Some ((pre @ enc_records ps1) @ enc_records ps2 @ post)" using less.prems(1) g(1) by simp
    moreover have "ps2 = [] \<or> ends_item (last ps2)" using less.prems(5) g(1) by (auto simp: last_append split: if_splits)
    ultimately show ?thesis
      using less.hyps [of ps2 "pre @ enc_records ps1" "r\<lparr>rd_queue := Some h'\<rparr>" h' "a + length (enc_records ps1)"]
        g less.prems(4,6)
      unfolding st by (auto simp: add.assoc)
  qed
qed

lemma Seek_at:
  assumes "fs w (NewFileName (bl_filename b) f) = Some c" and "n \<le> length c" and "tail_ok (take n c)" and "n < 2 ^ 63"
  shows "\<exists>r'. Seek E b f (of_nat n) r w = Some (0, r') \<and> reader_ok hpos b r' n \<and> rd_cur_filenum r' = f"
proof -
  let ?q = "NewFileName (bl_filename b) f"
  let ?st = "n div kBlockSize * kBlockSize" and ?bo = "n mod kBlockSize"
  have split: "?st + ?bo = n" by (rule div_mult_mod_eq)
  have dv: "(of_nat n :: u64) div of_nat kBlockSize = of_nat (n div kBlockSize)"
    "(of_nat n :: u64) mod of_nat kBlockSize = of_nat (n mod kBlockSize)"
    using assms(4) by (simp_all add: word_arith_nat_div word_arith_nat_mod unat_of_nat_small)
  have mult: "(of_nat (n div kBlockSize) :: u64) * of_nat kBlockSize = of_nat ?st" by simp
  have st: "unat (of_nat ?st :: u64) = ?st"
    using assms(4) split by (intro unat_of_nat_small) simp
  from assms(3) obtain ps where ps: "block_tail (take n c) = enc_records ps" "list_all good_record ps" "ps = [] \<or> ends_item (last ps)"
    by (auto simp: tail_ok_def)
  have "block_tail (take n c) = drop ?st (take n c)"
    using assms(2) by (simp add: block_tail_def min_def minus_mod_eq_div_mult)
  then have ct: "c = take ?st c @ enc_records ps @ drop n c"
    using ps(1) assms(2) split by (metis append_assoc append_take_drop_id le_add1 take_take min.absorb1)
  have lp: "length (enc_records ps) = ?bo" "length (take ?st c) = ?st"
    using length_block_tail [of "take n c"] ps(1) assms(2) split by simp_all
  obtain h0 where h0: "env_NewSequentialFile E ?q w = (OK, h0)" "hpos h0 = (?q, 0)"
    using new_sequential [OF assms(1)] by blast
  obtain h where h: "env_Skip E h0 ?st w = (OK, h)" "hpos h = (?q, ?st)"
    using skip_ok [OF assms(1) h0(2), of ?st] by auto
  define r0 where "r0 = r\<lparr>rd_queue := Some h, rd_logger := True, rd_cur_filenum := f, rd_cur_offset := of_nat n,
      rd_last_record_offset := ucast f mod of_nat kBlockSize\<rparr>"
  obtain h' where h': "hpos h' = (?q, ?st + ?bo)" and
    sl: "seek_loop E (of_nat ?st) (of_nat ?bo) (of_nat 0) r0 w
      = Some (0, r0\<lparr>rd_queue := Some h', rd_cur_offset := of_nat ?st + of_nat ?bo\<rparr>)"
    using seek_loop_items [where a = 0, of w ?q "take ?st c" ps "drop n c" r0 h] assms(1) ct lp ps(2,3) h(2)
    by (auto simp: r0_def)
  have "env_FileExists E ?q w" using assms(1) exists_iff by simp
  moreover have sum: "(of_nat ?st + of_nat ?bo :: u64) = of_nat n"
    by (metis of_nat_add split)
  ultimately have "Seek E b f (of_nat n) r w = Some (0, r0\<lparr>rd_queue := Some h', rd_cur_offset := of_nat n,
      rd_last_record_offset := of_nat ?bo\<rparr>)"
    using h0(1) h(1) st sl unfolding Seek_def Let_def dv mult by (simp add: r0_def dv [simplified] del: of_nat_mult)
  moreover have "reader_ok hpos b (r0\<lparr>rd_queue := Some h', rd_cur_offset := of_nat n, rd_last_record_offset := of_nat ?bo\<rparr>) n"
    using h' split by (auto simp: reader_ok_def reader_at_def r0_def intro!: exI [of _ ?bo])
  ultimately show ?thesis by (auto simp: r0_def)
qed

end

section \<open>The contract\<close>

context slash_fs
begin

lemma chan_axioms: "fifo_channel (chan_put E) (chan_get E) (chan_rep E fs hpos)"
  by (rule chan.fifo_channel_axioms)

end

lemma wit_log_file: "log_file (record_header kFullType 3 0 @ ''abc'')"
proof -
  have "frames (length [] mod kBlockSize) True ''abc'' (record_header kFullType 3 0 @ ''abc'') 11"
    using frames_last [of "''abc''" 0 True 0]
    by (simp add: block_avail_def block_start_def block_trailer_def record_type_def numeral_3_eq_3)
  with log_snoc [OF log_file_empty] show ?thesis by fastforce
qed

text \<open>
  C5: \<^verbatim>\<open>Seek\<close> to a position of a file at which an item, or the padding at its start, ends succeeds
  and puts the reader exactly there. It ends: it neither loops nor reports an error.
\<close>

theorem binlog_seek_finds:
  assumes "slash_fs E fs hpos" and "fs w (NewFileName (bl_filename b) f) = Some c" and "n \<le> length c"
    and "log_file (take n c)" and "n < 2 ^ 63"
  shows "\<exists>r'. Seek E b f (of_nat n) r w = Some (0, r') \<and> GetReaderStatus r' = (f, of_nat n) \<and> reader_ok hpos b r' n"
  using slash_fs.Seek_at [OF assms(1-3) log_file_tail [OF assms(4)] assms(5), of r]
  by (auto simp: GetReaderStatus_def reader_ok_def reader_at_def)

theorem binlog_seek_finds_witness:
  "\<exists>r'. Seek mem_env wit_binlog 0 11 PikaBinlogReader_new0 (mem_set (NewFileName ''f'' 0) (Some (record_header kFullType 3 0 @ ''abc'')) wit_world)
      = Some (0, r') \<and> GetReaderStatus r' = (0, 11)"
  using binlog_seek_finds [OF mem.slash_fs_axioms, of "mem_set (NewFileName ''f'' 0) (Some (record_header kFullType 3 0 @ ''abc'')) wit_world"
      wit_binlog 0 "record_header kFullType 3 0 @ ''abc''" 11 PikaBinlogReader_new0] wit_log_file
  by (auto simp: wit_binlog_def)

text \<open>
  C1: A reader that has sought the position of the producer and the producer are a first-in
  first-out channel: in every interleaving of writes and reads, each read delivers the oldest item
  not yet read, in whatever files and blocks it was stored, or reports that there is none.
\<close>

theorem binlog_channel_fifo:
  assumes "slash_fs E fs hpos" and "binlog_ok E fs b w"
    and "fs w (NewFileName (bl_filename b) (bl_pro_num b)) = Some c" and "log_file c"
    and "Seek E b (bl_pro_num b) (ver_pro_offset (bl_version b)) r0 w = Some (ret, r)"
    and "run_ops (chan_put E) (chan_get E) ops (b, w, r) = Some (outs, s')"
  shows "outs = fst (fifo_spec ops [])"
proof -
  note L = assms(1)
  have len: "length c = unat (ver_pro_offset (bl_version b))" "length c < 2 ^ 31"
    using assms(2,3) by (auto elim!: binlog_okE)
  have "tail_ok (take (length c) c)" using log_file_tail [OF assms(4)] by simp
  from slash_fs.Seek_at [OF L assms(3) _ this, of r0] len assms(5)
  have "reader_ok hpos b r (length c)" "rd_cur_filenum r = bl_pro_num b" by auto
  then have "chan_rep E fs hpos (b, w, r) []"
    using assms(2) ahead_nil len(1) by (auto simp: chan_rep_def)
  from fifo_channel.run_fifo [OF slash_fs.chan_axioms [OF L] this assms(6)] show ?thesis by simp
qed

lemma wit_seek: "\<exists>r. Seek mem_env wit_binlog 0 0 PikaBinlogReader_new0 wit_world = Some (0, r)
    \<and> chan_rep mem_env mw_files id (wit_binlog, wit_world, r) []"
proof -
  have "tail_ok (take 0 [])" by (simp add: tail_ok_full)
  then obtain r :: "(string \<times> nat) PikaBinlogReader" where "Seek mem_env wit_binlog 0 0 PikaBinlogReader_new0 wit_world = Some (0, r)"
    "reader_ok id wit_binlog r 0" "rd_cur_filenum r = 0"
    using mem.Seek_at [of wit_world wit_binlog 0 "[]" 0 PikaBinlogReader_new0] by (auto simp: wit_simps)
  moreover have "items_ahead mw_files wit_binlog wit_world 0 0 []"
    using ahead_nil [of _ 0 0] by (simp add: wit_simps)
  ultimately show ?thesis using wit_binlog_ok by (auto simp: chan_rep_def)
qed

lemma wit_chan_put: "\<exists>s. chan_put mem_env ''abc'' (wit_binlog, wit_world, r) = Some s"
  using wit_put by (auto simp: chan_put_def wit_binlog_def wit_version_def)

theorem binlog_channel_fifo_witness:
  "\<exists>r outs s'. Seek mem_env wit_binlog 0 0 PikaBinlogReader_new0 wit_world = Some (0, r)
    \<and> run_ops (chan_put mem_env) (chan_get mem_env) [Enq ''abc'', Deq, Deq] (wit_binlog, wit_world, r) = Some (outs, s')
    \<and> outs = [Some ''abc'', None]"
proof -
  obtain r where r: "Seek mem_env wit_binlog 0 0 PikaBinlogReader_new0 wit_world = Some (0, r)"
    "chan_rep mem_env mw_files id (wit_binlog, wit_world, r) []" using wit_seek by blast
  obtain s where s: "chan_put mem_env ''abc'' (wit_binlog, wit_world, r) = Some s" using wit_chan_put by blast
  obtain s' where "run_ops (chan_put mem_env) (chan_get mem_env) [Deq, Deq] s = Some ([Some ''abc'', None], s')"
    using mem.chan.run_deq [OF mem.chan.put_rep [OF r(2) s], of 1] by (auto simp: numeral_2_eq_2)
  with s have run: "run_ops (chan_put mem_env) (chan_get mem_env) [Enq ''abc'', Deq, Deq] (wit_binlog, wit_world, r)
      = Some ([Some ''abc'', None], s')" by simp
  have "[Some ''abc'', None] = fst (fifo_spec [Enq ''abc'', Deq, Deq] [])"
    by (rule binlog_channel_fifo [OF mem.slash_fs_axioms wit_binlog_ok _ log_file_empty _ run])
      (use r in \<open>simp_all add: wit_simps\<close>)
  then show ?thesis using r run by blast
qed

text \<open>
  C4: Reading never fails or blocks on what was written: as many reads as there are items between
  reader and producer return those items in order, and every further read returns that there is none.
\<close>

theorem binlog_reads_drain:
  assumes "slash_fs E fs hpos" and "chan_rep E fs hpos (b, w, r) xs"
  shows "\<exists>s'. run_ops (chan_put E) (chan_get E) (replicate (length xs + n) Deq) (b, w, r)
      = Some (map Some xs @ replicate n None, s')"
  using fifo_channel.run_deq [OF slash_fs.chan_axioms [OF assms(1)] assms(2), of n] by blast

theorem binlog_reads_drain_witness:
  "\<exists>r s s'. chan_put mem_env ''abc'' (wit_binlog, wit_world, r) = Some s
    \<and> run_ops (chan_put mem_env) (chan_get mem_env) [Deq, Deq] s = Some ([Some ''abc'', None], s')"
proof -
  obtain r where r: "chan_rep mem_env mw_files id (wit_binlog, wit_world, r) []" using wit_seek by blast
  obtain b w r' where s: "chan_put mem_env ''abc'' (wit_binlog, wit_world, r) = Some (b, w, r')"
    using wit_chan_put by (metis prod_cases3)
  obtain s' where "run_ops (chan_put mem_env) (chan_get mem_env) (replicate (length [''abc''] + 1) Deq) (b, w, r')
      = Some (map Some [''abc''] @ replicate 1 None, s')"
    using binlog_reads_drain [OF mem.slash_fs_axioms mem.chan.put_rep [OF r s, simplified], of 1] by auto
  then have "run_ops (chan_put mem_env) (chan_get mem_env) [Deq, Deq] (b, w, r') = Some ([Some ''abc'', None], s')"
    by (simp add: numeral_2_eq_2 del: run_ops.simps)
  with s show ?thesis by blast
qed

section \<open>Padding records\<close>

text \<open>
  A reader that meets a padding record gets the status OK with an empty item and the offset
  behind the padding: \<^verbatim>\<open>Consume\<close> reports an IOError, but \<^verbatim>\<open>Get\<close> leaves its loop on every status
  other than EndFile and returns OK. The comment of \<^verbatim>\<open>Get\<close> lists IOError among its results.
\<close>

theorem binlog_get_padding_ok:
  assumes "slash_fs E fs hpos" and "binlog_ok E fs b w" and "reader_ok hpos b r n"
    and "fs w (NewFileName (bl_filename b) (rd_cur_filenum r)) = Some (pre @ record_header kBadRecord (length d) now @ d @ post)"
    and "length pre = n + reader_skip (n mod kBlockSize)" and "d \<noteq> []"
    and "length pre mod kBlockSize + (kHeaderSize + length d) \<le> kBlockSize"
  shows "\<exists>r'. Get E b scratch fnum off r w
    = Some (OK, [], rd_cur_filenum r, of_nat (length pre + (kHeaderSize + length d)), r')"
proof -
  note L = assms(1)
  have at: "reader_at hpos r (NewFileName (bl_filename b) (rd_cur_filenum r)) n" "rd_logger r"
    using assms(3) by (simp_all add: reader_ok_def)
  obtain r' where "ReadPhysicalRecord E fnum off r w = Some (type_code kBadRecord, d, rd_cur_filenum r,
      of_nat (length pre + (kHeaderSize + length d)), r')"
    using slash_fs.ReadPhysicalRecord_data [OF L at(1) assms(4-6) _ assms(7)] by blast
  then have co: "Consume E [] fnum off r w = Some (IOError ''Data Corruption'', [], rd_cur_filenum r,
      of_nat (length pre + (kHeaderSize + length d)), r')"
    by (subst Consume.simps) simp
  have "n < 2 ^ 64 \<and> n \<noteq> unat (ver_pro_offset (bl_version b))" if "rd_cur_filenum r = bl_pro_num b"
  proof -
    have "length (pre @ record_header kBadRecord (length d) now @ d @ post) = unat (ver_pro_offset (bl_version b))"
      using assms(2,4) that by (elim binlog_okE) simp
    then show ?thesis
      using assms(5) unsigned_less [of "ver_pro_offset (bl_version b)", where 'a = nat] by simp
  qed
  then have "ReadToTheEnd b r = Some False"
    using ReadToTheEnd_at [OF assms(2,3)] by auto
  with co have "get_loop E b [] fnum off r w = Some (OK, [], rd_cur_filenum r, of_nat (length pre + (kHeaderSize + length d)), r')"
    by (subst get_loop.simps) (simp add: status_simps)
  then show ?thesis using at reader_queue [OF assms(3)] by (auto simp: Get_def)
qed

text \<open>A log that was set to offset 10, and a reader at its start.\<close>

definition pad_version :: Version where
  "pad_version = wit_version\<lparr>ver_pro_offset := 10\<rparr>"

definition pad_binlog :: Binlog where
  "pad_binlog = wit_binlog\<lparr>bl_version := pad_version, bl_block_offset := 10\<rparr>"

definition pad_world :: mem_world where
  "pad_world = \<lparr>mw_files = [NewFileName ''f'' 0 \<mapsto> record_header kBadRecord 2 0 @ ''**''],
     mw_rw = [''m'' \<mapsto> manifest_bytes pad_version]\<rparr>"

definition pad_reader :: "(string \<times> nat) PikaBinlogReader" where
  "pad_reader = \<lparr>rd_cur_filenum = 0, rd_cur_offset = 0, rd_last_record_offset = 0, rd_logger = True,
     rd_queue = Some (NewFileName ''f'' 0, 0)\<rparr>"

theorem binlog_get_padding_ok_witness:
  "\<exists>r'. Get mem_env pad_binlog [] 0 0 pad_reader pad_world = Some (OK, [], 0, 10, r')"
proof -
  note defs = pad_version_def pad_binlog_def pad_world_def pad_reader_def wit_simps
  have "binlog_ok mem_env mw_files pad_binlog pad_world"
    by (simp add: defs binlog_ok_def manifest_holds_def)
  moreover have "reader_ok id pad_binlog pad_reader 0"
    by (auto simp: defs reader_ok_def reader_at_def intro: exI [of _ 0])
  ultimately have "\<exists>r'. Get mem_env pad_binlog [] 0 0 pad_reader pad_world = Some (OK, [], rd_cur_filenum pad_reader,
      of_nat (length ([] :: bytes) + (kHeaderSize + length ''**'')), r')"
    by (rule binlog_get_padding_ok [OF mem.slash_fs_axioms, where post = "[]" and now = 0])
      (simp_all add: defs reader_skip_def numeral_2_eq_2)
  then show ?thesis by (simp add: defs)
qed

end
