(* ===== verification/Pika_Slave_Node.thy ===== *)
theory Pika_Slave_Node
  imports Pika_Sync_Window Pika_Binlog_Seek
begin

text \<open>
  The master's view of a slave, \<^verbatim>\<open>SlaveNode\<close> of \<^verbatim>\<open>include/pika_slave_node.h\<close> and
  \<^verbatim>\<open>src/pika_slave_node.cc\<close>: the state machine data, the window of binlogs under way, the reader on
  the binlog, and the offset acknowledged so far.
\<close>

record 'h SlaveNode =
  sn_node :: RmNode
  sn_slave_state :: SlaveState
  sn_b_state :: BinlogSyncState
  sn_sync_win :: SyncWindow
  sn_sent_offset :: LogOffset
  sn_acked_offset :: LogOffset
  sn_binlog_reader :: "'h PikaBinlogReader option"

definition RmNode_ToString :: "RmNode \<Rightarrow> string" where
  "RmNode_ToString n =
     ''partition='' @ pi_table_name (rn_partition_info n) @ ''_''
       @ dec_string (int (unat (pi_partition_id (rn_partition_info n)))) @ '',ip_port='' @ rn_ip n @ '':''
       @ dec_string (rn_port n) @ '',session id='' @ dec_string (sint (rn_session_id n))"

definition SlaveNode_new :: "string \<Rightarrow> int \<Rightarrow> string \<Rightarrow> u32 \<Rightarrow> i32 \<Rightarrow> 'h SlaveNode" where
  "SlaveNode_new ip port table_name partition_id session_id =
     \<lparr>sn_node = RmNode_new ip port table_name partition_id session_id, sn_slave_state = kSlaveNotSync,
      sn_b_state = kNotSync, sn_sync_win = SyncWindow0, sn_sent_offset = LogOffset0, sn_acked_offset = LogOffset0,
      sn_binlog_reader = None\<rparr>"

definition InitBinlogFileReader ::
  "('w, 'h) slash_env \<Rightarrow> Binlog \<Rightarrow> BinlogOffset \<Rightarrow> 'h SlaveNode \<Rightarrow> 'w \<Rightarrow> (Status \<times> 'h SlaveNode) option" where
  "InitBinlogFileReader E binlog offset sn w =
     (case Seek E binlog (bo_filenum offset) (bo_offset offset) PikaBinlogReader_new0 w of
        None \<Rightarrow> None
      | Some (res, r) \<Rightarrow>
          let sn = sn\<lparr>sn_binlog_reader := Some r\<rparr>
          in if res \<noteq> 0 then Some (Corruption (RmNode_ToString (sn_node sn) @ ''  binlog reader init failed''), sn)
             else Some (OK, sn))"

text \<open>\<^verbatim>\<open>Update\<close>: the third component is \<^verbatim>\<open>*updated_offset\<close>, given its value before the call.\<close>

definition SlaveNode_Update ::
  "LogOffset \<Rightarrow> LogOffset \<Rightarrow> LogOffset \<Rightarrow> 'h SlaveNode \<Rightarrow> Status \<times> LogOffset \<times> 'h SlaveNode" where
  "SlaveNode_Update start stop updated_offset sn =
     (if sn_slave_state sn \<noteq> kSlaveBinlogSync
      then (Corruption (RmNode_ToString (sn_node sn) @ ''state not BinlogSync''), updated_offset, sn)
      else let (res, updated, win) = SyncWindow_Update (SyncWinItem_new start 0) (SyncWinItem_new stop 0) LogOffset0 (sn_sync_win sn);
               sn = sn\<lparr>sn_sync_win := win\<rparr>
           in if \<not> res then (Corruption ''UpdateAckedInfo failed'', updated, sn)
              else if LogOffset_eq updated LogOffset0 then (OK, sn_acked_offset sn, sn)
              else (OK, updated, sn\<lparr>sn_acked_offset := updated\<rparr>))"

section \<open>The acknowledged offset\<close>

text \<open>
  What a slave node in binlog synchronisation stands for: the offsets sent since the acknowledged
  offset was \<open>a0\<close>, and which of them were acknowledged.
\<close>

definition slave_rep :: "LogOffset \<Rightarrow> 'h SlaveNode \<Rightarrow> LogOffset list \<Rightarrow> BinlogOffset set \<Rightarrow> bool" where
  "slave_rep a0 sn p A \<longleftrightarrow>
     win_rep (sn_sync_win sn) p A \<and> (\<forall>x \<in> set p. b_offset x \<noteq> BinlogOffset0) \<and> sn_acked_offset sn = reported a0 p A"

lemma reported_mono:
  assumes "offsets_sorted p" and "A \<subseteq> B" and "\<forall>x \<in> set p. b_offset a0 \<le> b_offset x"
  shows "b_offset (reported a0 p A) \<le> b_offset (reported a0 p B)"
proof -
  have split: "cum_acked p B = cum_acked p A @ cum_acked (pending p A) B" by (rule cum_acked_mono [OF assms(2)])
  have p: "p = cum_acked p A @ pending p A" by (simp add: cum_acked_def pending_def)
  show ?thesis
  proof (cases "cum_acked p A = []")
    case True
    then show ?thesis
      using assms(3) cum_acked_subset [of "last (cum_acked p B)" p B] by (auto simp: reported_def)
  next
    case False
    have "b_offset (last (cum_acked p A)) < b_offset y" if "y \<in> set (pending p A)" for y
      using assms(1) that False by (subst (asm) p) (auto simp: sorted_wrt_append)
    then have "b_offset (last (cum_acked p A)) \<le> b_offset (last (cum_acked (pending p A) B))"
      if "cum_acked (pending p A) B \<noteq> []"
      using that cum_acked_subset by (metis last_in_set order_less_imp_le)
    then show ?thesis using False split by (auto simp: reported_def last_append)
  qed
qed

lemma SlaveNode_Update_okE:
  assumes "SlaveNode_Update s e u0 sn = (OK, u, sn')"
  obtains d win where
    "SyncWindow_Update (SyncWinItem_new s 0) (SyncWinItem_new e 0) LogOffset0 (sn_sync_win sn) = (True, d, win)"
    "sn' = (if LogOffset_eq d LogOffset0 then sn\<lparr>sn_sync_win := win\<rparr> else sn\<lparr>sn_sync_win := win, sn_acked_offset := d\<rparr>)"
    "u = sn_acked_offset sn'"
proof -
  obtain res d win where
    r: "SyncWindow_Update (SyncWinItem_new s 0) (SyncWinItem_new e 0) LogOffset0 (sn_sync_win sn) = (res, d, win)"
    by (cases "SyncWindow_Update (SyncWinItem_new s 0) (SyncWinItem_new e 0) LogOffset0 (sn_sync_win sn)")
  note eq = assms [unfolded SlaveNode_Update_def r Let_def prod.case]
  have res by (rule ccontr) (use eq in \<open>simp split: if_splits\<close>)
  note upd = r [simplified \<open>res\<close>]
  have sn': "sn' = (if LogOffset_eq d LogOffset0 then sn\<lparr>sn_sync_win := win\<rparr> else sn\<lparr>sn_sync_win := win, sn_acked_offset := d\<rparr>)"
    and u: "u = sn_acked_offset sn'"
    using eq \<open>res\<close> by (auto split: if_splits)
  show thesis by (rule that [OF upd sn' u])
qed

lemma SlaveNode_Update_rep:
  assumes "slave_rep a0 sn p A" and "SlaveNode_Update s e u0 sn = (OK, u, sn')"
  shows "slave_rep a0 sn' p (A \<union> ack_range p s e) \<and> u = sn_acked_offset sn'"
proof -
  from assms(2) obtain d win where
    upd: "SyncWindow_Update (SyncWinItem_new s 0) (SyncWinItem_new e 0) LogOffset0 (sn_sync_win sn) = (True, d, win)"
    and sn': "sn' = (if LogOffset_eq d LogOffset0 then sn\<lparr>sn_sync_win := win\<rparr> else sn\<lparr>sn_sync_win := win, sn_acked_offset := d\<rparr>)"
    and u: "u = sn_acked_offset sn'" by (rule SlaveNode_Update_okE)
  from assms(1) have rep: "win_rep (sn_sync_win sn) p A" and nz: "\<forall>x \<in> set p. b_offset x \<noteq> BinlogOffset0"
    and ack: "sn_acked_offset sn = reported a0 p A" by (auto simp: slave_rep_def)
  show ?thesis
    using win.update_acks [OF rep upd] win.client_reports [OF rep upd nz, of a0] ack nz u
    by (simp add: slave_rep_def sn' LogOffset_ops)
qed

text \<open>
  A successful \<^verbatim>\<open>Update\<close> returns the acknowledged offset of the node, and that offset is the
  cumulative acknowledgement of everything sent: with the acknowledged range added, it is the last
  offset before the first that was not acknowledged, and it never moves back.
\<close>

theorem slave_node_update_cumulative:
  assumes "slave_rep a0 sn p A" and "SlaveNode_Update s e u0 sn = (OK, u, sn')" and "\<forall>x \<in> set p. b_offset a0 \<le> b_offset x"
  shows "slave_rep a0 sn' p (A \<union> ack_range p s e) \<and> u = reported a0 p (A \<union> ack_range p s e)
    \<and> b_offset (sn_acked_offset sn) \<le> b_offset u"
proof -
  note upd = SlaveNode_Update_rep [OF assms(1,2)]
  then have u: "u = reported a0 p (A \<union> ack_range p s e)" by (simp add: slave_rep_def)
  have sorted: "offsets_sorted p" using assms(1) by (simp add: slave_rep_def win_rep_def)
  have "b_offset (sn_acked_offset sn) \<le> b_offset u"
    using reported_mono [OF sorted _ assms(3), of A "A \<union> ack_range p s e"] assms(1)
    unfolding u slave_rep_def by simp
  then show ?thesis using upd u by blast
qed

text \<open>A slave in binlog synchronisation with two binlogs under way.\<close>

definition wit_slave :: "(string \<times> nat) SlaveNode" where
  "wit_slave = (SlaveNode_new ''h'' 9221 ''db0'' 0 1)\<lparr>sn_slave_state := kSlaveBinlogSync,
     sn_sync_win := SyncWindow_Push (SyncWinItem_new (wit_off 2) 20) (SyncWindow_Push (SyncWinItem_new (wit_off 1) 10) SyncWindow0)\<rparr>"

lemma wit_slave_rep: "slave_rep LogOffset0 wit_slave [wit_off 1, wit_off 2] {}"
  by (simp add: slave_rep_def wit_slave_def SlaveNode_new_def win_rep_def pending_def reported_def cum_acked_def
      SyncWindow_Push_def SyncWindow0_def SyncWinItem_new_def wit_off_def BinlogOffset0_def less_BinlogOffset_iff)

theorem slave_node_update_cumulative_witness:
  "\<exists>sn'. SlaveNode_Update (wit_off 1) (wit_off 1) LogOffset0 wit_slave = (OK, wit_off 1, sn')
    \<and> wit_off 1 = reported LogOffset0 [wit_off 1, wit_off 2] ({} \<union> ack_range [wit_off 1, wit_off 2] (wit_off 1) (wit_off 1))"
proof -
  have "\<exists>sn'. SlaveNode_Update (wit_off 1) (wit_off 1) LogOffset0 wit_slave = (OK, wit_off 1, sn')"
    by (simp add: SlaveNode_Update_def wit_slave_def SlaveNode_new_def window_eval LogOffset_ops BinlogOffset0_def LogOffset0_def)
  then obtain sn' where u: "SlaveNode_Update (wit_off 1) (wit_off 1) LogOffset0 wit_slave = (OK, wit_off 1, sn')" by blast
  from slave_node_update_cumulative [OF wit_slave_rep u] u show ?thesis
    by (simp add: LogOffset0_def BinlogOffset0_le)
qed

section \<open>The reader of a slave\<close>

text \<open>
  \<^verbatim>\<open>InitBinlogFileReader\<close> at the end of an item of an existing binlog file succeeds and leaves the
  node with a reader at exactly that offset.
\<close>

theorem slave_node_reader_positioned:
  assumes "slash_fs E fs hpos" and "fs w (NewFileName (bl_filename b) f) = Some c" and "n \<le> length c"
    and "log_file (take n c)" and "n < 2 ^ 63"
  shows "\<exists>r. InitBinlogFileReader E b (BinlogOffset f (of_nat n)) sn w = Some (OK, sn\<lparr>sn_binlog_reader := Some r\<rparr>)
    \<and> GetReaderStatus r = (f, of_nat n) \<and> reader_ok hpos b r n"
  using slash_fs.Seek_at [OF assms(1-3) log_file_tail [OF assms(4)] assms(5), of PikaBinlogReader_new0]
  by (auto simp: InitBinlogFileReader_def GetReaderStatus_def reader_ok_def reader_at_def)

theorem slave_node_reader_positioned_witness:
  "\<exists>r. InitBinlogFileReader mem_env wit_binlog (BinlogOffset 0 0) wit_slave wit_world
      = Some (OK, wit_slave\<lparr>sn_binlog_reader := Some r\<rparr>) \<and> GetReaderStatus r = (0, 0)"
  using slave_node_reader_positioned [OF mem.slash_fs_axioms, of wit_world wit_binlog 0 "[]" 0 wit_slave] log_file_empty
  by (auto simp: wit_simps)

end
