(* ===== verification/Pika_Context.thy ===== *)
theory Pika_Context
  imports Pika_Slave_Node
begin

text \<open>
  \<^verbatim>\<open>Context\<close> of \<^verbatim>\<open>include/pika_consensus.h\<close> and \<^verbatim>\<open>src/pika_consensus.cc\<close>: the applied index of a
  partition, the window of logs handed to the workers, and the mapped file that keeps the index over
  a restart. \<open>None\<close> is an abort: an access through the null pointer \<^verbatim>\<open>save_\<close> before \<^verbatim>\<open>Init\<close>, or
  a \<^verbatim>\<open>LOG(FATAL)\<close>.
\<close>

record Context =
  cx_applied_index :: LogOffset
  cx_applied_win :: SyncWindow
  cx_path :: string
  cx_save :: bool

definition Context_new :: "string \<Rightarrow> Context" where
  "Context_new path = \<lparr>cx_applied_index = LogOffset0, cx_applied_win = SyncWindow0, cx_path = path, cx_save = False\<rparr>"

definition Context_StableSave :: "('w, 'h) slash_env \<Rightarrow> Context \<Rightarrow> 'w \<Rightarrow> (Status \<times> 'w) option" where
  "Context_StableSave E c w =
     (if \<not> cx_save c then None
      else let a = cx_applied_index c;
               w = env_RWWrite E (cx_path c) 0 (u32_bytes (bo_filenum (b_offset a))) w;
               w = env_RWWrite E (cx_path c) 4 (u64_bytes (bo_offset (b_offset a))) w;
               w = env_RWWrite E (cx_path c) 12 (u32_bytes (lo_term (l_offset a))) w;
               w = env_RWWrite E (cx_path c) 16 (u64_bytes (lo_index (l_offset a))) w
           in Some (OK, w))"

definition Context_load :: "bytes \<Rightarrow> LogOffset" where
  "Context_load m =
     \<lparr>b_offset = BinlogOffset (of_nat (le_val (mem_read m 0 4))) (of_nat (le_val (mem_read m 4 8))),
      l_offset = \<lparr>lo_term = of_nat (le_val (mem_read m 12 4)), lo_index = of_nat (le_val (mem_read m 16 8))\<rparr>\<rparr>"

definition Context_Init :: "('w, 'h) slash_env \<Rightarrow> Context \<Rightarrow> 'w \<Rightarrow> (Status \<times> Context \<times> 'w) option" where
  "Context_Init E c w =
     (let fresh = \<not> env_FileExists E (cx_path c) w;
          (s, w) = env_NewRWFile E (cx_path c) w;
          c = c\<lparr>cx_save := True\<rparr>
      in if \<not> ok s then None
         else case (if fresh then Context_StableSave E c w else Some (OK, w)) of
                None \<Rightarrow> None
              | Some (_, w) \<Rightarrow>
                  (case env_RWData E (cx_path c) w of
                     Some m \<Rightarrow> Some (OK, c\<lparr>cx_applied_index := Context_load m\<rparr>, w)
                   | None \<Rightarrow> Some (Corruption ''Context init error'', c, w)))"

definition PrepareUpdateAppliedIndex :: "LogOffset \<Rightarrow> Context \<Rightarrow> Context" where
  "PrepareUpdateAppliedIndex offset c = c\<lparr>cx_applied_win := SyncWindow_Push (SyncWinItem_new offset 0) (cx_applied_win c)\<rparr>"

definition UpdateAppliedIndex :: "('w, 'h) slash_env \<Rightarrow> LogOffset \<Rightarrow> Context \<Rightarrow> 'w \<Rightarrow> (Context \<times> 'w) option" where
  "UpdateAppliedIndex E offset c w =
     (let (_, cur_offset, win) =
            SyncWindow_Update (SyncWinItem_new offset 0) (SyncWinItem_new offset 0) LogOffset0 (cx_applied_win c);
          c = c\<lparr>cx_applied_win := win\<rparr>
      in if LogOffset_gt cur_offset (cx_applied_index c) then
           (let c = c\<lparr>cx_applied_index := cur_offset\<rparr>
            in map_option (\<lambda>(_, w). (c, w)) (Context_StableSave E c w))
         else Some (c, w))"

definition Context_Reset :: "('w, 'h) slash_env \<Rightarrow> LogOffset \<Rightarrow> Context \<Rightarrow> 'w \<Rightarrow> (Context \<times> 'w) option" where
  "Context_Reset E offset c w =
     (let c = c\<lparr>cx_applied_index := offset, cx_applied_win := SyncWindow_Reset (cx_applied_win c)\<rparr>
      in map_option (\<lambda>(_, w). (c, w)) (Context_StableSave E c w))"

section \<open>Persistence\<close>

definition context_bytes :: "LogOffset \<Rightarrow> bytes" where
  "context_bytes a = u32_bytes (bo_filenum (b_offset a)) @ u64_bytes (bo_offset (b_offset a))
     @ u32_bytes (lo_term (l_offset a)) @ u64_bytes (lo_index (l_offset a))"

definition context_holds :: "('w, 'h) slash_env \<Rightarrow> Context \<Rightarrow> 'w \<Rightarrow> bool" where
  "context_holds E c w \<longleftrightarrow>
     cx_save c \<and> (case env_RWData E (cx_path c) w of
        None \<Rightarrow> False | Some m \<Rightarrow> 24 \<le> length m \<and> take 24 m = context_bytes (cx_applied_index c))"

lemma context_holds_win [simp]: "context_holds E (c\<lparr>cx_applied_win := x\<rparr>) w = context_holds E c w"
  by (simp add: context_holds_def split: option.split)

lemma length_context_bytes [simp]: "length (context_bytes a) = 24"
  by (simp add: context_bytes_def)

lemma Context_load_bytes: "take 24 m = context_bytes a \<Longrightarrow> Context_load m = a"
proof -
  assume "take 24 m = context_bytes a"
  then have "m = context_bytes a @ drop 24 m" by (metis append_take_drop_id)
  then obtain r where "m = context_bytes a @ r" ..
  then show ?thesis by (simp add: Context_load_def context_bytes_def mem_read_def)
qed

context slash_fs
begin

lemma Context_StableSave_ok:
  assumes "cx_save c" and "env_RWData E (cx_path c) w = Some m" and "24 \<le> length m"
  shows "\<exists>w'. Context_StableSave E c w = Some (OK, w') \<and> context_holds E c w' \<and> fs w' = fs w"
proof -
  have "take 24 (mem_write (mem_write (mem_write (mem_write m 0 (u32_bytes a)) 4 (u64_bytes b)) 12 (u32_bytes d))
      16 (u64_bytes i)) = u32_bytes a @ u64_bytes b @ u32_bytes d @ u64_bytes i" for a b d i
    using assms(3) by (simp add: mem_write_def)
  then show ?thesis
    using assms by (simp add: Context_StableSave_def context_holds_def context_bytes_def Let_def rw_write_ok rw_write_fs)
qed

lemma context_holds_save:
  assumes "context_holds E c w" and "cx_path c' = cx_path c" and "cx_save c'"
  shows "\<exists>w'. Context_StableSave E c' w = Some (OK, w') \<and> context_holds E c' w' \<and> fs w' = fs w"
proof -
  from assms(1) obtain m where "env_RWData E (cx_path c') w = Some m" "24 \<le> length m"
    using assms(2) by (auto simp: context_holds_def split: option.splits)
  from Context_StableSave_ok [OF assms(3) this] show ?thesis .
qed

end

section \<open>The applied index\<close>

text \<open>
  The states of a context after \<^verbatim>\<open>Init\<close> or \<^verbatim>\<open>Reset\<close> left it at the applied index \<open>a0\<close>, with
  the offsets prepared since (their order is that of the log) and those applied.
\<close>

inductive ctx_reach :: "('w, 'h) slash_env \<Rightarrow> LogOffset \<Rightarrow> Context \<Rightarrow> 'w \<Rightarrow> LogOffset list \<Rightarrow> BinlogOffset set \<Rightarrow> bool"
  for E :: "('w, 'h) slash_env" and a0 :: LogOffset where
  ctx_start: "context_holds E c w \<Longrightarrow> cx_applied_index c = a0 \<Longrightarrow> cx_applied_win c = SyncWindow0 \<Longrightarrow> ctx_reach E a0 c w [] {}"
| ctx_prepare: "ctx_reach E a0 c w p A \<Longrightarrow> b_offset a0 < b_offset x \<Longrightarrow> \<forall>y \<in> set p. b_offset y < b_offset x
    \<Longrightarrow> ctx_reach E a0 (PrepareUpdateAppliedIndex x c) w (p @ [x]) A"
| ctx_update: "ctx_reach E a0 c w p A \<Longrightarrow> UpdateAppliedIndex E x c w = Some (c', w')
    \<Longrightarrow> ctx_reach E a0 c' w' p (if b_offset x \<in> b_offset ` set p then insert (b_offset x) A else A)"

lemma reported_less_pending:
  assumes "offsets_sorted p" and "\<forall>y \<in> set p. b_offset a0 < b_offset y" and "y \<in> set (pending p A)"
  shows "b_offset (reported a0 p A) < b_offset y"
proof (cases "cum_acked p A = []")
  case True
  then show ?thesis using assms(2,3) set_pending by (auto simp: reported_def)
next
  case False
  have "p = cum_acked p A @ pending p A" by (simp add: cum_acked_def pending_def)
  with assms(1) have "offsets_sorted (cum_acked p A @ pending p A)" by simp
  then show ?thesis using False assms(3) by (simp add: reported_def sorted_wrt_append)
qed

definition ctx_inv :: "('w, 'h) slash_env \<Rightarrow> LogOffset \<Rightarrow> Context \<Rightarrow> 'w \<Rightarrow> LogOffset list \<Rightarrow> BinlogOffset set \<Rightarrow> bool" where
  "ctx_inv E a0 c w p A \<longleftrightarrow>
     context_holds E c w \<and> win_rep (cx_applied_win c) p A \<and> (\<forall>y \<in> set p. b_offset a0 < b_offset y)
     \<and> A \<subseteq> b_offset ` set p \<and> cx_applied_index c = reported a0 p A"

lemma ack_range_single: "b_offset x \<in> b_offset ` set p \<Longrightarrow> ack_range p x x = {b_offset x}"
  by (auto simp: ack_range_def)

lemma acked_not_pending: "b_offset x \<in> b_offset ` set p \<Longrightarrow> b_offset x \<notin> b_offset ` set (pending p A) \<Longrightarrow> b_offset x \<in> A"
proof -
  assume "b_offset x \<in> b_offset ` set p" and n: "b_offset x \<notin> b_offset ` set (pending p A)"
  moreover have "set p = set (cum_acked p A) \<union> set (pending p A)"
    using set_append [of "cum_acked p A" "pending p A"] by (simp add: cum_acked_def pending_def)
  ultimately show ?thesis using cum_acked_subset by fastforce
qed

lemma ctx_inv_update:
  assumes "slash_fs E fs hpos" and "ctx_inv E a0 c w p A" and "UpdateAppliedIndex E x c w = Some (c', w')"
  shows "ctx_inv E a0 c' w' p (if b_offset x \<in> b_offset ` set p then insert (b_offset x) A else A)"
proof -
  let ?x = "SyncWinItem_new x 0"
  have inv: "context_holds E c w" "win_rep (cx_applied_win c) p A" "\<forall>y \<in> set p. b_offset a0 < b_offset y"
    "A \<subseteq> b_offset ` set p" "cx_applied_index c = reported a0 p A" using assms(2) by (auto simp: ctx_inv_def)
  have sorted: "offsets_sorted p" using inv(2) by (simp add: win_rep_def)
  obtain res d win where r: "SyncWindow_Update ?x ?x LogOffset0 (cx_applied_win c) = (res, d, win)"
    by (cases "SyncWindow_Update ?x ?x LogOffset0 (cx_applied_win c)")
  note acc = win.update_accepts [OF inv(2), of x x LogOffset0]
  note eq = assms(3) [unfolded UpdateAppliedIndex_def r Let_def prod.case]
  have zero: "\<not> LogOffset_gt LogOffset0 a" for a
    by (simp add: LogOffset_ops LogOffset0_def not_less)
  show ?thesis
  proof (cases res)
    case False
    then have "d = LogOffset0" "win = cx_applied_win c" using win.update_rejects [OF inv(2)] r by auto
    then have "c' = c" "w' = w" using eq zero by auto
    moreover have "b_offset x \<in> A" if "b_offset x \<in> b_offset ` set p"
      using acc r False that by (intro acked_not_pending [OF that]) auto
    ultimately show ?thesis using assms(2) by (simp add: insert_absorb)
  next
    case True
    note u = r [simplified True]
    have "b_offset x \<in> b_offset ` set (pending p A)" using acc r True by simp
    then have xin: "b_offset x \<in> b_offset ` set p" using set_pending by blast
    let ?B = "insert (b_offset x) A"
    have B: "A \<union> ack_range p x x = ?B" using ack_range_single [OF xin] by auto
    have ack: "win_rep win p ?B" "d = reported LogOffset0 (pending p A) ?B"
      using win.update_acks [OF inv(2) u] by (simp_all add: B)
    have nz: "\<forall>y \<in> set p. b_offset y \<noteq> BinlogOffset0" using inv(3) BinlogOffset0_le by (metis leD)
    have rep: "reported a0 p ?B = (if b_offset d = BinlogOffset0 then reported a0 p A else d)"
      using win.client_reports [OF inv(2) u nz, of a0] by (simp add: B)
    show ?thesis
    proof (cases "b_offset d = BinlogOffset0")
      case True
      then have "\<not> LogOffset_gt d (cx_applied_index c)" by (simp add: LogOffset_ops not_less)
      then have "c' = c\<lparr>cx_applied_win := win\<rparr>" "w' = w" using eq by simp_all
      then show ?thesis using inv ack xin rep True by (simp add: ctx_inv_def)
    next
      case False
      then have "d \<in> set (pending p A)"
        using ack(2) cum_acked_subset last_in_set by (fastforce simp: reported_def LogOffset0_def split: if_splits)
      then have gt: "LogOffset_gt d (cx_applied_index c)"
        using reported_less_pending [OF sorted inv(3)] inv(5) by (simp add: LogOffset_ops)
      let ?c = "c\<lparr>cx_applied_win := win, cx_applied_index := d\<rparr>"
      have "\<exists>w1. Context_StableSave E ?c w = Some (OK, w1) \<and> context_holds E ?c w1"
        using slash_fs.context_holds_save [OF assms(1) inv(1), of ?c] inv(1) by (auto simp: context_holds_def)
      then have "c' = ?c" "context_holds E ?c w'" using eq gt by auto
      then show ?thesis using inv ack xin rep False by (simp add: ctx_inv_def)
    qed
  qed
qed

lemma ctx_inv_prepare:
  assumes "ctx_inv E a0 c w p A" and "b_offset a0 < b_offset x" and "\<forall>y \<in> set p. b_offset y < b_offset x"
  shows "ctx_inv E a0 (PrepareUpdateAppliedIndex x c) w (p @ [x]) A"
proof -
  have "b_offset x \<notin> A" using assms by (fastforce simp: ctx_inv_def)
  with assms show ?thesis
    by (auto simp: ctx_inv_def PrepareUpdateAppliedIndex_def reported_def cum_acked_append intro: win_rep_push)
qed

lemma ctx_inv_world: "ctx_inv E a0 c w p A \<Longrightarrow> context_holds E c w' \<Longrightarrow> ctx_inv E a0 c w' p A"
  by (simp add: ctx_inv_def)

lemma ctx_inv_below:
  assumes "ctx_inv E a0 c w p A" and "x \<in> set p" and "b_offset x \<le> b_offset (cx_applied_index c)"
  shows "b_offset x \<in> A"
proof (rule ccontr)
  have inv: "win_rep (cx_applied_win c) p A" "\<forall>y \<in> set p. b_offset a0 < b_offset y" "cx_applied_index c = reported a0 p A"
    using assms(1) by (auto simp: ctx_inv_def)
  assume "b_offset x \<notin> A"
  then have "b_offset x \<in> b_offset ` set (pending p A)" using acked_not_pending assms(2) by blast
  moreover have "offsets_sorted p" using inv(1) by (simp add: win_rep_def)
  ultimately show False using reported_less_pending [OF _ inv(2)] assms(3) inv(3) by (auto simp: not_le [symmetric])
qed

lemma ctx_reach_inv:
  assumes "slash_fs E fs hpos" and "ctx_reach E a0 c w p A"
  shows "ctx_inv E a0 c w p A"
  using assms(2)
proof (induction rule: ctx_reach.induct)
  case (ctx_start c w)
  then show ?case by (simp add: ctx_inv_def win_rep_init reported_def cum_acked_def)
next
  case (ctx_prepare c w p A x)
  then show ?case by (intro ctx_inv_prepare)
next
  case (ctx_update c w p A x c' w')
  then show ?case using ctx_inv_update [OF assms(1)] by blast
qed

text \<open>
  However logs are prepared and however the workers that apply them finish, the applied index is
  the last offset before the first log that was not applied: no log at or below it is missing. After
  a crash at any such moment, \<^verbatim>\<open>Init\<close> on the same file restores exactly this index.
\<close>

theorem context_applied_prefix:
  assumes "slash_fs E fs hpos" and "ctx_reach E a0 c w p A"
  shows "cx_applied_index c = reported a0 p A
    \<and> (\<forall>x \<in> set p. b_offset x \<le> b_offset (cx_applied_index c) \<longrightarrow> b_offset x \<in> A)
    \<and> (\<forall>s c2 w2. Context_Init E (Context_new (cx_path c)) w = Some (s, c2, w2)
          \<longrightarrow> s = OK \<and> cx_applied_index c2 = cx_applied_index c)"
proof -
  have inv: "context_holds E c w" "win_rep (cx_applied_win c) p A" "\<forall>y \<in> set p. b_offset a0 < b_offset y"
    "cx_applied_index c = reported a0 p A" using ctx_reach_inv [OF assms] by (auto simp: ctx_inv_def)
  have init: "s = OK \<and> cx_applied_index c2 = cx_applied_index c"
    if i: "Context_Init E (Context_new (cx_path c)) w = Some (s, c2, w2)" for s c2 w2
  proof -
    from inv(1) obtain m where m: "env_RWData E (cx_path c) w = Some m" "24 \<le> length m" "take 24 m = context_bytes (cx_applied_index c)"
      by (auto simp: context_holds_def split: option.splits)
    have ex: "env_FileExists E (cx_path c) w" using m(1) slash_fs.exists_iff [OF assms(1)] by simp
    obtain s1 w1 where n: "env_NewRWFile E (cx_path c) w = (s1, w1)" by fastforce
    with i have "s1 = OK" by (auto simp: Context_Init_def Context_new_def Let_def split: if_splits)
    with n slash_fs.new_rw_keep [OF assms(1)] m(1) obtain r where "env_RWData E (cx_path c) w1 = Some (m @ r)" by blast
    moreover have "Context_load (m @ r) = cx_applied_index c" using m(2,3) by (intro Context_load_bytes) simp
    ultimately show ?thesis using i n ex \<open>s1 = OK\<close> by (auto simp: Context_Init_def Context_new_def Let_def)
  qed
  show ?thesis using inv(4) ctx_inv_below [OF ctx_reach_inv [OF assms]] init by blast
qed

text \<open>A context with two logs prepared, of which the second is applied first.\<close>

definition wit_ctx :: Context where
  "wit_ctx = \<lparr>cx_applied_index = LogOffset0, cx_applied_win = SyncWindow0, cx_path = ''c'', cx_save = True\<rparr>"

definition wit_ctx_world :: mem_world where
  "wit_ctx_world = \<lparr>mw_files = (\<lambda>_. None), mw_rw = [''c'' \<mapsto> context_bytes LogOffset0]\<rparr>"

theorem context_applied_prefix_witness:
  "\<exists>c w c2 w2. ctx_reach mem_env LogOffset0 c w [wit_off 1, wit_off 2] {b_offset (wit_off 2)}
    \<and> Context_Init mem_env (Context_new ''c'') w = Some (OK, c2, w2) \<and> cx_applied_index c2 = LogOffset0"
proof -
  have h: "context_holds mem_env wit_ctx wit_ctx_world"
    by (simp add: context_holds_def wit_ctx_def wit_ctx_world_def mem_env_simps)
  have r0: "ctx_reach mem_env LogOffset0 wit_ctx wit_ctx_world [] {}"
    by (rule ctx_start [OF h]) (simp_all add: wit_ctx_def)
  have lt: "b_offset LogOffset0 < b_offset (wit_off 1)" "b_offset LogOffset0 < b_offset (wit_off 2)"
    "b_offset (wit_off 1) < b_offset (wit_off 2)"
    by (simp_all add: LogOffset0_def BinlogOffset0_def wit_off_def less_BinlogOffset_iff)
  let ?c = "PrepareUpdateAppliedIndex (wit_off 2) (PrepareUpdateAppliedIndex (wit_off 1) wit_ctx)"
  have r2: "ctx_reach mem_env LogOffset0 ?c wit_ctx_world (([] @ [wit_off 1]) @ [wit_off 2]) {}"
    by (rule ctx_prepare [OF ctx_prepare [OF r0 lt(1)] lt(2)]) (use lt in simp_all)
  have "\<exists>c' w'. UpdateAppliedIndex mem_env (wit_off 2) ?c wit_ctx_world = Some (c', w') \<and> cx_path c' = ''c''
      \<and> (\<exists>c2 w2. Context_Init mem_env (Context_new ''c'') w' = Some (OK, c2, w2))"
    by (simp add: UpdateAppliedIndex_def PrepareUpdateAppliedIndex_def wit_ctx_def window_eval LogOffset_ops LogOffset0_def
        BinlogOffset0_def Context_Init_def Context_new_def wit_ctx_world_def mem_env_simps Let_def)
  then obtain c' w' c2 w2 where u: "UpdateAppliedIndex mem_env (wit_off 2) ?c wit_ctx_world = Some (c', w')" "cx_path c' = ''c''"
    and i: "Context_Init mem_env (Context_new ''c'') w' = Some (OK, c2, w2)" by blast
  have r3: "ctx_reach mem_env LogOffset0 c' w' [wit_off 1, wit_off 2] {b_offset (wit_off 2)}"
    using ctx_update [OF r2 u(1)] by simp
  have "reported LogOffset0 [wit_off 1, wit_off 2] {b_offset (wit_off 2)} = LogOffset0"
    by (simp add: reported_def cum_acked_def wit_off_def)
  then have "cx_applied_index c2 = LogOffset0" using context_applied_prefix [OF mem.slash_fs_axioms r3] i u(2) by auto
  with r3 i show ?thesis by blast
qed

end
