(* ===== verification/Pika_Mem_Log.thy ===== *)
theory Pika_Mem_Log
  imports Pika_Define
begin

text \<open>
  \<^verbatim>\<open>MemLog\<close> of \<^verbatim>\<open>include/pika_consensus.h\<close> and \<^verbatim>\<open>src/pika_consensus.cc\<close>: the logs that are in the
  binlog but not yet committed, in memory. Commands are of type \<open>'c\<close>; \<open>'n\<close> is the connection
  with its response buffer.
\<close>

record ('c, 'n) LogItem =
  li_offset :: LogOffset
  li_cmd :: 'c
  li_conn :: "'n option"

record ('c, 'n) MemLog =
  ml_logs :: "('c, 'n) LogItem list"
  ml_last_offset :: LogOffset

definition MemLog0 :: "('c, 'n) MemLog" where
  "MemLog0 = \<lparr>ml_logs = [], ml_last_offset = LogOffset0\<rparr>"

definition MemLog_Size :: "('c, 'n) MemLog \<Rightarrow> int" where
  "MemLog_Size m = int (length (ml_logs m))"

definition AppendLog :: "('c, 'n) LogItem \<Rightarrow> ('c, 'n) MemLog \<Rightarrow> ('c, 'n) MemLog" where
  "AppendLog item m = m\<lparr>ml_logs := ml_logs m @ [item], ml_last_offset := li_offset item\<rparr>"

definition SetLastOffset :: "LogOffset \<Rightarrow> ('c, 'n) MemLog \<Rightarrow> ('c, 'n) MemLog" where
  "SetLastOffset offset m = m\<lparr>ml_last_offset := offset\<rparr>"

text \<open>The two searches, from position \<open>i\<close> on.\<close>

fun InternalFindLogByBinlogOffset :: "LogOffset \<Rightarrow> int \<Rightarrow> ('c, 'n) LogItem list \<Rightarrow> int" where
  "InternalFindLogByBinlogOffset offset i [] = - 1"
| "InternalFindLogByBinlogOffset offset i (x # xs) =
     (if LogOffset_gt (li_offset x) offset then - 1
      else if LogOffset_eq (li_offset x) offset then i
      else InternalFindLogByBinlogOffset offset (i + 1) xs)"

fun InternalFindLogByLogicIndex :: "LogOffset \<Rightarrow> int \<Rightarrow> ('c, 'n) LogItem list \<Rightarrow> int" where
  "InternalFindLogByLogicIndex offset i [] = - 1"
| "InternalFindLogByLogicIndex offset i (x # xs) =
     (if lo_index (l_offset (li_offset x)) > lo_index (l_offset offset) then - 1
      else if lo_index (l_offset (li_offset x)) = lo_index (l_offset offset) then i
      else InternalFindLogByLogicIndex offset (i + 1) xs)"

definition PurgeLogs ::
  "LogOffset \<Rightarrow> ('c, 'n) MemLog \<Rightarrow> Status \<times> ('c, 'n) LogItem list \<times> ('c, 'n) MemLog" where
  "PurgeLogs offset m =
     (let index = InternalFindLogByBinlogOffset offset 0 (ml_logs m)
      in if index < 0 then (NotFound ''Cant find correct index'', [], m)
         else (OK, take (nat index + 1) (ml_logs m), m\<lparr>ml_logs := drop (nat index + 1) (ml_logs m)\<rparr>))"

definition MemLog_TruncateTo :: "LogOffset \<Rightarrow> ('c, 'n) MemLog \<Rightarrow> Status \<times> ('c, 'n) MemLog" where
  "MemLog_TruncateTo offset m =
     (let index = InternalFindLogByBinlogOffset offset 0 (ml_logs m)
      in if index < 0 then (Corruption ''Cant find correct index'', m)
         else (OK, m\<lparr>ml_last_offset := li_offset (ml_logs m ! nat index), ml_logs := take (nat index + 1) (ml_logs m)\<rparr>))"

definition MemLog_Reset :: "LogOffset \<Rightarrow> ('c, 'n) MemLog \<Rightarrow> ('c, 'n) MemLog" where
  "MemLog_Reset offset m = m\<lparr>ml_logs := [], ml_last_offset := offset\<rparr>"

text \<open>A negative start that passes the check is an access before the vector.\<close>

definition GetRangeLogs :: "int \<Rightarrow> int \<Rightarrow> ('c, 'n) MemLog \<Rightarrow> (Status \<times> ('c, 'n) LogItem list) option" where
  "GetRangeLogs start stop m =
     (let log_size = int (length (ml_logs m))
      in if start > stop \<or> start \<ge> log_size \<or> stop \<ge> log_size then Some (Corruption ''Invalid index'', [])
         else if start < 0 then None
         else Some (OK, take (nat (stop + 1 - start)) (drop (nat start) (ml_logs m))))"

definition FindLogItem :: "LogOffset \<Rightarrow> ('c, 'n) MemLog \<Rightarrow> LogOffset option" where
  "FindLogItem offset m =
     (let index = InternalFindLogByLogicIndex offset 0 (ml_logs m)
      in if index < 0 then None else Some (li_offset (ml_logs m ! nat index)))"

section \<open>Searching\<close>

text \<open>Both searches are the search for a key in a list ordered by its comparison operators.\<close>

fun ordered_find :: "('a \<Rightarrow> 'a \<Rightarrow> bool) \<Rightarrow> ('a \<Rightarrow> 'a \<Rightarrow> bool) \<Rightarrow> 'a \<Rightarrow> int \<Rightarrow> 'a list \<Rightarrow> int" where
  "ordered_find gt eq k i [] = - 1"
| "ordered_find gt eq k i (x # xs) =
     (if gt x k then - 1 else if eq x k then i else ordered_find gt eq k (i + 1) xs)"

context offset_order
begin

lemma ordered_find_hit:
  "sorted_wrt lt xs \<Longrightarrow> j < length xs \<Longrightarrow> eq (xs ! j) k \<Longrightarrow> ordered_find gt eq k i xs = i + int j"
proof (induction xs arbitrary: i j)
  case (Cons x xs)
  show ?case
  proof (cases j)
    case 0
    then show ?thesis using Cons.prems exclusive by auto
  next
    case (Suc j')
    then have "lt x (xs ! j')" and eq: "eq (xs ! j') k" using Cons.prems by auto
    then have "lt x k" using lt_eq_trans by blast
    then have "\<not> gt x k" "\<not> eq x k" using exclusive by blast+
    then show ?thesis using Cons.IH [of j' "i + 1"] Cons.prems Suc eq by simp
  qed
qed simp

lemma ordered_find_miss: "\<forall>x \<in> set xs. \<not> eq x k \<Longrightarrow> ordered_find gt eq k i xs = - 1"
  by (induction xs arbitrary: i) auto

text \<open>The outcome of a search, and where it splits the list.\<close>

lemma ordered_find_cases:
  assumes "sorted_wrt lt xs"
  obtains (hit) j where "j < length xs" and "eq (xs ! j) k" and "ordered_find gt eq k 0 xs = int j"
      and "\<forall>x \<in> set (take j xs). lt x k" and "\<forall>x \<in> set (drop (Suc j) xs). lt k x"
    | (miss) "\<forall>x \<in> set xs. \<not> eq x k" and "ordered_find gt eq k 0 xs = - 1"
proof (cases "\<exists>j < length xs. eq (xs ! j) k")
  case True
  then obtain j where j: "j < length xs" "eq (xs ! j) k" by blast
  have "lt (xs ! n) k" if "n < j" for n
    using assms that j lt_eq_trans by (meson sorted_wrt_iff_nth_less)
  then have "\<forall>x \<in> set (take j xs). lt x k" using j(1) by (auto simp: in_set_conv_nth)
  moreover have "lt k (xs ! n)" if "j < n" "n < length xs" for n
    using assms that j(2) by (meson eq_iff le_trans lt_iff sorted_wrt_iff_nth_less)
  then have "\<forall>x \<in> set (drop (Suc j) xs). lt k x" by (auto simp: in_set_conv_nth)
  ultimately show thesis using hit j ordered_find_hit [OF assms j, of 0] by simp
next
  case False
  then have "\<forall>x \<in> set xs. \<not> eq x k" by (metis in_set_conv_nth)
  then show thesis using miss ordered_find_miss by blast
qed

end

text \<open>The order of the logic indexes.\<close>

definition index_of :: "LogOffset \<Rightarrow> u64" where
  "index_of x = lo_index (l_offset x)"

interpretation ix: offset_order "\<lambda>a b. index_of a < index_of b" "\<lambda>a b. index_of a \<le> index_of b"
    "\<lambda>a b. index_of a > index_of b" "\<lambda>a b. index_of a \<ge> index_of b" "\<lambda>a b. index_of a = index_of b"
  by unfold_locales auto

lemma find_binlog: "InternalFindLogByBinlogOffset k i xs = ordered_find LogOffset_gt LogOffset_eq k i (map li_offset xs)"
  by (induction k i xs rule: InternalFindLogByBinlogOffset.induct) auto

lemma find_index: "InternalFindLogByLogicIndex k i xs
    = ordered_find (\<lambda>a b. index_of a > index_of b) (\<lambda>a b. index_of a = index_of b) k i (map li_offset xs)"
  by (induction k i xs rule: InternalFindLogByLogicIndex.induct) (auto simp: index_of_def)

section \<open>The logs in memory\<close>

text \<open>The logs are in the order of the binlog and of their logic index, and the last offset is that of the last log.\<close>

definition memlog_ok :: "('c, 'n) MemLog \<Rightarrow> bool" where
  "memlog_ok m \<longleftrightarrow>
     sorted_wrt LogOffset_lt (map li_offset (ml_logs m))
     \<and> sorted_wrt (\<lambda>a b. index_of a < index_of b) (map li_offset (ml_logs m))
     \<and> (ml_logs m \<noteq> [] \<longrightarrow> ml_last_offset m = li_offset (last (ml_logs m)))"

lemma memlog_ok_append:
  assumes "memlog_ok m" and "\<forall>x \<in> set (ml_logs m). LogOffset_lt (li_offset x) (li_offset item) \<and> index_of (li_offset x) < index_of (li_offset item)"
  shows "memlog_ok (AppendLog item m)"
  using assms by (auto simp: memlog_ok_def AppendLog_def sorted_wrt_append)

lemma memlog_le_last:
  assumes "memlog_ok m" and "x \<in> set (ml_logs m)"
  shows "b_offset (li_offset x) \<le> b_offset (ml_last_offset m) \<and> index_of (li_offset x) \<le> index_of (ml_last_offset m)"
proof -
  obtain ys y where "ml_logs m = ys @ [y]" using assms(2) by (metis empty_iff list.set(1) rev_exhaust)
  then show ?thesis using assms by (auto simp: memlog_ok_def sorted_wrt_append LogOffset_ops intro: order_less_imp_le)
qed

lemma sorted_take_drop:
  "sorted_wrt P (map f xs) \<Longrightarrow> sorted_wrt P (map f (take n xs))"
  "sorted_wrt P (map f xs) \<Longrightarrow> sorted_wrt P (map f (drop n xs))"
  by (auto simp flip: take_map drop_map intro: sorted_wrt_take sorted_wrt_drop)

lemma PurgeLogs_splits:
  assumes "memlog_ok m" and "PurgeLogs offset m = (s, logs, m')"
  shows "memlog_ok m' \<and> logs @ ml_logs m' = ml_logs m
    \<and> (if \<exists>x \<in> set (ml_logs m). LogOffset_eq (li_offset x) offset
       then s = OK \<and> logs \<noteq> [] \<and> LogOffset_eq (li_offset (last logs)) offset
         \<and> (\<forall>x \<in> set logs. LogOffset_le (li_offset x) offset) \<and> (\<forall>x \<in> set (ml_logs m'). LogOffset_gt (li_offset x) offset)
       else IsNotFound s \<and> logs = [] \<and> m' = m)"
proof -
  have sorted: "sorted_wrt LogOffset_lt (map li_offset (ml_logs m))" using assms(1) by (simp add: memlog_ok_def)
  show ?thesis
    using sorted
  proof (cases rule: lo.ordered_find_cases [where k = offset, case_names hit miss])
    case (hit j)
    then have j: "j < length (ml_logs m)" by simp
    have m': "logs = take (Suc j) (ml_logs m)" "m' = m\<lparr>ml_logs := drop (Suc j) (ml_logs m)\<rparr>" "s = OK"
      using assms(2) hit(3) by (simp_all add: PurgeLogs_def find_binlog)
    have eq: "LogOffset_eq (li_offset (ml_logs m ! j)) offset" using hit(2) j by simp
    have logs: "logs = take j (ml_logs m) @ [ml_logs m ! j]" using m'(1) j by (simp add: take_Suc_conv_app_nth)
    have "memlog_ok m'"
      using assms(1) j by (auto simp: memlog_ok_def m'(2) sorted_take_drop last_drop)
    moreover have "\<forall>x \<in> set logs. LogOffset_le (li_offset x) offset"
      using hit(4) eq by (auto simp: logs take_map lo.lt_iff lo.eq_iff)
    moreover have "\<forall>x \<in> set (ml_logs m'). LogOffset_gt (li_offset x) offset"
      using hit(5) by (auto simp: m'(2) drop_map lo.gt_iff)
    moreover have "\<exists>x \<in> set (ml_logs m). LogOffset_eq (li_offset x) offset" using eq j nth_mem by blast
    moreover have "logs \<noteq> []" "LogOffset_eq (li_offset (last logs)) offset" using eq by (simp_all add: logs)
    ultimately show ?thesis using m' by simp
  next
    case miss
    then have "\<not> (\<exists>x \<in> set (ml_logs m). LogOffset_eq (li_offset x) offset)" by simp
    then show ?thesis
      using assms miss(2) by (auto simp: PurgeLogs_def find_binlog status_simps)
  qed
qed

text \<open>
  In a log that is in order, \<^verbatim>\<open>PurgeLogs\<close> succeeds exactly for the offsets it holds. It then
  hands out the logs up to and including the offset, in order, and keeps exactly those behind it.
\<close>

theorem memlog_purge_splits:
  assumes "memlog_ok m" and "PurgeLogs offset m = (s, logs, m')"
  shows "memlog_ok m' \<and> logs @ ml_logs m' = ml_logs m
    \<and> (if \<exists>x \<in> set (ml_logs m). LogOffset_eq (li_offset x) offset
       then s = OK \<and> logs \<noteq> [] \<and> LogOffset_eq (li_offset (last logs)) offset
         \<and> (\<forall>x \<in> set logs. LogOffset_le (li_offset x) offset) \<and> (\<forall>x \<in> set (ml_logs m'). LogOffset_gt (li_offset x) offset)
       else IsNotFound s \<and> logs = [] \<and> m' = m)"
  by (rule PurgeLogs_splits [OF assms])

definition wit_item :: "nat \<Rightarrow> (nat, nat) LogItem" where
  "wit_item n = \<lparr>li_offset = \<lparr>b_offset = BinlogOffset 0 (of_nat n), l_offset = \<lparr>lo_term = 1, lo_index = of_nat n\<rparr>\<rparr>, li_cmd = n, li_conn = None\<rparr>"

definition wit_memlog :: "(nat, nat) MemLog" where
  "wit_memlog = AppendLog (wit_item 3) (AppendLog (wit_item 2) (AppendLog (wit_item 1) MemLog0))"

lemma wit_memlog_ok: "memlog_ok wit_memlog"
  by (simp add: memlog_ok_def wit_memlog_def AppendLog_def MemLog0_def wit_item_def LogOffset_ops less_BinlogOffset_iff index_of_def)

theorem memlog_purge_splits_witness:
  "\<exists>m'. PurgeLogs (li_offset (wit_item 2)) wit_memlog = (OK, [wit_item 1, wit_item 2], m') \<and> ml_logs m' = [wit_item 3]"
proof -
  have "\<exists>m'. PurgeLogs (li_offset (wit_item 2)) wit_memlog = (OK, [wit_item 1, wit_item 2], m')"
    by (simp add: PurgeLogs_def wit_memlog_def AppendLog_def MemLog0_def wit_item_def LogOffset_ops less_BinlogOffset_iff)
  then obtain m' where p: "PurgeLogs (li_offset (wit_item 2)) wit_memlog = (OK, [wit_item 1, wit_item 2], m')" by blast
  from memlog_purge_splits [OF wit_memlog_ok p] have "[wit_item 1, wit_item 2] @ ml_logs m' = ml_logs wit_memlog" by blast
  with p show ?thesis by (simp add: wit_memlog_def AppendLog_def MemLog0_def)
qed

text \<open>The logs \<^verbatim>\<open>TruncateTo\<close> keeps.\<close>

lemma MemLog_TruncateTo_ok:
  assumes "memlog_ok m" and "MemLog_TruncateTo offset m = (OK, m')"
  shows "memlog_ok m' \<and> ml_logs m' \<noteq> [] \<and> LogOffset_eq (ml_last_offset m') offset
    \<and> ml_logs m' = filter (\<lambda>x. LogOffset_le (li_offset x) offset) (ml_logs m)
    \<and> ml_last_offset m' \<in> li_offset ` set (ml_logs m)"
proof -
  have sorted: "sorted_wrt LogOffset_lt (map li_offset (ml_logs m))" using assms(1) by (simp add: memlog_ok_def)
  then show ?thesis
  proof (cases rule: lo.ordered_find_cases [where k = offset, case_names hit miss])
    case (hit j)
    then have j: "j < length (ml_logs m)" by simp
    have m': "m' = m\<lparr>ml_last_offset := li_offset (ml_logs m ! j), ml_logs := take (Suc j) (ml_logs m)\<rparr>"
      using assms(2) hit(3) by (simp add: MemLog_TruncateTo_def find_binlog)
    have eq: "LogOffset_eq (li_offset (ml_logs m ! j)) offset" using hit(2) j by simp
    have tk: "take (Suc j) (ml_logs m) = take j (ml_logs m) @ [ml_logs m ! j]" using j by (simp add: take_Suc_conv_app_nth)
    have low: "\<forall>x \<in> set (take (Suc j) (ml_logs m)). LogOffset_le (li_offset x) offset"
      using hit(4) eq by (auto simp: tk take_map lo.lt_iff lo.eq_iff)
    have high: "\<forall>x \<in> set (drop (Suc j) (ml_logs m)). \<not> LogOffset_le (li_offset x) offset"
      using hit(5) by (auto simp: drop_map lo.lt_iff)
    have "filter (\<lambda>x. LogOffset_le (li_offset x) offset) (take (Suc j) (ml_logs m) @ drop (Suc j) (ml_logs m)) = take (Suc j) (ml_logs m)"
      unfolding filter_append using low high by (simp add: filter_True filter_False)
    moreover have "last (take (Suc j) (ml_logs m)) = ml_logs m ! j" by (simp add: tk)
    then have "memlog_ok m'"
      using assms(1) by (simp add: memlog_ok_def m' sorted_take_drop)
    moreover have "li_offset (ml_logs m ! j) \<in> li_offset ` set (ml_logs m)" using j by simp
    ultimately show ?thesis using eq j by (auto simp: m')
  next
    case miss
    then show ?thesis using assms(2) by (simp add: MemLog_TruncateTo_def find_binlog)
  qed
qed

text \<open>
  \<^verbatim>\<open>TruncateTo\<close> succeeds exactly for offsets the log holds, keeps exactly the logs up to the
  offset and makes it the last offset. \<^verbatim>\<open>FindLogItem\<close> finds the log with a given logic index exactly
  when there is one.
\<close>

theorem memlog_truncate_find:
  assumes "memlog_ok m"
  shows "(ok (fst (MemLog_TruncateTo offset m)) \<longleftrightarrow> (\<exists>x \<in> set (ml_logs m). LogOffset_eq (li_offset x) offset))
    \<and> (\<forall>m'. MemLog_TruncateTo offset m = (OK, m') \<longrightarrow>
          memlog_ok m' \<and> ml_logs m' = filter (\<lambda>x. LogOffset_le (li_offset x) offset) (ml_logs m)
          \<and> LogOffset_eq (ml_last_offset m') offset)
    \<and> (\<forall>found. FindLogItem k m = Some found \<longleftrightarrow> found \<in> li_offset ` set (ml_logs m) \<and> index_of found = index_of k)"
proof (intro conjI allI)
  have sorted: "sorted_wrt LogOffset_lt (map li_offset (ml_logs m))" "sorted_wrt (\<lambda>a b. index_of a < index_of b) (map li_offset (ml_logs m))"
    using assms by (simp_all add: memlog_ok_def)
  show "ok (fst (MemLog_TruncateTo offset m)) \<longleftrightarrow> (\<exists>x \<in> set (ml_logs m). LogOffset_eq (li_offset x) offset)"
    using sorted(1)
  proof (cases rule: lo.ordered_find_cases [where k = offset, case_names hit miss])
    case (hit j)
    then show ?thesis by (auto simp: MemLog_TruncateTo_def find_binlog intro: bexI [of _ "ml_logs m ! j"])
  next
    case miss
    then show ?thesis by (simp add: MemLog_TruncateTo_def find_binlog)
  qed
  show "FindLogItem k m = Some found \<longleftrightarrow> found \<in> li_offset ` set (ml_logs m) \<and> index_of found = index_of k" for found
    using sorted(2)
  proof (cases rule: ix.ordered_find_cases [where k = k, case_names hit miss])
    case (hit j)
    then have "FindLogItem k m = Some (li_offset (ml_logs m ! j))" by (simp add: FindLogItem_def find_index)
    moreover have "found = li_offset (ml_logs m ! j)" if "found \<in> li_offset ` set (ml_logs m)" "index_of found = index_of k"
    proof -
      from that(1) obtain i where i: "i < length (ml_logs m)" "found = li_offset (ml_logs m ! i)" by (auto simp: in_set_conv_nth)
      with ix.sorted_eq_unique [OF sorted(2), of i j k] hit that(2) show ?thesis by simp
    qed
    ultimately show ?thesis using hit by auto
  next
    case miss
    then show ?thesis by (auto simp: FindLogItem_def find_index)
  qed
qed (use MemLog_TruncateTo_ok [OF assms] in auto)

theorem memlog_truncate_find_witness:
  "memlog_ok wit_memlog \<and> FindLogItem (li_offset (wit_item 2)) wit_memlog = Some (li_offset (wit_item 2))"
proof -
  have "li_offset (wit_item 2) \<in> li_offset ` set (ml_logs wit_memlog)" by (simp add: wit_memlog_def AppendLog_def)
  then show ?thesis using memlog_truncate_find [OF wit_memlog_ok, of _ "li_offset (wit_item 2)"] wit_memlog_ok by auto
qed

end
