(* ===== verification/Pika_Sync_Progress.thy ===== *)
theory Pika_Sync_Progress
  imports Pika_Slave_Node "HOL-Library.AList"
begin

text \<open>
  \<^verbatim>\<open>SyncProgress\<close> of \<^verbatim>\<open>include/pika_consensus.h\<close> and \<^verbatim>\<open>src/pika_consensus.cc\<close>: the slaves of a
  partition, what each of them has acknowledged, and the offset that enough of them have reached. The
  hash maps are association lists, in the unspecified order in which an iteration meets the entries.
  \<open>consensus_level\<close> is the value of the configuration.
\<close>

record 'h SyncProgress =
  sp_slaves :: "(string \<times> 'h SlaveNode) list"
  sp_match_index :: "(string \<times> LogOffset) list"

definition SyncProgress0 :: "'h SyncProgress" where
  "SyncProgress0 = \<lparr>sp_slaves = [], sp_match_index = []\<rparr>"

definition slave_key :: "string \<Rightarrow> int \<Rightarrow> string" where
  "slave_key ip port = ip @ dec_string port"

definition GetSlaveNode :: "string \<Rightarrow> int \<Rightarrow> 'h SyncProgress \<Rightarrow> 'h SlaveNode option" where
  "GetSlaveNode ip port sp = map_of (sp_slaves sp) (slave_key ip port)"

definition GetAllSlaveNodes :: "'h SyncProgress \<Rightarrow> (string \<times> 'h SlaveNode) list" where
  "GetAllSlaveNodes sp = sp_slaves sp"

definition GetAllMatchIndex :: "'h SyncProgress \<Rightarrow> (string \<times> LogOffset) list" where
  "GetAllMatchIndex sp = sp_match_index sp"

text \<open>Two readings of the clock, \<open>now1\<close> and \<open>now2\<close>.\<close>

definition SyncProgress_AddSlaveNode ::
  "string \<Rightarrow> int \<Rightarrow> string \<Rightarrow> u32 \<Rightarrow> i32 \<Rightarrow> u64 \<Rightarrow> u64 \<Rightarrow> 'h SyncProgress \<Rightarrow> Status \<times> 'h SyncProgress" where
  "SyncProgress_AddSlaveNode ip port table_name partition_id session_id now1 now2 sp =
     (case GetSlaveNode ip port sp of
        Some sn \<Rightarrow>
          (OK, sp\<lparr>sp_slaves := AList.update (slave_key ip port)
                     (sn\<lparr>sn_node := (sn_node sn)\<lparr>rn_session_id := session_id\<rparr>\<rparr>) (sp_slaves sp)\<rparr>)
      | None \<Rightarrow>
          let sn = SlaveNode_new ip port table_name partition_id session_id;
              sn = sn\<lparr>sn_node := (sn_node sn)\<lparr>rn_last_send_time := now1, rn_last_recv_time := now2\<rparr>\<rparr>
          in (OK, sp\<lparr>sp_slaves := AList.update (slave_key ip port) sn (sp_slaves sp),
                     sp_match_index := AList.update (slave_key ip port) LogOffset0 (sp_match_index sp)\<rparr>))"

definition SyncProgress_RemoveSlaveNode :: "string \<Rightarrow> int \<Rightarrow> 'h SyncProgress \<Rightarrow> Status \<times> 'h SyncProgress" where
  "SyncProgress_RemoveSlaveNode ip port sp =
     (OK, sp\<lparr>sp_slaves := AList.delete (slave_key ip port) (sp_slaves sp),
             sp_match_index := AList.delete (slave_key ip port) (sp_match_index sp)\<rparr>)"

definition SlaveSize :: "'h SyncProgress \<Rightarrow> int" where
  "SlaveSize sp = int (length (sp_slaves sp))"

text \<open>
  The level counts from the end of the sorted offsets. A negative level would index behind the end
  of the vector: \<open>None\<close>.
\<close>

definition InternalCalCommittedIndex :: "int \<Rightarrow> (string \<times> LogOffset) list \<Rightarrow> LogOffset option" where
  "InternalCalCommittedIndex consensus_level match_index =
     (if consensus_level = 0 then Some LogOffset0
      else if int (length match_index) < consensus_level then Some LogOffset0
      else if consensus_level < 0 then None
      else let offsets = sort_key b_offset (map snd match_index)
           in Some (offsets ! (length offsets - nat consensus_level)))"

definition SyncProgress_Update ::
  "int \<Rightarrow> string \<Rightarrow> int \<Rightarrow> LogOffset \<Rightarrow> LogOffset \<Rightarrow> LogOffset \<Rightarrow> 'h SyncProgress
    \<Rightarrow> (Status \<times> LogOffset \<times> 'h SyncProgress) option" where
  "SyncProgress_Update consensus_level ip port start stop committed_index sp =
     (case GetSlaveNode ip port sp of
        None \<Rightarrow> Some (NotFound (''ip '' @ ip @ '' port '' @ dec_string port), committed_index, sp)
      | Some sn \<Rightarrow>
          let (s, acked_offset, sn) = SlaveNode_Update start stop LogOffset0 sn;
              sp = sp\<lparr>sp_slaves := AList.update (slave_key ip port) sn (sp_slaves sp)\<rparr>
          in if \<not> ok s then Some (s, committed_index, sp)
             else let sp = sp\<lparr>sp_match_index := AList.update (slave_key ip port) acked_offset (sp_match_index sp)\<rparr>
                  in map_option (\<lambda>c. (OK, c, sp)) (InternalCalCommittedIndex consensus_level (GetAllMatchIndex sp)))"

section \<open>The committed index\<close>

text \<open>How many entries have reached an offset.\<close>

definition reached :: "BinlogOffset \<Rightarrow> (string \<times> LogOffset) list \<Rightarrow> nat" where
  "reached b mi = length (filter (\<lambda>e. b \<le> b_offset (snd e)) mi)"

lemma reached_sorted: "reached b mi = length (filter (\<lambda>x. b \<le> x) (sort (map (b_offset \<circ> snd) mi)))"
proof -
  have "length (filter (\<lambda>x. b \<le> x) (sort xs)) = length (filter (\<lambda>x. b \<le> x) xs)" for xs
    by (metis filter_sort length_sort)
  then show ?thesis by (simp add: reached_def filter_map o_def)
qed

lemma sorted_nth_count:
  assumes "sorted (ks :: 'a :: linorder list)" and "0 < n" and "n \<le> length ks"
  shows "n \<le> length (filter (\<lambda>x. ks ! (length ks - n) \<le> x) ks)"
    and "n \<le> length (filter (\<lambda>x. b \<le> x) ks) \<Longrightarrow> b \<le> ks ! (length ks - n)"
proof -
  let ?i = "length ks - n"
  have split: "filter P ks = filter P (take ?i ks) @ filter P (drop ?i ks)" for P
    by (metis append_take_drop_id filter_append)
  have "\<forall>x \<in> set (drop ?i ks). ks ! ?i \<le> x"
    using assms by (auto simp: in_set_conv_nth intro!: sorted_nth_mono)
  then have "filter (\<lambda>x. ks ! ?i \<le> x) (drop ?i ks) = drop ?i ks" by simp
  then show "n \<le> length (filter (\<lambda>x. ks ! ?i \<le> x) ks)"
    using assms(3) by (subst split) simp
  show "b \<le> ks ! ?i" if le: "n \<le> length (filter (\<lambda>x. b \<le> x) ks)"
  proof (rule ccontr)
    assume n: "\<not> b \<le> ks ! ?i"
    have "\<not> b \<le> x" if "x \<in> set (take (Suc ?i) ks)" for x
    proof -
      from that obtain j where "j \<le> ?i" "x = ks ! j" "j < length ks"
        by (auto simp: in_set_conv_nth less_Suc_eq_le)
      then have "x \<le> ks ! ?i" using assms by (auto intro: sorted_nth_mono)
      with n show ?thesis by auto
    qed
    then have none: "filter (\<lambda>x. b \<le> x) (take (Suc ?i) ks) = []" by (simp add: filter_empty_conv)
    have "filter (\<lambda>x. b \<le> x) ks = filter (\<lambda>x. b \<le> x) (take (Suc ?i) ks) @ filter (\<lambda>x. b \<le> x) (drop (Suc ?i) ks)"
      by (metis append_take_drop_id filter_append)
    then have "length (filter (\<lambda>x. b \<le> x) ks) \<le> length (drop (Suc ?i) ks)"
      using none length_filter_le [of _ "drop (Suc ?i) ks"] by simp
    then show False using le assms(2,3) by simp
  qed
qed

lemma cal_committed:
  assumes "0 < level" and "level \<le> int (length mi)"
  shows "\<exists>c. InternalCalCommittedIndex level mi = Some c \<and> c \<in> snd ` set mi
    \<and> nat level \<le> reached (b_offset c) mi \<and> (\<forall>b. nat level \<le> reached b mi \<longrightarrow> b \<le> b_offset c)"
proof -
  let ?os = "sort_key b_offset (map snd mi)" and ?ks = "sort (map (b_offset \<circ> snd) mi)"
  let ?c = "?os ! (length ?os - nat level)"
  have ks: "map b_offset ?os = ?ks"
    by (rule properties_for_sort [symmetric]) (simp_all add: multiset.map_comp)
  have n: "0 < nat level" "nat level \<le> length ?ks" using assms by simp_all
  have lt: "length ?os - nat level < length ?os" using assms by simp
  have "b_offset ?c = map b_offset ?os ! (length ?os - nat level)" using lt by (simp only: nth_map)
  then have c: "b_offset ?c = ?ks ! (length ?ks - nat level)" unfolding ks by simp
  have "?c \<in> set ?os" using lt by (rule nth_mem)
  then have "?c \<in> snd ` set mi" by simp
  then show ?thesis
    using sorted_nth_count [OF sorted_sort n] assms c by (auto simp: InternalCalCommittedIndex_def Let_def reached_sorted)
qed

text \<open>
  C26: With a consensus level above 0 and enough slaves, the committed index is an offset that at least
  that many slaves have acknowledged, and the largest such offset.
\<close>

theorem committed_index_quorum:
  assumes "0 < level" and "level \<le> int (length mi)"
  shows "\<exists>c. InternalCalCommittedIndex level mi = Some c \<and> c \<in> snd ` set mi
    \<and> nat level \<le> reached (b_offset c) mi \<and> (\<forall>b. nat level \<le> reached b mi \<longrightarrow> b \<le> b_offset c)"
  by (rule cal_committed [OF assms])

theorem committed_index_quorum_witness:
  "InternalCalCommittedIndex 2 [(''a'', wit_off 3), (''b'', wit_off 1), (''c'', wit_off 2)] = Some (wit_off 2)
    \<and> 2 \<le> reached (b_offset (wit_off 2)) [(''a'', wit_off 3), (''b'', wit_off 1), (''c'', wit_off 2)]"
proof -
  let ?mi = "[(''a'', wit_off 3), (''b'', wit_off 1), (''c'', wit_off 2)]"
  have c: "InternalCalCommittedIndex 2 ?mi = Some (wit_off 2)"
    by (simp add: InternalCalCommittedIndex_def wit_off_def less_eq_BinlogOffset_def BinlogOffset_le_def
        del: BinlogOffset_ops)
  then show ?thesis using committed_index_quorum [of 2 ?mi] by auto
qed

section \<open>The slaves\<close>

text \<open>Every slave has its entry in the match index, and no key occurs twice.\<close>

definition progress_ok :: "'h SyncProgress \<Rightarrow> bool" where
  "progress_ok sp \<longleftrightarrow>
     distinct (map fst (sp_slaves sp)) \<and> distinct (map fst (sp_match_index sp))
     \<and> fst ` set (sp_slaves sp) = fst ` set (sp_match_index sp)"

lemma progress_ok_size: "progress_ok sp \<Longrightarrow> length (sp_match_index sp) = length (sp_slaves sp)"
  unfolding progress_ok_def by (metis distinct_card length_map list.set_map)

lemma keys_delete: "fst ` set (AList.delete k al) = fst ` set al - {k}"
  by (metis AList.delete_keys list.set_map set_removeAll)

lemma GetSlaveNode_key: "GetSlaveNode ip port sp = Some sn \<Longrightarrow> slave_key ip port \<in> fst ` set (sp_slaves sp)"
  unfolding GetSlaveNode_def by (force dest: map_of_SomeD)

text \<open>
  The operations of \<^verbatim>\<open>SyncProgress\<close> keep slaves and match index in step. A successful \<^verbatim>\<open>Update\<close>
  records the acknowledged offset of the slave as its match index, changes no other entry, and
  returns the offset that a quorum of the match index has reached.
\<close>

theorem sync_progress_steps:
  assumes "progress_ok sp"
  shows "progress_ok (snd (SyncProgress_AddSlaveNode ip port tbl pid sid now1 now2 sp))
    \<and> progress_ok (snd (SyncProgress_RemoveSlaveNode ip port sp))
    \<and> (\<forall>level s e c0 c sp'. SyncProgress_Update level ip port s e c0 sp = Some (OK, c, sp') \<longrightarrow>
          progress_ok sp'
          \<and> (\<exists>sn. GetSlaveNode ip port sp' = Some sn \<and> map_of (sp_match_index sp') (slave_key ip port) = Some (sn_acked_offset sn))
          \<and> (\<forall>k. k \<noteq> slave_key ip port \<longrightarrow> map_of (sp_match_index sp') k = map_of (sp_match_index sp) k)
          \<and> (0 < level \<and> level \<le> SlaveSize sp' \<longrightarrow> nat level \<le> reached (b_offset c) (sp_match_index sp')))"
proof (intro conjI allI impI)
  let ?k = "slave_key ip port"
  show "progress_ok (snd (SyncProgress_AddSlaveNode ip port tbl pid sid now1 now2 sp))"
    using assms GetSlaveNode_key [of ip port sp]
    by (auto simp: progress_ok_def SyncProgress_AddSlaveNode_def Let_def AList.distinct_update AList.dom_update split: option.split)
  show "progress_ok (snd (SyncProgress_RemoveSlaveNode ip port sp))"
    using assms by (simp add: progress_ok_def SyncProgress_RemoveSlaveNode_def AList.distinct_delete keys_delete)
  fix level s e c0 c and sp' :: "'a SyncProgress"
  assume u: "SyncProgress_Update level ip port s e c0 sp = Some (OK, c, sp')"
  obtain sn where sn: "GetSlaveNode ip port sp = Some sn"
    using u by (cases "GetSlaveNode ip port sp") (auto simp: SyncProgress_Update_def)
  obtain st a sn' where r: "SlaveNode_Update s e LogOffset0 sn = (st, a, sn')" by (cases "SlaveNode_Update s e LogOffset0 sn")
  have st: "st = OK" using u by (simp add: SyncProgress_Update_def sn r Let_def split: if_splits)
  have sp': "sp' = sp\<lparr>sp_slaves := AList.update ?k sn' (sp_slaves sp), sp_match_index := AList.update ?k a (sp_match_index sp)\<rparr>"
    and c: "InternalCalCommittedIndex level (sp_match_index sp') = Some c"
    using u by (auto simp: SyncProgress_Update_def sn r st Let_def GetAllMatchIndex_def)
  have a: "a = sn_acked_offset sn'" using r st by (auto elim: SlaveNode_Update_okE)
  show ok': "progress_ok sp'"
    using assms GetSlaveNode_key [OF sn] by (auto simp: progress_ok_def sp' AList.distinct_update AList.dom_update)
  show "\<exists>sn. GetSlaveNode ip port sp' = Some sn \<and> map_of (sp_match_index sp') ?k = Some (sn_acked_offset sn)"
    by (simp add: GetSlaveNode_def sp' AList.update_conv' a)
  show "map_of (sp_match_index sp') k = map_of (sp_match_index sp) k" if "k \<noteq> ?k" for k
    using that by (simp add: sp' AList.update_conv')
  show "nat level \<le> reached (b_offset c) (sp_match_index sp')" if "0 < level \<and> level \<le> SlaveSize sp'"
    using cal_committed [of level "sp_match_index sp'"] that progress_ok_size [OF ok'] c by (auto simp: SlaveSize_def)
qed

text \<open>Two slaves, of which the first has two binlogs under way.\<close>

definition wit_progress :: "(string \<times> nat) SyncProgress" where
  "wit_progress = \<lparr>sp_slaves = [(slave_key ''h'' 9221, wit_slave), (slave_key ''g'' 9221, SlaveNode_new ''g'' 9221 ''db0'' 0 2)],
     sp_match_index = [(slave_key ''g'' 9221, LogOffset0), (slave_key ''h'' 9221, LogOffset0)]\<rparr>"

theorem sync_progress_steps_witness:
  "\<exists>c sp'. SyncProgress_Update 1 ''h'' 9221 (wit_off 1) (wit_off 1) LogOffset0 wit_progress = Some (OK, c, sp')
    \<and> progress_ok sp' \<and> 1 \<le> reached (b_offset c) (sp_match_index sp')"
proof -
  have ok: "progress_ok wit_progress" by (auto simp: progress_ok_def wit_progress_def slave_key_def)
  have "\<exists>sn'. SlaveNode_Update (wit_off 1) (wit_off 1) LogOffset0 wit_slave = (OK, wit_off 1, sn')"
    by (simp add: SlaveNode_Update_def wit_slave_def SlaveNode_new_def window_eval LogOffset_ops BinlogOffset0_def LogOffset0_def)
  then obtain c sp' where u: "SyncProgress_Update 1 ''h'' 9221 (wit_off 1) (wit_off 1) LogOffset0 wit_progress = Some (OK, c, sp')"
      and sz: "SlaveSize sp' = 2"
    by (auto simp: SyncProgress_Update_def GetSlaveNode_def GetAllMatchIndex_def InternalCalCommittedIndex_def
        wit_progress_def slave_key_def SlaveSize_def Let_def)
  then show ?thesis using sync_progress_steps [OF ok, of "''h''" 9221] by fastforce
qed

text \<open>
  The key of a slave is its address followed by its port without a separator, so two slaves can
  have the same key. Adding the second then returns OK, but only gives the first a new session id:
  the second is not registered.
\<close>

theorem slave_key_collision:
  "slave_key ''10.0.0.1'' 1234 = slave_key ''10.0.0.11'' 234
    \<and> (let sp = snd (SyncProgress_AddSlaveNode ''10.0.0.1'' 1234 ''db0'' 0 1 5 5 SyncProgress0);
           (s, sp') = SyncProgress_AddSlaveNode ''10.0.0.11'' 234 ''db0'' 0 2 6 6 sp
       in s = OK \<and> SlaveSize sp' = 1 \<and> map_option (rn_ip \<circ> sn_node) (GetSlaveNode ''10.0.0.11'' 234 sp') = Some ''10.0.0.1'')"
proof -
  have key: "slave_key ''10.0.0.1'' 1234 = slave_key ''10.0.0.11'' 234"
    by (simp add: slave_key_def dec_string_def dec_digits.simps char_of_def bit_0)
  show ?thesis
    unfolding SyncProgress_AddSlaveNode_def GetSlaveNode_def key
    by (simp add: SyncProgress0_def Let_def SlaveSize_def SlaveNode_new_def RmNode_new_def)
qed

end
