(* ===== verification/Pika_Stable_Log.thy ===== *)
theory Pika_Stable_Log
  imports Pika_Binlog_Seek Pika_Transverter
begin

text \<open>
  \<^verbatim>\<open>StableLog\<close> of \<^verbatim>\<open>include/pika_stable_log.h\<close> and \<^verbatim>\<open>src/pika_stable_log.cc\<close>: the binlog of a
  partition with its directory of files, the first offset it still holds, purging and truncation.
  \<open>string2l\<close> stands for \<^verbatim>\<open>slash::string2l\<close>, which gives the number a string spells. Moving the
  directory to the trash when a partition is left is not modelled.
\<close>

section \<open>The files of the log\<close>

text \<open>\<^verbatim>\<open>std::map\<close> as a list in the order of the keys; an existing key keeps its value.\<close>

fun std_map_insert :: "'k :: linorder \<Rightarrow> 'v \<Rightarrow> ('k \<times> 'v) list \<Rightarrow> ('k \<times> 'v) list" where
  "std_map_insert k v [] = [(k, v)]"
| "std_map_insert k v ((k', v') # xs) =
     (if k < k' then (k, v) # (k', v') # xs
      else if k = k' then (k', v') # xs
      else (k', v') # std_map_insert k v xs)"

definition add_binlog_file :: "(string \<Rightarrow> int option) \<Rightarrow> string \<Rightarrow> (u32 \<times> string) list \<Rightarrow> (u32 \<times> string) list" where
  "add_binlog_file string2l child binlogs =
     (if take (length kBinlogPrefix) child \<noteq> kBinlogPrefix then binlogs
      else case string2l (drop (length kBinlogPrefix) child) of
             None \<Rightarrow> binlogs
           | Some index \<Rightarrow> std_map_insert (of_int index) child binlogs)"

definition GetBinlogFiles ::
  "('w, 'h) slash_env \<Rightarrow> (string \<Rightarrow> int option) \<Rightarrow> string \<Rightarrow> 'w \<Rightarrow> (u32 \<times> string) list option" where
  "GetBinlogFiles E string2l log_path w =
     (let (ret, children) = env_GetChildren E log_path w
      in if ret \<noteq> 0 then None else Some (fold (add_binlog_file string2l) children []))"

record StableLog =
  sl_purging :: bool
  sl_table_name :: string
  sl_partition_id :: u32
  sl_log_path :: string
  sl_stable_logger :: Binlog
  sl_first_offset :: LogOffset

text \<open>
  \<^verbatim>\<open>UpdateFirstOffset\<close>: reads from the start of a file to the first item that is not padding. The
  loop gives no offset when the function returns without setting it.
\<close>

partial_function (option) first_offset_loop ::
  "('w, 'h) slash_env \<Rightarrow> slash_coding \<Rightarrow> Binlog \<Rightarrow> BinlogItem \<Rightarrow> u32 \<Rightarrow> u64 \<Rightarrow> 'h PikaBinlogReader \<Rightarrow> 'w \<Rightarrow> LogOffset option option" where
  [code]: "first_offset_loop E C b item filenum offset r w =
     (case Get E b [] filenum offset r w of
        None \<Rightarrow> None
      | Some (s, binlog, filenum, offset, r) \<Rightarrow>
          if IsEndFile s then Some None
          else if \<not> ok s then Some None
          else case BinlogItemWithoutContentDecode C TypeFirst binlog item of
                 (res, item) \<Rightarrow>
                   if \<not> res then Some None
                   else if bi_exec_time item \<noteq> 0 then
                     Some (Some \<lparr>b_offset = BinlogOffset filenum offset,
                                 l_offset = \<lparr>lo_term = bi_term_id item, lo_index = bi_logic_id item\<rparr>\<rparr>)
                   else first_offset_loop E C b item filenum offset r w)"

definition UpdateFirstOffset ::
  "('w, 'h) slash_env \<Rightarrow> slash_coding \<Rightarrow> u32 \<Rightarrow> StableLog \<Rightarrow> 'w \<Rightarrow> StableLog option" where
  "UpdateFirstOffset E C filenum sl w =
     (case Seek E (sl_stable_logger sl) filenum 0 PikaBinlogReader_new0 w of
        None \<Rightarrow> None
      | Some (res, r) \<Rightarrow>
          if res \<noteq> 0 then Some sl
          else case first_offset_loop E C (sl_stable_logger sl) BinlogItem0 0 0 r w of
                 None \<Rightarrow> None
               | Some None \<Rightarrow> Some sl
               | Some (Some offset) \<Rightarrow> Some (sl\<lparr>sl_first_offset := offset\<rparr>))"

definition StableLog_new ::
  "('w, 'h) slash_env \<Rightarrow> slash_coding \<Rightarrow> (string \<Rightarrow> int option) \<Rightarrow> u32 \<Rightarrow> i32 \<Rightarrow> string \<Rightarrow> u32 \<Rightarrow> string \<Rightarrow> 'w
    \<Rightarrow> (StableLog \<times> 'w) option" where
  "StableLog_new E C string2l indet binlog_file_size table_name partition_id log_path w =
     (case Binlog_new E indet log_path binlog_file_size w of
        None \<Rightarrow> None
      | Some (b, w) \<Rightarrow>
          let sl = \<lparr>sl_purging = False, sl_table_name = table_name, sl_partition_id = partition_id,
                    sl_log_path = log_path, sl_stable_logger = b, sl_first_offset = LogOffset0\<rparr>
          in case GetBinlogFiles E string2l log_path w of
               None \<Rightarrow> None
             | Some [] \<Rightarrow> Some (sl, w)
             | Some ((filenum, _) # _) \<Rightarrow> map_option (\<lambda>sl. (sl, w)) (UpdateFirstOffset E C filenum sl w))"

definition StableLog_Close :: "StableLog \<Rightarrow> StableLog" where
  "StableLog_Close sl = sl\<lparr>sl_stable_logger := Binlog_Close (sl_stable_logger sl)\<rparr>"

definition SetFirstOffset :: "LogOffset \<Rightarrow> StableLog \<Rightarrow> StableLog" where
  "SetFirstOffset offset sl = sl\<lparr>sl_first_offset := offset\<rparr>"

section \<open>Purging\<close>

text \<open>\<^verbatim>\<open>PurgeStableLogs\<close> lets one purge through; \<open>True\<close> schedules \<^verbatim>\<open>DoPurgeStableLogs\<close>.\<close>

definition PurgeStableLogs :: "StableLog \<Rightarrow> bool \<times> StableLog" where
  "PurgeStableLogs sl = (if sl_purging sl then (False, sl) else (True, sl\<lparr>sl_purging := True\<rparr>))"

definition ClearPurge :: "StableLog \<Rightarrow> StableLog" where
  "ClearPurge sl = sl\<lparr>sl_purging := False\<rparr>"

text \<open>
  What a purge looks at outside the log: the configuration, the modification times with the clock, and
  \<^verbatim>\<open>BinlogCloudPurge\<close> of the partition (\<open>None\<close> when the partition is not found).
\<close>

record 'w purge_env =
  pe_expire_logs_nums :: int
  pe_expire_logs_days :: int
  pe_mtime :: "string \<Rightarrow> 'w \<Rightarrow> int option"
  pe_time :: "'w \<Rightarrow> int"
  pe_cloud_purge :: "u32 \<Rightarrow> bool option"

definition purge_condition ::
  "'w purge_env \<Rightarrow> string \<Rightarrow> u32 \<Rightarrow> bool \<Rightarrow> nat \<Rightarrow> int \<Rightarrow> int \<Rightarrow> u32 \<times> string \<Rightarrow> 'w \<Rightarrow> bool" where
  "purge_condition P log_path to manual files delete_num remain_expire_num it w \<longleftrightarrow>
     (manual \<and> fst it \<le> to) \<or> remain_expire_num > 0 \<or>
     (int files - delete_num > 10 \<and>
      (case pe_mtime P (log_path @ snd it) w of
         None \<Rightarrow> False | Some t \<Rightarrow> t < pe_time P w - pe_expire_logs_days P * 24 * 3600))"

text \<open>The loop: whether it ran to its end, the number of deleted files, the world.\<close>

fun purge_loop ::
  "('w, 'h) slash_env \<Rightarrow> 'w purge_env \<Rightarrow> string \<Rightarrow> u32 \<Rightarrow> bool \<Rightarrow> nat \<Rightarrow> int \<Rightarrow> int \<Rightarrow> (u32 \<times> string) list \<Rightarrow> 'w
    \<Rightarrow> bool \<times> int \<times> 'w" where
  "purge_loop E P log_path to manual files delete_num remain [] w = (True, delete_num, w)"
| "purge_loop E P log_path to manual files delete_num remain (it # its) w =
     (if purge_condition P log_path to manual files delete_num remain it w then
        (case pe_cloud_purge P (fst it) of
           None \<Rightarrow> (False, delete_num, w)
         | Some allowed \<Rightarrow>
             if \<not> allowed then (False, delete_num, w)
             else let (s, w) = env_DeleteFile E (log_path @ snd it) w
                  in if ok s then purge_loop E P log_path to manual files (delete_num + 1) (remain - 1) its w
                     else purge_loop E P log_path to manual files delete_num remain its w)
      else (True, delete_num, w))"

definition PurgeFiles ::
  "('w, 'h) slash_env \<Rightarrow> slash_coding \<Rightarrow> (string \<Rightarrow> int option) \<Rightarrow> 'w purge_env \<Rightarrow> u32 \<Rightarrow> bool \<Rightarrow> StableLog \<Rightarrow> 'w
    \<Rightarrow> (bool \<times> StableLog \<times> 'w) option" where
  "PurgeFiles E C string2l P to manual sl w =
     (case GetBinlogFiles E string2l (sl_log_path sl) w of
        None \<Rightarrow> Some (False, sl, w)
      | Some binlogs \<Rightarrow>
          let (finished, delete_num, w) =
                purge_loop E P (sl_log_path sl) to manual (length binlogs) 0
                  (int (length binlogs) - pe_expire_logs_nums P) binlogs w
          in if \<not> finished then Some (False, sl, w)
             else if delete_num = 0 then Some (True, sl, w)
             else case GetBinlogFiles E string2l (sl_log_path sl) w of
                    None \<Rightarrow> Some (False, sl, w)
                  | Some [] \<Rightarrow> Some (True, sl, w)
                  | Some ((filenum, _) # _) \<Rightarrow> map_option (\<lambda>sl. (True, sl, w)) (UpdateFirstOffset E C filenum sl w))"

definition DoPurgeStableLogs ::
  "('w, 'h) slash_env \<Rightarrow> slash_coding \<Rightarrow> (string \<Rightarrow> int option) \<Rightarrow> 'w purge_env \<Rightarrow> u32 \<Rightarrow> bool \<Rightarrow> StableLog \<Rightarrow> 'w
    \<Rightarrow> (StableLog \<times> 'w) option" where
  "DoPurgeStableLogs E C string2l P to manual sl w =
     map_option (\<lambda>(_, sl, w). (ClearPurge sl, w)) (PurgeFiles E C string2l P to manual sl w)"

section \<open>Truncation\<close>

fun purge_after_loop ::
  "('w, 'h) slash_env \<Rightarrow> string \<Rightarrow> u32 \<Rightarrow> (u32 \<times> string) list \<Rightarrow> 'w \<Rightarrow> Status \<times> 'w" where
  "purge_after_loop E log_path filenum [] w = (OK, w)"
| "purge_after_loop E log_path filenum (it # its) w =
     (if fst it > filenum then
        let (s, w) = env_DeleteFile E (log_path @ snd it) w
        in if \<not> ok s then (s, w) else purge_after_loop E log_path filenum its w
      else purge_after_loop E log_path filenum its w)"

definition PurgeFileAfter ::
  "('w, 'h) slash_env \<Rightarrow> (string \<Rightarrow> int option) \<Rightarrow> u32 \<Rightarrow> StableLog \<Rightarrow> 'w \<Rightarrow> Status \<times> 'w" where
  "PurgeFileAfter E string2l filenum sl w =
     (case GetBinlogFiles E string2l (sl_log_path sl) w of
        None \<Rightarrow> (Corruption ''GetBinlogFiles failed'', w)
      | Some binlogs \<Rightarrow> purge_after_loop E (sl_log_path sl) filenum binlogs w)"

definition StableLog_TruncateTo ::
  "('w, 'h) slash_env \<Rightarrow> (string \<Rightarrow> int option) \<Rightarrow> LogOffset \<Rightarrow> StableLog \<Rightarrow> 'w \<Rightarrow> (Status \<times> StableLog \<times> 'w) option" where
  "StableLog_TruncateTo E string2l offset sl w =
     (case PurgeFileAfter E string2l (bo_filenum (b_offset offset)) sl w of
        (s, w) \<Rightarrow>
          if \<not> ok s then Some (s, sl, w)
          else case Binlog_Truncate E (bo_filenum (b_offset offset)) (bo_offset (b_offset offset))
                      (lo_index (l_offset offset)) (sl_stable_logger sl) w of
                 None \<Rightarrow> None
               | Some (s, b, w) \<Rightarrow> Some (s, sl\<lparr>sl_stable_logger := b\<rparr>, w))"

section \<open>The directory\<close>

lemma std_map_insert_keys: "set (map fst (std_map_insert k v xs)) = insert k (set (map fst xs))"
  by (induction k v xs rule: std_map_insert.induct) auto

lemma std_map_insert_sorted:
  "sorted_wrt (<) (map fst xs) \<Longrightarrow> sorted_wrt (<) (map fst (std_map_insert k v xs))"
proof (induction k v xs rule: std_map_insert.induct)
  case (2 k v k' v' xs)
  then show ?case using std_map_insert_keys [of k v xs] by auto
qed simp

lemma std_map_insert_in: "it \<in> set (std_map_insert k v xs) \<Longrightarrow> it = (k, v) \<or> it \<in> set xs"
  by (induction k v xs rule: std_map_insert.induct) (auto split: if_splits)

text \<open>The number of a file is a function of its name.\<close>

definition named_file :: "(string \<Rightarrow> int option) \<Rightarrow> u32 \<times> string \<Rightarrow> bool" where
  "named_file string2l it \<longleftrightarrow> take (length kBinlogPrefix) (snd it) = kBinlogPrefix
     \<and> map_option of_int (string2l (drop (length kBinlogPrefix) (snd it))) = Some (fst it)"

lemma add_binlog_file_ok:
  assumes "sorted_wrt (<) (map fst xs)" and "list_all (named_file string2l) xs"
  shows "sorted_wrt (<) (map fst (add_binlog_file string2l c xs)) \<and> list_all (named_file string2l) (add_binlog_file string2l c xs)"
  using assms std_map_insert_sorted
  by (auto simp: add_binlog_file_def named_file_def list_all_iff split: option.splits dest!: std_map_insert_in)

lemma GetBinlogFiles_ok:
  assumes "GetBinlogFiles E string2l path w = Some xs"
  shows "sorted_wrt (<) (map fst xs)" and "list_all (named_file string2l) xs" and "distinct (map snd xs)"
proof -
  have "sorted_wrt (<) (map fst (fold (add_binlog_file string2l) cs ys)) \<and> list_all (named_file string2l) (fold (add_binlog_file string2l) cs ys)"
    if "sorted_wrt (<) (map fst ys)" "list_all (named_file string2l) ys" for cs ys
    using that by (induction cs arbitrary: ys) (simp_all add: add_binlog_file_ok)
  from this [of "[]"] show 1: "sorted_wrt (<) (map fst xs)" and 2: "list_all (named_file string2l) xs"
    using assms by (auto simp: GetBinlogFiles_def split: prod.splits if_splits)
  have "named_file string2l x \<Longrightarrow> named_file string2l y \<Longrightarrow> snd x = snd y \<Longrightarrow> x = y" for x y
    by (cases x; cases y) (auto simp: named_file_def)
  then have "inj_on snd (set xs)"
    using 2 unfolding list_all_iff by (meson inj_onI)
  moreover have "distinct xs" using 1 by (meson distinct_map strict_sorted_iff)
  ultimately show "distinct (map snd xs)" by (simp add: distinct_map)
qed

section \<open>Deleting files\<close>

definition without :: "string \<Rightarrow> (u32 \<times> string) list \<Rightarrow> (string \<Rightarrow> bytes option) \<Rightarrow> string \<Rightarrow> bytes option" where
  "without log_path its F = (\<lambda>p. if p \<in> (\<lambda>it. log_path @ snd it) ` set its then None else F p)"

lemma without_nil [simp]: "without log_path [] F = F"
  by (simp add: without_def)

lemma without_cons: "without log_path its (F(log_path @ snd it := None)) = without log_path (it # its) F"
  by (auto simp: without_def)

lemma without_other: "log_path @ snd it \<notin> (\<lambda>it. log_path @ snd it) ` set its \<Longrightarrow> without log_path its F (log_path @ snd it) = F (log_path @ snd it)"
  by (simp add: without_def)

context slash_fs
begin

lemma delete_listed:
  assumes "disk_ok E fs" and "\<forall>it\<in>set (x # its). fs w (path @ snd it) \<noteq> None" and "distinct (map snd (x # its))"
  obtains w1 where "env_DeleteFile E (path @ snd x) w = (OK, w1)" and "fs w1 = (fs w)(path @ snd x := None)"
    and "\<forall>it\<in>set its. fs w1 (path @ snd it) \<noteq> None"
proof -
  obtain w1 where w1: "env_DeleteFile E (path @ snd x) w = (OK, w1)"
    using assms(1,2) by (metis disk_ok_def list.set_intros(1) prod.collapse)
  moreover note del = delete_ok [OF w1]
  moreover have "\<forall>it\<in>set its. fs w1 (path @ snd it) \<noteq> None"
    using assms(2,3) del by (auto simp: image_iff)
  ultimately show thesis using that by blast
qed

text \<open>
  The purge deletes a prefix of the files, each cleared by \<^verbatim>\<open>BinlogCloudPurge\<close>; the last of them
  satisfied the purge condition at its turn.
\<close>

lemma purge_loop_prefix:
  assumes "disk_ok E fs" and "\<forall>it\<in>set its. fs w (path @ snd it) \<noteq> None" and "distinct (map snd its)"
    and "purge_loop E P path to manual files d remain its w = (fin, d', w')"
  shows "\<exists>k\<le>length its. d' = d + int k \<and> fs w' = without path (take k its) (fs w)
    \<and> (\<forall>it\<in>set (take k its). pe_cloud_purge P (fst it) = Some True)
    \<and> (k = 0 \<or> manual \<and> fst (its ! (k - 1)) \<le> to \<or> remain \<ge> int k \<or> int files - d' \<ge> 10)"
  using assms(2-4)
proof (induction its arbitrary: w d remain)
  case (Cons x its)
  show ?case
  proof (cases "purge_condition P path to manual files d remain x w \<and> pe_cloud_purge P (fst x) = Some True")
    case False
    then have "d' = d \<and> w' = w" using Cons.prems(3) by (auto split: if_splits option.splits)
    then show ?thesis by (intro exI [of _ 0]) simp
  next
    case True
    obtain w1 where w1: "env_DeleteFile E (path @ snd x) w = (OK, w1)" "fs w1 = (fs w)(path @ snd x := None)"
      "\<forall>it\<in>set its. fs w1 (path @ snd it) \<noteq> None"
      by (rule delete_listed [OF assms(1) Cons.prems(1,2)])
    have "purge_loop E P path to manual files (d + 1) (remain - 1) its w1 = (fin, d', w')"
      using True Cons.prems(3) w1(1) by (simp add: status_simps)
    from Cons.IH [OF w1(3) _ this] Cons.prems(2) obtain k where k: "k \<le> length its" "d' = d + 1 + int k"
      "fs w' = without path (take k its) (fs w1)" "\<forall>it\<in>set (take k its). pe_cloud_purge P (fst it) = Some True"
      "k = 0 \<or> manual \<and> fst (its ! (k - 1)) \<le> to \<or> remain - 1 \<ge> int k \<or> int files - d' \<ge> 10" by auto
    moreover have "manual \<and> fst x \<le> to \<or> remain \<ge> 1 \<or> int files - d \<ge> 11"
      using True by (auto simp: purge_condition_def)
    ultimately have "manual \<and> fst ((x # its) ! k) \<le> to \<or> remain \<ge> int (Suc k) \<or> int files - d' \<ge> 10"
      by (cases k) auto
    with k True show ?thesis
      by (intro exI [of _ "Suc k"]) (auto simp: w1(2) without_cons)
  qed
qed simp

lemma purge_after_all:
  assumes "disk_ok E fs" and "\<forall>it\<in>set its. fs w (path @ snd it) \<noteq> None" and "distinct (map snd its)"
  shows "\<exists>w'. purge_after_loop E path f its w = (OK, w')
    \<and> fs w' = without path (filter (\<lambda>it. fst it > f) its) (fs w)
    \<and> (\<forall>p. (\<forall>it\<in>set its. fst it > f \<longrightarrow> p \<noteq> path @ snd it) \<longrightarrow> env_RWData E p w' = env_RWData E p w)"
  using assms(2,3)
proof (induction its arbitrary: w)
  case (Cons x its)
  show ?case
  proof (cases "fst x > f")
    case True
    obtain w1 where w1: "env_DeleteFile E (path @ snd x) w = (OK, w1)" "fs w1 = (fs w)(path @ snd x := None)"
      "\<forall>it\<in>set its. fs w1 (path @ snd it) \<noteq> None"
      by (rule delete_listed [OF assms(1) Cons.prems])
    from Cons.IH [OF w1(3)] Cons.prems(2) obtain w' where w': "purge_after_loop E path f its w1 = (OK, w')"
      "fs w' = without path (filter (\<lambda>it. fst it > f) its) (fs w1)"
      "\<forall>p. (\<forall>it\<in>set its. fst it > f \<longrightarrow> p \<noteq> path @ snd it) \<longrightarrow> env_RWData E p w' = env_RWData E p w1" by auto
    have "env_RWData E p w1 = env_RWData E p w" if "p \<noteq> path @ snd x" for p
      using rw_delete [OF w1(1)] that by blast
    then show ?thesis using True w1 w' by (auto simp: status_simps without_cons)
  next
    case False
    then show ?thesis using Cons by auto
  qed
qed simp

end

section \<open>The first offset\<close>

definition enc_item :: "slash_coding \<Rightarrow> BinlogItem \<Rightarrow> bytes" where
  "enc_item C it = BinlogEncode C TypeFirst (bi_exec_time it) (bi_term_id it) (bi_logic_id it) (bi_filenum it) (bi_offset it)
     (bi_content it) []"

definition item_offset :: "u32 \<Rightarrow> nat \<Rightarrow> BinlogItem \<Rightarrow> LogOffset" where
  "item_offset f n it = \<lparr>b_offset = BinlogOffset f (of_nat n), l_offset = \<lparr>lo_term = bi_term_id it, lo_index = bi_logic_id it\<rparr>\<rparr>"

context fixed_coding
begin

lemma WithoutContentDecode_enc_item:
  "\<exists>d. BinlogItemWithoutContentDecode C TypeFirst (enc_item C it) item = (True, d)
    \<and> bi_exec_time d = bi_exec_time it \<and> bi_term_id d = bi_term_id it \<and> bi_logic_id d = bi_logic_id it"
  by (simp add: enc_item_def BinlogEncode_eq WithoutContentDecode_item_header)

end

context slash_fs
begin

lemma Get_ahead:
  assumes "binlog_ok E fs b w" and "reader_ok hpos b r n" and "items_ahead fs b w (rd_cur_filenum r) n ys"
  shows "\<exists>s item fnum' off' r' n'. Get E b [] fnum off r w = Some (s, item, fnum', off', r') \<and> reader_ok hpos b r' n'
    \<and> (case ys of
         [] \<Rightarrow> IsEndFile s
       | x # xs \<Rightarrow> s = OK \<and> item = x \<and> fnum' = rd_cur_filenum r' \<and> off' = of_nat n'
                     \<and> items_ahead fs b w (rd_cur_filenum r') n' xs)"
proof -
  have "Get E b [] fnum off r w = get_loop E b [] fnum off r w"
    using assms(2) reader_queue [OF assms(2)] by (auto simp: Get_def reader_ok_def)
  with get_loop_ahead [OF assms(1,3,2) refl, of fnum off] show ?thesis by (fastforce split: list.splits)
qed

lemma first_offset_loop_items:
  assumes "fixed_coding C" and "binlog_ok E fs b w" and "reader_ok hpos b r n"
    and "items_ahead fs b w (rd_cur_filenum r) n (map (enc_item C) its)"
  shows "\<exists>res. first_offset_loop E C b item fnum off r w = Some res
    \<and> (case dropWhile (\<lambda>it. bi_exec_time it = 0) its of
         [] \<Rightarrow> res = None
       | it # rest \<Rightarrow> \<exists>f' n'. res = Some (item_offset f' n' it) \<and> items_ahead fs b w f' n' (map (enc_item C) rest))"
  using assms(3,4)
proof (induction its arbitrary: r n item fnum off)
  case Nil
  then show ?case using Get_ahead [OF assms(2) Nil.prems, of fnum off] by (subst first_offset_loop.simps) auto
next
  case (Cons it its)
  from Get_ahead [OF assms(2) Cons.prems, of fnum off] obtain fnum' off' r' n' where
    g: "Get E b [] fnum off r w = Some (OK, enc_item C it, fnum', off', r')" "reader_ok hpos b r' n'"
    "fnum' = rd_cur_filenum r'" "off' = of_nat n'" "items_ahead fs b w (rd_cur_filenum r') n' (map (enc_item C) its)" by auto
  obtain d where d: "BinlogItemWithoutContentDecode C TypeFirst (enc_item C it) item = (True, d)"
    "bi_exec_time d = bi_exec_time it" "bi_term_id d = bi_term_id it" "bi_logic_id d = bi_logic_id it"
    using fixed_coding.WithoutContentDecode_enc_item [OF assms(1)] by blast
  note step = first_offset_loop.simps [of E C b item fnum off r w]
  show ?case
  proof (cases "bi_exec_time it = 0")
    case True
    then have "first_offset_loop E C b item fnum off r w = first_offset_loop E C b d fnum' off' r' w"
      using g(1) d by (subst step) (simp add: status_simps)
    with Cons.IH [OF g(2,5)] True show ?thesis by simp
  next
    case False
    then have "first_offset_loop E C b item fnum off r w = Some (Some (item_offset fnum' n' it))"
      using g(1,4) d by (subst step) (simp add: status_simps item_offset_def)
    with False g(3,5) show ?thesis by auto
  qed
qed

lemma UpdateFirstOffset_items:
  assumes "fixed_coding C" and "binlog_ok E fs (sl_stable_logger sl) w"
    and "items_ahead fs (sl_stable_logger sl) w f 0 (map (enc_item C) its)"
    and "log_files fs (sl_stable_logger sl) w f \<noteq> None"
  shows "case dropWhile (\<lambda>it. bi_exec_time it = 0) its of
      [] \<Rightarrow> UpdateFirstOffset E C f sl w = Some sl
    | it # rest \<Rightarrow> \<exists>f' n'. UpdateFirstOffset E C f sl w = Some (sl\<lparr>sl_first_offset := item_offset f' n' it\<rparr>)
        \<and> items_ahead fs (sl_stable_logger sl) w f' n' (map (enc_item C) rest)"
proof -
  let ?b = "sl_stable_logger sl"
  from assms(4) obtain c where "fs w (NewFileName (bl_filename ?b) f) = Some c" by (auto simp: log_files_def)
  from Seek_at [OF this, of 0 PikaBinlogReader_new0] obtain r where
    r: "Seek E ?b f 0 PikaBinlogReader_new0 w = Some (0, r)" "reader_ok hpos ?b r 0" "rd_cur_filenum r = f"
    by (auto simp: tail_ok_full)
  with first_offset_loop_items [OF assms(1,2) r(2), of its BinlogItem0 0 0] assms(3) show ?thesis
    by (auto simp: UpdateFirstOffset_def split: list.splits) blast
qed

end

text \<open>
  \<^verbatim>\<open>UpdateFirstOffset\<close> of a file the log still holds ends. It passes the padding items and makes
  the first other item, in this file or a later one, the first offset: the position behind that item
  with the term and the logic id it carries. Without such an item the first offset stays as it was.
\<close>

theorem update_first_offset_finds:
  assumes "slash_fs E fs hpos" and "fixed_coding C" and "binlog_ok E fs (sl_stable_logger sl) w"
    and "items_ahead fs (sl_stable_logger sl) w f 0 (map (enc_item C) its)"
    and "log_files fs (sl_stable_logger sl) w f \<noteq> None"
  shows "case dropWhile (\<lambda>it. bi_exec_time it = 0) its of
      [] \<Rightarrow> UpdateFirstOffset E C f sl w = Some sl
    | it # rest \<Rightarrow> \<exists>f' n'. UpdateFirstOffset E C f sl w = Some (sl\<lparr>sl_first_offset := item_offset f' n' it\<rparr>)
        \<and> items_ahead fs (sl_stable_logger sl) w f' n' (map (enc_item C) rest)"
  by (rule slash_fs.UpdateFirstOffset_items [OF assms])

definition first_item :: BinlogItem where
  "first_item = \<lparr>bi_exec_time = 1, bi_term_id = 2, bi_logic_id = 3, bi_filenum = 0, bi_offset = 0, bi_content = []\<rparr>"

definition first_version :: Version where
  "first_version = wit_version\<lparr>ver_pro_offset := 42\<rparr>"

definition first_log :: StableLog where
  "first_log = \<lparr>sl_purging = False, sl_table_name = ''db0'', sl_partition_id = 0, sl_log_path = [],
     sl_stable_logger = wit_binlog\<lparr>bl_version := first_version, bl_block_offset := 42\<rparr>, sl_first_offset = LogOffset0\<rparr>"

definition first_world :: mem_world where
  "first_world = \<lparr>mw_files = [NewFileName ''f'' 0 \<mapsto> record_header kFullType 34 0 @ enc_item le_coding first_item],
     mw_rw = [''m'' \<mapsto> manifest_bytes first_version]\<rparr>"

lemma length_first_item: "length (enc_item le_coding first_item) = 34"
  by (simp add: enc_item_def le.BinlogEncode_eq le.length_item_header first_item_def transverter_consts)

lemma first_items_ahead:
  "items_ahead mw_files (sl_stable_logger first_log) first_world 0 0 (map (enc_item le_coding) [first_item])"
proof -
  let ?x = "enc_item le_coding first_item"
  let ?bs = "record_header kFullType 34 0 @ ?x"
  have fr: "frames (0 mod kBlockSize) True ?x ?bs 42"
    using frames_last [of ?x 0 True 0] length_first_item
    by (simp add: block_avail_def block_start_def block_trailer_def record_type_def)
  have lf: "log_files mw_files (sl_stable_logger first_log) first_world 0 = Some ([] @ ?bs @ [])"
    by (simp add: first_log_def first_world_def log_files_def wit_binlog_def)
  have ne: "?x \<noteq> []" using length_first_item by fastforce
  have "items_ahead mw_files (sl_stable_logger first_log) first_world 0 (0 + length ?bs) []"
    using ahead_nil [of "log_files mw_files (sl_stable_logger first_log) first_world" 0 42]
    by (simp add: first_log_def first_version_def wit_binlog_def length_first_item)
  then show ?thesis unfolding list.map by (rule ahead_item [where F = "log_files mw_files (sl_stable_logger first_log) first_world" and f = 0 and bs = ?bs and pre = "[]" and post = "[]", OF lf list.size(3) fr ne])
qed

theorem update_first_offset_finds_witness:
  "\<exists>f' n'. UpdateFirstOffset mem_env le_coding 0 first_log first_world = Some (first_log\<lparr>sl_first_offset := item_offset f' n' first_item\<rparr>)"
proof -
  have "binlog_ok mem_env mw_files (sl_stable_logger first_log) first_world"
    using length_first_item
    by (simp add: first_log_def first_version_def first_world_def wit_simps binlog_ok_def manifest_holds_def)
  from update_first_offset_finds [OF mem.slash_fs_axioms le.fixed_coding_axioms this first_items_ahead] show ?thesis
    by (auto simp: first_item_def first_world_def first_log_def wit_simps log_files_def)
qed

section \<open>What purging and truncating leave\<close>

text \<open>The files of a listing exist, and are files of the log that no one maps.\<close>

definition listed ::
  "('w, 'h) slash_env \<Rightarrow> ('w \<Rightarrow> string \<Rightarrow> bytes option) \<Rightarrow> StableLog \<Rightarrow> (u32 \<times> string) list \<Rightarrow> 'w \<Rightarrow> bool" where
  "listed E fs sl binlogs w \<longleftrightarrow> (\<forall>it\<in>set binlogs. fs w (sl_log_path sl @ snd it) \<noteq> None
     \<and> sl_log_path sl @ snd it = NewFileName (bl_filename (sl_stable_logger sl)) (fst it)
     \<and> env_RWData E (sl_log_path sl @ snd it) w = None)"

lemma PurgeFiles_prefix:
  assumes "slash_fs E fs hpos" and "disk_ok E fs" and "GetBinlogFiles E string2l (sl_log_path sl) w = Some binlogs"
    and "\<forall>it\<in>set binlogs. fs w (sl_log_path sl @ snd it) \<noteq> None"
  shows "\<exists>k ret w' upd. k \<le> length binlogs
    \<and> PurgeFiles E C string2l P to manual sl w
      = map_option (\<lambda>sl. (ret, sl, w')) (case upd of None \<Rightarrow> Some sl | Some f \<Rightarrow> UpdateFirstOffset E C f sl w')
    \<and> (\<not> ret \<or> k = 0 \<longrightarrow> upd = None)
    \<and> fs w' = without (sl_log_path sl) (take k binlogs) (fs w)
    \<and> (\<forall>it\<in>set (take k binlogs). pe_cloud_purge P (fst it) = Some True)
    \<and> (k = 0 \<or> int (length binlogs - k) \<ge> pe_expire_logs_nums P \<or> length binlogs - k \<ge> 10
       \<or> manual \<and> (\<forall>it\<in>set (take k binlogs). fst it \<le> to))"
proof -
  let ?n = "length binlogs"
  obtain fin d w' where l: "purge_loop E P (sl_log_path sl) to manual ?n 0 (int ?n - pe_expire_logs_nums P) binlogs w = (fin, d, w')"
    by (metis prod_cases3)
  note ok = GetBinlogFiles_ok [OF assms(3)]
  from slash_fs.purge_loop_prefix [OF assms(1,2,4) ok(3) l] obtain k where
    k: "k \<le> ?n" "d = int k" "fs w' = without (sl_log_path sl) (take k binlogs) (fs w)"
      "\<forall>it\<in>set (take k binlogs). pe_cloud_purge P (fst it) = Some True"
      "k = 0 \<or> manual \<and> fst (binlogs ! (k - 1)) \<le> to \<or> int ?n - pe_expire_logs_nums P \<ge> int k \<or> int ?n - d \<ge> 10" by auto
  have "\<forall>it\<in>set (take k binlogs). fst it \<le> to" if "fst (binlogs ! (k - 1)) \<le> to" "0 < k"
  proof
    fix it assume "it \<in> set (take k binlogs)"
    then obtain i where i: "i < k" "it = binlogs ! i" using k(1) by (auto simp: in_set_conv_nth)
    then have "fst it \<le> fst (binlogs ! (k - 1))"
      using sorted_wrt_nth_less [OF ok(1), of i "k - 1"] k(1) by (cases "i = k - 1") (auto simp: order_less_imp_le)
    with that show "fst it \<le> to" by simp
  qed
  with k have bound: "k = 0 \<or> int (?n - k) \<ge> pe_expire_logs_nums P \<or> ?n - k \<ge> 10 \<or> manual \<and> (\<forall>it\<in>set (take k binlogs). fst it \<le> to)"
    by auto
  have "\<exists>ret upd. PurgeFiles E C string2l P to manual sl w
      = map_option (\<lambda>sl. (ret, sl, w')) (case upd of None \<Rightarrow> Some sl | Some f \<Rightarrow> UpdateFirstOffset E C f sl w') \<and> (\<not> ret \<or> k = 0 \<longrightarrow> upd = None)"
  proof (cases "fin \<and> k \<noteq> 0 \<and> (\<exists>f nm r. GetBinlogFiles E string2l (sl_log_path sl) w' = Some ((f, nm) # r))")
    case True
    then obtain f nm r where "GetBinlogFiles E string2l (sl_log_path sl) w' = Some ((f, nm) # r)" by blast
    with True show ?thesis
      using assms(3) l k(2) by (intro exI [of _ True] exI [of _ "Some f"]) (simp add: PurgeFiles_def)
  next
    case False
    then show ?thesis
      using assms(3) l k(2) by (intro exI [of _ "fin \<and> (k = 0 \<or> GetBinlogFiles E string2l (sl_log_path sl) w' \<noteq> None)"] exI [of _ None])
        (auto simp: PurgeFiles_def split: option.splits list.splits)
  qed
  with k bound show ?thesis by blast
qed

lemma TruncateTo_effect:
  assumes "slash_fs E fs hpos" and "disk_ok E fs" and "GetBinlogFiles E string2l (sl_log_path sl) w = Some binlogs"
    and "listed E fs sl binlogs w" and "length (bl_filename (sl_stable_logger sl)) \<le> 245"
    and "bl_opened (sl_stable_logger sl)" and "manifest_mapped E (ver_save (bl_version (sl_stable_logger sl))) w"
    and "fs w (NewFileName (bl_filename (sl_stable_logger sl)) (bo_filenum (b_offset offset))) = Some c"
    and "unat (bo_offset (b_offset offset)) \<le> length c" and "unat (bo_offset (b_offset offset)) < 2 ^ 31"
    and "StableLog_TruncateTo E string2l offset sl w = Some (OK, sl', w')"
  shows "binlog_ok E fs (sl_stable_logger sl') w'
    \<and> Binlog_GetProducerStatus (sl_stable_logger sl') = (OK, Some (bo_filenum (b_offset offset), bo_offset (b_offset offset),
        ver_term (bl_version (sl_stable_logger sl)), lo_index (l_offset offset)))
    \<and> sl_first_offset sl' = sl_first_offset sl
    \<and> fs w' = (without (sl_log_path sl) (filter (\<lambda>it. fst it > bo_filenum (b_offset offset)) binlogs) (fs w))
        (NewFileName (bl_filename (sl_stable_logger sl)) (bo_filenum (b_offset offset)) \<mapsto> take (unat (bo_offset (b_offset offset))) c)"
proof -
  let ?f = "bo_filenum (b_offset offset)" and ?b = "sl_stable_logger sl"
  have "\<forall>it\<in>set binlogs. fs w (sl_log_path sl @ snd it) \<noteq> None" using assms(4) unfolding listed_def by blast
  from slash_fs.purge_after_all [OF assms(1,2) this GetBinlogFiles_ok(3) [OF assms(3)], of ?f] obtain w1 where w1: "purge_after_loop E (sl_log_path sl) ?f binlogs w = (OK, w1)"
    "fs w1 = without (sl_log_path sl) (filter (\<lambda>it. fst it > ?f) binlogs) (fs w)"
    "\<forall>p. (\<forall>it\<in>set binlogs. fst it > ?f \<longrightarrow> p \<noteq> sl_log_path sl @ snd it) \<longrightarrow> env_RWData E p w1 = env_RWData E p w"
    by blast
  have "env_RWData E (ver_save (bl_version ?b)) w1 = env_RWData E (ver_save (bl_version ?b)) w"
    using w1(3) assms(4,7) by (force simp: listed_def manifest_mapped_def)
  then have m: "manifest_mapped E (ver_save (bl_version ?b)) w1" using assms(7) by (simp add: manifest_mapped_def)
  have c: "fs w1 (NewFileName (bl_filename ?b) ?f) = Some c"
    using assms(4,8) w1(2) NewFileName_inj [OF assms(5)] by (force simp: without_def listed_def)
  obtain b' where t: "Binlog_Truncate E ?f (bo_offset (b_offset offset)) (lo_index (l_offset offset)) ?b w1 = Some (OK, b', w')"
    and sl': "sl' = sl\<lparr>sl_stable_logger := b'\<rparr>"
    using assms(11) w1(1) by (auto simp: StableLog_TruncateTo_def PurgeFileAfter_def assms(3) status_simps split: option.splits)
  from Truncate_effect [OF assms(1,6) m c assms(9,10) t] w1(2) show ?thesis by (simp add: sl')
qed

text \<open>
  C25: \<^verbatim>\<open>PurgeFiles\<close> deletes the files with the lowest numbers and no other file, each after
  \<^verbatim>\<open>BinlogCloudPurge\<close> cleared it. Unless a manual purge asked for all of them, it leaves ten files or
  the configured number of files. Only a run that ends regularly moves the first offset: when the
  purge stops at a file that is still in use it returns false and keeps the first offset, which then
  can lie in a file that is gone.
\<close>

theorem stable_log_purge_prefix:
  assumes "slash_fs E fs hpos" and "disk_ok E fs" and "GetBinlogFiles E string2l (sl_log_path sl) w = Some binlogs"
    and "\<forall>it\<in>set binlogs. fs w (sl_log_path sl @ snd it) \<noteq> None"
  shows "\<exists>k ret w' upd. k \<le> length binlogs
    \<and> PurgeFiles E C string2l P to manual sl w
      = map_option (\<lambda>sl. (ret, sl, w')) (case upd of None \<Rightarrow> Some sl | Some f \<Rightarrow> UpdateFirstOffset E C f sl w')
    \<and> (\<not> ret \<or> k = 0 \<longrightarrow> upd = None)
    \<and> fs w' = without (sl_log_path sl) (take k binlogs) (fs w)
    \<and> (\<forall>it\<in>set (take k binlogs). pe_cloud_purge P (fst it) = Some True)
    \<and> (k = 0 \<or> int (length binlogs - k) \<ge> pe_expire_logs_nums P \<or> length binlogs - k \<ge> 10
       \<or> manual \<and> (\<forall>it\<in>set (take k binlogs). fst it \<le> to))"
  by (rule PurgeFiles_prefix [OF assms])

text \<open>A directory with two files; the second is the current one.\<close>

definition dir_env :: "string list \<Rightarrow> (mem_world, string \<times> nat) slash_env" where
  "dir_env names = mem_env\<lparr>env_GetChildren := (\<lambda>p w. (0, filter (\<lambda>n. mw_files w (p @ n) \<noteq> None) names))\<rparr>"

lemma dir_env_fs: "slash_fs (dir_env names) mw_files id"
  using mem.slash_fs_axioms unfolding slash_fs_def dir_env_def by simp

lemma dir_env_disk_ok: "disk_ok (dir_env names) mw_files"
  using mem_disk_ok unfolding disk_ok_def dir_env_def by simp

definition dec_parse :: "string \<Rightarrow> int option" where
  "dec_parse s = (if s \<noteq> [] \<and> list_all is_digit s then Some (int (dec_val s)) else None)"

definition dir_version :: Version where
  "dir_version = \<lparr>ver_pro_num = 1, ver_pro_offset = 0, ver_logic_id = 5, ver_term = 7, ver_save = ''d/manifest''\<rparr>"

definition dir_log :: StableLog where
  "dir_log = \<lparr>sl_purging = False, sl_table_name = ''db0'', sl_partition_id = 0, sl_log_path = ''d/'',
     sl_stable_logger = \<lparr>bl_opened = True, bl_version = dir_version, bl_queue = Some ''d/write2file1'', bl_pro_num = 1,
       bl_block_offset = 0, bl_file_size = 100, bl_filename = ''d/write2file'', bl_binlog_io_error = False\<rparr>,
     sl_first_offset = LogOffset0\<rparr>"

definition dir_world :: mem_world where
  "dir_world = \<lparr>mw_files = [''d/write2file0'' \<mapsto> ''abc'', ''d/write2file1'' \<mapsto> []], mw_rw = [''d/manifest'' \<mapsto> manifest_bytes dir_version]\<rparr>"

definition dir_names :: "string list" where
  "dir_names = [''manifest'', ''write2file1'', ''write2file0'']"

lemma dir_files: "GetBinlogFiles (dir_env dir_names) dec_parse (sl_log_path dir_log) dir_world
    = Some [(0, ''write2file0''), (1, ''write2file1'')]"
  by (simp add: GetBinlogFiles_def dir_env_def dir_names_def dir_world_def dir_log_def mem_env_simps add_binlog_file_def
      kBinlogPrefix_def dec_parse_def is_digit_def dec_val_def)

definition dir_purge :: "mem_world purge_env" where
  "dir_purge = \<lparr>pe_expire_logs_nums = 10, pe_expire_logs_days = 7, pe_mtime = (\<lambda>_ _. None), pe_time = (\<lambda>_. 0),
     pe_cloud_purge = (\<lambda>f. Some (f < 1))\<rparr>"

theorem stable_log_purge_prefix_witness:
  "\<exists>r. PurgeFiles (dir_env dir_names) le_coding dec_parse dir_purge 1 True dir_log dir_world = r
    \<and> (\<forall>ret sl' w'. r = Some (ret, sl', w') \<longrightarrow> mw_files w' ''d/write2file1'' = Some [])"
proof -
  let ?bs = "[(0, ''write2file0''), (1, ''write2file1'')] :: (u32 \<times> string) list"
  obtain k ret w' upd where k: "k \<le> length ?bs"
    "PurgeFiles (dir_env dir_names) le_coding dec_parse dir_purge 1 True dir_log dir_world
      = map_option (\<lambda>sl. (ret, sl, w')) (case upd of None \<Rightarrow> Some dir_log | Some f \<Rightarrow> UpdateFirstOffset (dir_env dir_names) le_coding f dir_log w')"
    "mw_files w' = without (sl_log_path dir_log) (take k ?bs) (mw_files dir_world)"
    "\<forall>it\<in>set (take k ?bs). pe_cloud_purge dir_purge (fst it) = Some True"
    using stable_log_purge_prefix [OF dir_env_fs dir_env_disk_ok dir_files, where C = le_coding and P = dir_purge and to = 1 and manual = True]
    by (auto simp: dir_log_def dir_world_def)
  then have "k < 2" by (cases "k = 2") (auto simp: dir_purge_def)
  then have "mw_files w' ''d/write2file1'' = Some []"
    using k(3) by (auto simp: without_def dir_log_def dir_world_def less_2_cases_iff)
  with k(2) show ?thesis by auto
qed

text \<open>
  \<^verbatim>\<open>TruncateTo\<close> deletes exactly the files behind the offset and cuts the file of the offset at it;
  the log then satisfies its invariant at exactly this offset and logic index. The term stays, and so
  does the first offset.
\<close>

theorem stable_log_truncate_ok:
  assumes "slash_fs E fs hpos" and "disk_ok E fs" and "GetBinlogFiles E string2l (sl_log_path sl) w = Some binlogs"
    and "listed E fs sl binlogs w" and "length (bl_filename (sl_stable_logger sl)) \<le> 245"
    and "bl_opened (sl_stable_logger sl)" and "manifest_mapped E (ver_save (bl_version (sl_stable_logger sl))) w"
    and "fs w (NewFileName (bl_filename (sl_stable_logger sl)) (bo_filenum (b_offset offset))) = Some c"
    and "unat (bo_offset (b_offset offset)) \<le> length c" and "unat (bo_offset (b_offset offset)) < 2 ^ 31"
    and "StableLog_TruncateTo E string2l offset sl w = Some (OK, sl', w')"
  shows "binlog_ok E fs (sl_stable_logger sl') w'
    \<and> Binlog_GetProducerStatus (sl_stable_logger sl') = (OK, Some (bo_filenum (b_offset offset), bo_offset (b_offset offset),
        ver_term (bl_version (sl_stable_logger sl)), lo_index (l_offset offset)))
    \<and> sl_first_offset sl' = sl_first_offset sl
    \<and> fs w' = (without (sl_log_path sl) (filter (\<lambda>it. fst it > bo_filenum (b_offset offset)) binlogs) (fs w))
        (NewFileName (bl_filename (sl_stable_logger sl)) (bo_filenum (b_offset offset)) \<mapsto> take (unat (bo_offset (b_offset offset))) c)"
  by (rule TruncateTo_effect [OF assms])

definition trunc_offset :: LogOffset where
  "trunc_offset = \<lparr>b_offset = BinlogOffset 0 2, l_offset = \<lparr>lo_term = 7, lo_index = 3\<rparr>\<rparr>"

theorem stable_log_truncate_ok_witness:
  "\<exists>sl' w'. StableLog_TruncateTo (dir_env dir_names) dec_parse trunc_offset dir_log dir_world = Some (OK, sl', w')
    \<and> mw_files w' = [''d/write2file0'' \<mapsto> ''ab'']"
proof -
  have names: "NewFileName ''d/write2file'' 0 = ''d/write2file0''" "NewFileName ''d/write2file'' 1 = ''d/write2file1''"
    by (simp_all add: NewFileName_def dec_string_def dec_digits.simps char_of_def bit_0)
  have "\<exists>sl' w'. StableLog_TruncateTo (dir_env dir_names) dec_parse trunc_offset dir_log dir_world = Some (OK, sl', w')"
    using dir_files
    by (simp add: StableLog_TruncateTo_def PurgeFileAfter_def status_simps names Binlog_Truncate_def Binlog_InitLogFile_def
        Version_StableSave_def manifest_bytes_def Let_def dir_env_def dir_log_def dir_world_def dir_version_def trunc_offset_def mem_env_simps)
  then obtain sl' w' where r: "StableLog_TruncateTo (dir_env dir_names) dec_parse trunc_offset dir_log dir_world = Some (OK, sl', w')" by blast
  have "listed (dir_env dir_names) mw_files dir_log [(0, ''write2file0''), (1, ''write2file1'')] dir_world"
    by (simp add: listed_def dir_env_def dir_log_def dir_world_def names mem_env_simps)
  from stable_log_truncate_ok [OF dir_env_fs dir_env_disk_ok dir_files this _ _ _ _ _ _ r, of "''abc''"] r show ?thesis
    by (auto simp: names dir_env_def dir_log_def dir_world_def dir_version_def trunc_offset_def manifest_mapped_def mem_env_simps
        without_def fun_eq_iff)
qed

end
