(* ===== verification/Pika_Consensus.thy ===== *)
theory Pika_Consensus
  imports Pika_Context Pika_Mem_Log Pika_Sync_Progress Pika_Stable_Log
begin

text \<open>
  \<^verbatim>\<open>ConsensusCoordinator\<close> of \<^verbatim>\<open>include/pika_consensus.h\<close> and \<^verbatim>\<open>src/pika_consensus.cc\<close>, except for the
  negotiation: construction and recovery, proposing a log, the logs a follower gets from its leader,
  committing, and handing committed logs to the workers. \<open>None\<close> is an abort, a \<^verbatim>\<open>LOG(FATAL)\<close> or an
  endless loop.
\<close>

section \<open>State and surroundings\<close>

text \<open>
  What is handed to the worker threads: \<^verbatim>\<open>InternalApply\<close> schedules \<^verbatim>\<open>DoExecTask\<close> on a client thread,
  \<^verbatim>\<open>InternalApplyFollower\<close> a task on the threads that write the database.
\<close>

datatype ('c, 'n) apply_task =
    DoExecTask (task_log: "('c, 'n) LogItem") (task_table: string) (task_partition: u32)
  | WriteDBTask (task_log: "('c, 'n) LogItem") (task_table: string) (task_partition: u32)

text \<open>
  The last two fields are the effects on the server: the tasks in the order in which they were
  scheduled, and the tables on which a failed write set the binlog error flag.
\<close>

record ('c, 'n, 'h) ConsensusCoordinator =
  cc_committed_index :: LogOffset
  cc_context :: Context
  cc_term :: u32
  cc_table_name :: string
  cc_partition_id :: u32
  cc_sync_pros :: "'h SyncProgress"
  cc_stable_logger :: StableLog
  cc_mem_logger :: "('c, 'n) MemLog"
  cc_scheduled :: "('c, 'n) apply_task list"
  cc_io_error_tables :: "string list"

text \<open>
  The surroundings of a coordinator: the configuration; the virtual functions of the commands and
  the command table; the tables of the server; and what it uses of other libraries, the parser of
  pink, which gives the arguments of the request in a buffer, and two string functions of slash.
\<close>

record 'c coord_conf =
  cf_consensus_level :: int
  cf_log_path :: string
  cf_classic_mode :: bool
  cf_binlog_file_size :: i32
  cf_default_table :: string
  cf_ToBinlog :: "'c \<Rightarrow> u32 \<Rightarrow> u32 \<Rightarrow> u64 \<Rightarrow> u32 \<Rightarrow> u64 \<Rightarrow> bytes"
  cf_table_name :: "'c \<Rightarrow> string"
  cf_GetCmd :: "string \<Rightarrow> 'c option"
  cf_Initial :: "string list \<Rightarrow> string \<Rightarrow> 'c \<Rightarrow> bool \<times> 'c"
  cf_GetTable :: "string \<Rightarrow> bool"
  cf_redis_parse :: "bytes \<Rightarrow> string list option"
  cf_string2l :: "string \<Rightarrow> int option"
  cf_StringToLower :: "string \<Rightarrow> string"

definition LogOffset_ToString :: "LogOffset \<Rightarrow> string" where
  "LogOffset_ToString x =
     (''filenum: '' @ dec_string (uint (bo_filenum (b_offset x))) @ '' offset: '' @ dec_string (uint (bo_offset (b_offset x))))
     @ '' '' @ (''term: '' @ dec_string (uint (lo_term (l_offset x))) @ '' index: '' @ dec_string (uint (lo_index (l_offset x))))"

section \<open>Proposing\<close>

definition log_binlog_failure :: "'c coord_conf \<Rightarrow> 'c \<Rightarrow> ('c, 'n, 'h) ConsensusCoordinator \<Rightarrow> ('c, 'n, 'h) ConsensusCoordinator" where
  "log_binlog_failure cf cmd st =
     (let table_name = (if cf_table_name cf cmd = [] then cf_default_table cf else cf_table_name cf cmd)
      in if cf_GetTable cf table_name then st\<lparr>cc_io_error_tables := cc_io_error_tables st @ [table_name]\<rparr> else st)"

definition InternalAppendBinlog ::
  "('w, 'e) slash_env \<Rightarrow> 'c coord_conf \<Rightarrow> BinlogItem \<Rightarrow> 'c \<Rightarrow> LogOffset \<Rightarrow> ('c, 'n, 'h) ConsensusCoordinator \<Rightarrow> 'w
    \<Rightarrow> (Status \<times> LogOffset \<times> ('c, 'n, 'h) ConsensusCoordinator \<times> 'w) option" where
  "InternalAppendBinlog E cf item cmd log_offset st w =
     (let binlog = cf_ToBinlog cf cmd (bi_exec_time item) (bi_term_id item) (bi_logic_id item) (bi_filenum item) (bi_offset item)
      in case Binlog_Put E binlog (sl_stable_logger (cc_stable_logger st)) w of
           None \<Rightarrow> None
         | Some (s, b, w) \<Rightarrow>
             let st = st\<lparr>cc_stable_logger := (cc_stable_logger st)\<lparr>sl_stable_logger := b\<rparr>\<rparr>
             in if \<not> ok s then Some (s, log_offset, log_binlog_failure cf cmd st, w)
                else case Binlog_GetProducerStatus b of
                       (_, None) \<Rightarrow> None
                     | (_, Some (filenum, offset, _, _)) \<Rightarrow>
                         Some (OK, \<lparr>b_offset = BinlogOffset filenum offset,
                                    l_offset = \<lparr>lo_term = bi_term_id item, lo_index = bi_logic_id item\<rparr>\<rparr>, st, w))"

definition InternalAppendLog ::
  "('w, 'e) slash_env \<Rightarrow> 'c coord_conf \<Rightarrow> BinlogItem \<Rightarrow> 'c \<Rightarrow> 'n option \<Rightarrow> ('c, 'n, 'h) ConsensusCoordinator \<Rightarrow> 'w
    \<Rightarrow> (Status \<times> ('c, 'n, 'h) ConsensusCoordinator \<times> 'w) option" where
  "InternalAppendLog E cf item cmd conn st w =
     (case InternalAppendBinlog E cf item cmd LogOffset0 st w of
        None \<Rightarrow> None
      | Some (s, log_offset, st, w) \<Rightarrow>
          if \<not> ok s then Some (s, st, w)
          else if cf_consensus_level cf = 0 then Some (OK, st, w)
          else Some (OK, st\<lparr>cc_mem_logger :=
                 AppendLog \<lparr>li_offset = log_offset, li_cmd = cmd, li_conn = conn\<rparr> (cc_mem_logger st)\<rparr>, w))"

definition ProposeLog ::
  "('w, 'e) slash_env \<Rightarrow> 'c coord_conf \<Rightarrow> 'c \<Rightarrow> 'n option \<Rightarrow> ('c, 'n, 'h) ConsensusCoordinator \<Rightarrow> 'w
    \<Rightarrow> (Status \<times> ('c, 'n, 'h) ConsensusCoordinator \<times> 'w) option" where
  "ProposeLog E cf cmd conn st w =
     (case Binlog_GetProducerStatus (sl_stable_logger (cc_stable_logger st)) of
        (s, None) \<Rightarrow> Some (s, st, w)
      | (_, Some (filenum, offset, trm, logic_id)) \<Rightarrow>
          let item = BinlogItem0\<lparr>bi_exec_time := ucast (env_now E w), bi_term_id := trm, bi_logic_id := logic_id + 1,
                                 bi_filenum := filenum, bi_offset := offset\<rparr>
          in InternalAppendLog E cf item cmd conn st w)"

section \<open>Committing\<close>

definition InternalApply :: "('c, 'n) LogItem \<Rightarrow> ('c, 'n, 'h) ConsensusCoordinator \<Rightarrow> ('c, 'n, 'h) ConsensusCoordinator" where
  "InternalApply log st =
     st\<lparr>cc_scheduled := cc_scheduled st @ [DoExecTask log (cc_table_name st) (cc_partition_id st)]\<rparr>"

definition InternalApplyFollower :: "('c, 'n) LogItem \<Rightarrow> ('c, 'n, 'h) ConsensusCoordinator \<Rightarrow> ('c, 'n, 'h) ConsensusCoordinator" where
  "InternalApplyFollower log st =
     st\<lparr>cc_scheduled := cc_scheduled st @ [WriteDBTask log (cc_table_name st) (cc_partition_id st)]\<rparr>"

fun apply_logs ::
  "(('c, 'n) LogItem \<Rightarrow> ('c, 'n, 'h) ConsensusCoordinator \<Rightarrow> ('c, 'n, 'h) ConsensusCoordinator)
    \<Rightarrow> ('c, 'n) LogItem list \<Rightarrow> ('c, 'n, 'h) ConsensusCoordinator \<Rightarrow> ('c, 'n, 'h) ConsensusCoordinator" where
  "apply_logs internal_apply [] st = st"
| "apply_logs internal_apply (log # logs) st =
     apply_logs internal_apply logs
       (internal_apply log (st\<lparr>cc_context := PrepareUpdateAppliedIndex (li_offset log) (cc_context st)\<rparr>))"

definition ScheduleApplyLog ::
  "LogOffset \<Rightarrow> ('c, 'n, 'h) ConsensusCoordinator \<Rightarrow> Status \<times> ('c, 'n, 'h) ConsensusCoordinator" where
  "ScheduleApplyLog committed_index st =
     (let (s, logs, m) = PurgeLogs committed_index (cc_mem_logger st); st = st\<lparr>cc_mem_logger := m\<rparr>
      in if \<not> ok s then (NotFound (''committed index not found '' @ LogOffset_ToString committed_index), st)
         else (OK, apply_logs InternalApply logs st))"

definition ScheduleApplyFollowerLog ::
  "LogOffset \<Rightarrow> ('c, 'n, 'h) ConsensusCoordinator \<Rightarrow> Status \<times> ('c, 'n, 'h) ConsensusCoordinator" where
  "ScheduleApplyFollowerLog committed_index st =
     (let (s, logs, m) = PurgeLogs committed_index (cc_mem_logger st); st = st\<lparr>cc_mem_logger := m\<rparr>
      in if \<not> ok s then (NotFound (''committed index not found '' @ LogOffset_ToString committed_index), st)
         else (OK, apply_logs InternalApplyFollower logs st))"

definition InternalUpdateCommittedIndex ::
  "LogOffset \<Rightarrow> LogOffset \<Rightarrow> ('c, 'n, 'h) ConsensusCoordinator \<Rightarrow> bool \<times> LogOffset \<times> ('c, 'n, 'h) ConsensusCoordinator" where
  "InternalUpdateCommittedIndex slave_committed_index updated_committed_index st =
     (if LogOffset_le slave_committed_index (cc_committed_index st) then (False, updated_committed_index, st)
      else (True, slave_committed_index, st\<lparr>cc_committed_index := slave_committed_index\<rparr>))"

text \<open>
  \<^verbatim>\<open>UpdateSlave\<close> in its two critical sections: up to the new committed index, which the threads that
  acknowledge agree on under \<^verbatim>\<open>index_mu_\<close>, and the scheduling under \<^verbatim>\<open>order_mu_\<close>. The first gives the
  status when the function returns there, or else the index to schedule up to.
\<close>

definition UpdateSlave_commit ::
  "'c coord_conf \<Rightarrow> string \<Rightarrow> int \<Rightarrow> LogOffset \<Rightarrow> LogOffset \<Rightarrow> ('c, 'n, 'h) ConsensusCoordinator
    \<Rightarrow> ((Status + LogOffset) \<times> ('c, 'n, 'h) ConsensusCoordinator) option" where
  "UpdateSlave_commit cf ip port start stop st =
     (case SyncProgress_Update (cf_consensus_level cf) ip port start stop LogOffset0 (cc_sync_pros st) of
        None \<Rightarrow> None
      | Some (s, committed_index, sp) \<Rightarrow>
          let st = st\<lparr>cc_sync_pros := sp\<rparr>
          in if \<not> ok s then Some (Inl s, st)
             else if cf_consensus_level cf = 0 then Some (Inl OK, st)
             else if lo_term (l_offset committed_index) \<noteq> cc_term st then Some (Inl OK, st)
             else let (need_update, updated_committed_index, st) = InternalUpdateCommittedIndex committed_index LogOffset0 st
                  in if need_update then Some (Inr updated_committed_index, st) else Some (Inl OK, st))"

definition UpdateSlave_apply ::
  "LogOffset \<Rightarrow> ('c, 'n, 'h) ConsensusCoordinator \<Rightarrow> Status \<times> ('c, 'n, 'h) ConsensusCoordinator" where
  "UpdateSlave_apply updated_committed_index st =
     (let (s, st) = ScheduleApplyLog updated_committed_index st
      in if \<not> ok s \<and> \<not> IsNotFound s then (s, st) else (OK, st))"

definition UpdateSlave ::
  "'c coord_conf \<Rightarrow> string \<Rightarrow> int \<Rightarrow> LogOffset \<Rightarrow> LogOffset \<Rightarrow> ('c, 'n, 'h) ConsensusCoordinator
    \<Rightarrow> (Status \<times> ('c, 'n, 'h) ConsensusCoordinator) option" where
  "UpdateSlave cf ip port start stop st =
     (case UpdateSlave_commit cf ip port start stop st of
        None \<Rightarrow> None
      | Some (Inl s, st) \<Rightarrow> Some (s, st)
      | Some (Inr updated_committed_index, st) \<Rightarrow> Some (UpdateSlave_apply updated_committed_index st))"

section \<open>The follower\<close>

definition ProcessLeaderLog ::
  "('w, 'e) slash_env \<Rightarrow> 'c coord_conf \<Rightarrow> 'c \<Rightarrow> BinlogItem \<Rightarrow> ('c, 'n, 'h) ConsensusCoordinator \<Rightarrow> 'w
    \<Rightarrow> (Status \<times> ('c, 'n, 'h) ConsensusCoordinator \<times> 'w) option" where
  "ProcessLeaderLog E cf cmd attribute st w =
     (let last_index = ml_last_offset (cc_mem_logger st)
      in if bi_logic_id attribute < lo_index (l_offset last_index) then Some (OK, st, w)
         else case InternalAppendLog E cf attribute cmd None st w of
                None \<Rightarrow> None
              | Some (_, st, w) \<Rightarrow>
                  if cf_consensus_level cf = 0
                  then Some (OK, InternalApplyFollower \<lparr>li_offset = LogOffset0, li_cmd = cmd, li_conn = None\<rparr> st, w)
                  else Some (OK, st, w))"

definition ProcessLocalUpdate ::
  "'c coord_conf \<Rightarrow> LogOffset \<Rightarrow> ('c, 'n, 'h) ConsensusCoordinator \<Rightarrow> Status \<times> ('c, 'n, 'h) ConsensusCoordinator" where
  "ProcessLocalUpdate cf leader_commit st =
     (if cf_consensus_level cf = 0 then (OK, st)
      else let last_index = ml_last_offset (cc_mem_logger st);
               committed_index = (if LogOffset_lt last_index leader_commit then last_index else leader_commit);
               (need_update, updated_committed_index, st) = InternalUpdateCommittedIndex committed_index LogOffset0 st
           in if need_update then
                let (s, st) = ScheduleApplyFollowerLog updated_committed_index st in (if \<not> ok s then (s, st) else (OK, st))
              else (OK, st))"

section \<open>Slaves and term\<close>

definition Coordinator_AddSlaveNode ::
  "string \<Rightarrow> int \<Rightarrow> i32 \<Rightarrow> u64 \<Rightarrow> u64 \<Rightarrow> ('c, 'n, 'h) ConsensusCoordinator \<Rightarrow> Status \<times> ('c, 'n, 'h) ConsensusCoordinator" where
  "Coordinator_AddSlaveNode ip port session_id now1 now2 st =
     (let (s, sp) = SyncProgress_AddSlaveNode ip port (cc_table_name st) (cc_partition_id st) session_id now1 now2 (cc_sync_pros st);
          st = st\<lparr>cc_sync_pros := sp\<rparr>
      in if \<not> ok s then (s, st) else (OK, st))"

definition Coordinator_RemoveSlaveNode ::
  "string \<Rightarrow> int \<Rightarrow> ('c, 'n, 'h) ConsensusCoordinator \<Rightarrow> Status \<times> ('c, 'n, 'h) ConsensusCoordinator" where
  "Coordinator_RemoveSlaveNode ip port st =
     (let (s, sp) = SyncProgress_RemoveSlaveNode ip port (cc_sync_pros st); st = st\<lparr>cc_sync_pros := sp\<rparr>
      in if \<not> ok s then (s, st) else (OK, st))"

definition MatchConsensusLevel :: "'c coord_conf \<Rightarrow> ('c, 'n, 'h) ConsensusCoordinator \<Rightarrow> bool" where
  "MatchConsensusLevel cf st \<longleftrightarrow> SlaveSize (cc_sync_pros st) \<ge> cf_consensus_level cf"

definition CheckEnoughFollower :: "'c coord_conf \<Rightarrow> ('c, 'n, 'h) ConsensusCoordinator \<Rightarrow> Status" where
  "CheckEnoughFollower cf st = (if \<not> MatchConsensusLevel cf st then Incomplete ''Not enough follower'' else OK)"

definition UpdateTerm ::
  "('w, 'e) slash_env \<Rightarrow> u32 \<Rightarrow> ('c, 'n, 'h) ConsensusCoordinator \<Rightarrow> 'w \<Rightarrow> ('c, 'n, 'h) ConsensusCoordinator \<times> 'w" where
  "UpdateTerm E trm st w =
     (let (b, w) = Binlog_SetTerm E trm (sl_stable_logger (cc_stable_logger st)) w
      in (st\<lparr>cc_term := trm, cc_stable_logger := (cc_stable_logger st)\<lparr>sl_stable_logger := b\<rparr>\<rparr>, w))"

section \<open>Construction, recovery, reset\<close>

definition InitCmd :: "'c coord_conf \<Rightarrow> string \<Rightarrow> string list \<Rightarrow> 'c option" where
  "InitCmd cf table_name argv =
     (case argv of
        [] \<Rightarrow> None
      | opt # _ \<Rightarrow>
          (case cf_GetCmd cf (cf_StringToLower cf opt) of
             None \<Rightarrow> None
           | Some c \<Rightarrow> (case cf_Initial cf argv table_name c of (res_ok, c) \<Rightarrow> if \<not> res_ok then None else Some c)))"

text \<open>The loop of \<^verbatim>\<open>Init\<close>, over the items behind the committed index.\<close>

partial_function (option) init_loop ::
  "('w, 'e) slash_env \<Rightarrow> slash_coding \<Rightarrow> 'c coord_conf \<Rightarrow> string \<Rightarrow> Binlog \<Rightarrow> 'e PikaBinlogReader \<Rightarrow> ('c, 'n) MemLog \<Rightarrow> 'w
    \<Rightarrow> ('c, 'n) MemLog option" where
  [code]: "init_loop E C cf table_name b r m w =
     (case Get E b [] 0 0 r w of
        None \<Rightarrow> None
      | Some (s, binlog, filenum, offset, r) \<Rightarrow>
          if IsEndFile s then Some m
          else if IsCorruption s \<or> IsIOError s then None
          else case BinlogItemWithoutContentDecode C TypeFirst binlog BinlogItem0 of
                 (res, item) \<Rightarrow>
                   if \<not> res then None
                   else case cf_redis_parse cf (drop BINLOG_ENCODE_LEN binlog) of
                          None \<Rightarrow> None
                        | Some argv \<Rightarrow>
                            (case InitCmd cf table_name argv of
                               None \<Rightarrow> None
                             | Some cmd \<Rightarrow>
                                 init_loop E C cf table_name b r
                                   (AppendLog \<lparr>li_offset = \<lparr>b_offset = BinlogOffset filenum offset,
                                        l_offset = \<lparr>lo_term = bi_term_id item, lo_index = bi_logic_id item\<rparr>\<rparr>,
                                      li_cmd = cmd, li_conn = None\<rparr> m) w))"

definition Coordinator_Init ::
  "('w, 'e) slash_env \<Rightarrow> slash_coding \<Rightarrow> 'c coord_conf \<Rightarrow> ('c, 'n, 'h) ConsensusCoordinator \<Rightarrow> 'w
    \<Rightarrow> (('c, 'n, 'h) ConsensusCoordinator \<times> 'w) option" where
  "Coordinator_Init E C cf st w =
     (case Context_Init E (cc_context st) w of
        None \<Rightarrow> None
      | Some (_, ctx, w) \<Rightarrow>
          let st = st\<lparr>cc_context := ctx, cc_committed_index := cx_applied_index ctx,
                      cc_term := Binlog_term (sl_stable_logger (cc_stable_logger st))\<rparr>
          in if LogOffset_eq (cc_committed_index st) LogOffset0 then Some (st, w)
             else let b = sl_stable_logger (cc_stable_logger st);
                      m = SetLastOffset (cc_committed_index st) (cc_mem_logger st);
                      c = b_offset (cc_committed_index st)
                  in case Seek E b (bo_filenum c) (bo_offset c) PikaBinlogReader_new0 w of
                       None \<Rightarrow> None
                     | Some (res, r) \<Rightarrow>
                         if res \<noteq> 0 then None
                         else map_option (\<lambda>m. (st\<lparr>cc_mem_logger := m\<rparr>, w)) (init_loop E C cf (cc_table_name st) b r m w))"

definition kContext :: string where
  "kContext = ''context''"

text \<open>
  The constructor. \<open>indet\<close> and \<open>indet_term\<close> are the values of the uninitialised terms of the
  binlog version and of the coordinator.
\<close>

definition ConsensusCoordinator_new ::
  "('w, 'e) slash_env \<Rightarrow> slash_coding \<Rightarrow> 'c coord_conf \<Rightarrow> u32 \<Rightarrow> u32 \<Rightarrow> string \<Rightarrow> u32 \<Rightarrow> 'w
    \<Rightarrow> (('c, 'n, 'h) ConsensusCoordinator \<times> 'w) option" where
  "ConsensusCoordinator_new E C cf indet indet_term table_name partition_id w =
     (let table_log_path = cf_log_path cf @ ''log_'' @ table_name @ ''/'';
          log_path = (if cf_classic_mode cf then table_log_path
                      else table_log_path @ dec_string (uint partition_id) @ ''/'')
      in case StableLog_new E C (cf_string2l cf) indet (cf_binlog_file_size cf) table_name partition_id log_path w of
           None \<Rightarrow> None
         | Some (sl, w) \<Rightarrow>
             let st = \<lparr>cc_committed_index = LogOffset0, cc_context = Context_new (log_path @ kContext), cc_term = indet_term,
                       cc_table_name = table_name, cc_partition_id = partition_id, cc_sync_pros = SyncProgress0,
                       cc_stable_logger = sl, cc_mem_logger = MemLog0, cc_scheduled = [], cc_io_error_tables = []\<rparr>
             in if cf_consensus_level cf \<noteq> 0 then Coordinator_Init E C cf st w else Some (st, w))"

definition Coordinator_Reset ::
  "('w, 'e) slash_env \<Rightarrow> LogOffset \<Rightarrow> ('c, 'n, 'h) ConsensusCoordinator \<Rightarrow> 'w
    \<Rightarrow> (Status \<times> ('c, 'n, 'h) ConsensusCoordinator \<times> 'w) option" where
  "Coordinator_Reset E offset st w =
     (case Context_Reset E offset (cc_context st) w of
        None \<Rightarrow> None
      | Some (ctx, w) \<Rightarrow>
          let (st, w) = UpdateTerm E (lo_term (l_offset offset)) (st\<lparr>cc_context := ctx, cc_committed_index := offset\<rparr>) w
          in case Binlog_SetProducerStatus E (bo_filenum (b_offset offset)) (bo_offset (b_offset offset))
                    (lo_term (l_offset offset)) (lo_index (l_offset offset)) (sl_stable_logger (cc_stable_logger st)) w of
               None \<Rightarrow> None
             | Some (s, b, w) \<Rightarrow>
                 let sl = (cc_stable_logger st)\<lparr>sl_stable_logger := b\<rparr>
                 in if \<not> ok s then Some (s, st\<lparr>cc_stable_logger := sl\<rparr>, w)
                    else Some (OK, st\<lparr>cc_stable_logger := SetFirstOffset offset sl,
                                      cc_mem_logger := MemLog_Reset offset (cc_mem_logger st)\<rparr>, w))"

section \<open>What a write to the binlog leaves alone\<close>

lemma InitLogFile_version: "Binlog_InitLogFile E b w = Some b' \<Longrightarrow> bl_version b' = bl_version b"
  by (auto simp: Binlog_InitLogFile_def Let_def split: option.splits if_splits)

context slash_fs
begin

lemma StableSave_frame: "Version_StableSave E v w = (s, w') \<Longrightarrow> p \<noteq> ver_save v \<Longrightarrow> env_RWData E p w' = env_RWData E p w"
  by (auto simp: Version_StableSave_def Let_def rw_write_other)

lemma Emit_frame: "EmitPhysicalRecord E q t ptr bo tmp w = Some (s, bo', tmp', w') \<Longrightarrow> env_RWData E p w' = env_RWData E p w"
  by (auto simp: EmitPhysicalRecord_def Let_def dest!: rw_append [where p = p] rw_flush [where p = p] split: prod.splits if_splits)

lemma trailer_frame: "produce_trailer E q bo tmp w = (s, bo', tmp', w') \<Longrightarrow> env_RWData E p w' = env_RWData E p w"
  by (auto simp: produce_trailer_def Let_def dest!: rw_append [where p = p] split: prod.splits if_splits)

lemma produce_frame:
  "produce_loop E q beg left bo tmp w = Some (s, bo', tmp', w') \<Longrightarrow> env_RWData E p w' = env_RWData E p w"
proof (induction "2 * length left + (if bo = 65528 then 1 else 0)" arbitrary: beg left bo tmp w rule: less_induct)
  case less
  obtain s1 bo1 tmp1 w1 where t: "produce_trailer E q bo tmp w = (s1, bo1, tmp1, w1)"
    by (cases "produce_trailer E q bo tmp w")
  note tf = trailer_frame [OF t, of p]
  let ?n = "min (length left) (kBlockSize - bo1 - kHeaderSize)"
  show ?case
  proof (cases "s1 = OK \<and> bo \<le> kBlockSize")
    case False
    then show ?thesis using less.prems t tf by (subst (asm) produce_loop.simps [of E q beg left bo tmp w]) (auto split: if_splits)
  next
    case True
    then have n: "?n = min (length left) (block_avail bo)" and bo1: "bo1 = block_start bo"
      using produce_trailer_offset [of E q bo tmp w bo1 tmp1 w1] t by (auto simp: block_avail_def block_start_def)
    have step: "produce_loop E q beg left bo tmp w =
       (case EmitPhysicalRecord E q (record_type beg (length left = ?n)) (take ?n left) bo1 tmp1 w1 of
          None \<Rightarrow> None
        | Some (s, bo, tmp, w2) \<Rightarrow>
            if s = OK \<and> length left \<noteq> ?n then produce_loop E q False (drop ?n left) bo tmp w2 else Some (s, bo, tmp, w2))"
      using produce_loop_step [OF _ _ n] t True bo1 by simp
    then obtain s2 bo2 tmp2 w2 where e: "EmitPhysicalRecord E q (record_type beg (length left = ?n)) (take ?n left) bo1 tmp1 w1
        = Some (s2, bo2, tmp2, w2)"
      using less.prems by (auto split: option.splits)
    have bo2: "bo2 = bo1 + (kHeaderSize + ?n)" using EmitPhysicalRecord_offset [OF e] by simp
    have tw: "env_RWData E p w2 = env_RWData E p w" using Emit_frame [OF e, of p] tf by simp
    show ?thesis
    proof (cases "s2 = OK \<and> length left \<noteq> ?n")
      case False
      then show ?thesis using less.prems step e tw by auto
    next
      case rec: True
      then have "produce_loop E q False (drop ?n left) bo2 tmp2 w2 = Some (s, bo', tmp', w')"
        using less.prems step e by simp
      moreover have "2 * length (drop ?n left) + (if bo2 = 65528 then 1 else 0) < 2 * length left + (if bo = 65528 then 1 else 0)"
        using rec bo2 bo1 True by (auto simp: block_start_def min_def split: if_splits)
      ultimately show ?thesis using less.hyps tw by metis
    qed
  qed
qed

lemma roll_frame:
  assumes "Binlog_roll E b w = Some (b', w')" and "p \<noteq> ver_save (bl_version b)"
  shows "env_RWData E p w' = env_RWData E p w"
  using assms by (auto simp: Binlog_roll_def Let_def dest!: rw_new_writable [where p = p] StableSave_frame [where p = p] split: prod.splits)

lemma roll_save: "Binlog_roll E b w = Some (b', w') \<Longrightarrow> ver_save (bl_version b') = ver_save (bl_version b)"
  by (auto simp: Binlog_roll_def Let_def dest!: InitLogFile_version split: prod.splits)

lemma Put_frame:
  assumes "Binlog_Put E item b w = Some (s, b', w')"
  shows "ver_save (bl_version b') = ver_save (bl_version b)"
    and "p \<noteq> ver_save (bl_version b) \<Longrightarrow> env_RWData E p w' = env_RWData E p w"
proof -
  have put: "ver_save (bl_version b2) = ver_save (bl_version b1) \<and> (p \<noteq> ver_save (bl_version b1) \<longrightarrow> env_RWData E p w2 = env_RWData E p w1)"
    if "Binlog_Produce E item b1 w1 = Some (st, off, b0, w0)"
      and "(if ok st then
              let v = (bl_version b0)\<lparr>ver_pro_offset := scast off, ver_logic_id := ver_logic_id (bl_version b0) + 1\<rparr>;
                  (s2, w) = Version_StableSave E v w0 in Some (st, b0\<lparr>bl_version := v\<rparr>, w)
            else Some (st, b0, w0)) = Some (s', b2, w2)" for b1 w1 st off b0 w0 s' b2 w2
    using that by (auto simp: Binlog_Produce_def Let_def dest!: produce_frame [where p = p] StableSave_frame [where p = p]
        split: option.splits prod.splits if_splits)
  obtain b2 where raw: "bl_opened b \<Longrightarrow> Binlog_Put_raw E item b w = Some (s, b2, w')" "bl_version b' = (if bl_opened b then bl_version b2 else bl_version b)"
    "\<not> bl_opened b \<Longrightarrow> w' = w"
    using assms by (auto simp: Binlog_Put_def split: option.splits if_splits)
  have "ver_save (bl_version b2) = ver_save (bl_version b) \<and> (p \<noteq> ver_save (bl_version b) \<longrightarrow> env_RWData E p w' = env_RWData E p w)"
    if "Binlog_Put_raw E item b w = Some (s, b2, w')"
    using that roll_save [of b w] roll_frame [of b w _ _ p]
    by (fastforce simp: Binlog_Put_raw_def split: option.splits prod.splits if_splits dest: put)
  with raw show "ver_save (bl_version b') = ver_save (bl_version b)"
    "p \<noteq> ver_save (bl_version b) \<Longrightarrow> env_RWData E p w' = env_RWData E p w" by (auto split: if_splits)
qed

end

section \<open>Binlog and memory log\<close>

definition cc_binlog :: "('c, 'n, 'h) ConsensusCoordinator \<Rightarrow> Binlog" where
  "cc_binlog st = sl_stable_logger (cc_stable_logger st)"

definition producer :: "Binlog \<Rightarrow> BinlogOffset" where
  "producer b = BinlogOffset (bl_pro_num b) (ver_pro_offset (bl_version b))"

text \<open>The last offset of the memory log is where the binlog ends.\<close>

definition logs_agree :: "('c, 'n, 'h) ConsensusCoordinator \<Rightarrow> bool" where
  "logs_agree st \<longleftrightarrow> b_offset (ml_last_offset (cc_mem_logger st)) = producer (cc_binlog st)
     \<and> index_of (ml_last_offset (cc_mem_logger st)) = ver_logic_id (bl_version (cc_binlog st))"

text \<open>Room for an item: no counter of the binlog wraps, and its file name is not cut.\<close>

definition binlog_room :: "bytes \<Rightarrow> Binlog \<Rightarrow> bool" where
  "binlog_room x b \<longleftrightarrow> x \<noteq> [] \<and> unat (ver_pro_offset (bl_version b)) + 2 * length x + 23 < 2 ^ 31
     \<and> unat (bl_pro_num b) < 2 ^ 32 - 1 \<and> unat (ver_logic_id (bl_version b)) < 2 ^ 64 - 1 \<and> length (bl_filename b) \<le> 245"

definition item_binlog :: "'c coord_conf \<Rightarrow> 'c \<Rightarrow> BinlogItem \<Rightarrow> bytes" where
  "item_binlog cf cmd item = cf_ToBinlog cf cmd (bi_exec_time item) (bi_term_id item) (bi_logic_id item) (bi_filenum item) (bi_offset item)"

definition propose_item :: "('w, 'e) slash_env \<Rightarrow> Binlog \<Rightarrow> 'w \<Rightarrow> BinlogItem" where
  "propose_item E b w = BinlogItem0\<lparr>bi_exec_time := ucast (env_now E w), bi_term_id := ver_term (bl_version b),
     bi_logic_id := ver_logic_id (bl_version b) + 1, bi_filenum := ver_pro_num (bl_version b), bi_offset := ver_pro_offset (bl_version b)\<rparr>"

lemma u64_suc_less: "unat (x :: u64) < 2 ^ 64 - 1 \<Longrightarrow> x < x + 1"
  using unat_of_nat_small [of "unat x + 1", where 'a = 64, unfolded of_nat_add] by (simp add: word_less_nat_alt)

lemma Put_advances:
  assumes "slash_fs E fs hpos" and "binlog_ok E fs b w" and "Binlog_Put E x b w = Some (OK, b', w')" and "binlog_room x b"
  shows "producer b < producer b'"
proof -
  have room: "unat (ver_pro_offset (bl_version b)) + 2 * length x + 23 < 2 ^ 31" "unat (bl_pro_num b) < 2 ^ 32 - 1"
    using assms(4) by (auto simp: binlog_room_def)
  note ef = Put_effect [OF assms(1-3) room(1)]
  have ok': "binlog_ok E fs b' w'" "bl_filename b' = bl_filename b" using ef by blast+
  show ?thesis
  proof (cases "bl_file_size b < ver_pro_offset (bl_version b)")
    case True
    then have "bl_pro_num b' = bl_pro_num b + 1" using ef by auto
    moreover have "bl_pro_num b < bl_pro_num b + 1" using unat_suc [OF room(2)] by (simp add: word_less_nat_alt)
    ultimately show ?thesis by (simp add: producer_def less_BinlogOffset_iff)
  next
    case False
    with ef obtain c bs bo where c: "fs w (NewFileName (bl_filename b) (bl_pro_num b)) = Some c"
      "frames (length c mod kBlockSize) True x bs bo" "bl_pro_num b' = bl_pro_num b"
      "fs w' = (fs w)(NewFileName (bl_filename b) (bl_pro_num b) \<mapsto> c @ bs)" by auto
    have "length c = unat (ver_pro_offset (bl_version b))" using assms(2) c(1) by (auto elim!: binlog_okE)
    moreover have "length (c @ bs) = unat (ver_pro_offset (bl_version b'))" using ok' c(3,4) by (auto elim!: binlog_okE)
    moreover have "0 < length bs" using frames_length [OF c(2)] by auto
    ultimately have "ver_pro_offset (bl_version b) < ver_pro_offset (bl_version b')"
      unfolding word_less_nat_alt length_append by linarith
    then show ?thesis by (simp add: producer_def less_BinlogOffset_iff c(3))
  qed
qed

lemma InternalAppendLog_effect:
  assumes "slash_fs E fs hpos" and "binlog_ok E fs (cc_binlog st) w" and "cf_consensus_level cf \<noteq> 0"
    and "InternalAppendLog E cf item cmd conn st w = Some (OK, st', w')" and "binlog_room (item_binlog cf cmd item) (cc_binlog st)"
  shows "\<exists>b'. Binlog_Put E (item_binlog cf cmd item) (cc_binlog st) w = Some (OK, b', w')
    \<and> binlog_ok E fs b' w' \<and> producer (cc_binlog st) < producer b'
    \<and> ver_logic_id (bl_version b') = ver_logic_id (bl_version (cc_binlog st)) + 1
    \<and> st' = st\<lparr>cc_stable_logger := (cc_stable_logger st)\<lparr>sl_stable_logger := b'\<rparr>,
        cc_mem_logger := AppendLog \<lparr>li_offset = \<lparr>b_offset = producer b', l_offset = \<lparr>lo_term = bi_term_id item, lo_index = bi_logic_id item\<rparr>\<rparr>,
          li_cmd = cmd, li_conn = conn\<rparr> (cc_mem_logger st)\<rparr>"
proof -
  from assms(3,4) obtain b' where p: "Binlog_Put E (item_binlog cf cmd item) (cc_binlog st) w = Some (OK, b', w')"
    and st': "\<exists>f off t l. Binlog_GetProducerStatus b' = (OK, Some (f, off, t, l)) \<and> st' = st\<lparr>cc_stable_logger := (cc_stable_logger st)\<lparr>sl_stable_logger := b'\<rparr>,
        cc_mem_logger := AppendLog \<lparr>li_offset = \<lparr>b_offset = BinlogOffset f off, l_offset = \<lparr>lo_term = bi_term_id item, lo_index = bi_logic_id item\<rparr>\<rparr>,
          li_cmd = cmd, li_conn = conn\<rparr> (cc_mem_logger st)\<rparr>"
    by (auto simp: InternalAppendLog_def InternalAppendBinlog_def item_binlog_def cc_binlog_def Let_def Binlog_GetProducerStatus_def
        split: option.splits prod.splits if_splits)
  have room: "unat (ver_pro_offset (bl_version (cc_binlog st))) + 2 * length (item_binlog cf cmd item) + 23 < 2 ^ 31"
    using assms(5) by (simp add: binlog_room_def)
  note ef = Put_effect [OF assms(1,2) p room]
  then have "binlog_ok E fs b' w'" by blast
  then have "Binlog_GetProducerStatus b' = (OK, Some (bl_pro_num b', ver_pro_offset (bl_version b'), ver_term (bl_version b'), ver_logic_id (bl_version b')))"
    by (auto simp: Binlog_GetProducerStatus_def elim!: binlog_okE)
  with p st' ef Put_advances [OF assms(1,2) p assms(5)] show ?thesis by (auto simp: producer_def)
qed

lemma ProposeLog_append:
  assumes "binlog_ok E fs (cc_binlog st) w"
  shows "ProposeLog E cf cmd conn st w = InternalAppendLog E cf (propose_item E (cc_binlog st) w) cmd conn st w"
  using assms
  by (auto simp: ProposeLog_def propose_item_def Binlog_GetProducerStatus_def cc_binlog_def Let_def elim!: binlog_okE)

lemma memlog_agree_append:
  assumes "memlog_ok (cc_mem_logger st)" and "logs_agree st" and "producer (cc_binlog st) < b_offset off"
    and "ver_logic_id (bl_version (cc_binlog st)) < index_of off"
  shows "memlog_ok (AppendLog \<lparr>li_offset = off, li_cmd = cmd, li_conn = conn\<rparr> (cc_mem_logger st))"
proof (rule memlog_ok_append [OF assms(1)], rule ballI)
  let ?m = "cc_mem_logger st"
  fix x assume "x \<in> set (ml_logs ?m)"
  from memlog_le_last [OF assms(1) this]
  show "LogOffset_lt (li_offset x) (li_offset \<lparr>li_offset = off, li_cmd = cmd, li_conn = conn\<rparr>)
      \<and> index_of (li_offset x) < index_of (li_offset \<lparr>li_offset = off, li_cmd = cmd, li_conn = conn\<rparr>)"
    using assms(2-4) by (auto simp: logs_agree_def LogOffset_ops)
qed

lemma ProposeLog_effect:
  assumes "slash_fs E fs hpos" and "binlog_ok E fs (cc_binlog st) w" and "logs_agree st" and "memlog_ok (cc_mem_logger st)"
    and "cf_consensus_level cf \<noteq> 0" and "binlog_room (item_binlog cf cmd (propose_item E (cc_binlog st) w)) (cc_binlog st)"
    and "ProposeLog E cf cmd conn st w = Some (OK, st', w')"
  obtains b' off where "Binlog_Put E (item_binlog cf cmd (propose_item E (cc_binlog st) w)) (cc_binlog st) w = Some (OK, b', w')"
    and "st' = st\<lparr>cc_stable_logger := (cc_stable_logger st)\<lparr>sl_stable_logger := b'\<rparr>,
      cc_mem_logger := AppendLog \<lparr>li_offset = off, li_cmd = cmd, li_conn = conn\<rparr> (cc_mem_logger st)\<rparr>"
    and "b_offset off = producer b'" and "producer (cc_binlog st) < producer b'"
    and "l_offset off = \<lparr>lo_term = ver_term (bl_version (cc_binlog st)), lo_index = index_of (ml_last_offset (cc_mem_logger st)) + 1\<rparr>"
    and "binlog_ok E fs b' w'" and "logs_agree st'" and "memlog_ok (cc_mem_logger st')" and "cc_binlog st' = b'"
proof -
  let ?it = "propose_item E (cc_binlog st) w" and ?b = "cc_binlog st"
  let ?x = "item_binlog cf cmd ?it"
  from InternalAppendLog_effect [OF assms(1,2,5) assms(7) [unfolded ProposeLog_append [OF assms(2)]] assms(6)] obtain b' where
    p: "Binlog_Put E ?x ?b w = Some (OK, b', w')" and ok': "binlog_ok E fs b' w'" and adv: "producer ?b < producer b'"
    and lid: "ver_logic_id (bl_version b') = ver_logic_id (bl_version ?b) + 1"
    and st': "st' = st\<lparr>cc_stable_logger := (cc_stable_logger st)\<lparr>sl_stable_logger := b'\<rparr>,
        cc_mem_logger := AppendLog \<lparr>li_offset = \<lparr>b_offset = producer b', l_offset = \<lparr>lo_term = bi_term_id ?it, lo_index = bi_logic_id ?it\<rparr>\<rparr>,
          li_cmd = cmd, li_conn = conn\<rparr> (cc_mem_logger st)\<rparr>" by blast
  have b': "cc_binlog st' = b'" by (simp add: st' cc_binlog_def)
  have it: "bi_logic_id ?it = ver_logic_id (bl_version ?b) + 1" "bi_term_id ?it = ver_term (bl_version ?b)" by (simp_all add: propose_item_def)
  have lt: "ver_logic_id (bl_version ?b) < ver_logic_id (bl_version ?b) + 1"
    using assms(6) u64_suc_less unfolding binlog_room_def by blast
  have "memlog_ok (cc_mem_logger st')"
    using memlog_agree_append [OF assms(4,3)] adv lt by (simp add: st' it index_of_def)
  moreover have "logs_agree st'" by (simp add: logs_agree_def b' lid) (simp add: st' AppendLog_def it index_of_def)
  moreover have "index_of (ml_last_offset (cc_mem_logger st)) = ver_logic_id (bl_version ?b)" using assms(3) by (simp add: logs_agree_def)
  ultimately show thesis using that [OF p st'] ok' adv b' by (simp add: it)
qed

text \<open>
  \<^verbatim>\<open>ProposeLog\<close> keeps binlog and memory log consistent: a successful call appends one log to each.
  The binlog then holds the encoding of the command behind everything it held before, read from
  wherever a reader stands; the memory log holds the command at the offset at which that encoding
  ends, with the term of the log and the next logic index; both remain in order and agree.
\<close>

theorem propose_log_consistent:
  assumes "slash_fs E fs hpos" and "binlog_ok E fs (cc_binlog st) w" and "logs_agree st" and "memlog_ok (cc_mem_logger st)"
    and "cf_consensus_level cf \<noteq> 0" and "binlog_room (item_binlog cf cmd (propose_item E (cc_binlog st) w)) (cc_binlog st)"
    and "ProposeLog E cf cmd conn st w = Some (OK, st', w')"
  shows "binlog_ok E fs (cc_binlog st') w' \<and> logs_agree st' \<and> memlog_ok (cc_mem_logger st')
    \<and> (\<forall>f n xs. items_ahead fs (cc_binlog st) w f n xs
         \<longrightarrow> items_ahead fs (cc_binlog st') w' f n (xs @ [item_binlog cf cmd (propose_item E (cc_binlog st) w)]))
    \<and> (\<exists>off. ml_logs (cc_mem_logger st') = ml_logs (cc_mem_logger st) @ [\<lparr>li_offset = off, li_cmd = cmd, li_conn = conn\<rparr>]
         \<and> b_offset off = producer (cc_binlog st')
         \<and> l_offset off = \<lparr>lo_term = ver_term (bl_version (cc_binlog st)), lo_index = index_of (ml_last_offset (cc_mem_logger st)) + 1\<rparr>)"
proof -
  let ?b = "cc_binlog st" and ?x = "item_binlog cf cmd (propose_item E (cc_binlog st) w)"
  obtain b' off where p: "Binlog_Put E ?x ?b w = Some (OK, b', w')"
    and st': "st' = st\<lparr>cc_stable_logger := (cc_stable_logger st)\<lparr>sl_stable_logger := b'\<rparr>,
      cc_mem_logger := AppendLog \<lparr>li_offset = off, li_cmd = cmd, li_conn = conn\<rparr> (cc_mem_logger st)\<rparr>"
    and ef: "b_offset off = producer b'"
      "l_offset off = \<lparr>lo_term = ver_term (bl_version ?b), lo_index = index_of (ml_last_offset (cc_mem_logger st)) + 1\<rparr>"
      "binlog_ok E fs b' w'" "logs_agree st'" "memlog_ok (cc_mem_logger st')" "cc_binlog st' = b'"
    using ProposeLog_effect [OF assms] by blast
  have room: "?x \<noteq> []" "unat (ver_pro_offset (bl_version ?b)) + 2 * length ?x + 23 < 2 ^ 31" "unat (bl_pro_num ?b) < 2 ^ 32 - 1"
    "length (bl_filename ?b) \<le> 245" using assms(6) by (auto simp: binlog_room_def)
  have "\<forall>f n xs. items_ahead fs ?b w f n xs \<longrightarrow> items_ahead fs b' w' f n (xs @ [?x])"
    using slash_fs.Put_ahead [OF assms(1,2) p _ room] by blast
  with ef show ?thesis by (simp add: st' AppendLog_def)
qed

text \<open>A coordinator on the log of the earlier examples; a command is its encoding.\<close>

definition wit_conf :: "string coord_conf" where
  "wit_conf = \<lparr>cf_consensus_level = 1, cf_log_path = [], cf_classic_mode = True, cf_binlog_file_size = 100, cf_default_table = ''db0'',
     cf_ToBinlog = (\<lambda>cmd e t l f off. BinlogEncode le_coding TypeFirst e t l f off cmd []), cf_table_name = (\<lambda>_. []), cf_GetCmd = Some,
     cf_Initial = (\<lambda>argv tbl c. (True, c)), cf_GetTable = (\<lambda>_. True), cf_redis_parse = (\<lambda>s. Some [s]), cf_string2l = dec_parse,
     cf_StringToLower = id\<rparr>"

definition wit_coord :: "(string, nat, string \<times> nat) ConsensusCoordinator" where
  "wit_coord = \<lparr>cc_committed_index = LogOffset0, cc_context = wit_ctx, cc_term = 7, cc_table_name = ''db0'', cc_partition_id = 0,
     cc_sync_pros = SyncProgress0,
     cc_stable_logger = \<lparr>sl_purging = False, sl_table_name = ''db0'', sl_partition_id = 0, sl_log_path = [], sl_stable_logger = wit_binlog,
       sl_first_offset = LogOffset0\<rparr>,
     cc_mem_logger = \<lparr>ml_logs = [], ml_last_offset = \<lparr>b_offset = BinlogOffset0, l_offset = \<lparr>lo_term = 7, lo_index = 5\<rparr>\<rparr>\<rparr>,
     cc_scheduled = [], cc_io_error_tables = []\<rparr>"

definition coord_world :: mem_world where
  "coord_world = wit_world\<lparr>mw_rw := (mw_rw wit_world)(''c'' \<mapsto> context_bytes LogOffset0)\<rparr>"

lemmas coord_simps = wit_conf_def wit_coord_def coord_world_def cc_binlog_def

lemma coord_put: "length x \<le> 100 \<Longrightarrow> x \<noteq> [] \<Longrightarrow> \<exists>b' w'. Binlog_Put mem_env x wit_binlog coord_world = Some (OK, b', w')"
  by (simp add: wit_simps put_eval coord_world_def)

lemma coord_binlog_ok: "binlog_ok mem_env mw_files (cc_binlog wit_coord) coord_world"
  by (simp add: coord_simps wit_simps binlog_ok_def manifest_holds_def)

lemma coord_agree: "logs_agree wit_coord" "memlog_ok (cc_mem_logger wit_coord)"
  by (simp_all add: coord_simps wit_simps logs_agree_def memlog_ok_def producer_def BinlogOffset0_def index_of_def)

lemma length_wit_binlog: "length (item_binlog wit_conf ''abc'' item) = 37"
  by (simp add: item_binlog_def wit_conf_def le.BinlogEncode_eq le.length_item_header transverter_consts)

lemma coord_room: "binlog_room (item_binlog wit_conf ''abc'' item) (cc_binlog wit_coord)"
  using length_wit_binlog [of item] by (auto simp: binlog_room_def coord_simps wit_simps)

lemma coord_append: "\<exists>st' w'. InternalAppendLog mem_env wit_conf item ''abc'' conn wit_coord coord_world = Some (OK, st', w')"
proof -
  obtain b' w' where p: "Binlog_Put mem_env (item_binlog wit_conf ''abc'' item) wit_binlog coord_world = Some (OK, b', w')"
    using coord_put [of "item_binlog wit_conf ''abc'' item"] length_wit_binlog [of item] by fastforce
  have b: "sl_stable_logger (cc_stable_logger wit_coord) = wit_binlog" by (simp add: wit_coord_def)
  have "binlog_ok mem_env mw_files b' w'"
    using Put_effect [OF mem.slash_fs_axioms coord_binlog_ok, of "item_binlog wit_conf ''abc'' item" b' w'] p length_wit_binlog [of item]
    by (simp add: coord_simps wit_simps)
  then have "bl_opened b'" by (elim binlog_okE)
  with p show ?thesis
    by (simp add: InternalAppendLog_def InternalAppendBinlog_def item_binlog_def b Binlog_GetProducerStatus_def)
qed

theorem propose_log_consistent_witness:
  "\<exists>st' w'. ProposeLog mem_env wit_conf ''abc'' None wit_coord coord_world = Some (OK, st', w')
    \<and> logs_agree st' \<and> map li_cmd (ml_logs (cc_mem_logger st')) = [''abc'']"
proof -
  obtain st' w' where p: "ProposeLog mem_env wit_conf ''abc'' None wit_coord coord_world = Some (OK, st', w')"
    using coord_append ProposeLog_append [OF coord_binlog_ok] by metis
  have "cf_consensus_level wit_conf \<noteq> 0" by (simp add: wit_conf_def)
  from propose_log_consistent [OF mem.slash_fs_axioms coord_binlog_ok coord_agree this coord_room p] p show ?thesis
    by (auto simp: wit_coord_def)
qed

section \<open>Logs from the leader\<close>

lemma ProcessLeaderLog_append:
  assumes "cf_consensus_level cf \<noteq> 0" and "\<not> bi_logic_id attr < index_of (ml_last_offset (cc_mem_logger st))"
  shows "ProcessLeaderLog E cf cmd attr st w = map_option (\<lambda>(_, st, w). (OK, st, w)) (InternalAppendLog E cf attr cmd None st w)"
  using assms by (auto simp: ProcessLeaderLog_def index_of_def Let_def split: option.splits)

text \<open>
  What \<^verbatim>\<open>ProcessLeaderLog\<close> does with a log of a given logic id, when consensus is on. One below the
  last index is dropped. The next one is appended to binlog and memory log, which stay in order and
  keep agreeing. One with exactly the last index is appended again, although the comment says that an
  existing log is dropped: the memory log then has two logs with one index, and the logic id of the
  binlog has moved past it. The status is OK in each case, also when the write to the binlog failed.
\<close>

theorem process_leader_log_cases:
  assumes "slash_fs E fs hpos" and "binlog_ok E fs (cc_binlog st) w" and "logs_agree st" and "memlog_ok (cc_mem_logger st)"
    and "cf_consensus_level cf \<noteq> 0" and "binlog_room (item_binlog cf cmd attr) (cc_binlog st)"
  shows "(bi_logic_id attr < index_of (ml_last_offset (cc_mem_logger st)) \<longrightarrow> ProcessLeaderLog E cf cmd attr st w = Some (OK, st, w))
    \<and> (\<forall>st' w'. InternalAppendLog E cf attr cmd None st w = Some (OK, st', w') \<longrightarrow>
         (bi_logic_id attr = index_of (ml_last_offset (cc_mem_logger st)) + 1 \<longrightarrow>
            ProcessLeaderLog E cf cmd attr st w = Some (OK, st', w')
            \<and> binlog_ok E fs (cc_binlog st') w' \<and> logs_agree st' \<and> memlog_ok (cc_mem_logger st'))
       \<and> (bi_logic_id attr = index_of (ml_last_offset (cc_mem_logger st)) \<longrightarrow>
            ProcessLeaderLog E cf cmd attr st w = Some (OK, st', w') \<and> \<not> logs_agree st'
            \<and> (\<exists>log. ml_logs (cc_mem_logger st') = ml_logs (cc_mem_logger st) @ [log]
                 \<and> index_of (li_offset log) = index_of (ml_last_offset (cc_mem_logger st)))))
    \<and> (\<forall>s st' w'. ProcessLeaderLog E cf cmd attr st w = Some (s, st', w') \<longrightarrow> s = OK)"
proof (intro conjI allI impI)
  let ?i = "index_of (ml_last_offset (cc_mem_logger st))" and ?b = "cc_binlog st"
  show "ProcessLeaderLog E cf cmd attr st w = Some (OK, st, w)" if "bi_logic_id attr < ?i"
    using that by (simp add: ProcessLeaderLog_def index_of_def)
  show "s = OK" if "ProcessLeaderLog E cf cmd attr st w = Some (s, st', w')" for s st' w'
    using that by (auto simp: ProcessLeaderLog_def Let_def split: if_splits option.splits)
  have i: "?i = ver_logic_id (bl_version ?b)" using assms(3) by (simp add: logs_agree_def)
  have lt: "?i < ?i + 1" using assms(6) u64_suc_less unfolding i binlog_room_def by blast
  fix st' w' assume a: "InternalAppendLog E cf attr cmd None st w = Some (OK, st', w')"
  from InternalAppendLog_effect [OF assms(1,2,5) a assms(6)] obtain b' where
    ok': "binlog_ok E fs b' w'" and adv: "producer ?b < producer b'"
    and lid: "ver_logic_id (bl_version b') = ?i + 1"
    and st': "st' = st\<lparr>cc_stable_logger := (cc_stable_logger st)\<lparr>sl_stable_logger := b'\<rparr>,
        cc_mem_logger := AppendLog \<lparr>li_offset = \<lparr>b_offset = producer b', l_offset = \<lparr>lo_term = bi_term_id attr, lo_index = bi_logic_id attr\<rparr>\<rparr>,
          li_cmd = cmd, li_conn = None\<rparr> (cc_mem_logger st)\<rparr>" unfolding i by blast
  have b': "cc_binlog st' = b'" by (simp add: st' cc_binlog_def)
  have last: "ml_last_offset (cc_mem_logger st') = \<lparr>b_offset = producer b', l_offset = \<lparr>lo_term = bi_term_id attr, lo_index = bi_logic_id attr\<rparr>\<rparr>"
    by (simp add: st' AppendLog_def)
  have not_drop: "ProcessLeaderLog E cf cmd attr st w = Some (OK, st', w')" if "\<not> bi_logic_id attr < ?i"
    using ProcessLeaderLog_append [OF assms(5) that, of E cmd w] a by simp
  {
    assume n: "bi_logic_id attr = ?i + 1"
    show "ProcessLeaderLog E cf cmd attr st w = Some (OK, st', w')" using not_drop lt n by simp
    show "binlog_ok E fs (cc_binlog st') w'" using ok' b' by simp
    show "logs_agree st'" by (simp add: logs_agree_def b' last lid n index_of_def [of "\<lparr>b_offset = _, l_offset = _\<rparr>"])
    show "memlog_ok (cc_mem_logger st')"
      using memlog_agree_append [OF assms(4,3)] adv lt i n by (simp add: st' index_of_def [of "\<lparr>b_offset = _, l_offset = _\<rparr>"])
  next
    assume n: "bi_logic_id attr = ?i"
    show "ProcessLeaderLog E cf cmd attr st w = Some (OK, st', w')" using not_drop n by simp
    show "\<not> logs_agree st'" using lt by (simp add: logs_agree_def b' last lid n index_of_def [of "\<lparr>b_offset = _, l_offset = _\<rparr>"])
    show "\<exists>log. ml_logs (cc_mem_logger st') = ml_logs (cc_mem_logger st) @ [log] \<and> index_of (li_offset log) = ?i"
      by (simp add: st' AppendLog_def n index_of_def [of "\<lparr>b_offset = _, l_offset = _\<rparr>"])
  }
qed

theorem process_leader_log_cases_witness:
  "\<exists>st' w'. ProcessLeaderLog mem_env wit_conf ''abc'' (BinlogItem0\<lparr>bi_logic_id := 5\<rparr>) wit_coord coord_world = Some (OK, st', w') \<and> \<not> logs_agree st'"
proof -
  let ?a = "BinlogItem0\<lparr>bi_logic_id := 5\<rparr>"
  obtain st' w' where a: "InternalAppendLog mem_env wit_conf ?a ''abc'' None wit_coord coord_world = Some (OK, st', w')"
    using coord_append by blast
  have "cf_consensus_level wit_conf \<noteq> 0" by (simp add: wit_conf_def)
  from process_leader_log_cases [OF mem.slash_fs_axioms coord_binlog_ok coord_agree this coord_room, of ?a] a show ?thesis
    by (auto simp: wit_coord_def index_of_def)
qed

section \<open>Recovery\<close>

context slash_fs
begin

lemma init_loop_items:
  assumes "fixed_coding C" and "binlog_ok E fs b w" and "reader_ok hpos b r n"
    and "items_ahead fs b w (rd_cur_filenum r) n (map (enc_item C) its)"
    and "\<forall>it\<in>set its. \<exists>argv. cf_redis_parse cf (bi_content it) = Some argv \<and> InitCmd cf tbl argv = Some (cmd_of it)"
  shows "\<exists>logs. init_loop E C cf tbl b r m w = Some (fold AppendLog logs m) \<and> map li_cmd logs = map cmd_of its
    \<and> map (\<lambda>l. l_offset (li_offset l)) logs = map (\<lambda>it. \<lparr>lo_term = bi_term_id it, lo_index = bi_logic_id it\<rparr>) its
    \<and> (\<forall>l\<in>set logs. li_conn l = None)"
  using assms(3-5)
proof (induction its arbitrary: r n m)
  case Nil
  then show ?case using Get_ahead [OF assms(2) Nil.prems(1,2), of 0 0] by (subst init_loop.simps) auto
next
  case (Cons it its)
  from Get_ahead [OF assms(2) Cons.prems(1,2), of 0 0] obtain fnum' off' r' n' where
    g: "Get E b [] 0 0 r w = Some (OK, enc_item C it, fnum', off', r')" "reader_ok hpos b r' n'"
    "items_ahead fs b w (rd_cur_filenum r') n' (map (enc_item C) its)" by auto
  obtain d where d: "BinlogItemWithoutContentDecode C TypeFirst (enc_item C it) BinlogItem0 = (True, d)"
    "bi_term_id d = bi_term_id it" "bi_logic_id d = bi_logic_id it"
    using fixed_coding.WithoutContentDecode_enc_item [OF assms(1)] by blast
  have dr: "drop BINLOG_ENCODE_LEN (enc_item C it) = bi_content it"
    using fixed_coding.length_item_header [OF assms(1)]
    by (simp add: enc_item_def fixed_coding.BinlogEncode_eq [OF assms(1)] transverter_consts)
  obtain argv where c: "cf_redis_parse cf (bi_content it) = Some argv" "InitCmd cf tbl argv = Some (cmd_of it)"
    using Cons.prems(3) by auto
  let ?l = "\<lparr>li_offset = \<lparr>b_offset = BinlogOffset fnum' off', l_offset = \<lparr>lo_term = bi_term_id it, lo_index = bi_logic_id it\<rparr>\<rparr>,
      li_cmd = cmd_of it, li_conn = None\<rparr>"
  have "init_loop E C cf tbl b r m w = init_loop E C cf tbl b r' (AppendLog ?l m) w"
    using g(1) d dr c by (subst init_loop.simps) (simp add: status_simps)
  moreover obtain logs where "init_loop E C cf tbl b r' (AppendLog ?l m) w = Some (fold AppendLog logs (AppendLog ?l m))"
    "map li_cmd logs = map cmd_of its" "\<forall>l\<in>set logs. li_conn l = None"
    "map (\<lambda>l. l_offset (li_offset l)) logs = map (\<lambda>it. \<lparr>lo_term = bi_term_id it, lo_index = bi_logic_id it\<rparr>) its"
    using Cons.IH [OF g(2,3)] Cons.prems(3) by fastforce
  ultimately show ?case by (intro exI [of _ "?l # logs"]) simp
qed

end

lemma fold_AppendLog: "ml_logs (fold AppendLog logs m) = ml_logs m @ logs"
  by (induction logs arbitrary: m) (simp_all add: AppendLog_def)


text \<open>A log with two items, of which the first is applied.\<close>

definition two_record :: bytes where
  "two_record = record_header kFullType 34 0 @ enc_item le_coding first_item"

definition two_version :: Version where
  "two_version = wit_version\<lparr>ver_pro_offset := 84\<rparr>"

definition two_applied :: LogOffset where
  "two_applied = \<lparr>b_offset = BinlogOffset 0 (of_nat 42), l_offset = \<lparr>lo_term = 2, lo_index = 3\<rparr>\<rparr>"

definition two_coord :: "(string, nat, string \<times> nat) ConsensusCoordinator" where
  "two_coord = wit_coord\<lparr>cc_stable_logger := (cc_stable_logger wit_coord)\<lparr>sl_stable_logger := wit_binlog\<lparr>bl_version := two_version, bl_block_offset := 84\<rparr>\<rparr>,
     cc_context := Context_new ''c''\<rparr>"

definition two_world :: mem_world where
  "two_world = \<lparr>mw_files = [NewFileName ''f'' 0 \<mapsto> two_record @ two_record],
     mw_rw = [''m'' \<mapsto> manifest_bytes two_version, ''c'' \<mapsto> context_bytes two_applied @ replicate 8 (CHR 0x00)]\<rparr>"

lemmas two_simps = two_coord_def two_world_def two_version_def coord_simps wit_simps

lemma length_two_record [simp]: "length two_record = 42"
  by (simp add: two_record_def length_first_item)

lemma two_frames: "n = 0 \<or> n = 42 \<Longrightarrow> frames (n mod kBlockSize) True (enc_item le_coding first_item) two_record (n + 42)"
  using frames_last [of "enc_item le_coding first_item" n True 0] length_first_item
  by (auto simp: block_avail_def block_start_def block_trailer_def record_type_def two_record_def)

lemma two_file: "log_files mw_files (cc_binlog two_coord) two_world 0 = Some (two_record @ two_record)"
  by (simp add: log_files_def two_simps)

lemma two_ahead: "items_ahead mw_files (cc_binlog two_coord) two_world 0 42 (map (enc_item le_coding) [first_item])"
proof -
  have ne: "enc_item le_coding first_item \<noteq> []" using length_first_item by fastforce
  have f: "log_files mw_files (cc_binlog two_coord) two_world 0 = Some (two_record @ two_record @ [])" using two_file by simp
  have "items_ahead mw_files (cc_binlog two_coord) two_world 0 (42 + length two_record) []"
    using ahead_nil [of "log_files mw_files (cc_binlog two_coord) two_world" 0 84] by (simp add: two_coord_def two_version_def cc_binlog_def wit_binlog_def)
  then show ?thesis unfolding list.map
    by (rule ahead_item [where F = "log_files mw_files (cc_binlog two_coord) two_world" and f = 0 and bs = two_record and pre = two_record
          and post = "[]", OF f length_two_record two_frames ne, rotated]) simp
qed


end
