(* ===== verification/Pika_Commit.thy ===== *)
theory Pika_Commit
  imports Pika_Consensus
begin

text \<open>
  How the operations of a coordinator interleave. Client threads propose; the threads that receive
  acknowledgements run \<^verbatim>\<open>UpdateSlave\<close>, whose two critical sections other threads can come between; the
  workers report what they applied. Whatever the order, logs are applied in the order of the log,
  only once, only when committed, and none is left behind.
\<close>

section \<open>Scheduling\<close>

lemma apply_logs_eq:
  "apply_logs InternalApply logs st =
     st\<lparr>cc_context := fold (\<lambda>l. PrepareUpdateAppliedIndex (li_offset l)) logs (cc_context st),
        cc_scheduled := cc_scheduled st @ map (\<lambda>l. DoExecTask l (cc_table_name st) (cc_partition_id st)) logs\<rparr>"
  by (induction logs arbitrary: st) (simp_all add: InternalApply_def)

text \<open>The logs the coordinator was given, in order: those handed to the workers, then those in memory.\<close>

definition sched_logs :: "('c, 'n, 'h) ConsensusCoordinator \<Rightarrow> ('c, 'n) LogItem list" where
  "sched_logs st = map task_log (cc_scheduled st)"

definition history :: "('c, 'n, 'h) ConsensusCoordinator \<Rightarrow> ('c, 'n) LogItem list" where
  "history st = sched_logs st @ ml_logs (cc_mem_logger st)"

definition log_pos :: "('c, 'n) LogItem \<Rightarrow> BinlogOffset" where
  "log_pos l = b_offset (li_offset l)"

section \<open>Interleavings\<close>

text \<open>
  The states that can be reached from \<open>st0\<close>, with the commands proposed so far, the committed
  indexes a thread has taken out of \<^verbatim>\<open>index_mu_\<close> but not yet brought to \<^verbatim>\<open>order_mu_\<close>, and the offsets
  whose logs were applied. A slave acknowledges offsets of logs, so the index it commits is that of a
  log. The threads that send binlogs change the slaves at any time (\<open>reach_send\<close>).
\<close>

inductive commit_reach ::
  "('w, 'e) slash_env \<Rightarrow> 'c coord_conf \<Rightarrow> ('c, 'n, 'h) ConsensusCoordinator \<Rightarrow> 'w \<Rightarrow> ('c, 'n, 'h) ConsensusCoordinator \<Rightarrow> 'w
    \<Rightarrow> 'c list \<Rightarrow> LogOffset list \<Rightarrow> BinlogOffset set \<Rightarrow> bool"
  for E :: "('w, 'e) slash_env" and cf :: "'c coord_conf" and st0 :: "('c, 'n, 'h) ConsensusCoordinator" and w0 :: 'w where
  reach_start: "commit_reach E cf st0 w0 st0 w0 [] [] {}"
| reach_propose: "commit_reach E cf st0 w0 st w hs P A \<Longrightarrow> ProposeLog E cf cmd conn st w = Some (OK, st', w')
    \<Longrightarrow> binlog_room (item_binlog cf cmd (propose_item E (cc_binlog st) w)) (cc_binlog st)
    \<Longrightarrow> commit_reach E cf st0 w0 st' w' (hs @ [cmd]) P A"
| reach_commit: "commit_reach E cf st0 w0 st w hs P A \<Longrightarrow> UpdateSlave_commit cf ip port start stop st = Some (Inr c, st')
    \<Longrightarrow> c \<in> li_offset ` set (history st) \<Longrightarrow> commit_reach E cf st0 w0 st' w hs (c # P) A"
| reach_ack: "commit_reach E cf st0 w0 st w hs P A \<Longrightarrow> UpdateSlave_commit cf ip port start stop st = Some (Inl s, st')
    \<Longrightarrow> commit_reach E cf st0 w0 st' w hs P A"
| reach_apply: "commit_reach E cf st0 w0 st w hs P A \<Longrightarrow> c \<in> set P \<Longrightarrow> UpdateSlave_apply c st = (s, st')
    \<Longrightarrow> commit_reach E cf st0 w0 st' w hs (remove1 c P) A"
| reach_worker: "commit_reach E cf st0 w0 st w hs P A \<Longrightarrow> l \<in> set (sched_logs st)
    \<Longrightarrow> UpdateAppliedIndex E (li_offset l) (cc_context st) w = Some (ctx, w')
    \<Longrightarrow> commit_reach E cf st0 w0 (st\<lparr>cc_context := ctx\<rparr>) w' hs P (insert (log_pos l) A)"
| reach_send: "commit_reach E cf st0 w0 st w hs P A \<Longrightarrow> commit_reach E cf st0 w0 (st\<lparr>cc_sync_pros := sp\<rparr>) w hs P A"
| reach_add: "commit_reach E cf st0 w0 st w hs P A \<Longrightarrow> Coordinator_AddSlaveNode ip port sid now1 now2 st = (s, st')
    \<Longrightarrow> commit_reach E cf st0 w0 st' w hs P A"
| reach_remove: "commit_reach E cf st0 w0 st w hs P A \<Longrightarrow> Coordinator_RemoveSlaveNode ip port st = (s, st')
    \<Longrightarrow> commit_reach E cf st0 w0 st' w hs P A"

text \<open>A coordinator as \<^verbatim>\<open>Init\<close> or \<^verbatim>\<open>Reset\<close> leaves it when every log of the binlog is applied.\<close>

definition coord_start ::
  "('w, 'e) slash_env \<Rightarrow> ('w \<Rightarrow> string \<Rightarrow> bytes option) \<Rightarrow> ('c, 'n, 'h) ConsensusCoordinator \<Rightarrow> 'w \<Rightarrow> bool" where
  "coord_start E fs st w \<longleftrightarrow>
     binlog_ok E fs (cc_binlog st) w \<and> logs_agree st \<and> ml_logs (cc_mem_logger st) = [] \<and> cc_scheduled st = []
     \<and> cx_applied_index (cc_context st) = cc_committed_index st \<and> cx_applied_win (cc_context st) = SyncWindow0
     \<and> context_holds E (cc_context st) w \<and> cx_path (cc_context st) \<noteq> ver_save (bl_version (cc_binlog st))
     \<and> b_offset (cc_committed_index st) \<le> producer (cc_binlog st)"

section \<open>The invariant\<close>

text \<open>
  \<open>covered\<close>: every log in memory at or below the committed index is below an index that some
  thread has still to bring to the scheduler and that is still in the memory log.
\<close>

definition covered :: "('c, 'n, 'h) ConsensusCoordinator \<Rightarrow> LogOffset list \<Rightarrow> bool" where
  "covered st P \<longleftrightarrow> (\<forall>l\<in>set (ml_logs (cc_mem_logger st)). log_pos l \<le> b_offset (cc_committed_index st)
     \<longrightarrow> (\<exists>c\<in>set P. log_pos l \<le> b_offset c \<and> b_offset c \<in> log_pos ` set (ml_logs (cc_mem_logger st))))"

definition log_inv :: "('w, 'e) slash_env \<Rightarrow> ('w \<Rightarrow> string \<Rightarrow> bytes option) \<Rightarrow> LogOffset \<Rightarrow> ('c, 'n, 'h) ConsensusCoordinator \<Rightarrow> 'w \<Rightarrow> bool" where
  "log_inv E fs a0 st w \<longleftrightarrow>
     binlog_ok E fs (cc_binlog st) w \<and> logs_agree st \<and> memlog_ok (cc_mem_logger st)
     \<and> sorted_wrt (<) (map log_pos (history st)) \<and> (\<forall>l\<in>set (history st). b_offset a0 < log_pos l \<and> log_pos l \<le> producer (cc_binlog st))
     \<and> b_offset a0 \<le> producer (cc_binlog st) \<and> b_offset (cc_committed_index st) \<le> producer (cc_binlog st)
     \<and> cx_path (cc_context st) \<noteq> ver_save (bl_version (cc_binlog st))"

definition commit_inv :: "('c, 'n, 'h) ConsensusCoordinator \<Rightarrow> LogOffset list \<Rightarrow> bool" where
  "commit_inv st P \<longleftrightarrow>
     (\<forall>l\<in>set (sched_logs st). log_pos l \<le> b_offset (cc_committed_index st))
     \<and> (\<forall>c\<in>set P. b_offset c \<le> b_offset (cc_committed_index st)) \<and> distinct (map b_offset P) \<and> covered st P"

abbreviation sched_offsets :: "('c, 'n, 'h) ConsensusCoordinator \<Rightarrow> LogOffset list" where
  "sched_offsets st \<equiv> map li_offset (sched_logs st)"

section \<open>The steps\<close>

lemma UpdateSlave_commit_Inr:
  assumes "UpdateSlave_commit cf ip port start stop st = Some (Inr c, st')"
  obtains sp where "SyncProgress_Update (cf_consensus_level cf) ip port start stop LogOffset0 (cc_sync_pros st) = Some (OK, c, sp)"
    and "st' = st\<lparr>cc_sync_pros := sp, cc_committed_index := c\<rparr>" and "b_offset (cc_committed_index st) < b_offset c"
    and "lo_term (l_offset c) = cc_term st" and "cf_consensus_level cf \<noteq> 0"
  using assms
  by (auto simp: UpdateSlave_commit_def InternalUpdateCommittedIndex_def LogOffset_ops Let_def not_le split: option.splits prod.splits if_splits)

lemma UpdateSlave_commit_Inl:
  "UpdateSlave_commit cf ip port start stop st = Some (Inl s, st') \<Longrightarrow> \<exists>sp. st' = st\<lparr>cc_sync_pros := sp\<rparr>"
  by (auto simp: UpdateSlave_commit_def InternalUpdateCommittedIndex_def Let_def split: option.splits prod.splits if_splits)

lemma UpdateSlave_apply_effect:
  assumes "memlog_ok (cc_mem_logger st)" and "UpdateSlave_apply c st = (s, st')"
  obtains logs m where "ml_logs (cc_mem_logger st) = logs @ ml_logs m" and "memlog_ok m"
    and "ml_last_offset m = ml_last_offset (cc_mem_logger st)"
    and "st' = st\<lparr>cc_mem_logger := m, cc_context := fold (\<lambda>l. PrepareUpdateAppliedIndex (li_offset l)) logs (cc_context st),
      cc_scheduled := cc_scheduled st @ map (\<lambda>l. DoExecTask l (cc_table_name st) (cc_partition_id st)) logs\<rparr>"
    and "s = OK" and "if b_offset c \<in> log_pos ` set (ml_logs (cc_mem_logger st))
      then (\<forall>x\<in>set logs. log_pos x \<le> b_offset c) \<and> (\<forall>x\<in>set (ml_logs m). b_offset c < log_pos x) else logs = [] \<and> m = cc_mem_logger st"
proof -
  obtain s1 logs m where pl: "PurgeLogs c (cc_mem_logger st) = (s1, logs, m)" by (cases "PurgeLogs c (cc_mem_logger st)")
  note sp = PurgeLogs_splits [OF assms(1) pl]
  have in_iff: "(\<exists>x\<in>set (ml_logs (cc_mem_logger st)). LogOffset_eq (li_offset x) c) \<longleftrightarrow> b_offset c \<in> log_pos ` set (ml_logs (cc_mem_logger st))"
    by (auto simp: LogOffset_ops log_pos_def image_iff intro: bexI sym)
  have st': "st' = (if s1 = OK then apply_logs InternalApply logs (st\<lparr>cc_mem_logger := m\<rparr>) else st\<lparr>cc_mem_logger := m\<rparr>)" "s = OK"
    using assms(2) by (auto simp: UpdateSlave_apply_def ScheduleApplyLog_def pl Let_def status_simps split: if_splits)
  have "ml_last_offset m = ml_last_offset (cc_mem_logger st)"
    using pl by (auto simp: PurgeLogs_def Let_def split: if_splits)
  moreover have "st' = st\<lparr>cc_mem_logger := m, cc_context := fold (\<lambda>l. PrepareUpdateAppliedIndex (li_offset l)) logs (cc_context st),
      cc_scheduled := cc_scheduled st @ map (\<lambda>l. DoExecTask l (cc_table_name st) (cc_partition_id st)) logs\<rparr>"
    using st'(1) sp by (cases "s1 = OK") (auto simp: apply_logs_eq split: if_splits)
  ultimately show thesis
    using that [of logs m] sp st'(2) unfolding in_iff
    by (auto simp: LogOffset_ops log_pos_def status_simps split: if_splits)
qed

text \<open>The context follows the scheduler.\<close>

lemma ctx_inv_prepare_logs:
  assumes "ctx_inv E a0 c w p A" and "sorted_wrt (<) (map b_offset p @ map log_pos logs)" and "\<forall>l\<in>set logs. b_offset a0 < log_pos l"
  shows "ctx_inv E a0 (fold (\<lambda>l. PrepareUpdateAppliedIndex (li_offset l)) logs c) w (p @ map li_offset logs) A"
  using assms
proof (induction logs arbitrary: c p)
  case (Cons l logs)
  have "ctx_inv E a0 (PrepareUpdateAppliedIndex (li_offset l) c) w (p @ [li_offset l]) A"
    using Cons.prems by (intro ctx_inv_prepare) (auto simp: sorted_wrt_append log_pos_def)
  from Cons.IH [OF this] Cons.prems(2,3) show ?case by (auto simp: sorted_wrt_append log_pos_def)
qed simp

lemma prepare_path: "cx_path (fold (\<lambda>l. PrepareUpdateAppliedIndex (li_offset l)) logs c) = cx_path c"
  by (induction logs arbitrary: c) (simp_all add: PrepareUpdateAppliedIndex_def)

lemma binlog_ok_cong:
  "fs w' = fs w \<Longrightarrow> env_RWData E (ver_save (bl_version b)) w' = env_RWData E (ver_save (bl_version b)) w
   \<Longrightarrow> binlog_ok E fs b w' = binlog_ok E fs b w"
  by (simp add: binlog_ok_def manifest_holds_def)

context slash_fs
begin

lemma Context_StableSave_frame:
  "Context_StableSave E c w = Some (s, w') \<Longrightarrow> fs w' = fs w \<and> (p \<noteq> cx_path c \<longrightarrow> env_RWData E p w' = env_RWData E p w)"
  by (auto simp: Context_StableSave_def Let_def rw_write_fs rw_write_other split: if_splits)

lemma UpdateAppliedIndex_frame:
  assumes "UpdateAppliedIndex E x c w = Some (c', w')"
  shows "fs w' = fs w" and "cx_path c' = cx_path c" and "p \<noteq> cx_path c \<Longrightarrow> env_RWData E p w' = env_RWData E p w"
  using assms by (auto simp: UpdateAppliedIndex_def Let_def dest: Context_StableSave_frame split: prod.splits if_splits)

end

definition coord_inv ::
  "('w, 'e) slash_env \<Rightarrow> ('w \<Rightarrow> string \<Rightarrow> bytes option) \<Rightarrow> LogOffset \<Rightarrow> ('c, 'n, 'h) ConsensusCoordinator \<Rightarrow> 'w
    \<Rightarrow> 'c list \<Rightarrow> LogOffset list \<Rightarrow> BinlogOffset set \<Rightarrow> bool" where
  "coord_inv E fs a0 st w hs P A \<longleftrightarrow>
     log_inv E fs a0 st w \<and> commit_inv st P \<and> ctx_inv E a0 (cc_context st) w (sched_offsets st) A
     \<and> map li_cmd (history st) = hs \<and> b_offset a0 \<le> b_offset (cc_committed_index st)"

lemma coord_inv_start:
  assumes "coord_start E fs st w"
  shows "coord_inv E fs (cc_committed_index st) st w [] [] {}"
  using assms
  by (auto simp: coord_start_def coord_inv_def log_inv_def commit_inv_def covered_def ctx_inv_def history_def sched_logs_def memlog_ok_def
      win_rep_init reported_def cum_acked_def)

lemma coord_inv_propose:
  assumes "slash_fs E fs hpos" and "cf_consensus_level cf \<noteq> 0" and "coord_inv E fs a0 st w hs P A"
    and "ProposeLog E cf cmd conn st w = Some (OK, st', w')"
    and "binlog_room (item_binlog cf cmd (propose_item E (cc_binlog st) w)) (cc_binlog st)"
  shows "coord_inv E fs a0 st' w' (hs @ [cmd]) P A"
proof -
  have li: "binlog_ok E fs (cc_binlog st) w" "logs_agree st" "memlog_ok (cc_mem_logger st)"
    "sorted_wrt (<) (map log_pos (history st))" "\<forall>l\<in>set (history st). b_offset a0 < log_pos l \<and> log_pos l \<le> producer (cc_binlog st)"
    "b_offset a0 \<le> producer (cc_binlog st)" "cx_path (cc_context st) \<noteq> ver_save (bl_version (cc_binlog st))"
    "b_offset (cc_committed_index st) \<le> producer (cc_binlog st)"
    and ci: "commit_inv st P" and cx: "ctx_inv E a0 (cc_context st) w (sched_offsets st) A"
    and hs: "map li_cmd (history st) = hs" "b_offset a0 \<le> b_offset (cc_committed_index st)"
    using assms(3) by (auto simp: coord_inv_def log_inv_def)
  obtain b' off where p: "Binlog_Put E (item_binlog cf cmd (propose_item E (cc_binlog st) w)) (cc_binlog st) w = Some (OK, b', w')"
    and st': "st' = st\<lparr>cc_stable_logger := (cc_stable_logger st)\<lparr>sl_stable_logger := b'\<rparr>,
      cc_mem_logger := AppendLog \<lparr>li_offset = off, li_cmd = cmd, li_conn = conn\<rparr> (cc_mem_logger st)\<rparr>"
    and ef: "b_offset off = producer b'" "producer (cc_binlog st) < producer b'" "binlog_ok E fs b' w'" "logs_agree st'"
      "memlog_ok (cc_mem_logger st')" "cc_binlog st' = b'"
    by (rule ProposeLog_effect [OF assms(1) li(1-3) assms(2,5,4)])
  let ?l = "\<lparr>li_offset = off, li_cmd = cmd, li_conn = conn\<rparr>"
  have lp: "log_pos ?l = producer b'" by (simp add: log_pos_def ef)
  have hist: "history st' = history st @ [?l]" "sched_logs st' = sched_logs st" by (simp_all add: st' history_def sched_logs_def AppendLog_def)
  note fr = slash_fs.Put_frame [OF assms(1) p]
  have new: "\<forall>l\<in>set (history st). log_pos l < producer b'" using li(5) ef(2) by fastforce
  have le: "log_pos l \<le> producer b'" if "l \<in> set (history st)" for l using new that by fastforce
  have a0: "b_offset a0 < producer b'" using li(6) ef(2) by simp
  have com: "b_offset (cc_committed_index st) < producer b'" using li(8) ef(2) by simp
  have "log_inv E fs a0 st' w'"
    unfolding log_inv_def hist ef(6) using li(4,5,7) ef fr(1) new a0 le lp com
    by (auto simp: sorted_wrt_append st')
  moreover have "covered st' P"
    unfolding covered_def
  proof (intro ballI impI)
    fix l assume l: "l \<in> set (ml_logs (cc_mem_logger st'))" "log_pos l \<le> b_offset (cc_committed_index st')"
    then have "l \<in> set (ml_logs (cc_mem_logger st))" using com lp by (auto simp: st' AppendLog_def not_le [symmetric])
    then obtain c where "c \<in> set P" "log_pos l \<le> b_offset c" "b_offset c \<in> log_pos ` set (ml_logs (cc_mem_logger st))"
      using ci l(2) unfolding commit_inv_def covered_def by (auto simp: st')
    then show "\<exists>c\<in>set P. log_pos l \<le> b_offset c \<and> b_offset c \<in> log_pos ` set (ml_logs (cc_mem_logger st'))"
      by (auto simp: st' AppendLog_def)
  qed
  then have "commit_inv st' P" using ci unfolding commit_inv_def hist by (simp add: st')
  moreover have "context_holds E (cc_context st') w'"
    using cx fr(2) [OF li(7)] by (simp add: ctx_inv_def context_holds_def st')
  then have "ctx_inv E a0 (cc_context st') w' (sched_offsets st') A"
    using cx unfolding hist(2) by (simp add: st' ctx_inv_world)
  ultimately show ?thesis using hs by (simp add: coord_inv_def hist) (simp add: st')
qed

text \<open>The steps that only touch the slaves.\<close>

lemma coord_inv_slaves: "coord_inv E fs a0 (st\<lparr>cc_sync_pros := sp\<rparr>) w hs P A = coord_inv E fs a0 st w hs P A"
  by (simp add: coord_inv_def log_inv_def commit_inv_def covered_def history_def sched_logs_def cc_binlog_def logs_agree_def)

lemma history_sched: "l \<in> set (sched_logs st) \<Longrightarrow> l \<in> set (history st)"
  by (simp add: history_def)

lemma coord_inv_commit:
  assumes "coord_inv E fs a0 st w hs P A" and "b_offset (cc_committed_index st) < b_offset c" and "c \<in> li_offset ` set (history st)"
  shows "coord_inv E fs a0 (st\<lparr>cc_committed_index := c\<rparr>) w hs (c # P) A"
proof -
  let ?st = "st\<lparr>cc_committed_index := c\<rparr>"
  have ci: "commit_inv st P" and li: "log_inv E fs a0 st w" using assms(1) by (auto simp: coord_inv_def)
  obtain l where l: "l \<in> set (history st)" "c = li_offset l" using assms(3) by blast
  then have pos: "b_offset c = log_pos l" by (simp add: log_pos_def)
  have "l \<notin> set (sched_logs st)" using ci assms(2) pos unfolding commit_inv_def by fastforce
  then have "l \<in> set (ml_logs (cc_mem_logger st))" using l(1) by (simp add: history_def)
  then have "covered ?st (c # P)" using pos by (auto simp: covered_def)
  moreover have "\<forall>l\<in>set (sched_logs st). log_pos l \<le> b_offset c" "\<forall>d\<in>set P. b_offset d < b_offset c"
    using ci assms(2) unfolding commit_inv_def by fastforce+
  ultimately have "commit_inv ?st (c # P)"
    using ci by (auto simp: commit_inv_def sched_logs_def intro: order_less_imp_le)
  moreover have "log_inv E fs a0 ?st w"
    using li l(1) pos by (auto simp: log_inv_def cc_binlog_def logs_agree_def history_def sched_logs_def)
  moreover have "b_offset a0 \<le> b_offset c" using li l(1) pos by (auto simp: log_inv_def intro: order_less_imp_le)
  ultimately show ?thesis
    using assms(1) by (simp add: coord_inv_def history_def sched_logs_def)
qed

lemma coord_inv_apply:
  assumes "coord_inv E fs a0 st w hs P A" and "c \<in> set P" and "UpdateSlave_apply c st = (s, st')"
  shows "coord_inv E fs a0 st' w hs (remove1 c P) A"
proof -
  have ci: "commit_inv st P" and li: "log_inv E fs a0 st w" and cx: "ctx_inv E a0 (cc_context st) w (sched_offsets st) A"
    using assms(1) by (auto simp: coord_inv_def)
  have mok: "memlog_ok (cc_mem_logger st)" using li by (simp add: log_inv_def)
  obtain logs m where sp: "ml_logs (cc_mem_logger st) = logs @ ml_logs m" "memlog_ok m"
    "ml_last_offset m = ml_last_offset (cc_mem_logger st)"
    and st': "st' = st\<lparr>cc_mem_logger := m, cc_context := fold (\<lambda>l. PrepareUpdateAppliedIndex (li_offset l)) logs (cc_context st),
      cc_scheduled := cc_scheduled st @ map (\<lambda>l. DoExecTask l (cc_table_name st) (cc_partition_id st)) logs\<rparr>"
    and "s = OK" and cut: "if b_offset c \<in> log_pos ` set (ml_logs (cc_mem_logger st))
      then (\<forall>x\<in>set logs. log_pos x \<le> b_offset c) \<and> (\<forall>x\<in>set (ml_logs m). b_offset c < log_pos x) else logs = [] \<and> m = cc_mem_logger st"
    by (rule UpdateSlave_apply_effect [OF mok assms(3)])
  have sl: "sched_logs st' = sched_logs st @ logs" by (simp add: st' sched_logs_def o_def)
  have hist: "history st' = history st" by (simp add: history_def sl) (simp add: st' sp(1))
  have com: "cc_committed_index st' = cc_committed_index st" by (simp add: st')
  have bl: "cc_binlog st' = cc_binlog st" by (simp add: st' cc_binlog_def)
  have cle: "b_offset c \<le> b_offset (cc_committed_index st)" using ci assms(2) by (simp add: commit_inv_def)
  have low: "\<forall>x\<in>set logs. log_pos x \<le> b_offset c" using cut by (auto split: if_splits)
  have "log_inv E fs a0 st' w"
    using li sp(2,3) unfolding log_inv_def hist bl logs_agree_def com by (simp add: st' prepare_path)
  moreover have "distinct P" using ci by (auto simp: commit_inv_def distinct_map)
  have "covered st' (remove1 c P)"
    unfolding covered_def com
  proof (intro ballI impI)
    fix l assume l: "l \<in> set (ml_logs (cc_mem_logger st'))" "log_pos l \<le> b_offset (cc_committed_index st)"
    then have lm: "l \<in> set (ml_logs m)" "l \<in> set (ml_logs (cc_mem_logger st))" by (auto simp: st' sp(1))
    then obtain d where d: "d \<in> set P" "log_pos l \<le> b_offset d" "b_offset d \<in> log_pos ` set (ml_logs (cc_mem_logger st))"
      using ci l(2) unfolding commit_inv_def covered_def by auto
    have dc: "d \<noteq> c \<and> b_offset d \<in> log_pos ` set (ml_logs m)"
    proof (cases "b_offset c \<in> log_pos ` set (ml_logs (cc_mem_logger st))")
      case True
      then have "b_offset c < log_pos l" using cut lm(1) by auto
      then have "b_offset c < b_offset d" using d(2) by simp
      moreover have "b_offset d \<in> log_pos ` set logs \<or> b_offset d \<in> log_pos ` set (ml_logs m)" using d(3) by (auto simp: sp(1))
      ultimately show ?thesis using low by (auto simp: not_le [symmetric])
    next
      case False
      then show ?thesis using cut d(3) by auto
    qed
    then show "\<exists>d\<in>set (remove1 c P). log_pos l \<le> b_offset d \<and> b_offset d \<in> log_pos ` set (ml_logs (cc_mem_logger st'))"
      using d \<open>distinct P\<close> by (intro bexI [of _ d]) (auto simp: st')
  qed
  then have "commit_inv st' (remove1 c P)"
    using ci low cle unfolding commit_inv_def sl com
    by (auto simp: distinct_map intro: inj_on_subset dest: set_remove1_subset [THEN subsetD])
  moreover have "ctx_inv E a0 (cc_context st') w (sched_offsets st') A"
  proof -
    have "sorted_wrt (<) (map log_pos (sched_logs st @ logs @ ml_logs m))" "\<forall>l\<in>set logs. b_offset a0 < log_pos l"
      using li by (auto simp: log_inv_def history_def sp(1))
    moreover have "map b_offset (sched_offsets st) = map log_pos (sched_logs st)" by (simp add: log_pos_def o_def)
    ultimately have "sorted_wrt (<) (map b_offset (sched_offsets st) @ map log_pos logs)"
      by (simp only: map_append sorted_wrt_append) auto
    from ctx_inv_prepare_logs [OF cx this] show ?thesis using \<open>\<forall>l\<in>set logs. b_offset a0 < log_pos l\<close> by (simp add: sl) (simp add: st')
  qed
  ultimately show ?thesis using assms(1) by (simp add: coord_inv_def hist com)
qed

lemma coord_inv_worker:
  assumes "slash_fs E fs hpos" and "coord_inv E fs a0 st w hs P A" and "l \<in> set (sched_logs st)"
    and "UpdateAppliedIndex E (li_offset l) (cc_context st) w = Some (ctx, w')"
  shows "coord_inv E fs a0 (st\<lparr>cc_context := ctx\<rparr>) w' hs P (insert (log_pos l) A)"
proof -
  have li: "log_inv E fs a0 st w" and cx: "ctx_inv E a0 (cc_context st) w (sched_offsets st) A" using assms(2) by (auto simp: coord_inv_def)
  note fr = slash_fs.UpdateAppliedIndex_frame [OF assms(1,4)]
  have "cx_path (cc_context st) \<noteq> ver_save (bl_version (cc_binlog st))" using li by (simp add: log_inv_def)
  then have "binlog_ok E fs (cc_binlog st) w' = binlog_ok E fs (cc_binlog st) w" using fr(1,3) by (intro binlog_ok_cong) auto
  then have "log_inv E fs a0 (st\<lparr>cc_context := ctx\<rparr>) w'"
    using li fr(2) by (simp add: log_inv_def cc_binlog_def logs_agree_def history_def sched_logs_def)
  moreover have "ctx_inv E a0 ctx w' (sched_offsets st) (insert (log_pos l) A)"
    using ctx_inv_update [OF assms(1) cx assms(4)] assms(3) by (simp add: log_pos_def image_image)
  ultimately show ?thesis
    using assms(2) by (simp add: coord_inv_def commit_inv_def covered_def history_def sched_logs_def)
qed

lemma commit_reach_inv:
  assumes "slash_fs E fs hpos" and "cf_consensus_level cf \<noteq> 0" and "coord_start E fs st0 w0"
    and "commit_reach E cf st0 w0 st w hs P A"
  shows "coord_inv E fs (cc_committed_index st0) st w hs P A"
  using assms(4)
proof (induction rule: commit_reach.induct)
  case reach_start
  then show ?case by (rule coord_inv_start [OF assms(3)])
next
  case (reach_propose st w hs P A cmd conn st' w')
  then show ?case by (intro coord_inv_propose [OF assms(1,2)])
next
  case (reach_commit st w hs P A ip port start stop c st')
  obtain sp where sp: "st' = st\<lparr>cc_sync_pros := sp, cc_committed_index := c\<rparr>" "b_offset (cc_committed_index st) < b_offset c"
    using UpdateSlave_commit_Inr [OF reach_commit.hyps(2)] by metis
  have "st' = (st\<lparr>cc_committed_index := c\<rparr>)\<lparr>cc_sync_pros := sp\<rparr>" using sp(1) by simp
  then show ?case using coord_inv_commit [OF reach_commit.IH sp(2) reach_commit.hyps(3)] coord_inv_slaves by metis
next
  case (reach_ack st w hs P A ip port start stop s st')
  then show ?case using UpdateSlave_commit_Inl coord_inv_slaves by metis
next
  case (reach_apply st w hs P A c s st')
  then show ?case by (intro coord_inv_apply)
next
  case (reach_worker st w hs P A l ctx w')
  then show ?case by (intro coord_inv_worker [OF assms(1)])
next
  case (reach_send st w hs P A sp)
  then show ?case by (simp add: coord_inv_slaves)
next
  case (reach_add st w hs P A ip port sid now1 now2 s st')
  then show ?case by (auto simp: Coordinator_AddSlaveNode_def coord_inv_slaves Let_def split: prod.splits if_splits)
next
  case (reach_remove st w hs P A ip port s st')
  then show ?case by (auto simp: Coordinator_RemoveSlaveNode_def coord_inv_slaves Let_def split: prod.splits if_splits)
qed

section \<open>In order, once, committed, complete\<close>

lemma commit_order:
  assumes "coord_inv E fs a0 st w hs P A"
  shows "map li_cmd (history st) = hs \<and> sorted_wrt (<) (map log_pos (history st))
    \<and> (\<forall>l\<in>set (sched_logs st). log_pos l \<le> b_offset (cc_committed_index st))
    \<and> (P = [] \<longrightarrow> (\<forall>l\<in>set (ml_logs (cc_mem_logger st)). b_offset (cc_committed_index st) < log_pos l))
    \<and> b_offset (cx_applied_index (cc_context st)) \<le> b_offset (cc_committed_index st)
    \<and> (\<forall>l\<in>set (history st). log_pos l \<le> b_offset (cx_applied_index (cc_context st)) \<longrightarrow> l \<in> set (sched_logs st) \<and> log_pos l \<in> A)"
proof -
  have li: "log_inv E fs a0 st w" and ci: "commit_inv st P" and cx: "ctx_inv E a0 (cc_context st) w (sched_offsets st) A"
    and a0: "b_offset a0 \<le> b_offset (cc_committed_index st)" using assms by (auto simp: coord_inv_def)
  let ?a = "cx_applied_index (cc_context st)"
  have "?a = reported a0 (sched_offsets st) A" using cx by (simp add: ctx_inv_def)
  moreover have "reported a0 (sched_offsets st) A = a0 \<or> reported a0 (sched_offsets st) A \<in> set (sched_offsets st)"
    using cum_acked_subset last_in_set by (fastforce simp: reported_def)
  ultimately have app: "?a = a0 \<or> ?a \<in> set (sched_offsets st)" by simp
  have sorted: "\<forall>l\<in>set (ml_logs (cc_mem_logger st)). \<forall>k\<in>set (sched_logs st). log_pos k < log_pos l"
    "\<forall>l\<in>set (ml_logs (cc_mem_logger st)). b_offset a0 < log_pos l"
    using li by (auto simp: log_inv_def history_def sorted_wrt_append)
  have "l \<in> set (sched_logs st) \<and> log_pos l \<in> A" if l: "l \<in> set (history st)" "log_pos l \<le> b_offset ?a" for l
  proof -
    have "b_offset ?a < log_pos l" if "l \<in> set (ml_logs (cc_mem_logger st))" using app sorted that by (auto simp: log_pos_def)
    then have "l \<in> set (sched_logs st)" using l by (auto simp: history_def)
    then show ?thesis using ctx_inv_below [OF cx, of "li_offset l"] l(2) by (auto simp: log_pos_def)
  qed
  moreover have "b_offset ?a \<le> b_offset (cc_committed_index st)"
    using app a0 ci by (auto simp: commit_inv_def log_pos_def)
  moreover have "b_offset (cc_committed_index st) < log_pos l" if "P = []" "l \<in> set (ml_logs (cc_mem_logger st))" for l
    using ci that by (auto simp: commit_inv_def covered_def not_le [symmetric])
  moreover have "sorted_wrt (<) (map log_pos (history st))" using li by (simp add: log_inv_def)
  ultimately show ?thesis using assms ci by (simp add: coord_inv_def commit_inv_def)
qed

text \<open>
  C14: However proposing, acknowledging, scheduling and applying interleave, the logs handed to the
  workers followed by those in memory are exactly the proposed commands in the order of the log: none
  is lost, repeated or overtaken. Only committed logs are handed out. Once no thread stands between
  its commit and its scheduling, every committed log has been handed out. The applied index never
  passes the committed index, and every log at or below it was handed out and has been applied.
\<close>

theorem commit_applies_in_order:
  assumes "slash_fs E fs hpos" and "cf_consensus_level cf \<noteq> 0" and "coord_start E fs st0 w0"
    and "commit_reach E cf st0 w0 st w hs P A"
  shows "map li_cmd (history st) = hs \<and> sorted_wrt (<) (map log_pos (history st))
    \<and> (\<forall>l\<in>set (sched_logs st). log_pos l \<le> b_offset (cc_committed_index st))
    \<and> (P = [] \<longrightarrow> (\<forall>l\<in>set (ml_logs (cc_mem_logger st)). b_offset (cc_committed_index st) < log_pos l))
    \<and> b_offset (cx_applied_index (cc_context st)) \<le> b_offset (cc_committed_index st)
    \<and> (\<forall>l\<in>set (history st). log_pos l \<le> b_offset (cx_applied_index (cc_context st)) \<longrightarrow> l \<in> set (sched_logs st) \<and> log_pos l \<in> A)"
  by (rule commit_order [OF commit_reach_inv [OF assms]])

text \<open>A run: a command is proposed, sent, acknowledged by the only slave, and scheduled.\<close>

definition sent_progress :: "LogOffset \<Rightarrow> (string \<times> nat) SyncProgress" where
  "sent_progress off = \<lparr>sp_slaves = [(slave_key ''h'' 9221, (SlaveNode_new ''h'' 9221 ''db0'' 0 1)\<lparr>sn_slave_state := kSlaveBinlogSync,
       sn_sync_win := SyncWindow_Push (SyncWinItem_new off 37) SyncWindow0\<rparr>)],
     sp_match_index = [(slave_key ''h'' 9221, LogOffset0)]\<rparr>"

lemma coord_start_wit: "coord_start mem_env mw_files wit_coord coord_world"
  using coord_binlog_ok coord_agree
  by (simp add: coord_start_def)
    (simp add: coord_simps wit_simps wit_ctx_def context_holds_def producer_def BinlogOffset0_le)

lemma sent_update:
  assumes "b_offset off \<noteq> BinlogOffset0"
  shows "\<exists>sp'. SyncProgress_Update 1 ''h'' 9221 off off LogOffset0 (sent_progress off) = Some (OK, off, sp')"
proof -
  have "\<exists>sn' :: (string \<times> nat) SlaveNode. SlaveNode_Update off off LogOffset0 ((SlaveNode_new ''h'' 9221 ''db0'' 0 1)\<lparr>sn_slave_state := kSlaveBinlogSync,
       sn_sync_win := SyncWindow_Push (SyncWinItem_new off 37) SyncWindow0\<rparr>) = (OK, off, sn')"
    using assms by (simp add: SlaveNode_Update_def SlaveNode_new_def window_eval LogOffset_ops)
  then show ?thesis
    by (auto simp: SyncProgress_Update_def GetSlaveNode_def GetAllMatchIndex_def InternalCalCommittedIndex_def sent_progress_def Let_def)
qed

theorem commit_applies_in_order_witness:
  "\<exists>st w. commit_reach mem_env wit_conf wit_coord coord_world st w [''abc''] [] {} \<and> map li_cmd (sched_logs st) = [''abc'']
    \<and> ml_logs (cc_mem_logger st) = [] \<and> map li_cmd (history st) = [''abc'']"
proof -
  have lvl: "cf_consensus_level wit_conf \<noteq> 0" by (simp add: wit_conf_def)
  obtain st1 w1 where p: "ProposeLog mem_env wit_conf ''abc'' None wit_coord coord_world = Some (OK, st1, w1)"
    using coord_append ProposeLog_append [OF coord_binlog_ok] by metis
  obtain b' off where st1: "st1 = wit_coord\<lparr>cc_stable_logger := (cc_stable_logger wit_coord)\<lparr>sl_stable_logger := b'\<rparr>,
      cc_mem_logger := AppendLog \<lparr>li_offset = off, li_cmd = ''abc'', li_conn = None\<rparr> (cc_mem_logger wit_coord)\<rparr>"
    and off: "b_offset off = producer b'" "producer (cc_binlog wit_coord) < producer b'"
      "l_offset off = \<lparr>lo_term = ver_term (bl_version (cc_binlog wit_coord)), lo_index = index_of (ml_last_offset (cc_mem_logger wit_coord)) + 1\<rparr>"
    using ProposeLog_effect [OF mem.slash_fs_axioms coord_binlog_ok coord_agree lvl coord_room p] by blast
  have r1: "commit_reach mem_env wit_conf wit_coord coord_world st1 w1 [''abc''] [] {}"
    using reach_propose [OF reach_start p coord_room] by simp
  have gt: "BinlogOffset0 < b_offset off" using off(1,2) by (simp add: coord_simps wit_simps producer_def BinlogOffset0_def)
  let ?st2 = "st1\<lparr>cc_sync_pros := sent_progress off\<rparr>"
  obtain sp' where "SyncProgress_Update 1 ''h'' 9221 off off LogOffset0 (sent_progress off) = Some (OK, off, sp')"
    using sent_update gt by fastforce
  then have c: "UpdateSlave_commit wit_conf ''h'' 9221 off off ?st2 = Some (Inr off, ?st2\<lparr>cc_sync_pros := sp', cc_committed_index := off\<rparr>)"
    using gt [unfolded not_le [symmetric]] off(3) by (simp add: UpdateSlave_commit_def InternalUpdateCommittedIndex_def LogOffset_ops st1 coord_simps wit_simps Let_def)
  let ?st3 = "?st2\<lparr>cc_sync_pros := sp', cc_committed_index := off\<rparr>"
  have r3: "commit_reach mem_env wit_conf wit_coord coord_world ?st3 w1 [''abc''] [off] {}"
    by (rule reach_commit [OF reach_send [OF r1] c]) (simp add: history_def st1 AppendLog_def)
  obtain s st4 where a: "UpdateSlave_apply off ?st3 = (s, st4)" by (cases "UpdateSlave_apply off ?st3")
  have r4: "commit_reach mem_env wit_conf wit_coord coord_world st4 w1 [''abc''] [] {}"
    using reach_apply [OF r3 _ a] by simp
  have "map li_cmd (sched_logs st4) = [''abc'']" "ml_logs (cc_mem_logger st4) = []"
    using a by (auto simp: UpdateSlave_apply_def ScheduleApplyLog_def PurgeLogs_def st1 AppendLog_def wit_coord_def LogOffset_ops sched_logs_def InternalApply_def)
  with r4 commit_applies_in_order [OF mem.slash_fs_axioms lvl coord_start_wit r4] show ?thesis
    by (intro exI [of _ st4] exI [of _ w1]) simp
qed

section \<open>The quorum\<close>

text \<open>
  C19: \<^verbatim>\<open>UpdateSlave\<close> never moves the committed index back. When it moves it, the new index belongs to
  the current term, and as many slaves as the consensus level asks for have acknowledged it.
\<close>

theorem update_slave_commits_quorum:
  assumes "UpdateSlave cf ip port start stop st = Some (s, st')" and "0 \<le> cf_consensus_level cf"
  shows "b_offset (cc_committed_index st) \<le> b_offset (cc_committed_index st')
    \<and> (cc_committed_index st' \<noteq> cc_committed_index st \<longrightarrow>
         lo_term (l_offset (cc_committed_index st')) = cc_term st
         \<and> nat (cf_consensus_level cf) \<le> reached (b_offset (cc_committed_index st')) (sp_match_index (cc_sync_pros st')))"
proof -
  from assms(1) obtain r st1 where u: "UpdateSlave_commit cf ip port start stop st = Some (r, st1)"
    and st': "case r of Inl s' \<Rightarrow> st' = st1 | Inr c \<Rightarrow> UpdateSlave_apply c st1 = (s, st')"
    by (auto simp: UpdateSlave_def split: option.splits sum.splits prod.splits)
  show ?thesis
  proof (cases r)
    case (Inl s')
    then show ?thesis using UpdateSlave_commit_Inl u st' by fastforce
  next
    case (Inr c)
    with u obtain sp where sp: "SyncProgress_Update (cf_consensus_level cf) ip port start stop LogOffset0 (cc_sync_pros st) = Some (OK, c, sp)"
      "st1 = st\<lparr>cc_sync_pros := sp, cc_committed_index := c\<rparr>" "b_offset (cc_committed_index st) < b_offset c"
      "lo_term (l_offset c) = cc_term st" "cf_consensus_level cf \<noteq> 0"
      using UpdateSlave_commit_Inr by metis
    have cal: "InternalCalCommittedIndex (cf_consensus_level cf) (sp_match_index sp) = Some c"
      using sp(1) by (auto simp: SyncProgress_Update_def GetAllMatchIndex_def Let_def split: option.splits prod.splits if_splits)
    have "c \<noteq> LogOffset0" using sp(3) by (auto simp: not_le [symmetric])
    then have "cf_consensus_level cf \<le> int (length (sp_match_index sp))"
      using cal sp(5) by (auto simp: InternalCalCommittedIndex_def split: if_splits)
    then have "nat (cf_consensus_level cf) \<le> reached (b_offset c) (sp_match_index sp)"
      using cal_committed [of "cf_consensus_level cf" "sp_match_index sp"] cal sp(5) assms(2) by auto
    moreover have "cc_committed_index st' = c" "cc_sync_pros st' = sp"
      using st' sp(2) unfolding Inr
      by (auto simp: UpdateSlave_apply_def ScheduleApplyLog_def apply_logs_eq Let_def split: prod.splits if_splits)
    ultimately show ?thesis using sp(3,4) by (simp add: order_less_imp_le)
  qed
qed

theorem update_slave_commits_quorum_witness:
  "\<exists>s st'. UpdateSlave wit_conf ''h'' 9221 (wit_off 1) (wit_off 1)
      (wit_coord\<lparr>cc_sync_pros := sent_progress (wit_off 1), cc_term := 1\<rparr>) = Some (s, st')
    \<and> 1 \<le> reached (b_offset (wit_off 1)) (sp_match_index (cc_sync_pros st'))"
proof -
  let ?st = "wit_coord\<lparr>cc_sync_pros := sent_progress (wit_off 1), cc_term := 1\<rparr>"
  obtain sp' where "SyncProgress_Update 1 ''h'' 9221 (wit_off 1) (wit_off 1) LogOffset0 (sent_progress (wit_off 1)) = Some (OK, wit_off 1, sp')"
    using sent_update [of "wit_off 1"] by (auto simp: wit_off_def BinlogOffset0_def)
  moreover have "\<not> BinlogOffset 0 100 \<le> BinlogOffset 0 0" by (simp add: not_le less_BinlogOffset_iff)
  ultimately have "\<exists>s st'. UpdateSlave wit_conf ''h'' 9221 (wit_off 1) (wit_off 1) ?st = Some (s, st') \<and> cc_committed_index st' = wit_off 1"
    by (simp add: UpdateSlave_def UpdateSlave_commit_def InternalUpdateCommittedIndex_def LogOffset_ops coord_simps wit_off_def BinlogOffset0_def
        Let_def UpdateSlave_apply_def ScheduleApplyLog_def PurgeLogs_def status_simps)
  then obtain s st' where u: "UpdateSlave wit_conf ''h'' 9221 (wit_off 1) (wit_off 1) ?st = Some (s, st')" "cc_committed_index st' = wit_off 1" by blast
  have "cc_committed_index st' \<noteq> cc_committed_index ?st" using u(2) by (simp add: wit_coord_def wit_off_def LogOffset0_def BinlogOffset0_def)
  with update_slave_commits_quorum [OF u(1)] u show ?thesis by (auto simp: wit_conf_def)
qed

end
