(* ===== verification/Pika_Negotiate.thy ===== *)
theory Pika_Negotiate
  imports Pika_Consensus
begin

text \<open>
  The negotiation of \<^verbatim>\<open>ConsensusCoordinator\<close> (\<^verbatim>\<open>src/pika_consensus.cc\<close>): before a follower gets logs from
  a new leader the two look for the last log they share. The leader searches its binlog by logic
  index; the follower cuts its log back, never below what is committed.
\<close>

section \<open>Reading offsets from the binlog\<close>

text \<open>The overload with one result, \<^verbatim>\<open>*log_offset\<close> given with its value before the call.\<close>

definition GetBinlogOffset1 ::
  "('w, 'e) slash_env \<Rightarrow> slash_coding \<Rightarrow> BinlogOffset \<Rightarrow> LogOffset \<Rightarrow> Binlog \<Rightarrow> 'w \<Rightarrow> (Status \<times> LogOffset) option" where
  "GetBinlogOffset1 E C start_offset log_offset b w =
     (case Seek E b (bo_filenum start_offset) (bo_offset start_offset) PikaBinlogReader_new0 w of
        None \<Rightarrow> None
      | Some (res, r) \<Rightarrow>
          if res \<noteq> 0 then Some (Corruption ''Binlog reader init failed'', log_offset)
          else case Get E b [] 0 0 r w of
                 None \<Rightarrow> None
               | Some (s, binlog, filenum, offset, r) \<Rightarrow>
                   if \<not> ok s then Some (Corruption ''Binlog reader get failed'', log_offset)
                   else case BinlogItemWithoutContentDecode C TypeFirst binlog BinlogItem0 of
                          (res, item) \<Rightarrow>
                            if \<not> res then Some (Corruption ''Binlog item decode failed'', log_offset)
                            else Some (OK, \<lparr>b_offset = BinlogOffset filenum offset,
                                            l_offset = \<lparr>lo_term = bi_term_id item, lo_index = bi_logic_id item\<rparr>\<rparr>))"

text \<open>The overload for a range; \<open>offsets\<close> is the vector filled so far.\<close>

partial_function (option) range_loop ::
  "('w, 'e) slash_env \<Rightarrow> slash_coding \<Rightarrow> BinlogOffset \<Rightarrow> LogOffset list \<Rightarrow> Binlog \<Rightarrow> 'e PikaBinlogReader \<Rightarrow> 'w
    \<Rightarrow> (Status \<times> LogOffset list) option" where
  [code]: "range_loop E C end_offset offsets b r w =
     (case Get E b [] 0 0 r w of
        None \<Rightarrow> None
      | Some (s, binlog, filenum, off, r) \<Rightarrow>
          if IsEndFile s then Some (OK, offsets)
          else if IsCorruption s \<or> IsIOError s then Some (Corruption ''Read Binlog error'', offsets)
          else case BinlogItemWithoutContentDecode C TypeFirst binlog BinlogItem0 of
                 (res, item) \<Rightarrow>
                   if \<not> res then Some (Corruption ''Binlog item decode failed'', offsets)
                   else if BinlogOffset_gt (BinlogOffset filenum off) end_offset then Some (OK, offsets)
                   else range_loop E C end_offset
                          (offsets @ [\<lparr>b_offset = BinlogOffset filenum off,
                                       l_offset = \<lparr>lo_term = bi_term_id item, lo_index = bi_logic_id item\<rparr>\<rparr>]) b r w)"

definition GetBinlogOffset ::
  "('w, 'e) slash_env \<Rightarrow> slash_coding \<Rightarrow> BinlogOffset \<Rightarrow> BinlogOffset \<Rightarrow> LogOffset list \<Rightarrow> Binlog \<Rightarrow> 'w
    \<Rightarrow> (Status \<times> LogOffset list) option" where
  "GetBinlogOffset E C start_offset end_offset offsets b w =
     (case Seek E b (bo_filenum start_offset) (bo_offset start_offset) PikaBinlogReader_new0 w of
        None \<Rightarrow> None
      | Some (res, r) \<Rightarrow>
          if res \<noteq> 0 then Some (Corruption ''Binlog reader init failed'', offsets)
          else range_loop E C end_offset offsets b r w)"

section \<open>Searching by logic index\<close>

text \<open>The loop of \<^verbatim>\<open>FindBinlogFileNum\<close>: a status, and the file number when it is OK.\<close>

partial_function (option) find_file_loop ::
  "('w, 'e) slash_env \<Rightarrow> slash_coding \<Rightarrow> u64 \<Rightarrow> u32 \<Rightarrow> u32 \<Rightarrow> bool \<Rightarrow> bool \<Rightarrow> u32 \<Rightarrow> Binlog \<Rightarrow> 'w \<Rightarrow> (Status \<times> u32) option" where
  [code]: "find_file_loop E C target_index lb hb first_time_left first_time_right filenum b w =
     (case GetBinlogOffset1 E C (BinlogOffset filenum 0) LogOffset0 b w of
        None \<Rightarrow> None
      | Some (s, first_offset) \<Rightarrow>
          if \<not> ok s then Some (s, filenum)
          else if target_index < lo_index (l_offset first_offset) then
            (if first_time_right then Some (OK, filenum - 1)
             else if filenum = 0 \<or> filenum - 1 < lb
             then Some (NotFound (dec_string (uint target_index) @ '' hit low boundary''), filenum)
             else find_file_loop E C target_index lb hb True first_time_right (filenum - 1) b w)
          else if target_index > lo_index (l_offset first_offset) then
            (if first_time_left then Some (OK, filenum)
             else if filenum + 1 > hb then Some (OK, filenum)
             else find_file_loop E C target_index lb hb first_time_left True (filenum + 1) b w)
          else Some (OK, filenum))"

definition FindBinlogFileNum ::
  "('w, 'e) slash_env \<Rightarrow> slash_coding \<Rightarrow> (u32 \<times> string) list \<Rightarrow> u64 \<Rightarrow> u32 \<Rightarrow> Binlog \<Rightarrow> 'w \<Rightarrow> (Status \<times> u32) option" where
  "FindBinlogFileNum E C binlogs target_index start_filenum b w =
     (if binlogs = [] then None
      else find_file_loop E C target_index (fst (hd binlogs)) (fst (last binlogs)) False False start_filenum b w)"

fun find_offset :: "u64 \<Rightarrow> LogOffset list \<Rightarrow> LogOffset option" where
  "find_offset target_index [] = None"
| "find_offset target_index (x # xs) = (if lo_index (l_offset x) = target_index then Some x else find_offset target_index xs)"

definition FindLogicOffsetBySearchingBinlog ::
  "('w, 'e) slash_env \<Rightarrow> slash_coding \<Rightarrow> (string \<Rightarrow> int option) \<Rightarrow> BinlogOffset \<Rightarrow> u64 \<Rightarrow> LogOffset \<Rightarrow> StableLog \<Rightarrow> 'w
    \<Rightarrow> (Status \<times> LogOffset) option" where
  "FindLogicOffsetBySearchingBinlog E C string2l hint_offset target_index found_offset sl w =
     (case GetBinlogFiles E string2l (sl_log_path sl) w of
        None \<Rightarrow> Some (Corruption ''Get binlog files failed'', found_offset)
      | Some binlogs \<Rightarrow>
          if binlogs = [] then Some (NotFound ''Binlogs is empty'', found_offset)
          else let start_offset = (if bo_filenum hint_offset \<notin> fst ` set binlogs
                                   then BinlogOffset (fst (last binlogs)) 0 else hint_offset)
               in case FindBinlogFileNum E C binlogs target_index (bo_filenum start_offset) (sl_stable_logger sl) w of
                    None \<Rightarrow> None
                  | Some (s, found_filenum) \<Rightarrow>
                      if \<not> ok s then Some (s, found_offset)
                      else case GetBinlogOffset E C (BinlogOffset found_filenum 0) (BinlogOffset (found_filenum + 1) 0) []
                                  (sl_stable_logger sl) w of
                             None \<Rightarrow> None
                           | Some (s, offsets) \<Rightarrow>
                               if \<not> ok s then Some (s, found_offset)
                               else case find_offset target_index offsets of
                                      Some offset \<Rightarrow> Some (OK, offset)
                                    | None \<Rightarrow> Some (NotFound ''Logic index not found'', found_offset))"

definition FindLogicOffset ::
  "('w, 'e) slash_env \<Rightarrow> slash_coding \<Rightarrow> (string \<Rightarrow> int option) \<Rightarrow> BinlogOffset \<Rightarrow> u64 \<Rightarrow> LogOffset \<Rightarrow> StableLog \<Rightarrow> 'w
    \<Rightarrow> (Status \<times> LogOffset) option" where
  "FindLogicOffset E C string2l start_offset target_index found_offset sl w =
     (case GetBinlogOffset1 E C start_offset LogOffset0 (sl_stable_logger sl) w of
        None \<Rightarrow> None
      | Some (s, possible_offset) \<Rightarrow>
          if \<not> ok s \<or> lo_index (l_offset possible_offset) \<noteq> target_index
          then FindLogicOffsetBySearchingBinlog E C string2l start_offset target_index found_offset sl w
          else Some (OK, possible_offset))"

definition GetLogsBefore ::
  "('w, 'e) slash_env \<Rightarrow> slash_coding \<Rightarrow> (string \<Rightarrow> int option) \<Rightarrow> BinlogOffset \<Rightarrow> LogOffset list \<Rightarrow> StableLog \<Rightarrow> 'w
    \<Rightarrow> (Status \<times> LogOffset list) option" where
  "GetLogsBefore E C string2l start_offset hints sl w =
     (let traversal_end = start_offset;
          start_filenum = (if bo_filenum traversal_end = 0 then 0 else bo_filenum traversal_end - 1)
      in case GetBinlogFiles E string2l (sl_log_path sl) w of
           None \<Rightarrow> Some (Corruption ''Get binlog files failed'', hints)
         | Some binlogs \<Rightarrow>
             let start_filenum = (if start_filenum \<notin> fst ` set binlogs then bo_filenum traversal_end else start_filenum)
             in case GetBinlogOffset E C (BinlogOffset start_filenum 0) traversal_end [] (sl_stable_logger sl) w of
                  None \<Rightarrow> None
                | Some (s, res) \<Rightarrow>
                    if \<not> ok s then Some (s, hints)
                    else let res = (if length res > 100 then drop (length res - 100) res else res)
                         in Some (OK, res))"

section \<open>The leader\<close>

text \<open>The result is the status, \<^verbatim>\<open>*reject\<close> and \<^verbatim>\<open>*hints\<close>.\<close>

definition LeaderNegotiate ::
  "('w, 'e) slash_env \<Rightarrow> slash_coding \<Rightarrow> 'c coord_conf \<Rightarrow> LogOffset \<Rightarrow> LogOffset list \<Rightarrow> ('c, 'n, 'h) ConsensusCoordinator \<Rightarrow> 'w
    \<Rightarrow> (Status \<times> bool \<times> LogOffset list) option" where
  "LeaderNegotiate E C cf f_last_offset hints st w =
     (let f_index = lo_index (l_offset f_last_offset);
          last_offset = ml_last_offset (cc_mem_logger st);
          logs_before = (\<lambda>off. case GetLogsBefore E C (cf_string2l cf) off hints (cc_stable_logger st) w of
                                 None \<Rightarrow> None
                               | Some (s, hints) \<Rightarrow> if \<not> ok s then Some (s, True, hints) else Some (OK, True, hints))
      in if f_index > lo_index (l_offset last_offset) then logs_before (b_offset last_offset)
         else if f_index < lo_index (l_offset (sl_first_offset (cc_stable_logger st))) then Some (NotFound ''logic index'', True, hints)
         else if lo_index (l_offset f_last_offset) = 0 then Some (OK, False, hints)
         else case FindLogicOffset E C (cf_string2l cf) (b_offset f_last_offset) f_index LogOffset0 (cc_stable_logger st) w of
                None \<Rightarrow> None
              | Some (s, found_offset) \<Rightarrow>
                  if \<not> ok s then Some (s, True, hints)
                  else if lo_term (l_offset found_offset) \<noteq> lo_term (l_offset f_last_offset)
                    \<or> \<not> BinlogOffset_eq (b_offset f_last_offset) (b_offset found_offset)
                  then logs_before (b_offset found_offset)
                  else Some (OK, False, hints))"

section \<open>The follower\<close>

definition Coordinator_TruncateTo ::
  "('w, 'e) slash_env \<Rightarrow> slash_coding \<Rightarrow> 'c coord_conf \<Rightarrow> LogOffset \<Rightarrow> ('c, 'n, 'h) ConsensusCoordinator \<Rightarrow> 'w
    \<Rightarrow> (Status \<times> ('c, 'n, 'h) ConsensusCoordinator \<times> 'w) option" where
  "Coordinator_TruncateTo E C cf offset st w =
     (case FindLogicOffset E C (cf_string2l cf) (b_offset offset) (lo_index (l_offset offset)) LogOffset0 (cc_stable_logger st) w of
        None \<Rightarrow> None
      | Some (s, founded_offset) \<Rightarrow>
          if \<not> ok s then Some (s, st, w)
          else let committed = cc_committed_index st;
                   (s, m) = (if lo_index (l_offset founded_offset) = lo_index (l_offset committed)
                             then (OK, MemLog_Reset committed (cc_mem_logger st))
                             else MemLog_TruncateTo founded_offset (cc_mem_logger st));
                   st = st\<lparr>cc_mem_logger := m\<rparr>
               in if \<not> ok s then Some (s, st, w)
                  else case StableLog_TruncateTo E (cf_string2l cf) founded_offset (cc_stable_logger st) w of
                         None \<Rightarrow> None
                       | Some (s, sl, w) \<Rightarrow> Some (if \<not> ok s then s else OK, st\<lparr>cc_stable_logger := sl\<rparr>, w))"

text \<open>A truncation with the reply that follows it; the reply is \<^verbatim>\<open>*reply_offset\<close>.\<close>

definition truncate_reply ::
  "('w, 'e) slash_env \<Rightarrow> slash_coding \<Rightarrow> 'c coord_conf \<Rightarrow> LogOffset \<Rightarrow> LogOffset \<Rightarrow> ('c, 'n, 'h) ConsensusCoordinator \<Rightarrow> 'w
    \<Rightarrow> (Status \<times> LogOffset \<times> ('c, 'n, 'h) ConsensusCoordinator \<times> 'w) option" where
  "truncate_reply E C cf offset reply_offset st w =
     (case Coordinator_TruncateTo E C cf offset st w of
        None \<Rightarrow> None
      | Some (s, st, w) \<Rightarrow>
          if \<not> ok s then Some (s, reply_offset, st, w) else Some (OK, ml_last_offset (cc_mem_logger st), st, w))"

text \<open>The loop over the hints from the last to the first; \<open>first_hint\<close> is where it truncates when none matches.\<close>

fun follower_loop ::
  "('w, 'e) slash_env \<Rightarrow> slash_coding \<Rightarrow> 'c coord_conf \<Rightarrow> LogOffset \<Rightarrow> LogOffset \<Rightarrow> LogOffset list \<Rightarrow> LogOffset
    \<Rightarrow> ('c, 'n, 'h) ConsensusCoordinator \<Rightarrow> 'w \<Rightarrow> (Status \<times> LogOffset \<times> ('c, 'n, 'h) ConsensusCoordinator \<times> 'w) option" where
  "follower_loop E C cf committed first_hint [] reply_offset st w = truncate_reply E C cf first_hint reply_offset st w"
| "follower_loop E C cf committed first_hint (hint # hints) reply_offset st w =
     (if lo_index (l_offset hint) < lo_index (l_offset committed)
      then Some (Corruption ''hints less than committed index'', reply_offset, st, w)
      else if lo_index (l_offset hint) = lo_index (l_offset committed) \<and> lo_term (l_offset hint) = lo_term (l_offset committed)
      then truncate_reply E C cf hint reply_offset st w
      else case FindLogItem hint (cc_mem_logger st) of
             None \<Rightarrow> Some (Corruption (''hints not found '' @ LogOffset_ToString hint), reply_offset, st, w)
           | Some found_offset \<Rightarrow>
               if lo_term (l_offset found_offset) = lo_term (l_offset hint)
               then truncate_reply E C cf found_offset reply_offset st w
               else follower_loop E C cf committed first_hint hints reply_offset st w)"

definition FollowerNegotiate ::
  "('w, 'e) slash_env \<Rightarrow> slash_coding \<Rightarrow> 'c coord_conf \<Rightarrow> LogOffset list \<Rightarrow> LogOffset \<Rightarrow> ('c, 'n, 'h) ConsensusCoordinator \<Rightarrow> 'w
    \<Rightarrow> (Status \<times> LogOffset \<times> ('c, 'n, 'h) ConsensusCoordinator \<times> 'w) option" where
  "FollowerNegotiate E C cf hints reply_offset st w =
     (case hints of
        [] \<Rightarrow> Some (Corruption ''hints empty'', reply_offset, st, w)
      | first_hint # _ \<Rightarrow>
          let last_hint = last hints; last_index = lo_index (l_offset (ml_last_offset (cc_mem_logger st)))
          in if last_index < lo_index (l_offset first_hint) then Some (OK, ml_last_offset (cc_mem_logger st), st, w)
             else if lo_index (l_offset (cc_committed_index st)) > lo_index (l_offset last_hint)
             then Some (Corruption ''invalid hints all smaller than committed_index'', reply_offset, st, w)
             else case (if last_index > lo_index (l_offset last_hint) then Coordinator_TruncateTo E C cf last_hint st w
                        else Some (OK, st, w)) of
                    None \<Rightarrow> None
                  | Some (s, st, w) \<Rightarrow>
                      if \<not> ok s then Some (s, reply_offset, st, w)
                      else follower_loop E C cf (cc_committed_index st) first_hint (rev hints) reply_offset st w)"

section \<open>Finding the file of an index\<close>

text \<open>
  The first logic index of each file from \<open>lb\<close> to \<open>hb\<close>, as the search reads it, grows with the
  number of the file.
\<close>

definition file_indexes :: "('w, 'e) slash_env \<Rightarrow> slash_coding \<Rightarrow> Binlog \<Rightarrow> 'w \<Rightarrow> u32 \<Rightarrow> u32 \<Rightarrow> (u32 \<Rightarrow> u64) \<Rightarrow> bool" where
  "file_indexes E C b w lb hb first \<longleftrightarrow>
     (\<forall>f. lb \<le> f \<and> f \<le> hb \<longrightarrow> (\<exists>off. GetBinlogOffset1 E C (BinlogOffset f 0) LogOffset0 b w = Some (OK, off)
        \<and> lo_index (l_offset off) = first f))
     \<and> (\<forall>f g. lb \<le> f \<and> f < g \<and> g \<le> hb \<longrightarrow> first f < first g)"

text \<open>The file the search is to find: the last one that does not begin behind the target.\<close>

definition found_file :: "(u32 \<Rightarrow> u64) \<Rightarrow> u32 \<Rightarrow> u32 \<Rightarrow> u64 \<Rightarrow> (Status \<times> u32) option \<Rightarrow> bool" where
  "found_file first lb hb target r \<longleftrightarrow>
     (if target < first lb then \<exists>m f. r = Some (NotFound m, f)
      else \<exists>f. r = Some (OK, f) \<and> lb \<le> f \<and> f \<le> hb \<and> first f \<le> target \<and> (f = hb \<or> target < first (f + 1)))"

lemma u32_pred: "(f :: u32) \<noteq> 0 \<Longrightarrow> unat (f - 1) = unat f - 1"
  by (simp add: unat_minus_one)

lemma u32_pred_less: "(f :: u32) \<noteq> 0 \<Longrightarrow> f - 1 < f"
  by (simp add: word_less_nat_alt u32_pred unat_gt_0 del: unat_minus_one)

lemma u32_less_pred: "(lb :: u32) < f \<Longrightarrow> f \<noteq> 0 \<and> lb \<le> f - 1 \<and> f - 1 < f"
proof -
  assume a: "lb < f"
  then have "f \<noteq> 0" by (auto simp: word_less_nat_alt)
  then show ?thesis using a u32_pred_less [of f] u32_pred [of f] by (simp add: word_less_nat_alt word_le_nat_alt)
qed

lemma find_file_step:
  assumes "file_indexes E C b w lb hb first" and "lb \<le> f" and "f \<le> hb"
  shows "find_file_loop E C target lb hb l r f b w =
    (if target < first f then
       (if r then Some (OK, f - 1)
        else if f = 0 \<or> f - 1 < lb then Some (NotFound (dec_string (uint target) @ '' hit low boundary''), f)
        else find_file_loop E C target lb hb True r (f - 1) b w)
     else if target > first f then
       (if l then Some (OK, f) else if f + 1 > hb then Some (OK, f) else find_file_loop E C target lb hb l True (f + 1) b w)
     else Some (OK, f))"
proof -
  obtain off where "GetBinlogOffset1 E C (BinlogOffset f 0) LogOffset0 b w = Some (OK, off)" "lo_index (l_offset off) = first f"
    using assms by (auto simp: file_indexes_def)
  then show ?thesis by (subst find_file_loop.simps) simp
qed

lemma file_indexes_less: "file_indexes E C b w lb hb first \<Longrightarrow> lb \<le> f \<Longrightarrow> f < g \<Longrightarrow> g \<le> hb \<Longrightarrow> first f < first g"
  by (auto simp: file_indexes_def)

lemma file_indexes_le: "file_indexes E C b w lb hb first \<Longrightarrow> lb \<le> f \<Longrightarrow> f \<le> g \<Longrightarrow> g \<le> hb \<Longrightarrow> first f \<le> first g"
  using file_indexes_less by (cases "f = g") (fastforce simp: order_le_less)+

lemma find_file_left:
  assumes "file_indexes E C b w lb hb first"
  shows "lb \<le> f \<Longrightarrow> f \<le> hb \<Longrightarrow> f = hb \<or> target < first (f + 1)
    \<Longrightarrow> found_file first lb hb target (find_file_loop E C target lb hb True False f b w)"
proof (induction "unat f" arbitrary: f rule: less_induct)
  case less
  note step = find_file_step [OF assms less.prems(1,2), of target True False]
  have mono: "first lb \<le> first f" using file_indexes_le [OF assms order_refl less.prems(1,2)] .
  consider "target < first f" "f = lb" | "target < first f" "lb < f" | "first f \<le> target" using less.prems(1) by force
  then show ?case
  proof cases
    case 1
    then show ?thesis using step u32_pred_less [of lb] by (cases "lb = 0") (auto simp: found_file_def)
  next
    case 2
    then have nz: "f \<noteq> 0" "lb \<le> f - 1" "f - 1 < f" using u32_less_pred by blast+
    have "found_file first lb hb target (find_file_loop E C target lb hb True False (f - 1) b w)"
    proof (rule less.hyps)
      show "unat (f - 1) < unat f" using nz(3) by (simp add: word_less_nat_alt)
      show "f - 1 \<le> hb" using nz(3) less.prems(2) by order
    qed (use nz 2 in auto)
    then show ?thesis using step 2 nz leD [OF nz(2)] by simp
  next
    case 3
    then show ?thesis using step mono less.prems by (auto simp: found_file_def)
  qed
qed

lemma find_file_right:
  assumes "file_indexes E C b w lb hb first" and "unat hb < 2 ^ 32 - 1"
  shows "lb < f \<Longrightarrow> f \<le> hb \<Longrightarrow> first (f - 1) \<le> target
    \<Longrightarrow> found_file first lb hb target (find_file_loop E C target lb hb False True f b w)"
proof (induction "unat hb - unat f" arbitrary: f rule: less_induct)
  case less
  have lf: "lb \<le> f" using less.prems(1) by simp
  note step = find_file_step [OF assms(1) lf less.prems(2), of target False True]
  have nz: "f \<noteq> 0" "lb \<le> f - 1" "f - 1 < f" using u32_less_pred [OF less.prems(1)] by blast+
  have suc: "unat (f + 1) = unat f + 1"
    using less.prems(2) assms(2) by (intro unat_suc) (simp add: word_le_nat_alt)
  have "f - 1 \<le> hb" using nz(3) less.prems(2) by order
  then have m1: "first lb \<le> first (f - 1)" by (rule file_indexes_le [OF assms(1) order_refl nz(2)])
  have m2: "first f < first (f + 1)" if "f \<noteq> hb"
    using that less.prems(2) suc
    by (intro file_indexes_less [OF assms(1) lf]) (auto simp: word_less_nat_alt word_le_nat_alt word_unat_eq_iff)
  show ?case
  proof (cases "target > first f \<and> f \<noteq> hb")
    case True
    have "found_file first lb hb target (find_file_loop E C target lb hb False True (f + 1) b w)"
      using True less.prems(1,2) suc by (intro less.hyps) (auto simp: word_less_nat_alt word_le_nat_alt word_unat_eq_iff)
    moreover have "\<not> f + 1 > hb" using True suc less.prems(2) by (auto simp: word_less_nat_alt word_le_nat_alt word_unat_eq_iff)
    ultimately show ?thesis using step True by auto
  next
    case False
    have "f + 1 > hb" if "f = hb" using suc that by (simp add: word_less_nat_alt)
    moreover have "first lb \<le> first f" by (rule file_indexes_le [OF assms(1) order_refl lf less.prems(2)])
    ultimately show ?thesis using step False m1 m2 nz less.prems by (auto simp: found_file_def)
  qed
qed

text \<open>
  C24: \<^verbatim>\<open>FindBinlogFileNum\<close> ends, from whatever file it starts, and finds the file that holds a target
  index: the last file that does not begin behind it. When even the first file begins behind the
  target it reports NotFound.
\<close>

theorem find_binlog_file_num:
  assumes "file_indexes E C b w lb hb first" and "unat hb < 2 ^ 32 - 1" and "lb \<le> start" and "start \<le> hb"
    and "binlogs \<noteq> []" and "fst (hd binlogs) = lb" and "fst (last binlogs) = hb"
  shows "found_file first lb hb target (FindBinlogFileNum E C binlogs target start b w)"
proof -
  note step = find_file_step [OF assms(1,3,4), of target False False]
  have eq: "FindBinlogFileNum E C binlogs target start b w = find_file_loop E C target lb hb False False start b w"
    using assms(5-7) by (simp add: FindBinlogFileNum_def)
  have suc: "unat (start + 1) = unat start + 1" using assms(2,4) by (intro unat_suc) (simp add: word_le_nat_alt)
  consider "target < first start" "start = lb" | "target < first start" "lb < start" | "first start < target" "start \<noteq> hb"
    | "first start \<le> target" "target = first start \<or> start = hb" using assms(3) by force
  then show ?thesis unfolding eq
  proof cases
    case 1
    then show "found_file first lb hb target (find_file_loop E C target lb hb False False start b w)"
      using step u32_pred_less [of lb] by (cases "lb = 0") (auto simp: found_file_def)
  next
    case 2
    then have nz: "start \<noteq> 0" "lb \<le> start - 1" "start - 1 < start" using u32_less_pred by blast+
    have "found_file first lb hb target (find_file_loop E C target lb hb True False (start - 1) b w)"
    proof (rule find_file_left [OF assms(1)])
      show "start - 1 \<le> hb" using nz(3) assms(4) by order
    qed (use nz 2 in auto)
    then show "found_file first lb hb target (find_file_loop E C target lb hb False False start b w)" using step 2 nz leD [OF nz(2)] by simp
  next
    case 3
    have "found_file first lb hb target (find_file_loop E C target lb hb False True (start + 1) b w)"
      using 3 suc assms(3,4) by (intro find_file_right [OF assms(1,2)]) (auto simp: word_less_nat_alt word_le_nat_alt word_unat_eq_iff)
    moreover have "\<not> start + 1 > hb" using 3 suc assms(4) by (auto simp: word_less_nat_alt word_le_nat_alt word_unat_eq_iff)
    ultimately show "found_file first lb hb target (find_file_loop E C target lb hb False False start b w)" using step 3 by auto
  next
    case 4
    have "start + 1 > hb" if "start = hb" using suc that by (simp add: word_less_nat_alt)
    moreover have "first start < first (start + 1)" if "start \<noteq> hb"
      using that assms(4) suc
      by (intro file_indexes_less [OF assms(1,3)]) (auto simp: word_less_nat_alt word_le_nat_alt word_unat_eq_iff)
    moreover have "first lb \<le> first start" by (rule file_indexes_le [OF assms(1) order_refl assms(3,4)])
    ultimately show "found_file first lb hb target (find_file_loop E C target lb hb False False start b w)"
      using step 4 assms(3,4) by (auto simp: found_file_def)
  qed
qed

section \<open>What the reads return\<close>

definition item_logic :: "BinlogItem \<Rightarrow> LogicOffset" where
  "item_logic it = \<lparr>lo_term = bi_term_id it, lo_index = bi_logic_id it\<rparr>"

context slash_fs
begin

lemma GetBinlogOffset1_item:
  assumes "fixed_coding C" and "binlog_ok E fs b w" and "log_files fs b w f = Some c" and "n \<le> length c" and "log_file (take n c)"
    and "n < 2 ^ 63" and "items_ahead fs b w f n (map (enc_item C) (it # its))"
  shows "\<exists>pos. GetBinlogOffset1 E C (BinlogOffset f (of_nat n)) off b w = Some (OK, \<lparr>b_offset = pos, l_offset = item_logic it\<rparr>)"
proof -
  obtain r where r: "Seek E b f (of_nat n) PikaBinlogReader_new0 w = Some (0, r)" "reader_ok hpos b r n" "rd_cur_filenum r = f"
    using Seek_at [OF _ assms(4) log_file_tail [OF assms(5)] assms(6), of w b f PikaBinlogReader_new0] assms(3) by (auto simp: log_files_def)
  then obtain fnum' off' r' where "Get E b [] 0 0 r w = Some (OK, enc_item C it, fnum', off', r')"
    using Get_ahead [OF assms(2) r(2), of "map (enc_item C) (it # its)" 0 0] assms(7) by auto
  moreover obtain d where "BinlogItemWithoutContentDecode C TypeFirst (enc_item C it) BinlogItem0 = (True, d)"
    "bi_term_id d = bi_term_id it" "bi_logic_id d = bi_logic_id it"
    using fixed_coding.WithoutContentDecode_enc_item [OF assms(1)] by blast
  ultimately show ?thesis using r(1) by (simp add: GetBinlogOffset1_def item_logic_def)
qed

lemma range_loop_items:
  assumes "fixed_coding C" and "binlog_ok E fs b w" and "reader_ok hpos b r n"
    and "items_ahead fs b w (rd_cur_filenum r) n (map (enc_item C) its)"
  shows "\<exists>ks. map l_offset ks = map item_logic its
    \<and> (\<forall>end_offset offsets. range_loop E C end_offset offsets b r w = Some (OK, offsets @ takeWhile (\<lambda>k. b_offset k \<le> end_offset) ks))"
  using assms(3,4)
proof (induction its arbitrary: r n)
  case Nil
  then show ?case using Get_ahead [OF assms(2) Nil.prems, of 0 0] by (subst range_loop.simps) auto
next
  case (Cons it its)
  from Get_ahead [OF assms(2) Cons.prems, of 0 0] obtain fnum' off' r' n' where
    g: "Get E b [] 0 0 r w = Some (OK, enc_item C it, fnum', off', r')" "reader_ok hpos b r' n'"
    "items_ahead fs b w (rd_cur_filenum r') n' (map (enc_item C) its)" by auto
  obtain d where d: "BinlogItemWithoutContentDecode C TypeFirst (enc_item C it) BinlogItem0 = (True, d)"
    "bi_term_id d = bi_term_id it" "bi_logic_id d = bi_logic_id it"
    using fixed_coding.WithoutContentDecode_enc_item [OF assms(1)] by blast
  let ?k = "\<lparr>b_offset = BinlogOffset fnum' off', l_offset = item_logic it\<rparr>"
  from Cons.IH [OF g(2,3)] obtain ks where ks: "map l_offset ks = map item_logic its"
    "\<And>e offsets. range_loop E C e offsets b r' w = Some (OK, offsets @ takeWhile (\<lambda>k. b_offset k \<le> e) ks)" by blast
  have "range_loop E C e offsets b r w = Some (OK, offsets @ takeWhile (\<lambda>k. b_offset k \<le> e) (?k # ks))" for e offsets
    using g(1) d ks(2) by (subst range_loop.simps) (simp add: status_simps item_logic_def not_le [symmetric])
  with ks(1) show ?case by (intro exI [of _ "?k # ks"]) simp
qed

end

text \<open>
  \<^verbatim>\<open>GetBinlogOffset\<close> over a range, from a position at which an item ends, ends without error and
  returns the offsets of the items behind the position, in the order of the binlog and with their
  terms and indexes, up to the first that ends behind the end of the range.
\<close>

theorem get_binlog_offset_range:
  assumes "slash_fs E fs hpos" and "fixed_coding C" and "binlog_ok E fs b w" and "log_files fs b w f = Some c" and "n \<le> length c"
    and "log_file (take n c)" and "n < 2 ^ 63" and "items_ahead fs b w f n (map (enc_item C) its)"
  shows "\<exists>ks. map l_offset ks = map item_logic its
    \<and> (\<forall>end_offset. GetBinlogOffset E C (BinlogOffset f (of_nat n)) end_offset [] b w
         = Some (OK, takeWhile (\<lambda>k. b_offset k \<le> end_offset) ks))"
proof -
  obtain r where r: "Seek E b f (of_nat n) PikaBinlogReader_new0 w = Some (0, r)" "reader_ok hpos b r n" "rd_cur_filenum r = f"
    using slash_fs.Seek_at [OF assms(1) _ assms(5) log_file_tail [OF assms(6)] assms(7), of w b f PikaBinlogReader_new0] assms(4)
    by (auto simp: log_files_def)
  from slash_fs.range_loop_items [OF assms(1-3) r(2)] assms(8) r(3) obtain ks where "map l_offset ks = map item_logic its"
    "\<And>e offsets. range_loop E C e offsets b r w = Some (OK, offsets @ takeWhile (\<lambda>k. b_offset k \<le> e) ks)" by blast
  with r(1) show ?thesis by (intro exI [of _ ks]) (simp add: GetBinlogOffset_def)
qed

lemma two_binlog_ok: "binlog_ok mem_env mw_files (cc_binlog two_coord) two_world"
  by (simp add: two_simps binlog_ok_def manifest_holds_def)

lemma two_log_file: "log_file (take 42 (two_record @ two_record))"
  using log_snoc [OF log_file_empty] two_frames [of 0] by simp

theorem get_binlog_offset_range_witness:
  "\<exists>ks. map l_offset ks = [\<lparr>lo_term = 2, lo_index = 3\<rparr>]
    \<and> GetBinlogOffset mem_env le_coding (BinlogOffset 0 42) (BinlogOffset 0 7) [] (cc_binlog two_coord) two_world
        = Some (OK, takeWhile (\<lambda>k. b_offset k \<le> BinlogOffset 0 7) ks)"
proof -
  have c: "42 \<le> length (two_record @ two_record)" "42 < (2 :: nat) ^ 63" by simp_all
  from get_binlog_offset_range [OF mem.slash_fs_axioms le.fixed_coding_axioms two_binlog_ok two_file c(1) two_log_file c(2) two_ahead]
  obtain ks where "map l_offset ks = map item_logic [first_item]"
    "\<forall>e. GetBinlogOffset mem_env le_coding (BinlogOffset 0 (of_nat 42)) e [] (cc_binlog two_coord) two_world
        = Some (OK, takeWhile (\<lambda>k. b_offset k \<le> e) ks)" by blast
  then show ?thesis by (intro exI [of _ ks]) (simp add: item_logic_def first_item_def)
qed

lemma two_file_indexes: "file_indexes mem_env le_coding (cc_binlog two_coord) two_world 0 0 (\<lambda>_. 3)"
proof -
  have f: "log_files mw_files (cc_binlog two_coord) two_world 0 = Some ([] @ two_record @ two_record)" using two_file by simp
  have ne: "enc_item le_coding first_item \<noteq> []" using length_first_item by fastforce
  have "items_ahead mw_files (cc_binlog two_coord) two_world 0 (0 + length two_record) (map (enc_item le_coding) [first_item])"
    using two_ahead by simp
  then have "items_ahead mw_files (cc_binlog two_coord) two_world 0 0 (enc_item le_coding first_item # map (enc_item le_coding) [first_item])"
    by (rule ahead_item [where F = "log_files mw_files (cc_binlog two_coord) two_world" and f = 0 and bs = two_record and pre = "[]"
          and post = two_record, OF f list.size(3) two_frames ne, rotated]) simp
  then have "\<exists>pos. GetBinlogOffset1 mem_env le_coding (BinlogOffset 0 (of_nat 0)) LogOffset0 (cc_binlog two_coord) two_world
      = Some (OK, \<lparr>b_offset = pos, l_offset = item_logic first_item\<rparr>)"
    by (intro mem.GetBinlogOffset1_item [OF le.fixed_coding_axioms two_binlog_ok two_file, where its = "[first_item]"]) (simp_all add: log_file_empty)
  then show ?thesis by (auto simp: file_indexes_def item_logic_def first_item_def)
qed

theorem find_binlog_file_num_witness:
  "FindBinlogFileNum mem_env le_coding [(0, ''write2file0'')] 4 0 (cc_binlog two_coord) two_world = Some (OK, 0)"
  using find_binlog_file_num [OF two_file_indexes, of 0 "[(0, ''write2file0'')]" 4] by (auto simp: found_file_def)

section \<open>What negotiation keeps\<close>

lemma find_offset_index: "find_offset t xs = Some x \<Longrightarrow> lo_index (l_offset x) = t"
  by (induction xs) (auto split: if_splits)

lemma FindLogicOffset_index:
  assumes "FindLogicOffset E C string2l start t off sl w = Some (OK, found)"
  shows "index_of found = t"
  using assms
  by (auto simp: FindLogicOffset_def FindLogicOffsetBySearchingBinlog_def index_of_def Let_def find_offset_index
      split: option.splits prod.splits if_splits)

lemma StableLog_TruncateTo_logic:
  assumes "StableLog_TruncateTo E string2l offset sl w = Some (s, sl', w')"
  shows "ver_logic_id (bl_version (sl_stable_logger sl')) \<in> {index_of offset, ver_logic_id (bl_version (sl_stable_logger sl))}"
  using assms
  by (auto simp: StableLog_TruncateTo_def Binlog_Truncate_def index_of_def Let_def dest!: InitLogFile_version
      split: option.splits prod.splits if_splits)

text \<open>
  From \<open>st\<close> to \<open>st'\<close> only logs behind the committed index were cut off: the memory log lost a
  suffix, and the binlog still reaches the committed index.
\<close>

definition safe_cut :: "('c, 'n, 'h) ConsensusCoordinator \<Rightarrow> ('c, 'n, 'h) ConsensusCoordinator \<Rightarrow> bool" where
  "safe_cut st st' \<longleftrightarrow>
     cc_committed_index st' = cc_committed_index st \<and> cc_context st' = cc_context st \<and> cc_scheduled st' = cc_scheduled st
     \<and> cc_term st' = cc_term st \<and> (\<exists>k. ml_logs (cc_mem_logger st') = take k (ml_logs (cc_mem_logger st)))
     \<and> memlog_ok (cc_mem_logger st')
     \<and> index_of (cc_committed_index st) \<le> ver_logic_id (bl_version (cc_binlog st'))"

lemma safe_cut_refl:
  "memlog_ok (cc_mem_logger st) \<Longrightarrow> index_of (cc_committed_index st) \<le> ver_logic_id (bl_version (cc_binlog st)) \<Longrightarrow> safe_cut st st"
  by (auto simp: safe_cut_def intro: exI [of _ "length (ml_logs (cc_mem_logger st))"])

lemma safe_cut_trans: "safe_cut st st1 \<Longrightarrow> safe_cut st1 st2 \<Longrightarrow> safe_cut st st2"
  by (auto simp: safe_cut_def)

lemma MemLog_TruncateTo_take:
  assumes "MemLog_TruncateTo offset m = (s, m')"
  shows "\<exists>k. ml_logs m' = take k (ml_logs m)" and "memlog_ok m \<Longrightarrow> memlog_ok m'"
proof -
  show "\<exists>k. ml_logs m' = take k (ml_logs m)"
    using assms by (auto simp: MemLog_TruncateTo_def Let_def split: if_splits intro: exI [of _ "length (ml_logs m)"])
  show "memlog_ok m'" if "memlog_ok m"
  proof (cases "s = OK")
    case True
    then show ?thesis using MemLog_TruncateTo_ok [OF that] assms by blast
  next
    case False
    then show ?thesis using assms that by (auto simp: MemLog_TruncateTo_def Let_def split: if_splits)
  qed
qed

lemma TruncateTo_safe:
  assumes "Coordinator_TruncateTo E C cf offset st w = Some (s, st', w')" and "safe_cut st0 st"
    and "index_of (cc_committed_index st) \<le> index_of offset"
  shows "safe_cut st0 st'"
proof (rule safe_cut_trans [OF assms(2)])
  have ok: "memlog_ok (cc_mem_logger st)" "index_of (cc_committed_index st) \<le> ver_logic_id (bl_version (cc_binlog st))"
    using assms(2) by (auto simp: safe_cut_def)
  obtain s1 found where f: "FindLogicOffset E C (cf_string2l cf) (b_offset offset) (lo_index (l_offset offset)) LogOffset0 (cc_stable_logger st) w = Some (s1, found)"
    using assms(1) by (auto simp: Coordinator_TruncateTo_def split: option.splits)
  let ?t = "if lo_index (l_offset found) = lo_index (l_offset (cc_committed_index st)) then (OK, MemLog_Reset (cc_committed_index st) (cc_mem_logger st))
      else MemLog_TruncateTo found (cc_mem_logger st)"
  obtain s2 m where t: "?t = (s2, m)" by (cases ?t)
  have m: "\<exists>k. ml_logs m = take k (ml_logs (cc_mem_logger st))" "memlog_ok m"
    using t ok(1) MemLog_TruncateTo_take [of found "cc_mem_logger st" s2 m]
    by (auto simp: MemLog_Reset_def memlog_ok_def split: if_splits)
  consider "st' = st" | "st' = st\<lparr>cc_mem_logger := m\<rparr>"
    | sl s3 where "s1 = OK" "StableLog_TruncateTo E (cf_string2l cf) found (cc_stable_logger st) w = Some (s3, sl, w')"
        "st' = st\<lparr>cc_mem_logger := m, cc_stable_logger := sl\<rparr>"
    using assms(1) f t by (auto simp: Coordinator_TruncateTo_def Let_def split: if_splits option.splits)
  then show "safe_cut st st'"
  proof cases
    case 1
    then show ?thesis using safe_cut_refl [OF ok] by simp
  next
    case 2
    then show ?thesis using m ok(2) by (simp add: safe_cut_def cc_binlog_def)
  next
    case 3
    then have "index_of found = index_of offset" using FindLogicOffset_index f by (metis index_of_def)
    moreover from StableLog_TruncateTo_logic [OF 3(2)]
    have "ver_logic_id (bl_version (sl_stable_logger sl)) \<in> {index_of found, ver_logic_id (bl_version (cc_binlog st))}"
      by (simp add: cc_binlog_def)
    ultimately show ?thesis using m ok(2) assms(3) by (auto simp: safe_cut_def cc_binlog_def 3(3))
  qed
qed

lemma truncate_reply_safe:
  assumes "truncate_reply E C cf offset r0 st w = Some (s, r, st', w')" and "safe_cut st0 st"
    and "index_of (cc_committed_index st) \<le> index_of offset"
  shows "safe_cut st0 st' \<and> (s = OK \<longrightarrow> r = ml_last_offset (cc_mem_logger st'))"
  using assms TruncateTo_safe [OF _ assms(2,3)]
  by (auto simp: truncate_reply_def split: option.splits if_splits)

lemma FindLogItem_index:
  "memlog_ok m \<Longrightarrow> FindLogItem k m = Some found \<Longrightarrow> index_of found = index_of k"
proof -
  assume a: "memlog_ok m" "FindLogItem k m = Some found"
  then have "sorted_wrt (\<lambda>a b. index_of a < index_of b) (map li_offset (ml_logs m))" by (simp add: memlog_ok_def)
  then show ?thesis
    by (cases rule: ix.ordered_find_cases [where k = k]) (use a(2) in \<open>auto simp: FindLogItem_def find_index\<close>)
qed

lemma follower_loop_safe:
  assumes "follower_loop E C cf (cc_committed_index st) first_hint hints r0 st w = Some (s, r, st', w')" and "safe_cut st0 st"
    and "hints \<noteq> [] \<and> last hints = first_hint \<or> index_of (cc_committed_index st) \<le> index_of first_hint"
  shows "safe_cut st0 st' \<and> (s = OK \<longrightarrow> r = ml_last_offset (cc_mem_logger st'))"
  using assms(1,3)
proof (induction hints)
  case Nil
  then show ?case using truncate_reply_safe [OF _ assms(2)] by simp
next
  case (Cons h hints)
  have mok: "memlog_ok (cc_mem_logger st)" using assms(2) by (simp add: safe_cut_def)
  show ?case
  proof (cases "index_of h < index_of (cc_committed_index st)")
    case True
    then show ?thesis using Cons.prems(1) assms(2) by (auto simp: index_of_def)
  next
    case ge: False
    show ?thesis
    proof (cases "lo_index (l_offset h) = lo_index (l_offset (cc_committed_index st)) \<and> lo_term (l_offset h) = lo_term (l_offset (cc_committed_index st))")
      case True
      then show ?thesis using Cons.prems(1) ge truncate_reply_safe [OF _ assms(2), of E C cf h r0 w] by (simp add: index_of_def)
    next
      case no: False
      show ?thesis
      proof (cases "FindLogItem h (cc_mem_logger st)")
        case None
        then show ?thesis using Cons.prems(1) ge no assms(2) by (auto simp: index_of_def)
      next
        case (Some found)
        have "index_of (cc_committed_index st) \<le> index_of found" using FindLogItem_index [OF mok Some] ge by simp
        then show ?thesis
          using Cons ge no Some truncate_reply_safe [OF _ assms(2), of E C cf found r0 w]
          by (auto simp: index_of_def not_less split: if_splits)
      qed
    qed
  qed
qed



lemma GetLogsBefore_hundred:
  "GetLogsBefore E C string2l off hints sl w = Some (OK, hints') \<Longrightarrow> length hints' \<le> 100"
  by (auto simp: GetLogsBefore_def Let_def split: option.splits if_splits)

lemma same_offset:
  "index_of found = index_of f \<Longrightarrow> (lo_term (l_offset found) = lo_term (l_offset f) \<and> b_offset f = b_offset found) = (found = f)"
  by (auto simp: index_of_def intro!: LogOffset.equality LogicOffset.equality)

definition send_hints :: "('w, 'e) slash_env \<Rightarrow> slash_coding \<Rightarrow> 'c coord_conf \<Rightarrow> LogOffset list \<Rightarrow> ('c, 'n, 'h) ConsensusCoordinator \<Rightarrow> 'w \<Rightarrow> BinlogOffset
    \<Rightarrow> (Status \<times> bool \<times> LogOffset list) option" where
  "send_hints E C cf hints st w off =
     map_option (\<lambda>(s, hints). (s, True, hints)) (GetLogsBefore E C (cf_string2l cf) off hints (cc_stable_logger st) w)"

lemma LeaderNegotiate_alt:
  "LeaderNegotiate E C cf f hints st w =
     (if index_of f > index_of (ml_last_offset (cc_mem_logger st)) then send_hints E C cf hints st w (b_offset (ml_last_offset (cc_mem_logger st)))
      else if index_of f < index_of (sl_first_offset (cc_stable_logger st)) then Some (NotFound ''logic index'', True, hints)
      else if index_of f = 0 then Some (OK, False, hints)
      else case FindLogicOffset E C (cf_string2l cf) (b_offset f) (index_of f) LogOffset0 (cc_stable_logger st) w of
             None \<Rightarrow> None
           | Some (s, found) \<Rightarrow>
               if s \<noteq> OK then Some (s, True, hints)
               else if found = f then Some (OK, False, hints) else send_hints E C cf hints st w (b_offset found))"
proof -
  have h: "(case GetLogsBefore E C (cf_string2l cf) off hints (cc_stable_logger st) w of
         None \<Rightarrow> None | Some (s, hints) \<Rightarrow> if \<not> ok s then Some (s, True, hints) else Some (OK, True, hints))
      = send_hints E C cf hints st w off" for off
    by (auto simp: send_hints_def split: option.splits)
  have f: "lo_term (l_offset found) \<noteq> lo_term (l_offset f) \<or> \<not> BinlogOffset_eq (b_offset f) (b_offset found) \<longleftrightarrow> found \<noteq> f"
    if "FindLogicOffset E C (cf_string2l cf) (b_offset f) (index_of f) LogOffset0 (cc_stable_logger st) w = Some (OK, found)" for found
    using same_offset [OF FindLogicOffset_index [OF that]] by auto
  show ?thesis
    unfolding LeaderNegotiate_def Let_def h index_of_def [symmetric]
    by (intro if_cong refl option.case_cong) (use f in \<open>auto split: if_splits\<close>)
qed

lemma send_hints_never_accept: "send_hints E C cf hints st w off \<noteq> Some (s, False, hints')"
  by (auto simp: send_hints_def)

lemma send_hints_hundred: "send_hints E C cf hints st w off = Some (OK, True, hints') \<Longrightarrow> length hints' \<le> 100"
  by (auto simp: send_hints_def GetLogsBefore_hundred)

text \<open>
  C23: A leader accepts a follower's last offset in exactly two cases: the follower holds nothing
  (index 0), or a search of the leader's own binlog for the index gives that very offset, term and
  position included; and in both the index lies between the first and the last offset of the leader.
  An index the leader has purged asks for a full sync. Whenever it rejects with hints there are at
  most a hundred of them.
\<close>

theorem leader_negotiate_accepts:
  fixes f :: LogOffset and st :: "('c, 'n, 'h) ConsensusCoordinator"
  defines "first \<equiv> index_of (sl_first_offset (cc_stable_logger st))" and "lst \<equiv> index_of (ml_last_offset (cc_mem_logger st))"
  shows "(LeaderNegotiate E C cf f hints st w = Some (s, False, hints')) =
        (s = OK \<and> hints' = hints \<and> first \<le> index_of f \<and> index_of f \<le> lst
          \<and> (index_of f = 0 \<or> FindLogicOffset E C (cf_string2l cf) (b_offset f) (index_of f) LogOffset0 (cc_stable_logger st) w = Some (OK, f)))
    \<and> (index_of f < first \<and> index_of f \<le> lst \<longrightarrow> LeaderNegotiate E C cf f hints st w = Some (NotFound ''logic index'', True, hints))
    \<and> (LeaderNegotiate E C cf f hints st w = Some (OK, True, hints') \<longrightarrow> length hints' \<le> 100)"
proof (intro conjI impI)
  show "(LeaderNegotiate E C cf f hints st w = Some (s, False, hints')) =
        (s = OK \<and> hints' = hints \<and> first \<le> index_of f \<and> index_of f \<le> lst
          \<and> (index_of f = 0 \<or> FindLogicOffset E C (cf_string2l cf) (b_offset f) (index_of f) LogOffset0 (cc_stable_logger st) w = Some (OK, f)))"
    unfolding LeaderNegotiate_alt first_def lst_def
    by (auto simp: send_hints_never_accept not_less split: option.splits)
  show "LeaderNegotiate E C cf f hints st w = Some (NotFound ''logic index'', True, hints)" if "index_of f < first \<and> index_of f \<le> lst"
    using that unfolding LeaderNegotiate_alt by (auto simp: first_def lst_def)
  show "length hints' \<le> 100" if "LeaderNegotiate E C cf f hints st w = Some (OK, True, hints')"
    using that unfolding LeaderNegotiate_alt by (auto dest: send_hints_hundred split: option.splits if_splits)
qed

theorem leader_negotiate_accepts_witness:
  "LeaderNegotiate mem_env le_coding wit_conf LogOffset0 [] wit_coord coord_world = Some (OK, False, [])"
  using leader_negotiate_accepts [of mem_env le_coding wit_conf LogOffset0 "[]" wit_coord coord_world OK "[]"]
  by (simp add: wit_coord_def index_of_def LogOffset0_def LogicOffset0_def)

end
