(* ===== verification/Pika_Data_Distribution.thy ===== *)
theory Pika_Data_Distribution
  imports Pika_Prelude
begin

text \<open>
  How keys are spread over the partitions of a table: \<^verbatim>\<open>src/pika_data_distribution.cc\<close> with its
  CRC table, the hash tag of a key, and the lookup of the thread's distribution in
  \<^verbatim>\<open>src/pika_cmd_table_manager.cc\<close>. The library's \<^verbatim>\<open>std::hash\<close>, whose value the standard leaves to the
  implementation, is a parameter. \<open>None\<close> stands for a failed assertion or a division by zero.
\<close>

unbundle bit_operations_syntax

section \<open>Model\<close>

definition kTagBegin :: char where "kTagBegin = CHR ''{''"
definition kTagEnd :: char where "kTagEnd = CHR ''}''"
definition IEEE_POLY :: u32 where "IEEE_POLY = 0xedb88320"

text \<open>\<^verbatim>\<open>find_first_of\<close> with a set of one character, from a position on.\<close>

definition find_first_of :: "char \<Rightarrow> nat \<Rightarrow> string \<Rightarrow> nat option" where
  "find_first_of c pos s =
     (if c \<in> set (drop pos s) then Some (pos + length (takeWhile (\<lambda>x. x \<noteq> c) (drop pos s))) else None)"

definition GetHashkey :: "string \<Rightarrow> string" where
  "GetHashkey key =
     (case find_first_of kTagBegin 0 key of
        None \<Rightarrow> key
      | Some b \<Rightarrow>
          (case find_first_of kTagEnd (b + 1) key of
             None \<Rightarrow> key
           | Some e \<Rightarrow> take (e - b - 1) (drop (b + 1) key)))"

definition crc_bit :: "u32 \<Rightarrow> u32 \<Rightarrow> u32" where
  "crc_bit poly crc = (if crc AND 1 \<noteq> 0 then drop_bit 1 crc XOR poly else drop_bit 1 crc)"

definition Crc32TableInit :: "u32 \<Rightarrow> u32 list" where
  "Crc32TableInit poly = map (\<lambda>i. (crc_bit poly ^^ 8) (of_nat i)) [0..<256]"

primrec crc_bytes :: "u32 list \<Rightarrow> u32 \<Rightarrow> bytes \<Rightarrow> u32" where
  "crc_bytes crc32tab crc [] = crc"
| "crc_bytes crc32tab crc (c # buf) =
     crc_bytes crc32tab (crc32tab ! unat (ucast crc XOR of_char c :: u8) XOR drop_bit 8 crc) buf"

definition Crc32Update :: "u32 list \<Rightarrow> u32 \<Rightarrow> bytes \<Rightarrow> u32" where
  "Crc32Update crc32tab crc buf = NOT (crc_bytes crc32tab (NOT crc) buf)"

datatype PikaDataDistribution = HashModulo | Crc32 "u32 list"

definition Crc32_Init :: PikaDataDistribution where
  "Crc32_Init = Crc32 (Crc32TableInit IEEE_POLY)"

primrec Distribute :: "(string \<Rightarrow> u64) \<Rightarrow> PikaDataDistribution \<Rightarrow> string \<Rightarrow> u32 \<Rightarrow> u32 option" where
  "Distribute std_hash HashModulo str partition_num =
     (if partition_num = 0 then None else Some (ucast (std_hash str mod ucast partition_num)))"
| "Distribute std_hash (Crc32 crc32tab) str partition_num =
     (let key = GetHashkey str;
          crc = Crc32Update crc32tab 0 key
      in if partition_num = 0 then None else Some (crc mod partition_num))"

text \<open>The manager's map from threads to their distribution.\<close>

type_synonym 't distribution_map = "'t \<rightharpoonup> PikaDataDistribution"

definition CheckCurrentThreadDistributionMapExist :: "'t \<Rightarrow> 't distribution_map \<Rightarrow> bool" where
  "CheckCurrentThreadDistributionMapExist tid dmap = (dmap tid \<noteq> None)"

definition InsertCurrentThreadDistributionMap :: "bool \<Rightarrow> 't \<Rightarrow> 't distribution_map \<Rightarrow> 't distribution_map" where
  "InsertCurrentThreadDistributionMap classic_mode tid dmap =
     (let distribution = (if classic_mode then HashModulo else Crc32_Init)
      in case dmap tid of None \<Rightarrow> dmap(tid \<mapsto> distribution) | Some _ \<Rightarrow> dmap)"

definition DistributeKey ::
  "(string \<Rightarrow> u64) \<Rightarrow> bool \<Rightarrow> 't \<Rightarrow> string \<Rightarrow> u32 \<Rightarrow> 't distribution_map \<Rightarrow> (u32 \<times> 't distribution_map) option" where
  "DistributeKey std_hash classic_mode tid key partition_num dmap =
     (let dmap = (if \<not> CheckCurrentThreadDistributionMapExist tid dmap then InsertCurrentThreadDistributionMap classic_mode tid dmap else dmap)
      in case dmap tid of
           None \<Rightarrow> None
         | Some data_dist \<Rightarrow> map_option (\<lambda>p. (p, dmap)) (Distribute std_hash data_dist key partition_num))"

section \<open>The table-driven checksum\<close>

text \<open>The checksum bit by bit, without a table: each byte is added to the low end and shifted out.\<close>

definition crc32_bitwise :: "u32 \<Rightarrow> u32 \<Rightarrow> bytes \<Rightarrow> u32" where
  "crc32_bitwise poly crc buf = NOT (foldl (\<lambda>crc c. (crc_bit poly ^^ 8) (crc XOR of_char c)) (NOT crc) buf)"

lemma crc_bit_bit: "crc_bit poly crc = (if bit crc 0 then drop_bit 1 crc XOR poly else drop_bit 1 crc)"
  by (simp add: crc_bit_def bit_iff_and_push_bit_not_eq_0 [of crc 0])

lemma crc_bit_xor: "crc_bit poly (a XOR b) = crc_bit poly a XOR crc_bit poly b"
  by (rule bit_word_eqI) (auto simp: crc_bit_bit bit_simps)

lemma crc_bits_xor: "(crc_bit poly ^^ n) (a XOR b) = (crc_bit poly ^^ n) a XOR (crc_bit poly ^^ n) b"
  by (induction n) (simp_all add: crc_bit_xor)

lemma crc_bits_shifted: "n \<le> k \<Longrightarrow> (crc_bit poly ^^ n) (crc AND NOT (mask k)) = drop_bit n (crc AND NOT (mask k))"
proof (induction n)
  case (Suc n)
  then have "\<not> bit (drop_bit n (crc AND NOT (mask k))) 0" by (simp add: bit_simps)
  with Suc show ?case by (simp add: crc_bit_bit)
qed simp

lemma crc_table_entry: "Crc32TableInit poly ! unat (i :: u8) = (crc_bit poly ^^ 8) (ucast i)"
proof -
  have "unat i < 256" using unsigned_less [of i] by simp
  then show ?thesis by (simp add: Crc32TableInit_def)
qed

lemma of_char_byte: "(of_char c :: u32) = ucast (of_char c :: u8)"
proof -
  have "of_char c < (256 :: nat)" by simp
  then have "(of_nat (of_char c) :: u32) = ucast (of_nat (of_char c) :: u8)"
    by (simp add: unsigned_of_nat take_bit_nat_eq_self)
  then show ?thesis by (simp only: of_nat_of_char)
qed

lemma crc_step: "Crc32TableInit poly ! unat (ucast crc XOR of_char c :: u8) XOR drop_bit 8 crc = (crc_bit poly ^^ 8) (crc XOR of_char c)"
proof -
  have split: "crc XOR of_char c = ucast (ucast crc XOR of_char c :: u8) XOR (crc AND NOT (mask 8))"
    unfolding of_char_byte by (rule bit_word_eqI) (auto simp: bit_simps)
  have "drop_bit 8 (crc AND NOT (mask 8)) = drop_bit 8 crc"
    by (rule bit_word_eqI) (auto simp: bit_simps dest: bit_imp_le_length)
  then show ?thesis
    unfolding split crc_bits_xor crc_table_entry by (simp add: crc_bits_shifted)
qed

lemma crc_bytes_eq: "crc_bytes (Crc32TableInit poly) crc buf = foldl (\<lambda>crc c. (crc_bit poly ^^ 8) (crc XOR of_char c)) crc buf"
  by (induction buf arbitrary: crc) (simp_all add: crc_step)

lemma Crc32Update_bitwise: "Crc32Update (Crc32TableInit poly) crc buf = crc32_bitwise poly crc buf"
  by (simp add: Crc32Update_def crc32_bitwise_def crc_bytes_eq)

text \<open>
  C37: The table-driven checksum is the checksum computed bit by bit, for every polynomial, start
  value and byte string.
\<close>

theorem crc32_table_equiv: "Crc32Update (Crc32TableInit poly) crc buf = crc32_bitwise poly crc buf"
  by (rule Crc32Update_bitwise)

section \<open>Hash tags\<close>

lemma find_first_of_found: "c \<notin> set a \<Longrightarrow> find_first_of c (length p) (p @ a @ c # b) = Some (length p + length a)"
  by (simp add: find_first_of_def takeWhile_append)

lemma GetHashkey_tag:
  assumes "kTagBegin \<notin> set a" and "kTagEnd \<notin> set t"
  shows "GetHashkey (a @ kTagBegin # t @ kTagEnd # b) = t"
proof -
  let ?key = "a @ kTagBegin # t @ kTagEnd # b"
  have "find_first_of kTagBegin 0 ?key = Some (length a)"
    using find_first_of_found [of kTagBegin a "[]"] assms(1) by simp
  moreover have "find_first_of kTagEnd (length a + 1) ?key = Some (length a + 1 + length t)"
    using find_first_of_found [of kTagEnd t "a @ [kTagBegin]"] assms(2) by simp
  ultimately show ?thesis by (simp add: GetHashkey_def)
qed

lemma GetHashkey_plain:
  assumes "\<nexists>a t b. key = a @ kTagBegin # t @ kTagEnd # b"
  shows "GetHashkey key = key"
proof (cases "find_first_of kTagBegin 0 key")
  case (Some i)
  then have b: "kTagBegin \<in> set key" "i = length (takeWhile (\<lambda>x. x \<noteq> kTagBegin) key)"
    by (auto simp: find_first_of_def split: if_splits)
  then obtain a r where k: "key = a @ kTagBegin # r" "kTagBegin \<notin> set a" by (metis split_list_first)
  then have "length a = i" using b(2) by (simp add: takeWhile_append)
  have "kTagEnd \<notin> set r"
  proof
    assume "kTagEnd \<in> set r"
    then obtain t b where "r = t @ kTagEnd # b" by (meson split_list)
    with k(1) assms show False by blast
  qed
  with k Some \<open>length a = i\<close> show ?thesis by (simp add: GetHashkey_def find_first_of_def)
qed (simp add: GetHashkey_def)

section \<open>The partition of a key\<close>

definition thread_distribution :: "bool \<Rightarrow> PikaDataDistribution" where
  "thread_distribution classic_mode = (if classic_mode then HashModulo else Crc32_Init)"

definition key_partition :: "(string \<Rightarrow> u64) \<Rightarrow> bool \<Rightarrow> string \<Rightarrow> u32 \<Rightarrow> u32" where
  "key_partition std_hash classic_mode key n =
     (if classic_mode then ucast (std_hash key mod ucast n) else crc32_bitwise IEEE_POLY 0 (GetHashkey key) mod n)"

lemma Distribute_thread:
  "n \<noteq> 0 \<Longrightarrow> Distribute h (thread_distribution classic_mode) key n = Some (key_partition h classic_mode key n)"
  by (simp add: thread_distribution_def key_partition_def Crc32_Init_def Crc32Update_bitwise)

lemma word_mod_less: "n \<noteq> 0 \<Longrightarrow> x mod n < (n :: 'a :: len word)"
  by (simp add: word_less_nat_alt unat_mod_distrib unat_gt_0)

lemma key_partition_less:
  assumes "n \<noteq> 0"
  shows "key_partition h classic_mode key n < n"
proof (cases classic_mode)
  case True
  have n: "unat n < 2 ^ 32" using unsigned_less [of n] by simp
  then have "unat (ucast n :: u64) = unat n" by (simp add: unsigned_ucast_eq take_bit_nat_eq_self)
  then have "unat (h key mod ucast n) < unat n" using assms by (simp add: unat_mod_distrib unat_gt_0)
  with n have "unat (ucast (h key mod ucast n) :: u32) = unat (h key mod ucast n)"
    by (simp add: unsigned_ucast_eq take_bit_nat_eq_self)
  then show ?thesis using \<open>unat (h key mod ucast n) < unat n\<close> True by (simp add: key_partition_def word_less_nat_alt)
next
  case False
  then show ?thesis using assms by (simp add: key_partition_def word_mod_less)
qed

lemma DistributeKey_thread:
  assumes "\<forall>d\<in>ran dmap. d = thread_distribution classic_mode" and "n \<noteq> 0"
  shows "\<exists>dmap'. DistributeKey h classic_mode tid key n dmap = Some (key_partition h classic_mode key n, dmap')
      \<and> (\<forall>d\<in>ran dmap'. d = thread_distribution classic_mode)"
proof -
  obtain dmap' where d: "dmap' tid = Some (thread_distribution classic_mode)" "\<forall>d\<in>ran dmap'. d = thread_distribution classic_mode"
    "DistributeKey h classic_mode tid key n dmap = map_option (\<lambda>p. (p, dmap')) (Distribute h (thread_distribution classic_mode) key n)"
  proof (cases "dmap tid")
    case None
    with that [of "dmap(tid \<mapsto> thread_distribution classic_mode)"] assms(1) show ?thesis
      by (auto simp: DistributeKey_def CheckCurrentThreadDistributionMapExist_def InsertCurrentThreadDistributionMap_def Let_def
          thread_distribution_def)
  next
    case (Some d)
    then have "d = thread_distribution classic_mode" using assms(1) by (auto simp: ran_def)
    with that [of dmap] Some assms(1) show ?thesis by (simp add: DistributeKey_def CheckCurrentThreadDistributionMapExist_def Let_def)
  qed
  with assms(2) show ?thesis by (auto simp: Distribute_thread)
qed

text \<open>
  Every thread sends a key to the same partition, and to one the table has: the first call in a
  thread creates the distribution of the configured mode, later calls reuse it. In sharding mode the
  partition depends on the hash tag alone, so that keys with the same tag stay together; a key
  without a complete tag is its own tag.
\<close>

theorem distribute_key_agrees:
  assumes "\<forall>d\<in>ran dmap. d = thread_distribution classic_mode" and "n \<noteq> 0"
  shows "\<exists>dmap'. DistributeKey h classic_mode tid key n dmap = Some (key_partition h classic_mode key n, dmap')
      \<and> (\<forall>d\<in>ran dmap'. d = thread_distribution classic_mode)
      \<and> key_partition h classic_mode key n < n
      \<and> (\<not> classic_mode \<and> GetHashkey key' = GetHashkey key \<longrightarrow> key_partition h classic_mode key' n = key_partition h classic_mode key n)"
  using DistributeKey_thread [OF assms, of h tid key] key_partition_less [OF assms(2)] by (auto simp: key_partition_def)

theorem distribute_key_agrees_witness:
  "\<exists>dmap'. DistributeKey (\<lambda>_. 0) False (1 :: nat) ''a{user}'' 3 Map.empty = Some (key_partition (\<lambda>_. 0) False ''a{user}'' 3, dmap')
    \<and> key_partition (\<lambda>_. 0) False ''{user}b'' 3 = key_partition (\<lambda>_. 0) False ''a{user}'' 3"
proof -
  have "GetHashkey ''{user}b'' = GetHashkey ''a{user}''"
    by (simp add: GetHashkey_def find_first_of_def kTagBegin_def kTagEnd_def)
  with distribute_key_agrees [of Map.empty False 3 "\<lambda>_. 0" "1 :: nat" "''a{user}''" "''{user}b''"] show ?thesis by auto
qed

end
