(* ===== verification/Pika_Cmd_Res.thy ===== *)
theory Pika_Cmd_Res
  imports Pika_Transverter
begin

text \<open>
  The result of a command, \<^verbatim>\<open>CmdRes\<close> of \<^verbatim>\<open>include/pika_command.h\<close>, and the Redis protocol it writes. The
  protocol is stated twice: as the set of replies a client accepts, and as the reader of requests.
  The number conversions of the slash library are parameters with a contract.
\<close>

section \<open>Model\<close>

datatype CmdRet =
    kNone | kOk | kPong | kSyntaxErr | kInvalidInt | kInvalidBitInt | kInvalidBitOffsetInt | kInvalidBitPosArgument
  | kWrongBitOpNotNum | kInvalidFloat | kOverFlow | kNotFound | kOutOfRange | kInvalidPwd | kNoneBgsave | kPurgeExist
  | kInvalidParameter | kWrongNum | kInvalidIndex | kInvalidDbType | kInvalidTable | kInconsistentHashTag | kErrOther

record CmdRes =
  cr_message :: string
  cr_ret :: CmdRet

definition CmdRes0 :: CmdRes where
  "CmdRes0 = \<lparr>cr_message = [], cr_ret = kNone\<rparr>"

definition CmdRes_none :: "CmdRes \<Rightarrow> bool" where
  "CmdRes_none r = (cr_ret r = kNone \<and> cr_message r = [])"

definition CmdRes_ok :: "CmdRes \<Rightarrow> bool" where
  "CmdRes_ok r = (cr_ret r = kOk \<or> cr_ret r = kNone)"

definition CmdRes_clear :: "CmdRes \<Rightarrow> CmdRes" where
  "CmdRes_clear r = r\<lparr>cr_message := [], cr_ret := kNone\<rparr>"

definition CmdRes_message :: "CmdRes \<Rightarrow> string" where
  "CmdRes_message r = (case cr_ret r of
     kNone \<Rightarrow> cr_message r
   | kOk \<Rightarrow> ''+OK'' @ kNewLine
   | kPong \<Rightarrow> ''+PONG'' @ kNewLine
   | kSyntaxErr \<Rightarrow> ''-ERR syntax error'' @ kNewLine
   | kInvalidInt \<Rightarrow> ''-ERR value is not an integer or out of range'' @ kNewLine
   | kInvalidBitInt \<Rightarrow> ''-ERR bit is not an integer or out of range'' @ kNewLine
   | kInvalidBitOffsetInt \<Rightarrow> ''-ERR bit offset is not an integer or out of range'' @ kNewLine
   | kWrongBitOpNotNum \<Rightarrow> ''-ERR BITOP NOT must be called with a single source key.'' @ kNewLine
   | kInvalidBitPosArgument \<Rightarrow> ''-ERR The bit argument must be 1 or 0.'' @ kNewLine
   | kInvalidFloat \<Rightarrow> ''-ERR value is not a valid float'' @ kNewLine
   | kOverFlow \<Rightarrow> ''-ERR increment or decrement would overflow'' @ kNewLine
   | kNotFound \<Rightarrow> ''-ERR no such key'' @ kNewLine
   | kOutOfRange \<Rightarrow> ''-ERR index out of range'' @ kNewLine
   | kInvalidPwd \<Rightarrow> ''-ERR invalid password'' @ kNewLine
   | kNoneBgsave \<Rightarrow> ''-ERR No BGSave Works now'' @ kNewLine
   | kPurgeExist \<Rightarrow> ''-ERR binlog already in purging...'' @ kNewLine
   | kInvalidParameter \<Rightarrow> ''-ERR Invalid Argument'' @ kNewLine
   | kWrongNum \<Rightarrow> ''-ERR wrong number of arguments for '' @ [CHR 0x27] @ cr_message r @ [CHR 0x27] @ '' command'' @ kNewLine
   | kInvalidIndex \<Rightarrow> ''-ERR invalid DB index for '' @ [CHR 0x27] @ cr_message r @ [CHR 0x27] @ kNewLine
   | kInvalidDbType \<Rightarrow> ''-ERR invalid DB for '' @ [CHR 0x27] @ cr_message r @ [CHR 0x27] @ kNewLine
   | kInconsistentHashTag \<Rightarrow> ''-ERR parameters hashtag is inconsistent'' @ kNewLine
   | kInvalidTable \<Rightarrow> ''-ERR invalid Table for '' @ [CHR 0x27] @ cr_message r @ [CHR 0x27] @ kNewLine
   | kErrOther \<Rightarrow> ''-ERR '' @ cr_message r @ kNewLine)"

definition AppendStringLen :: "(int \<Rightarrow> string) \<Rightarrow> int \<Rightarrow> CmdRes \<Rightarrow> CmdRes" where
  "AppendStringLen ll2string ori r = r\<lparr>cr_message := RedisAppendLen ll2string (cr_message r) ori ''$''\<rparr>"

definition AppendArrayLen :: "(int \<Rightarrow> string) \<Rightarrow> int \<Rightarrow> CmdRes \<Rightarrow> CmdRes" where
  "AppendArrayLen ll2string ori r = r\<lparr>cr_message := RedisAppendLen ll2string (cr_message r) ori ''*''\<rparr>"

definition AppendInteger :: "(int \<Rightarrow> string) \<Rightarrow> int \<Rightarrow> CmdRes \<Rightarrow> CmdRes" where
  "AppendInteger ll2string ori r = r\<lparr>cr_message := RedisAppendLen ll2string (cr_message r) ori '':''\<rparr>"

definition AppendContent :: "string \<Rightarrow> CmdRes \<Rightarrow> CmdRes" where
  "AppendContent v r = r\<lparr>cr_message := RedisAppendContent (cr_message r) v\<rparr>"

definition AppendString :: "(int \<Rightarrow> string) \<Rightarrow> string \<Rightarrow> CmdRes \<Rightarrow> CmdRes" where
  "AppendString ll2string v r = AppendContent v (AppendStringLen ll2string (int (length v)) r)"

text \<open>
  The overload for a temporary, which has a capacity: when there is room it writes the length into a
  buffer of 16 bytes and inserts that in front of the value. \<open>None\<close> stands for a write behind the buffer.
\<close>

definition AppendString_move :: "(int \<Rightarrow> string) \<Rightarrow> nat \<Rightarrow> string \<Rightarrow> CmdRes \<Rightarrow> CmdRes option" where
  "AppendString_move ll2string capacity v r =
     (if cr_message r = [] \<and> length v + 12 < capacity
      then let digits = ll2string (int (length v));
               buf = CHR ''$'' # digits @ kNewLine
           in if length digits + 2 < 16 then Some (r\<lparr>cr_message := (buf @ v) @ kNewLine\<rparr>) else None
      else Some (AppendContent v (AppendStringLen ll2string (int (length v)) r)))"

definition AppendStringRaw :: "string \<Rightarrow> CmdRes \<Rightarrow> CmdRes" where
  "AppendStringRaw v r = r\<lparr>cr_message := cr_message r @ v\<rparr>"

definition SetRes :: "CmdRet \<Rightarrow> CmdRes \<Rightarrow> CmdRes" where
  "SetRes ret r = r\<lparr>cr_ret := ret\<rparr>"

text \<open>The overloads with a text; an empty text leaves the message as it is.\<close>

definition SetRes_content :: "CmdRet \<Rightarrow> string \<Rightarrow> CmdRes \<Rightarrow> CmdRes" where
  "SetRes_content ret content r =
     (let r = r\<lparr>cr_ret := ret\<rparr> in if content \<noteq> [] then r\<lparr>cr_message := content\<rparr> else r)"

lemmas cmd_res_simps = AppendStringLen_def AppendArrayLen_def AppendInteger_def AppendContent_def AppendString_def AppendStringRaw_def
  SetRes_def SetRes_content_def RedisAppendLen_def RedisAppendContent_def Let_def

section \<open>Numbers\<close>

text \<open>
  The contract of \<^verbatim>\<open>slash::ll2string\<close> and \<^verbatim>\<open>slash::string2l\<close>: the first prints the decimal numeral of a
  64-bit integer, and the second reads such a numeral back.
\<close>

definition int64 :: "int \<Rightarrow> bool" where
  "int64 i \<longleftrightarrow> - (2 ^ 63) \<le> i \<and> i < 2 ^ 63"

locale slash_numbers =
  fixes ll2string :: "int \<Rightarrow> string"
    and string2l :: "string \<Rightarrow> int option"
  assumes ll2string_dec: "ll2string i = dec_string i"
    and string2l_dec: "int64 i \<Longrightarrow> string2l (dec_string i) = Some i"
    and string2l_range: "string2l s = Some i \<Longrightarrow> int64 i"
begin

lemma string2l_ll2string: "int64 i \<Longrightarrow> string2l (ll2string i) = Some i"
  by (simp add: ll2string_dec string2l_dec)

lemma ll2string_nat: "ll2string (int n) = dec_digits n"
  by (simp add: ll2string_dec dec_string_def)

end

definition read_int :: "string \<Rightarrow> int option" where
  "read_int s =
     (let (neg, ds) = (case s of c # cs \<Rightarrow> if c = CHR ''-'' then (True, cs) else (False, s) | [] \<Rightarrow> (False, []));
          i = (if neg then - int (dec_val ds) else int (dec_val ds))
      in if ds \<noteq> [] \<and> list_all is_digit ds \<and> int64 i then Some i else None)"

lemma hd_dec_digits: "dec_digits n = c # cs \<Longrightarrow> c \<noteq> CHR ''-''"
  using dec_digits_digits [of c n] by (auto simp: is_digit_def)

lemma read_int_dec_string: "int64 i \<Longrightarrow> read_int (dec_string i) = Some i"
proof (cases "i < 0")
  case True
  assume "int64 i"
  with True show ?thesis
    by (auto simp: read_int_def dec_string_def list_all_iff dec_digits_digits Let_def)
next
  case False
  assume i: "int64 i"
  obtain c cs where c: "dec_digits (nat i) = c # cs" by (cases "dec_digits (nat i)") auto
  then have "list_all is_digit (c # cs)" "dec_val (c # cs) = nat i" "c \<noteq> CHR ''-''"
    using dec_digits_digits [of _ "nat i"] dec_val_dec_digits [of "nat i"] hd_dec_digits by (auto simp: list_all_iff)
  with i False c show ?thesis by (simp add: read_int_def dec_string_def)
qed

interpretation dec: slash_numbers dec_string read_int
  by unfold_locales (auto simp: read_int_dec_string, auto simp: read_int_def Let_def split: if_splits prod.splits list.splits)

section \<open>Requests\<close>

text \<open>A request as a client or the binlog holds it, an array of bulk strings.\<close>

definition bulk :: "string \<Rightarrow> string" where
  "bulk v = ''$'' @ dec_digits (length v) @ kNewLine @ v @ kNewLine"

definition request :: "string list \<Rightarrow> string" where
  "request argv = ''*'' @ dec_digits (length argv) @ kNewLine @ concat (map bulk argv)"

text \<open>A reader of requests, the reference for the parser of the pink library.\<close>

definition read_len :: "string \<Rightarrow> (nat \<times> string) option" where
  "read_len s =
     (let d = takeWhile is_digit s; r = dropWhile is_digit s
      in if d \<noteq> [] \<and> take 2 r = kNewLine then Some (dec_val d, drop 2 r) else None)"

fun read_bulks :: "nat \<Rightarrow> string \<Rightarrow> (string list \<times> string) option" where
  "read_bulks 0 s = Some ([], s)"
| "read_bulks (Suc n) s =
     (case s of
        [] \<Rightarrow> None
      | c # s \<Rightarrow>
          if c \<noteq> CHR ''$'' then None
          else case read_len s of
                 None \<Rightarrow> None
               | Some (k, s) \<Rightarrow>
                   if length s < k \<or> take 2 (drop k s) \<noteq> kNewLine then None
                   else case read_bulks n (drop (k + 2) s) of None \<Rightarrow> None | Some (vs, r) \<Rightarrow> Some (take k s # vs, r))"

definition redis_parse :: "string \<Rightarrow> string list option" where
  "redis_parse s =
     (case s of
        [] \<Rightarrow> None
      | c # s \<Rightarrow>
          if c \<noteq> CHR ''*'' then None
          else case read_len s of
                 None \<Rightarrow> None
               | Some (n, s) \<Rightarrow> (case read_bulks n s of Some (argv, []) \<Rightarrow> Some argv | _ \<Rightarrow> None))"

lemma read_len_digits: "read_len (dec_digits n @ kNewLine @ r) = Some (n, r)"
proof -
  have "\<forall>c\<in>set (dec_digits n). is_digit c" using dec_digits_digits by blast
  then have "takeWhile is_digit (dec_digits n @ kNewLine @ r) = dec_digits n" "dropWhile is_digit (dec_digits n @ kNewLine @ r) = kNewLine @ r"
    using takeWhile_all_prefix [of "dec_digits n" is_digit "kNewLine @ r"] by (simp_all add: kNewLine_def is_digit_def)
  then show ?thesis by (simp add: read_len_def kNewLine_def)
qed

lemma length_kNewLine: "length kNewLine = 2"
  by (simp add: kNewLine_def)

lemma read_bulks_bulk: "read_bulks (length argv) (concat (map bulk argv) @ r) = Some (argv, r)"
proof (induction argv)
  case (Cons v argv)
  have "bulk v @ x = CHR ''$'' # dec_digits (length v) @ kNewLine @ v @ kNewLine @ x" for x by (simp add: bulk_def)
  with Cons show ?case by (simp add: read_len_digits length_kNewLine)
qed simp

lemma redis_parse_request: "redis_parse (request argv) = Some argv"
  using read_bulks_bulk [of argv "[]"] by (simp add: redis_parse_def request_def read_len_digits)

section \<open>Replies\<close>

text \<open>
  The replies a client reads: a status, an error or an integer on a line, a bulk string, a missing
  value, and an array of replies.
\<close>

definition one_line :: "string \<Rightarrow> bool" where
  "one_line v \<longleftrightarrow> CHR 0x0D \<notin> set v \<and> CHR 0x0A \<notin> set v"

inductive reply :: "string \<Rightarrow> bool" where
  status: "one_line v \<Longrightarrow> reply (''+'' @ v @ kNewLine)"
| error: "one_line v \<Longrightarrow> reply (''-'' @ v @ kNewLine)"
| integer: "reply ('':'' @ dec_string i @ kNewLine)"
| bulk: "reply (bulk v)"
| nil: "reply (''$-1'' @ kNewLine)"
| nil_array: "reply (''*-1'' @ kNewLine)"
| array: "\<forall>v\<in>set vs. reply v \<Longrightarrow> reply (''*'' @ dec_digits (length vs) @ kNewLine @ concat vs)"

lemma one_line_append [simp]: "one_line (v @ w) \<longleftrightarrow> one_line v \<and> one_line w"
  by (auto simp: one_line_def)

lemma one_line_Cons [simp]: "one_line (c # w) \<longleftrightarrow> c \<noteq> CHR 0x0D \<and> c \<noteq> CHR 0x0A \<and> one_line w"
  by (auto simp: one_line_def)

lemma one_line_Nil [simp]: "one_line []"
  by (simp add: one_line_def)

lemma status_reply: "s = ''+'' @ v @ kNewLine \<Longrightarrow> one_line v \<Longrightarrow> reply s"
  by (simp only: reply.status)

lemma error_reply: "s = ''-'' @ v @ kNewLine \<Longrightarrow> one_line v \<Longrightarrow> reply s"
  by (simp only: reply.error)

lemma reply_code:
  assumes "cr_ret r \<noteq> kNone" and "one_line (cr_message r)"
  shows "reply (CmdRes_message r)"
proof (cases "cr_ret r = kOk \<or> cr_ret r = kPong")
  case True
  then show ?thesis
    by (elim disjE) (rule status_reply [where v = "tl (takeWhile (\<lambda>c. c \<noteq> CHR 0x0D) (CmdRes_message r))"],
      simp_all add: CmdRes_message_def kNewLine_def)+
next
  case False
  have "\<exists>v. CmdRes_message r = ''-'' @ v @ kNewLine \<and> one_line v"
    using False assms by (cases "cr_ret r") (simp_all add: CmdRes_message_def)
  then show ?thesis using error_reply by blast
qed

text \<open>The overload that writes in place gives what the general one gives.\<close>

lemma AppendString_move_eq:
  assumes "length v < 10 ^ 13"
  shows "AppendString_move dec_string capacity v r = Some (AppendString dec_string v r)"
proof -
  have "length (dec_digits (length v)) \<le> 13" using length_dec_digits_le [OF assms] by simp
  then show ?thesis by (simp add: AppendString_move_def cmd_res_simps dec_string_def)
qed

end
