(* ===== verification/Pika_Table.thy ===== *)
theory Pika_Table
  imports Pika_Define Pika_Data_Distribution
begin

text \<open>
  Tables and their partitions: \<^verbatim>\<open>src/pika_table.cc\<close>, the table directory of \<^verbatim>\<open>src/pika_server.cc\<close>, and the
  map of the master partitions in \<^verbatim>\<open>include/pika_rm.h\<close>. A table holds its partitions in an array of slots;
  a slot may be empty. The partition itself is a type variable, its own operations are arguments. \<open>None\<close>
  stands for a failed assertion, an index out of range or the use of an empty slot. The locks are not
  modelled: each operation is one step.
\<close>

section \<open>Model\<close>

definition kMaxDbNum :: nat where "kMaxDbNum = 8"

definition DbIdxFromStr :: "string \<Rightarrow> nat option" where
  "DbIdxFromStr strDbIdx =
     (if length strDbIdx = 3 \<and> strDbIdx ! 0 = CHR ''d'' \<and> strDbIdx ! 1 = CHR ''b''
         \<and> of_char CHR ''0'' \<le> (of_char (strDbIdx ! 2) :: nat) \<and> (of_char (strDbIdx ! 2) :: nat) \<le> of_char CHR ''7''
      then Some (of_char (strDbIdx ! 2) - of_char CHR ''0'') else None)"

record KeyInfo =
  ki_keys :: u64
  ki_expires :: u64
  ki_avg_ttl :: u64
  ki_invaild_keys :: u64

definition KeyInfo0 :: KeyInfo where
  "KeyInfo0 = \<lparr>ki_keys = 0, ki_expires = 0, ki_avg_ttl = 0, ki_invaild_keys = 0\<rparr>"

record KeyScanInfo =
  ks_start_time :: int
  ks_duration :: int
  ks_key_infos :: "KeyInfo list"
  ks_key_scaning :: bool

definition KeyScanInfo0 :: KeyScanInfo where
  "KeyScanInfo0 = \<lparr>ks_start_time = 0, ks_duration = -3, ks_key_infos = replicate 5 KeyInfo0, ks_key_scaning = False\<rparr>"

record 'p Table =
  tb_table_name :: string
  tb_partition_num :: u32
  tb_db_path :: string
  tb_log_path :: string
  tb_binlog_io_error :: bool
  tb_partitions :: "(u32 \<times> 'p option) list"
  tb_key_scan_info :: KeyScanInfo

definition TablePath :: "string \<Rightarrow> string \<Rightarrow> string" where
  "TablePath path table_name = path @ take 99 (table_name @ ''/'')"

definition Table_new :: "string \<Rightarrow> u32 \<Rightarrow> string \<Rightarrow> string \<Rightarrow> 'p Table" where
  "Table_new table_name partition_num db_path log_path =
     \<lparr>tb_table_name = table_name, tb_partition_num = partition_num, tb_db_path = TablePath db_path table_name,
      tb_log_path = TablePath log_path (''log_'' @ table_name), tb_binlog_io_error = False,
      tb_partitions = replicate (unat partition_num) (0, None), tb_key_scan_info = KeyScanInfo0\<rparr>"

text \<open>A loop over all slots that uses the partition of each.\<close>

primrec each_partition :: "('p \<Rightarrow> 'p) \<Rightarrow> (u32 \<times> 'p option) list \<Rightarrow> (u32 \<times> 'p option) list option" where
  "each_partition f [] = Some []"
| "each_partition f (slot # slots) =
     (case snd slot of
        None \<Rightarrow> None
      | Some p \<Rightarrow> map_option (\<lambda>slots. (fst slot, Some (f p)) # slots) (each_partition f slots))"

definition BgSaveTable :: "('p \<Rightarrow> 'p) \<Rightarrow> 'p Table \<Rightarrow> 'p Table option" where
  "BgSaveTable BgSavePartition t = map_option (\<lambda>ps. t\<lparr>tb_partitions := ps\<rparr>) (each_partition BgSavePartition (tb_partitions t))"

definition CompactTable :: "('p \<Rightarrow> 'p) \<Rightarrow> 'p Table \<Rightarrow> 'p Table option" where
  "CompactTable Compact t = map_option (\<lambda>ps. t\<lparr>tb_partitions := ps\<rparr>) (each_partition Compact (tb_partitions t))"

definition FlushPartitionDB :: "('p \<Rightarrow> 'p) \<Rightarrow> 'p Table \<Rightarrow> (bool \<times> 'p Table) option" where
  "FlushPartitionDB FlushDB t =
     (if ks_key_scaning (tb_key_scan_info t) then Some (False, t)
      else map_option (\<lambda>ps. (True, t\<lparr>tb_partitions := ps\<rparr>)) (each_partition FlushDB (tb_partitions t)))"

definition FlushPartitionSubDB :: "(string \<Rightarrow> 'p \<Rightarrow> 'p) \<Rightarrow> string \<Rightarrow> 'p Table \<Rightarrow> (bool \<times> 'p Table) option" where
  "FlushPartitionSubDB FlushSubDB db_name t =
     (if ks_key_scaning (tb_key_scan_info t) then Some (False, t)
      else map_option (\<lambda>ps. (True, t\<lparr>tb_partitions := ps\<rparr>)) (each_partition (FlushSubDB db_name) (tb_partitions t)))"

definition SetBinlogIoError :: "'p Table \<Rightarrow> 'p Table" where
  "SetBinlogIoError t = t\<lparr>tb_binlog_io_error := True\<rparr>"

text \<open>
  The two loops of \<^verbatim>\<open>AddPartitions\<close> over the ids of a \<^verbatim>\<open>std::set\<close>, in ascending order: first all ids are
  checked, then the partitions are created.
\<close>

primrec add_check :: "u32 list \<Rightarrow> 'p Table \<Rightarrow> Status option" where
  "add_check [] t = Some OK"
| "add_check (pid # ids) t =
     (if pid \<ge> tb_partition_num t
      then Some (Corruption (''partition index out of range[0, '' @ dec_string (uint (tb_partition_num t - 1)) @ '']''))
      else if unat pid \<ge> length (tb_partitions t) then None
      else if snd (tb_partitions t ! unat pid) \<noteq> None
      then Some (Corruption (''partition '' @ dec_string (uint pid) @ '' already exist''))
      else add_check ids t)"

definition AddPartitions :: "(string \<Rightarrow> u32 \<Rightarrow> string \<Rightarrow> 'p) \<Rightarrow> u32 list \<Rightarrow> 'p Table \<Rightarrow> (Status \<times> 'p Table) option" where
  "AddPartitions new_partition partition_ids t =
     (case add_check partition_ids t of
        None \<Rightarrow> None
      | Some s \<Rightarrow>
          if \<not> ok s then Some (s, t)
          else Some (OK, t\<lparr>tb_partitions := fold (\<lambda>pid ps. ps[unat pid := (pid, Some (new_partition (tb_table_name t) pid (tb_db_path t)))])
                                              partition_ids (tb_partitions t)\<rparr>))"

primrec remove_check :: "u32 list \<Rightarrow> 'p Table \<Rightarrow> Status option" where
  "remove_check [] t = Some OK"
| "remove_check (pid # ids) t =
     (if unat pid \<ge> length (tb_partitions t) then None
      else if snd (tb_partitions t ! unat pid) = None then Some (Corruption (''partition '' @ dec_string (uint pid) @ '' not found''))
      else remove_check ids t)"

definition RemovePartitions :: "u32 list \<Rightarrow> 'p Table \<Rightarrow> (Status \<times> 'p Table) option" where
  "RemovePartitions partition_ids t =
     (case remove_check partition_ids t of
        None \<Rightarrow> None
      | Some s \<Rightarrow>
          if \<not> ok s then Some (s, t)
          else Some (OK, t\<lparr>tb_partitions := fold (\<lambda>pid ps. ps[unat pid := (fst (ps ! unat pid), None)]) partition_ids (tb_partitions t)\<rparr>))"

definition GetPartitionIds :: "'p Table \<Rightarrow> u32 set" where
  "GetPartitionIds t = fst ` set (tb_partitions t)"

definition GetPartitionById :: "u32 \<Rightarrow> 'p Table \<Rightarrow> 'p option option" where
  "GetPartitionById partition_id t =
     (if unat partition_id < length (tb_partitions t) then Some (snd (tb_partitions t ! unat partition_id)) else None)"

definition GetPartitionByKey ::
  "(string \<Rightarrow> u64) \<Rightarrow> bool \<Rightarrow> 't \<Rightarrow> string \<Rightarrow> 'p Table \<Rightarrow> 't distribution_map \<Rightarrow> ('p option \<times> 't distribution_map) option" where
  "GetPartitionByKey std_hash classic_mode tid key t dmap =
     (if tb_partition_num t = 0 then None
      else case DistributeKey std_hash classic_mode tid key (tb_partition_num t) dmap of
             None \<Rightarrow> None
           | Some (i, dmap) \<Rightarrow>
               if unat i < length (tb_partitions t) then Some (snd (tb_partitions t ! unat i), dmap) else None)"

definition TableIsEmpty :: "'p Table \<Rightarrow> bool" where
  "TableIsEmpty t = (tb_partitions t = [])"

definition LeaveAllPartition :: "'p Table \<Rightarrow> 'p Table option" where
  "LeaveAllPartition t = (if \<exists>slot\<in>set (tb_partitions t). snd slot = None then None else Some (t\<lparr>tb_partitions := []\<rparr>))"

text \<open>The rename into the trash is an argument that tells whether it works.\<close>

definition Table_Leave :: "(string \<Rightarrow> bool) \<Rightarrow> 'p Table \<Rightarrow> Status" where
  "Table_Leave renamed t =
     (if \<not> TableIsEmpty t then Corruption ''Table have partitions!''
      else if \<not> renamed (tb_db_path t) then Corruption ''Failed to move %s to trash'' else OK)"

section \<open>Key scan\<close>

definition KeyScan :: "'p Table \<Rightarrow> 'p Table" where
  "KeyScan t =
     (let info = tb_key_scan_info t
      in if ks_key_scaning info then t else t\<lparr>tb_key_scan_info := info\<lparr>ks_key_scaning := True, ks_duration := -2\<rparr>\<rparr>)"

definition Table_InitKeyScan :: "int \<Rightarrow> 'p Table \<Rightarrow> 'p Table" where
  "Table_InitKeyScan now t = t\<lparr>tb_key_scan_info := (tb_key_scan_info t)\<lparr>ks_start_time := now, ks_duration := -1\<rparr>\<rparr>"

definition KeyInfo_add :: "KeyInfo \<Rightarrow> KeyInfo \<Rightarrow> KeyInfo" where
  "KeyInfo_add a b = \<lparr>ki_keys = ki_keys a + ki_keys b, ki_expires = ki_expires a + ki_expires b,
     ki_avg_ttl = ki_avg_ttl a + ki_avg_ttl b, ki_invaild_keys = ki_invaild_keys a + ki_invaild_keys b\<rparr>"

text \<open>Adding the counts of one partition; there are slots for five kinds of values.\<close>

definition add_infos :: "KeyInfo list \<Rightarrow> KeyInfo list \<Rightarrow> KeyInfo list option" where
  "add_infos new_key_infos tmp_key_infos =
     (if length tmp_key_infos > length new_key_infos then None
      else Some (map2 KeyInfo_add new_key_infos (tmp_key_infos @ replicate (length new_key_infos - length tmp_key_infos) KeyInfo0)))"

primrec scan_loop ::
  "('p \<Rightarrow> Status \<times> KeyInfo list \<times> 'p) \<Rightarrow> (u32 \<times> 'p option) list \<Rightarrow> KeyInfo list \<Rightarrow> (Status \<times> KeyInfo list \<times> (u32 \<times> 'p option) list) option" where
  "scan_loop GetKeyNum [] infos = Some (OK, infos, [])"
| "scan_loop GetKeyNum (slot # slots) infos =
     (case snd slot of
        None \<Rightarrow> None
      | Some p \<Rightarrow>
          (case GetKeyNum p of (s, tmp_key_infos, p) \<Rightarrow>
             if ok s
             then (case add_infos infos tmp_key_infos of
                     None \<Rightarrow> None
                   | Some infos \<Rightarrow> map_option (\<lambda>(s, infos, slots). (s, infos, (fst slot, Some p) # slots)) (scan_loop GetKeyNum slots infos))
             else Some (s, infos, (fst slot, Some p) # slots)))"

definition RunKeyScan :: "('p \<Rightarrow> Status \<times> KeyInfo list \<times> 'p) \<Rightarrow> int \<Rightarrow> int \<Rightarrow> 'p Table \<Rightarrow> 'p Table option" where
  "RunKeyScan GetKeyNum now later t =
     (let t = Table_InitKeyScan now t
      in case scan_loop GetKeyNum (tb_partitions t) (replicate 5 KeyInfo0) of
           None \<Rightarrow> None
         | Some (s, infos, ps) \<Rightarrow>
             let info = tb_key_scan_info t;
                 info = info\<lparr>ks_duration := later - ks_start_time info\<rparr>;
                 info = (if ok s then info\<lparr>ks_key_infos := infos\<rparr> else info)
             in Some (t\<lparr>tb_partitions := ps, tb_key_scan_info := info\<lparr>ks_key_scaning := False\<rparr>\<rparr>))"

definition StopKeyScan :: "('p \<Rightarrow> 'p) \<Rightarrow> 'p Table \<Rightarrow> 'p Table option" where
  "StopKeyScan StopScanKeyNum t =
     map_option (\<lambda>ps. t\<lparr>tb_partitions := ps, tb_key_scan_info := (tb_key_scan_info t)\<lparr>ks_key_scaning := False\<rparr>\<rparr>)
       (each_partition StopScanKeyNum (tb_partitions t))"

section \<open>The directory of tables\<close>

type_synonym 'p tables = "(string \<times> 'p Table option) list"

record TableStruct =
  ts_table_name :: string
  ts_partition_num :: u32
  ts_partition_ids :: "u32 list"

definition GetTable :: "string \<Rightarrow> 'p tables \<Rightarrow> 'p Table option option" where
  "GetTable table_name tables =
     (case DbIdxFromStr table_name of
        None \<Rightarrow> None
      | Some idx \<Rightarrow> if idx < length tables then Some (snd (tables ! idx)) else None)"

definition set_table :: "string \<Rightarrow> 'p Table \<Rightarrow> 'p tables \<Rightarrow> 'p tables option" where
  "set_table name t tables =
     (case DbIdxFromStr name of
        None \<Rightarrow> None
      | Some idx \<Rightarrow> if idx < length tables then Some (tables[idx := (name, Some t)]) else None)"

primrec InitTableStruct ::
  "(string \<Rightarrow> u32 \<Rightarrow> string \<Rightarrow> 'p) \<Rightarrow> string \<Rightarrow> string \<Rightarrow> TableStruct list \<Rightarrow> 'p tables \<Rightarrow> 'p tables option" where
  "InitTableStruct new_partition db_path log_path [] tables = Some tables"
| "InitTableStruct new_partition db_path log_path (t # ts) tables =
     (case AddPartitions new_partition (ts_partition_ids t) (Table_new (ts_table_name t) (ts_partition_num t) db_path log_path) of
        None \<Rightarrow> None
      | Some (s, table_ptr) \<Rightarrow>
          (case set_table (ts_table_name t) table_ptr tables of
             None \<Rightarrow> None
           | Some tables \<Rightarrow> InitTableStruct new_partition db_path log_path ts tables))"

definition AddTableStruct :: "string \<Rightarrow> string \<Rightarrow> string \<Rightarrow> u32 \<Rightarrow> 'p tables \<Rightarrow> (Status \<times> 'p tables) option" where
  "AddTableStruct db_path log_path table_name num tables =
     (case GetTable table_name tables of
        None \<Rightarrow> None
      | Some (Some _) \<Rightarrow> Some (Corruption ''table already exist'', tables)
      | Some None \<Rightarrow> map_option (\<lambda>tables. (OK, tables)) (set_table table_name (Table_new table_name num db_path log_path) tables))"

definition DelTableStruct :: "(string \<Rightarrow> bool) \<Rightarrow> string \<Rightarrow> 'p tables \<Rightarrow> (Status \<times> 'p tables) option" where
  "DelTableStruct renamed table_name tables =
     (case DbIdxFromStr table_name of
        None \<Rightarrow> None
      | Some idx \<Rightarrow>
          if idx \<ge> length tables then None
          else case snd (tables ! idx) of
                 None \<Rightarrow> Some (Corruption ''table not found'', tables)
               | Some table \<Rightarrow>
                   if \<not> TableIsEmpty table then Some (Corruption ''table have partitions'', tables)
                   else let s = Table_Leave renamed table
                        in if \<not> ok s then Some (s, tables) else Some (OK, tables[idx := (fst (tables ! idx), None)]))"

definition GetTablePartitionIds :: "string \<Rightarrow> 'p tables \<Rightarrow> u32 set option" where
  "GetTablePartitionIds table_name tables =
     map_option (\<lambda>tab. case tab of None \<Rightarrow> {} | Some t \<Rightarrow> GetPartitionIds t) (GetTable table_name tables)"

definition IsTableExist :: "string \<Rightarrow> 'p tables \<Rightarrow> bool option" where
  "IsTableExist table_name tables = map_option (\<lambda>tab. tab \<noteq> None) (GetTable table_name tables)"

definition IsTablePartitionExist :: "string \<Rightarrow> u32 \<Rightarrow> 'p tables \<Rightarrow> bool option" where
  "IsTablePartitionExist table_name partition_id tables =
     (case GetTable table_name tables of
        None \<Rightarrow> None
      | Some None \<Rightarrow> Some False
      | Some (Some t) \<Rightarrow> map_option (\<lambda>p. p \<noteq> None) (GetPartitionById partition_id t))"

definition IsTableBinlogIoError :: "string \<Rightarrow> 'p tables \<Rightarrow> bool option" where
  "IsTableBinlogIoError table_name tables =
     map_option (\<lambda>tab. case tab of None \<Rightarrow> True | Some t \<Rightarrow> tb_binlog_io_error t) (GetTable table_name tables)"

definition Server_IsKeyScaning :: "'p tables \<Rightarrow> bool" where
  "Server_IsKeyScaning tables = (\<exists>(name, tab)\<in>set tables. case tab of None \<Rightarrow> False | Some t \<Rightarrow> ks_key_scaning (tb_key_scan_info t))"

definition GetPartitionByDbName :: "string \<Rightarrow> 'p tables \<Rightarrow> 'p option option" where
  "GetPartitionByDbName db_name tables =
     (case GetTable db_name tables of Some (Some t) \<Rightarrow> GetPartitionById 0 t | _ \<Rightarrow> None)"

definition GetTablePartitionById :: "string \<Rightarrow> u32 \<Rightarrow> 'p tables \<Rightarrow> 'p option option" where
  "GetTablePartitionById table_name partition_id tables =
     (case GetTable table_name tables of
        None \<Rightarrow> None
      | Some None \<Rightarrow> Some None
      | Some (Some t) \<Rightarrow> GetPartitionById partition_id t)"

definition GetTablePartitionByKey ::
  "(string \<Rightarrow> u64) \<Rightarrow> bool \<Rightarrow> 't \<Rightarrow> string \<Rightarrow> string \<Rightarrow> 'p tables \<Rightarrow> 't distribution_map \<Rightarrow> ('p option \<times> 't distribution_map) option" where
  "GetTablePartitionByKey std_hash classic_mode tid table_name key tables dmap =
     (case GetTable table_name tables of
        None \<Rightarrow> None
      | Some None \<Rightarrow> Some (None, dmap)
      | Some (Some t) \<Rightarrow> GetPartitionByKey std_hash classic_mode tid key t dmap)"

section \<open>The map of master partitions\<close>

type_synonym 'm partition_map = "(PartitionInfo \<times> 'm option) list"

definition PartitionMap_new :: "'m partition_map" where
  "PartitionMap_new = map (\<lambda>i. (\<lparr>pi_table_name = ''db'' @ dec_string (int i), pi_partition_id = 0\<rparr>, None)) [0..<kMaxDbNum]"

text \<open>\<^verbatim>\<open>find\<close>; the end of the map is \<open>Some None\<close>.\<close>

definition PartitionMap_find :: "PartitionInfo \<Rightarrow> 'm partition_map \<Rightarrow> 'm option option" where
  "PartitionMap_find key m =
     (case DbIdxFromStr (pi_table_name key) of
        None \<Rightarrow> None
      | Some idx \<Rightarrow> if idx < length m then Some (snd (m ! idx)) else None)"

text \<open>The slot \<^verbatim>\<open>operator[]\<close> refers to.\<close>

definition PartitionMap_slot :: "PartitionInfo \<Rightarrow> 'm partition_map \<Rightarrow> nat option" where
  "PartitionMap_slot key m =
     (if pi_partition_id key \<noteq> 0 then None
      else case DbIdxFromStr (pi_table_name key) of
             None \<Rightarrow> None
           | Some idx \<Rightarrow> if idx < length m \<and> pi_table_name key = pi_table_name (fst (m ! idx)) then Some idx else None)"

definition PartitionMap_get :: "PartitionInfo \<Rightarrow> 'm partition_map \<Rightarrow> 'm option option" where
  "PartitionMap_get key m = map_option (\<lambda>i. snd (m ! i)) (PartitionMap_slot key m)"

definition PartitionMap_put :: "PartitionInfo \<Rightarrow> 'm option \<Rightarrow> 'm partition_map \<Rightarrow> 'm partition_map option" where
  "PartitionMap_put key v m = map_option (\<lambda>i. m[i := (fst (m ! i), v)]) (PartitionMap_slot key m)"

definition PartitionMap_erase :: "PartitionInfo \<Rightarrow> 'm partition_map \<Rightarrow> 'm partition_map option" where
  "PartitionMap_erase key m = PartitionMap_put key None m"

section \<open>Adding and removing partitions\<close>

text \<open>The slots of a table: one per partition number, each used one labelled with its index.\<close>

definition table_ok :: "'p Table \<Rightarrow> bool" where
  "table_ok t \<longleftrightarrow> length (tb_partitions t) = unat (tb_partition_num t)
     \<and> (\<forall>i < length (tb_partitions t). snd (tb_partitions t ! i) \<noteq> None \<longrightarrow> fst (tb_partitions t ! i) = of_nat i)"

lemma table_ok_new: "table_ok (Table_new n k d l)"
  by (simp add: table_ok_def Table_new_def)

lemma table_okD: "table_ok t \<Longrightarrow> unat pid < length (tb_partitions t) \<longleftrightarrow> pid < tb_partition_num t"
  by (simp add: table_ok_def word_less_nat_alt)

definition slot_free :: "'p Table \<Rightarrow> u32 \<Rightarrow> bool" where
  "slot_free t pid \<longleftrightarrow> pid < tb_partition_num t \<and> snd (tb_partitions t ! unat pid) = None"

definition slot_used :: "'p Table \<Rightarrow> u32 \<Rightarrow> bool" where
  "slot_used t pid \<longleftrightarrow> pid < tb_partition_num t \<and> snd (tb_partitions t ! unat pid) \<noteq> None"

lemma add_check_ok:
  assumes "table_ok t"
  shows "\<exists>s. add_check ids t = Some s \<and> (s = OK \<longleftrightarrow> (\<forall>pid\<in>set ids. slot_free t pid))"
proof (induction ids)
  case (Cons pid ids)
  then show ?case
    using table_okD [OF assms, of pid] by (cases "pid < tb_partition_num t") (auto simp: slot_free_def not_less [symmetric])
qed simp

lemma remove_check_ok:
  assumes "table_ok t" and "\<forall>pid\<in>set ids. pid < tb_partition_num t"
  shows "\<exists>s. remove_check ids t = Some s \<and> (s = OK \<longleftrightarrow> (\<forall>pid\<in>set ids. slot_used t pid))"
  using assms(2)
proof (induction ids)
  case (Cons pid ids)
  then show ?case
    using table_okD [OF assms(1), of pid] by (auto simp: slot_used_def not_less [symmetric])
qed simp

lemma fold_slots:
  fixes g :: "u32 \<Rightarrow> (u32 \<times> 'p option) \<Rightarrow> u32 \<times> 'p option"
  assumes "distinct ids" and "i < length ps"
  shows "fold (\<lambda>pid ps. ps[unat pid := g pid (ps ! unat pid)]) ids ps ! i
    = (if of_nat i \<in> set ids \<and> unat (of_nat i :: u32) = i then g (of_nat i) (ps ! i) else ps ! i)"
  using assms
proof (induction ids arbitrary: ps)
  case (Cons pid ids)
  show ?case
  proof (cases "i = unat pid")
    case True
    then show ?thesis using Cons by simp
  next
    case False
    then have "of_nat i = pid \<and> unat (of_nat i :: u32) = i \<longleftrightarrow> False" by auto
    then show ?thesis using Cons False by auto
  qed
qed simp

lemma length_fold_slots: "length (fold (\<lambda>pid ps. ps[unat pid := g pid (ps ! unat pid)]) ids ps) = length ps"
  by (induction ids arbitrary: ps) simp_all

lemma fold_slots_ok:
  assumes t: "table_ok t" and ids: "distinct ids"
    and g: "\<And>pid slot. pid \<in> set ids \<Longrightarrow> snd (g pid slot) \<noteq> None \<Longrightarrow> fst (g pid slot) = pid"
  defines "t' \<equiv> t\<lparr>tb_partitions := fold (\<lambda>pid ps. ps[unat pid := g pid (ps ! unat pid)]) ids (tb_partitions t)\<rparr>"
  shows "table_ok t'"
    and "pid < tb_partition_num t \<Longrightarrow> snd (tb_partitions t' ! unat pid)
      = (if pid \<in> set ids then snd (g pid (tb_partitions t ! unat pid)) else snd (tb_partitions t ! unat pid))"
proof -
  have len: "length (tb_partitions t') = length (tb_partitions t)" by (simp add: t'_def length_fold_slots)
  have nth: "tb_partitions t' ! i = (if of_nat i \<in> set ids \<and> unat (of_nat i :: u32) = i then g (of_nat i) (tb_partitions t ! i) else tb_partitions t ! i)"
    if "i < length (tb_partitions t)" for i
    using fold_slots [OF ids that] by (simp add: t'_def)
  show "table_ok t'" using t g nth len by (auto simp: table_ok_def t'_def split: if_splits)
  show "snd (tb_partitions t' ! unat pid)
      = (if pid \<in> set ids then snd (g pid (tb_partitions t ! unat pid)) else snd (tb_partitions t ! unat pid))" if "pid < tb_partition_num t"
    using nth [of "unat pid"] that table_okD [OF t, of pid] by simp
qed

text \<open>
  \<^verbatim>\<open>AddPartitions\<close> adds all the partitions or none: it succeeds exactly when every number is below
  the partition number of the table and its slot is free. Then a lookup finds the new partitions, and
  every other lookup is as before; after an error all are. The slots stay in order.
\<close>

theorem add_partitions_all_or_nothing:
  assumes "table_ok t" and "distinct ids"
  shows "\<exists>s t'. AddPartitions new_partition ids t = Some (s, t') \<and> table_ok t' \<and> (s = OK \<longleftrightarrow> (\<forall>pid\<in>set ids. slot_free t pid))
    \<and> (\<forall>pid < tb_partition_num t. GetPartitionById pid t'
         = (if s = OK \<and> pid \<in> set ids then Some (Some (new_partition (tb_table_name t) pid (tb_db_path t))) else GetPartitionById pid t))"
proof -
  obtain s where s: "add_check ids t = Some s" "s = OK \<longleftrightarrow> (\<forall>pid\<in>set ids. slot_free t pid)" using add_check_ok [OF assms(1)] by blast
  let ?g = "\<lambda>pid (_ :: u32 \<times> 'a option). (pid, Some (new_partition (tb_table_name t) pid (tb_db_path t)))"
  let ?t' = "t\<lparr>tb_partitions := fold (\<lambda>pid ps. ps[unat pid := ?g pid (ps ! unat pid)]) ids (tb_partitions t)\<rparr>"
  show ?thesis
  proof (cases "s = OK")
    case True
    have ok: "table_ok ?t'" using fold_slots_ok(1) [OF assms, of ?g] by simp
    have "GetPartitionById pid ?t' = (if pid \<in> set ids then Some (Some (new_partition (tb_table_name t) pid (tb_db_path t))) else GetPartitionById pid t)"
      if "pid < tb_partition_num t" for pid
      using fold_slots_ok(2) [OF assms, of ?g pid] that table_okD [OF assms(1), of pid]
      using length_fold_slots [of ?g ids "tb_partitions t"] by (simp add: GetPartitionById_def)
    with True s ok show ?thesis by (intro exI [of _ OK] exI [of _ ?t']) (simp add: AddPartitions_def)
  next
    case False
    with s assms(1) show ?thesis by (intro exI [of _ s] exI [of _ t]) (simp add: AddPartitions_def)
  qed
qed

lemma each_partition_hole: "\<exists>slot\<in>set slots. snd slot = None \<Longrightarrow> each_partition f slots = None"
  by (induction slots) (auto split: option.splits)

text \<open>
  \<^verbatim>\<open>RemovePartitions\<close> of numbers below the partition number succeeds exactly when all of them are
  there, and then no lookup finds them any more while the others stay. It leaves their slots behind,
  empty: the table never counts as empty, so that it cannot be dropped, and every later loop over the
  partitions uses an empty slot.
\<close>

theorem remove_partitions_leaves_holes:
  assumes "table_ok t" and "distinct ids" and "\<forall>pid\<in>set ids. pid < tb_partition_num t" and "ids \<noteq> []"
  shows "\<exists>s t'. RemovePartitions ids t = Some (s, t') \<and> table_ok t' \<and> (s = OK \<longleftrightarrow> (\<forall>pid\<in>set ids. slot_used t pid))
    \<and> (\<forall>pid < tb_partition_num t. GetPartitionById pid t' = (if s = OK \<and> pid \<in> set ids then Some None else GetPartitionById pid t))
    \<and> (s = OK \<longrightarrow> Table_Leave renamed t' = Corruption ''Table have partitions!'' \<and> BgSaveTable f t' = None \<and> CompactTable f t' = None
         \<and> LeaveAllPartition t' = None \<and> StopKeyScan f t' = None)"
proof -
  obtain s where s: "remove_check ids t = Some s" "s = OK \<longleftrightarrow> (\<forall>pid\<in>set ids. slot_used t pid)" using remove_check_ok [OF assms(1,3)] by blast
  let ?g = "\<lambda>(pid :: u32) (slot :: u32 \<times> 'a option). (fst slot, None :: 'a option)"
  let ?t' = "t\<lparr>tb_partitions := fold (\<lambda>pid ps. ps[unat pid := ?g pid (ps ! unat pid)]) ids (tb_partitions t)\<rparr>"
  show ?thesis
  proof (cases "s = OK")
    case True
    have ok: "table_ok ?t'" using fold_slots_ok(1) [OF assms(1,2), of ?g] by simp
    have get: "GetPartitionById pid ?t' = (if pid \<in> set ids then Some None else GetPartitionById pid t)"
      if "pid < tb_partition_num t" for pid
      using fold_slots_ok(2) [OF assms(1,2), of ?g pid] that table_okD [OF assms(1), of pid]
      using length_fold_slots [of ?g ids "tb_partitions t"] by (simp add: GetPartitionById_def)
    obtain pid where pid: "pid \<in> set ids" "pid < tb_partition_num t" using assms(3,4) by (cases ids) auto
    then have lt: "unat pid < length (tb_partitions ?t')" using table_okD [OF assms(1), of pid] length_fold_slots [of ?g ids "tb_partitions t"] by simp
    with get [OF pid(2)] pid(1) have "snd (tb_partitions ?t' ! unat pid) = None" by (simp add: GetPartitionById_def)
    then have hole: "\<exists>slot\<in>set (tb_partitions ?t'). snd slot = None" using lt nth_mem by blast
    then have "tb_partitions ?t' \<noteq> []" by auto
    with True s ok get each_partition_hole [OF hole] hole show ?thesis
      by (intro exI [of _ OK] exI [of _ ?t'])
        (simp add: RemovePartitions_def Table_Leave_def TableIsEmpty_def BgSaveTable_def CompactTable_def LeaveAllPartition_def StopKeyScan_def)
  next
    case False
    with s assms(1) show ?thesis by (intro exI [of _ s] exI [of _ t]) (simp add: RemovePartitions_def)
  qed
qed

definition wit_table :: "nat Table" where
  "wit_table = (Table_new ''db0'' 3 ''./db/'' ''./log/'')\<lparr>tb_partitions := [(0, Some 10), (0, None), (2, Some 12)]\<rparr>"

lemma wit_table_ok: "table_ok wit_table"
  by (auto simp: wit_table_def Table_new_def table_ok_def less_Suc_eq nth_Cons split: nat.splits)

theorem add_partitions_all_or_nothing_witness:
  "\<exists>t'. AddPartitions (\<lambda>_ pid _. unat pid + 10) [1] wit_table = Some (OK, t') \<and> GetPartitionById 1 t' = Some (Some 11)
    \<and> GetPartitionById 2 t' = Some (Some 12)"
proof -
  have "\<forall>pid\<in>set [1]. slot_free wit_table pid" by (simp add: slot_free_def wit_table_def Table_new_def)
  moreover have "tb_partition_num wit_table = 3" "GetPartitionById 2 wit_table = Some (Some 12)"
    by (simp_all add: wit_table_def Table_new_def GetPartitionById_def)
  ultimately show ?thesis
    using add_partitions_all_or_nothing [OF wit_table_ok, of "[1]" "\<lambda>_ pid _. unat pid + 10"] by auto
qed

theorem remove_partitions_leaves_holes_witness:
  "\<exists>t'. RemovePartitions [2] wit_table = Some (OK, t') \<and> GetPartitionById 0 t' = Some (Some 10) \<and> BgSaveTable id t' = None"
proof -
  have "\<forall>pid\<in>set [2]. slot_used wit_table pid" "\<forall>pid\<in>set [2]. pid < tb_partition_num wit_table"
    by (simp_all add: slot_used_def wit_table_def Table_new_def)
  moreover have "(0 :: u32) < tb_partition_num wit_table" "GetPartitionById 0 wit_table = Some (Some 10)"
    by (simp_all add: wit_table_def Table_new_def GetPartitionById_def)
  ultimately show ?thesis
    using remove_partitions_leaves_holes [OF wit_table_ok, of "[2]" "\<lambda>_. True" id] by auto
qed

end
