(* ===== verification/Pika_Partition.thy ===== *)
theory Pika_Partition
  imports Pika_Table Pika_Consensus Pika_Cmd_Res
begin

text \<open>
  A partition and its background save, \<^verbatim>\<open>src/pika_partition.cc\<close>: the paths, opening, closing and
  exchanging the database, the flush operations, the key count and the info file a backup carries. The
  database is blackwidow's, a type variable; the directory operations, the database and the backup
  engine are arguments. \<open>None\<close> stands for a failed assertion or the use of a database that was reset.
\<close>

section \<open>Model\<close>

record BgSaveInfo =
  bs_bgsaving :: bool
  bs_start_time :: int
  bs_path :: string
  bs_offset :: LogOffset

definition BgSaveInfo0 :: BgSaveInfo where
  "BgSaveInfo0 = \<lparr>bs_bgsaving = False, bs_start_time = 0, bs_path = [], bs_offset = LogOffset0\<rparr>"

definition BgSaveInfo_Clear :: "BgSaveInfo \<Rightarrow> BgSaveInfo" where
  "BgSaveInfo_Clear i = i\<lparr>bs_bgsaving := False, bs_path := [], bs_offset := LogOffset0\<rparr>"

record 'd Partition =
  pt_table_name :: string
  pt_partition_id :: u32
  pt_db_path :: string
  pt_bgsave_sub_path :: string
  pt_dbsync_path :: string
  pt_partition_name :: string
  pt_opened :: bool
  pt_db :: "'d option"
  pt_key_scan_info :: KeyScanInfo
  pt_bgsave_info :: BgSaveInfo

text \<open>
  What the partition uses of the outside: directory operations, which tell whether they succeed, the
  database, whose \<^verbatim>\<open>Open\<close> may fail, the backup engine and the clock.
\<close>

record ('w, 'd) partition_env =
  px_Rename :: "string \<Rightarrow> string \<Rightarrow> 'w \<Rightarrow> bool \<times> 'w"
  px_DeleteDirIfExist :: "string \<Rightarrow> 'w \<Rightarrow> bool \<times> 'w"
  px_CreatePath :: "string \<Rightarrow> 'w \<Rightarrow> 'w"
  px_PurgeDir :: "string \<Rightarrow> 'w \<Rightarrow> 'w"
  px_Open :: "string \<Rightarrow> 'w \<Rightarrow> ('d \<times> 'w) option"
  px_GetKeyNum :: "'d \<Rightarrow> Status \<times> KeyInfo list"
  px_BackupOpen :: "'d \<Rightarrow> Status"
  px_SetBackupContent :: "'d \<Rightarrow> Status"
  px_CreateNewBackup :: "'d \<Rightarrow> string \<Rightarrow> 'w \<Rightarrow> Status \<times> 'w"
  px_time :: "'w \<Rightarrow> int"
  px_strftime :: "int \<Rightarrow> string"
  px_ToString :: "Status \<Rightarrow> string"

record partition_conf =
  pc_classic_mode :: bool
  pc_db_sync_path :: string
  pc_bgsave_path :: string
  pc_bgsave_prefix :: string
  pc_consensus_level :: int
  pc_host :: string
  pc_port :: int

definition PartitionPath :: "string \<Rightarrow> u32 \<Rightarrow> string" where
  "PartitionPath table_path partition_id = table_path @ take 15 (dec_string (uint partition_id) @ ''/'')"

definition PartitionName :: "string \<Rightarrow> u32 \<Rightarrow> string" where
  "PartitionName table_name partition_id = take 511 (''('' @ table_name @ '':'' @ dec_string (uint partition_id) @ '')'')"

definition BgsaveSubPath :: "string \<Rightarrow> u32 \<Rightarrow> string" where
  "BgsaveSubPath table_name partition_id = take 511 (table_name @ ''/'' @ dec_string (uint partition_id))"

definition DbSyncPath :: "string \<Rightarrow> string \<Rightarrow> u32 \<Rightarrow> bool \<Rightarrow> string" where
  "DbSyncPath sync_path table_name partition_id classic_mode =
     sync_path @ (if classic_mode then take 511 (table_name @ ''/'')
                  else take 511 (table_name @ ''/'' @ dec_string (uint partition_id) @ ''/''))"

definition Partition_new ::
  "('w, 'd) partition_env \<Rightarrow> partition_conf \<Rightarrow> string \<Rightarrow> u32 \<Rightarrow> string \<Rightarrow> 'w \<Rightarrow> ('d Partition \<times> 'w) option" where
  "Partition_new X cf table_name partition_id table_db_path w =
     (let db_path = (if pc_classic_mode cf then table_db_path else PartitionPath table_db_path partition_id)
      in case px_Open X db_path w of
           None \<Rightarrow> None
         | Some (db, w) \<Rightarrow>
             Some (\<lparr>pt_table_name = table_name, pt_partition_id = partition_id, pt_db_path = db_path,
                pt_bgsave_sub_path = (if pc_classic_mode cf then table_name else BgsaveSubPath table_name partition_id),
                pt_dbsync_path = DbSyncPath (pc_db_sync_path cf) table_name partition_id (pc_classic_mode cf),
                pt_partition_name = (if pc_classic_mode cf then table_name else PartitionName table_name partition_id),
                pt_opened = True, pt_db = Some db, pt_key_scan_info = KeyScanInfo0, pt_bgsave_info = BgSaveInfo0\<rparr>, w))"

definition Partition_Close :: "'d Partition \<Rightarrow> 'd Partition" where
  "Partition_Close p = (if \<not> pt_opened p then p else p\<lparr>pt_db := None, pt_opened := False\<rparr>)"

text \<open>Reading the last character of an empty path is out of range.\<close>

definition MoveToTrash :: "('w, 'd) partition_env \<Rightarrow> 'd Partition \<Rightarrow> 'w \<Rightarrow> 'w option" where
  "MoveToTrash X p w =
     (if pt_opened p then Some w
      else if pt_db_path p = [] then None
      else let dbpath = (if last (pt_db_path p) = CHR ''/'' then butlast (pt_db_path p) else pt_db_path p) @ ''_deleting/''
           in case px_Rename X (pt_db_path p) dbpath w of
                (False, w) \<Rightarrow> Some w
              | (True, w) \<Rightarrow> Some (px_PurgeDir X dbpath w))"

definition Partition_Leave :: "('w, 'd) partition_env \<Rightarrow> 'd Partition \<Rightarrow> 'w \<Rightarrow> ('d Partition \<times> 'w) option" where
  "Partition_Leave X p w = (let p = Partition_Close p in map_option (\<lambda>w. (p, w)) (MoveToTrash X p w))"

definition PrepareRsync :: "('w, 'd) partition_env \<Rightarrow> 'd Partition \<Rightarrow> 'w \<Rightarrow> 'w" where
  "PrepareRsync X p w =
     fold (\<lambda>d. px_CreatePath X (pt_dbsync_path p @ d)) [''strings'', ''hashes'', ''lists'', ''sets'', ''zsets'']
       (snd (px_DeleteDirIfExist X (pt_dbsync_path p) w))"

definition ChangeDb :: "('w, 'd) partition_env \<Rightarrow> string \<Rightarrow> 'd Partition \<Rightarrow> 'w \<Rightarrow> (bool \<times> 'd Partition \<times> 'w) option" where
  "ChangeDb X new_path p w =
     (if pt_db_path p = [] then None
      else let tmp_path = (if last (pt_db_path p) = CHR ''/'' then butlast (pt_db_path p) else pt_db_path p) @ ''_bak'';
               w = snd (px_DeleteDirIfExist X tmp_path w);
               p = p\<lparr>pt_db := None\<rparr>
           in case px_Rename X (pt_db_path p) tmp_path w of
                (False, w) \<Rightarrow> Some (False, p, w)
              | (True, w) \<Rightarrow>
                  (case px_Rename X new_path (pt_db_path p) w of
                     (False, w) \<Rightarrow> Some (False, p, w)
                   | (True, w) \<Rightarrow>
                       (case px_Open X (pt_db_path p) w of
                          None \<Rightarrow> None
                        | Some (db, w) \<Rightarrow> Some (True, p\<lparr>pt_db := Some db\<rparr>, snd (px_DeleteDirIfExist X tmp_path w)))))"

definition FlushSubDB :: "('w, 'd) partition_env \<Rightarrow> string \<Rightarrow> 'd Partition \<Rightarrow> 'w \<Rightarrow> (bool \<times> 'd Partition \<times> 'w) option" where
  "FlushSubDB X db_name p w =
     (if bs_bgsaving (pt_bgsave_info p) then Some (False, p, w)
      else if pt_db_path p = [] then None
      else let dbpath = (if last (pt_db_path p) \<noteq> CHR ''/'' then pt_db_path p @ ''/'' else pt_db_path p);
               sub_dbpath = dbpath @ db_name;
               del_dbpath = dbpath @ db_name @ ''_deleting'';
               w = snd (px_Rename X sub_dbpath del_dbpath w)
           in case px_Open X (pt_db_path p) w of
                None \<Rightarrow> None
              | Some (db, w) \<Rightarrow> Some (True, p\<lparr>pt_db := Some db\<rparr>, px_PurgeDir X del_dbpath w))"

section \<open>Key count\<close>

definition Partition_InitKeyScan :: "int \<Rightarrow> 'd Partition \<Rightarrow> 'd Partition" where
  "Partition_InitKeyScan now p = p\<lparr>pt_key_scan_info := (pt_key_scan_info p)\<lparr>ks_start_time := now, ks_duration := -1\<rparr>\<rparr>"

definition GetKeyNum ::
  "('w, 'd) partition_env \<Rightarrow> KeyInfo list \<Rightarrow> 'd Partition \<Rightarrow> 'w \<Rightarrow> (Status \<times> KeyInfo list \<times> 'd Partition) option" where
  "GetKeyNum X key_info p w =
     (if ks_key_scaning (pt_key_scan_info p) then Some (OK, ks_key_infos (pt_key_scan_info p), p)
      else let p = Partition_InitKeyScan (px_time X w) p;
               p = p\<lparr>pt_key_scan_info := (pt_key_scan_info p)\<lparr>ks_key_scaning := True, ks_duration := -2\<rparr>\<rparr>
           in case pt_db p of
                None \<Rightarrow> None
              | Some db \<Rightarrow>
                  (case px_GetKeyNum X db of (s, infos) \<Rightarrow>
                     if \<not> ok s then Some (Corruption (px_ToString X s), infos, p)
                     else Some (OK, infos,
                       p\<lparr>pt_key_scan_info := (pt_key_scan_info p)\<lparr>ks_key_infos := infos,
                          ks_duration := px_time X w - ks_start_time (pt_key_scan_info p), ks_key_scaning := False\<rparr>\<rparr>)))"

section \<open>Background save\<close>

text \<open>Whether the save is scheduled, and the partition.\<close>

definition BgSavePartition :: "'d Partition \<Rightarrow> bool \<times> 'd Partition" where
  "BgSavePartition p =
     (if bs_bgsaving (pt_bgsave_info p) then (False, p)
      else (True, p\<lparr>pt_bgsave_info := (pt_bgsave_info p)\<lparr>bs_bgsaving := True\<rparr>\<rparr>))"

definition InitBgsaveEnv :: "('w, 'd) partition_env \<Rightarrow> partition_conf \<Rightarrow> 'd Partition \<Rightarrow> 'w \<Rightarrow> bool \<times> 'd Partition \<times> 'w" where
  "InitBgsaveEnv X cf p w =
     (let now = px_time X w;
          time_sub_path = pc_bgsave_prefix cf @ take 8 (px_strftime X now);
          path = pc_bgsave_path cf @ time_sub_path @ ''/'' @ pt_bgsave_sub_path p;
          p = p\<lparr>pt_bgsave_info := (pt_bgsave_info p)\<lparr>bs_start_time := now, bs_path := path\<rparr>\<rparr>
      in case px_DeleteDirIfExist X path w of
           (False, w) \<Rightarrow> (False, p, w)
         | (True, w) \<Rightarrow>
             (case px_DeleteDirIfExist X (path @ ''_FAILED'') (px_CreatePath X path w) of
                (False, w) \<Rightarrow> (False, p, w)
              | (True, w) \<Rightarrow> (True, p, w)))"

text \<open>\<open>master\<close> is the master partition of the same name, if there is one.\<close>

definition InitBgsaveEngine ::
  "('w, 'd) partition_env \<Rightarrow> partition_conf \<Rightarrow> ('c, 'n, 'h) ConsensusCoordinator option \<Rightarrow> 'd Partition \<Rightarrow> (bool \<times> 'd Partition) option" where
  "InitBgsaveEngine X cf master p =
     (case pt_db p of
        None \<Rightarrow> None
      | Some db \<Rightarrow>
          if \<not> ok (px_BackupOpen X db) then Some (False, p)
          else case master of
                 None \<Rightarrow> Some (False, p)
               | Some st \<Rightarrow>
                   let offset = (if pc_consensus_level cf \<noteq> 0 then cx_applied_index (cc_context st)
                                 else case Binlog_GetProducerStatus (cc_binlog st) of
                                        (_, Some (filenum, off, _, _)) \<Rightarrow> \<lparr>b_offset = BinlogOffset filenum off, l_offset = LogicOffset0\<rparr>
                                      | (_, None) \<Rightarrow> LogOffset0);
                       p = p\<lparr>pt_bgsave_info := (pt_bgsave_info p)\<lparr>bs_offset := offset\<rparr>\<rparr>
                   in Some (ok (px_SetBackupContent X db), p))"

definition ClearBgsave :: "'d Partition \<Rightarrow> 'd Partition" where
  "ClearBgsave p = p\<lparr>pt_bgsave_info := BgSaveInfo_Clear (pt_bgsave_info p)\<rparr>"

definition FinishBgsave :: "'d Partition \<Rightarrow> 'd Partition" where
  "FinishBgsave p = p\<lparr>pt_bgsave_info := (pt_bgsave_info p)\<lparr>bs_bgsaving := False\<rparr>\<rparr>"

definition RunBgsaveEngine ::
  "('w, 'd) partition_env \<Rightarrow> partition_conf \<Rightarrow> ('c, 'n, 'h) ConsensusCoordinator option \<Rightarrow> 'd Partition \<Rightarrow> 'w
    \<Rightarrow> (bool \<times> 'd Partition \<times> 'w) option" where
  "RunBgsaveEngine X cf master p w =
     (case InitBgsaveEnv X cf p w of
        (False, p, w) \<Rightarrow> Some (False, ClearBgsave p, w)
      | (True, p, w) \<Rightarrow>
          (case InitBgsaveEngine X cf master p of
             None \<Rightarrow> None
           | Some (False, p) \<Rightarrow> Some (False, ClearBgsave p, w)
           | Some (True, p) \<Rightarrow>
               (case pt_db p of
                  None \<Rightarrow> None
                | Some db \<Rightarrow> (case px_CreateNewBackup X db (bs_path (pt_bgsave_info p)) w of (s, w) \<Rightarrow> Some (ok s, p, w)))))"

text \<open>The text of the info file, from the seconds the save took to the offset it is at.\<close>

definition nl :: string where "nl = [CHR 0x0A]"

definition info_text :: "partition_conf \<Rightarrow> int \<Rightarrow> LogOffset \<Rightarrow> string" where
  "info_text cf seconds offset =
     dec_string seconds @ ''s'' @ nl @ pc_host cf @ nl @ dec_string (pc_port cf) @ nl
     @ dec_string (uint (bo_filenum (b_offset offset))) @ nl @ dec_string (uint (bo_offset (b_offset offset))) @ nl
     @ (if pc_consensus_level cf \<noteq> 0
        then dec_string (uint (lo_term (l_offset offset))) @ nl @ dec_string (uint (lo_index (l_offset offset))) @ nl else [])"

text \<open>The task: \<open>write\<close> stores a text in a file, if the file can be opened.\<close>

definition DoBgSave ::
  "('w, 'd) partition_env \<Rightarrow> partition_conf \<Rightarrow> (string \<Rightarrow> string \<Rightarrow> 'w \<Rightarrow> 'w) \<Rightarrow> ('c, 'n, 'h) ConsensusCoordinator option
    \<Rightarrow> 'd Partition \<Rightarrow> 'w \<Rightarrow> ('d Partition \<times> 'w) option" where
  "DoBgSave X cf write master p w =
     (case RunBgsaveEngine X cf master p w of
        None \<Rightarrow> None
      | Some (success, p, w) \<Rightarrow>
          let info = pt_bgsave_info p;
              w = write (bs_path info @ ''/'' @ ''info'') (info_text cf (px_time X w - bs_start_time info) (bs_offset info)) w;
              w = (if \<not> success then snd (px_Rename X (bs_path info) (bs_path info @ ''_FAILED'') w) else w)
          in Some (FinishBgsave p, w))"

section \<open>Reading the info file\<close>

text \<open>The lines \<^verbatim>\<open>std::getline\<close> returns one after the other.\<close>

function getlines :: "string \<Rightarrow> string list" where
  "getlines [] = []"
| "getlines (c # s) =
     takeWhile (\<lambda>x. x \<noteq> CHR 0x0A) (c # s) # getlines (drop 1 (dropWhile (\<lambda>x. x \<noteq> CHR 0x0A) (c # s)))"
  by pat_completeness auto

termination
proof (relation "measure length")
  fix c :: char and s :: string
  have "length (dropWhile (\<lambda>x. x \<noteq> CHR 0x0A) (c # s)) \<le> length (c # s)" by (rule length_dropWhile_le)
  then have "length (drop 1 (dropWhile (\<lambda>x. x \<noteq> CHR 0x0A) (c # s))) < length (c # s)" by (simp del: dropWhile.simps)
  then show "(drop 1 (dropWhile (\<lambda>x. x \<noteq> CHR 0x0A) (c # s)), c # s) \<in> measure length" by simp
qed simp

record dbsync_info =
  di_master_ip :: string
  di_master_port :: int
  di_filenum :: int
  di_offset :: int
  di_term :: int
  di_index :: int

definition dbsync_info0 :: dbsync_info where
  "dbsync_info0 = \<lparr>di_master_ip = [], di_master_port = 0, di_filenum = 0, di_offset = 0, di_term = 0, di_index = 0\<rparr>"

text \<open>The loop over the lines; \<open>None\<close> is the report of a format error.\<close>

fun info_loop :: "(string \<Rightarrow> int option) \<Rightarrow> nat \<Rightarrow> string list \<Rightarrow> dbsync_info \<Rightarrow> dbsync_info option" where
  "info_loop string2l lineno [] i = Some i"
| "info_loop string2l lineno (line # lines) i =
     (let lineno = lineno + 1
      in if lineno = 2 then info_loop string2l lineno lines (i\<lparr>di_master_ip := line\<rparr>)
         else if lineno > 2 \<and> lineno < 8
         then (case string2l line of
                 None \<Rightarrow> None
               | Some tmp \<Rightarrow>
                   if tmp < 0 then None
                   else info_loop string2l lineno lines
                     (if lineno = 3 then i\<lparr>di_master_port := tmp\<rparr>
                      else if lineno = 4 then i\<lparr>di_filenum := tmp\<rparr>
                      else if lineno = 5 then i\<lparr>di_offset := tmp\<rparr>
                      else if lineno = 6 then i\<lparr>di_term := tmp\<rparr>
                      else i\<lparr>di_index := tmp\<rparr>))
         else if lineno > 8 then None
         else info_loop string2l lineno lines i)"

lemma getlines_line: "CHR 0x0A \<notin> set l \<Longrightarrow> getlines (l @ nl @ r) = l # getlines r"
proof (cases l)
  case Nil
  then show ?thesis by (simp add: nl_def)
next
  case (Cons c cs)
  assume l: "CHR 0x0A \<notin> set l"
  then have "takeWhile (\<lambda>x. x \<noteq> CHR 0x0A) (l @ nl @ r) = l" "dropWhile (\<lambda>x. x \<noteq> CHR 0x0A) (l @ nl @ r) = nl @ r"
    by (auto simp: nl_def takeWhile_append dropWhile_append)
  then show ?thesis using getlines.simps(2) [of c "cs @ nl @ r"] by (simp add: Cons nl_def)
qed

lemma dec_string_one_line: "CHR 0x0A \<notin> set (dec_string i)"
proof -
  have "\<not> is_digit CHR 0x0A" by (simp add: is_digit_def)
  then show ?thesis using dec_digits_digits by (auto simp: dec_string_def)
qed

lemma getlines_info:
  assumes "CHR 0x0A \<notin> set (pc_host cf)"
  shows "getlines (info_text cf seconds offset) =
    [dec_string seconds @ ''s'', pc_host cf, dec_string (pc_port cf),
     dec_string (uint (bo_filenum (b_offset offset))), dec_string (uint (bo_offset (b_offset offset)))]
    @ (if pc_consensus_level cf \<noteq> 0 then [dec_string (uint (lo_term (l_offset offset))), dec_string (uint (lo_index (l_offset offset)))] else [])"
proof -
  have s: "getlines ((dec_string seconds @ ''s'') @ nl @ r) = (dec_string seconds @ ''s'') # getlines r" for r
    using dec_string_one_line [of seconds] by (intro getlines_line) simp
  have d: "getlines (dec_string i @ nl @ r) = dec_string i # getlines r" for i r
    using dec_string_one_line [of i] by (rule getlines_line)
  have d0: "getlines (dec_string i @ nl) = [dec_string i]" for i using d [of i "[]"] by simp
  show ?thesis
    using s getlines_line [OF assms] by (simp add: info_text_def d d0)
qed

definition info_of :: "partition_conf \<Rightarrow> LogOffset \<Rightarrow> dbsync_info" where
  "info_of cf offset =
     \<lparr>di_master_ip = pc_host cf, di_master_port = pc_port cf, di_filenum = uint (bo_filenum (b_offset offset)),
      di_offset = uint (bo_offset (b_offset offset)),
      di_term = (if pc_consensus_level cf \<noteq> 0 then uint (lo_term (l_offset offset)) else 0),
      di_index = (if pc_consensus_level cf \<noteq> 0 then uint (lo_index (l_offset offset)) else 0)\<rparr>"

lemma info_loop_text:
  assumes "slash_numbers ll2string string2l" and "CHR 0x0A \<notin> set (pc_host cf)" and "0 \<le> pc_port cf" and "pc_port cf < 2 ^ 63"
    and "uint (bo_offset (b_offset offset)) < 2 ^ 63" and "uint (lo_index (l_offset offset)) < 2 ^ 63"
  shows "info_loop string2l 0 (getlines (info_text cf seconds offset)) dbsync_info0 = Some (info_of cf offset)"
proof -
  have r: "string2l (dec_string i) = Some i" if "0 \<le> i" "i < 2 ^ 63" for i
    using slash_numbers.string2l_dec [OF assms(1), of i] that by (simp add: int64_def)
  have small: "uint (x :: u32) < 2 ^ 63" for x
  proof -
    have "uint x < 2 ^ LENGTH(32)" by (rule unsigned_less)
    then show ?thesis by simp
  qed
  have p: "string2l (dec_string (pc_port cf)) = Some (pc_port cf)"
    "string2l (dec_string (uint (bo_filenum (b_offset offset)))) = Some (uint (bo_filenum (b_offset offset)))"
    "string2l (dec_string (uint (bo_offset (b_offset offset)))) = Some (uint (bo_offset (b_offset offset)))"
    "string2l (dec_string (uint (lo_term (l_offset offset)))) = Some (uint (lo_term (l_offset offset)))"
    "string2l (dec_string (uint (lo_index (l_offset offset)))) = Some (uint (lo_index (l_offset offset)))"
    by (rule r; use assms(3-) small in \<open>force\<close>)+
  show ?thesis
    using assms(3) by (auto simp: getlines_info [OF assms(2)] p dbsync_info0_def info_of_def Let_def not_less)
qed

section \<open>Failures\<close>

text \<open>
  When counting the keys fails once, every later count reports success with the numbers of the last
  count that worked, whatever state the database is in: the flag of a running scan is not taken back.
\<close>

theorem key_count_failure_sticks:
  assumes "\<not> ks_key_scaning (pt_key_scan_info p)" and "pt_db p = Some db" and "px_GetKeyNum X db = (s, infos)" and "s \<noteq> OK"
  shows "\<exists>p'. GetKeyNum X k p w = Some (Corruption (px_ToString X s), infos, p')
    \<and> (\<forall>Y k' db' w'. GetKeyNum Y k' (p'\<lparr>pt_db := db'\<rparr>) w' = Some (OK, ks_key_infos (pt_key_scan_info p), p'\<lparr>pt_db := db'\<rparr>))"
  using assms by (simp add: GetKeyNum_def Partition_InitKeyScan_def Let_def)

text \<open>
  When exchanging the database fails the partition is left without one, although it still counts as
  open; the comment of \<^verbatim>\<open>ChangeDb\<close> promises the old database. When it succeeds the partition serves the
  database found under the new path.
\<close>

theorem change_db_result:
  assumes "ChangeDb X new_path p w = Some (r, p', w')"
  shows "(\<not> r \<longrightarrow> p' = p\<lparr>pt_db := None\<rparr>)
    \<and> (r \<longrightarrow> (\<exists>w1 w2 db w3. px_Rename X new_path (pt_db_path p) w1 = (True, w2) \<and> px_Open X (pt_db_path p) w2 = Some (db, w3)
          \<and> p' = p\<lparr>pt_db := Some db\<rparr>))"
  using assms by (auto simp: ChangeDb_def Let_def split: if_splits prod.splits bool.splits option.splits)

text \<open>An instance: the directories as a map from paths to databases, a database that counts nothing.\<close>

definition map_px :: "(string \<rightharpoonup> nat, nat) partition_env" where
  "map_px = \<lparr>
     px_Rename = (\<lambda>a b w. case w a of None \<Rightarrow> (False, w) | Some d \<Rightarrow> (True, (w(a := None))(b \<mapsto> d))),
     px_DeleteDirIfExist = (\<lambda>a w. (True, w(a := None))), px_CreatePath = (\<lambda>a w. w), px_PurgeDir = (\<lambda>a w. w(a := None)),
     px_Open = (\<lambda>a w. case w a of None \<Rightarrow> None | Some d \<Rightarrow> Some (d, w)),
     px_GetKeyNum = (\<lambda>d. if d = 0 then (IOError [], []) else (OK, replicate 5 KeyInfo0)),
     px_BackupOpen = (\<lambda>_. OK), px_SetBackupContent = (\<lambda>_. OK), px_CreateNewBackup = (\<lambda>_ _ w. (OK, w)), px_time = (\<lambda>_. 100),
     px_strftime = (\<lambda>_. ''20210101000000''), px_ToString = (\<lambda>_. ''IO error'')\<rparr>"

definition map_part :: "nat Partition" where
  "map_part = \<lparr>pt_table_name = ''db0'', pt_partition_id = 0, pt_db_path = ''db/'', pt_bgsave_sub_path = ''db0'', pt_dbsync_path = ''sync/'',
     pt_partition_name = ''db0'', pt_opened = True, pt_db = Some 0, pt_key_scan_info = KeyScanInfo0, pt_bgsave_info = BgSaveInfo0\<rparr>"

theorem key_count_failure_sticks_witness:
  "\<exists>p'. GetKeyNum map_px [] map_part Map.empty = Some (Corruption ''IO error'', [], p')
    \<and> GetKeyNum map_px [] (p'\<lparr>pt_db := Some 1\<rparr>) Map.empty = Some (OK, replicate 5 KeyInfo0, p'\<lparr>pt_db := Some 1\<rparr>)"
  using key_count_failure_sticks [of map_part 0 map_px "IOError []" "[]" "[]" Map.empty]
  by (force simp: map_px_def map_part_def KeyScanInfo0_def)

theorem change_db_result_witness:
  "\<exists>w'. ChangeDb map_px ''sync/'' map_part [''db/'' \<mapsto> 0] = Some (False, map_part\<lparr>pt_db := None\<rparr>, w')"
proof -
  obtain p' w' where e: "ChangeDb map_px ''sync/'' map_part [''db/'' \<mapsto> 0] = Some (False, p', w')"
    by (simp add: ChangeDb_def map_px_def map_part_def)
  with change_db_result [OF e] show ?thesis by simp
qed

end
