(* ===== verification/Pika_Command.thy ===== *)
theory Pika_Command
  imports Pika_Partition
begin

text \<open>
  The command framework of \<^verbatim>\<open>include/pika_command.h\<close> and \<^verbatim>\<open>src/pika_command.cc\<close>: the base class with its
  flags and its argument check, the dispatch of a command to one partition, to several or to none, its
  execution under the stages of consensus, and the step that puts a write into the binlog. The virtual
  functions of a command are a record, as its table of virtual functions is; \<^verbatim>\<open>Pika_Kv\<close> gives
  such tables. Locks and timings are not modelled. \<open>None\<close> stands for a failed check or the use of a
  null pointer.
\<close>

section \<open>Commands\<close>

datatype CmdStage = kNoneStage | kBinlogStage | kExecuteStage

datatype SpecialCmd = kGeneral | kFlushDB | kFlushAll | kInfo | kConfig

record 'n Cmd =
  cmd_name :: string
  cmd_special :: SpecialCmd
  cmd_stage :: CmdStage
  cmd_arity :: int
  cmd_flag :: u16
  cmd_res :: CmdRes
  cmd_argv :: "string list"
  cmd_table_name :: string
  cmd_conn :: "'n option"
  cmd_resp :: bool

definition kCmdFlagsMaskRW :: u16 where "kCmdFlagsMaskRW = 1"
definition kCmdFlagsMaskLocal :: u16 where "kCmdFlagsMaskLocal = 32"
definition kCmdFlagsMaskSuspend :: u16 where "kCmdFlagsMaskSuspend = 64"
definition kCmdFlagsMaskAdminRequire :: u16 where "kCmdFlagsMaskAdminRequire = 256"
definition kCmdFlagsMaskPartition :: u16 where "kCmdFlagsMaskPartition = 1536"

definition kCmdFlagsRead :: u16 where "kCmdFlagsRead = 0"
definition kCmdFlagsWrite :: u16 where "kCmdFlagsWrite = 1"
definition kCmdFlagsAdmin :: u16 where "kCmdFlagsAdmin = 0"
definition kCmdFlagsKv :: u16 where "kCmdFlagsKv = 2"
definition kCmdFlagsHash :: u16 where "kCmdFlagsHash = 4"
definition kCmdFlagsList :: u16 where "kCmdFlagsList = 6"
definition kCmdFlagsSet :: u16 where "kCmdFlagsSet = 8"
definition kCmdFlagsZset :: u16 where "kCmdFlagsZset = 10"
definition kCmdFlagsBit :: u16 where "kCmdFlagsBit = 12"
definition kCmdFlagsHyperLogLog :: u16 where "kCmdFlagsHyperLogLog = 14"
definition kCmdFlagsGeo :: u16 where "kCmdFlagsGeo = 16"
definition kCmdFlagsPubSub :: u16 where "kCmdFlagsPubSub = 18"
definition kCmdFlagsLocal :: u16 where "kCmdFlagsLocal = 32"
definition kCmdFlagsSuspend :: u16 where "kCmdFlagsSuspend = 64"
definition kCmdFlagsAdminRequire :: u16 where "kCmdFlagsAdminRequire = 256"
definition kCmdFlagsDoNotSpecifyPartition :: u16 where "kCmdFlagsDoNotSpecifyPartition = 0"
definition kCmdFlagsSinglePartition :: u16 where "kCmdFlagsSinglePartition = 512"
definition kCmdFlagsMultiPartition :: u16 where "kCmdFlagsMultiPartition = 1024"

lemmas cmd_flag_defs = kCmdFlagsMaskRW_def kCmdFlagsMaskLocal_def kCmdFlagsMaskSuspend_def kCmdFlagsMaskAdminRequire_def
  kCmdFlagsMaskPartition_def kCmdFlagsRead_def kCmdFlagsWrite_def kCmdFlagsAdmin_def kCmdFlagsKv_def kCmdFlagsHash_def
  kCmdFlagsList_def kCmdFlagsSet_def kCmdFlagsZset_def kCmdFlagsBit_def kCmdFlagsHyperLogLog_def kCmdFlagsGeo_def
  kCmdFlagsPubSub_def kCmdFlagsLocal_def kCmdFlagsSuspend_def kCmdFlagsAdminRequire_def kCmdFlagsDoNotSpecifyPartition_def
  kCmdFlagsSinglePartition_def kCmdFlagsMultiPartition_def

definition kCmdDummy :: string where "kCmdDummy = ''dummy''"

definition Cmd_new :: "string \<Rightarrow> int \<Rightarrow> u16 \<Rightarrow> 'n Cmd option" where
  "Cmd_new name arity flag =
     (if length name < 31
      then Some \<lparr>cmd_name = name, cmd_special = kGeneral, cmd_stage = kNoneStage, cmd_arity = arity, cmd_flag = flag, cmd_res = CmdRes0,
             cmd_argv = [], cmd_table_name = [], cmd_conn = None, cmd_resp = False\<rparr>
      else None)"

definition is_write :: "('n, 'x) Cmd_scheme \<Rightarrow> bool" where
  "is_write c = (cmd_flag c AND kCmdFlagsMaskRW = kCmdFlagsWrite)"

definition is_local :: "('n, 'x) Cmd_scheme \<Rightarrow> bool" where
  "is_local c = (cmd_flag c AND kCmdFlagsMaskLocal = kCmdFlagsLocal)"

definition is_suspend :: "('n, 'x) Cmd_scheme \<Rightarrow> bool" where
  "is_suspend c = (cmd_flag c AND kCmdFlagsMaskSuspend = kCmdFlagsSuspend)"

definition is_admin_require :: "('n, 'x) Cmd_scheme \<Rightarrow> bool" where
  "is_admin_require c = (cmd_flag c AND kCmdFlagsMaskAdminRequire = kCmdFlagsAdminRequire)"

definition is_single_partition :: "('n, 'x) Cmd_scheme \<Rightarrow> bool" where
  "is_single_partition c = (cmd_flag c AND kCmdFlagsMaskPartition = kCmdFlagsSinglePartition)"

definition is_multi_partition :: "('n, 'x) Cmd_scheme \<Rightarrow> bool" where
  "is_multi_partition c = (cmd_flag c AND kCmdFlagsMaskPartition = kCmdFlagsMultiPartition)"

definition HashtagIsConsistent :: "bool \<Rightarrow> string \<Rightarrow> string \<Rightarrow> bool" where
  "HashtagIsConsistent classic_mode lhs rhs =
     (if classic_mode = False then (if GetHashkey lhs \<noteq> GetHashkey rhs then False else True) else True)"

definition CheckArg :: "int \<Rightarrow> ('n, 'x) Cmd_scheme \<Rightarrow> bool" where
  "CheckArg num c =
     (if (cmd_arity c > 0 \<and> num \<noteq> cmd_arity c) \<or> (cmd_arity c < 0 \<and> num < - cmd_arity c) then False else True)"

text \<open>The content of a binlog item: a request, written argument by argument.\<close>

definition append_arg :: "(int \<Rightarrow> string) \<Rightarrow> string \<Rightarrow> string \<Rightarrow> string" where
  "append_arg ll2string v content = RedisAppendContent (RedisAppendLen ll2string content (int (length v)) ''$'') v"

definition Cmd_ToBinlog ::
  "slash_coding \<Rightarrow> (int \<Rightarrow> string) \<Rightarrow> u32 \<Rightarrow> u32 \<Rightarrow> u64 \<Rightarrow> u32 \<Rightarrow> u64 \<Rightarrow> ('n, 'x) Cmd_scheme \<Rightarrow> bytes" where
  "Cmd_ToBinlog C ll2string exec_time term_id logic_id filenum offset c =
     (let content = RedisAppendLen ll2string [] (int (length (cmd_argv c))) ''*'';
          content = fold (append_arg ll2string) (cmd_argv c) content
      in BinlogEncode C TypeFirst exec_time term_id logic_id filenum offset content [])"

record HintKeys =
  hk_keys :: "string list"
  hk_hints :: "nat list"

definition HintKeys0 :: HintKeys where "HintKeys0 = \<lparr>hk_keys = [], hk_hints = []\<rparr>"

definition HintKeys_Push :: "string \<Rightarrow> nat \<Rightarrow> HintKeys \<Rightarrow> HintKeys" where
  "HintKeys_Push key hint h = h\<lparr>hk_keys := hk_keys h @ [key], hk_hints := hk_hints h @ [hint]\<rparr>"

definition HintKeys_empty :: "HintKeys \<Rightarrow> bool" where
  "HintKeys_empty h = (hk_keys h = [] \<and> hk_hints h = [])"

section \<open>The server around a command\<close>

record ('c, 'n, 'h, 'd, 't) node =
  nd_tables :: "'d Partition tables"
  nd_masters :: "('c, 'n, 'h) ConsensusCoordinator partition_map"
  nd_dmap :: "'t distribution_map"

text \<open>
  The virtual functions of a command; \<open>vt_Do_null\<close> is \<^verbatim>\<open>Do\<close> without a partition, by which the commands that
  administer the server act on all of it.
\<close>

record ('c, 's, 'd) cmd_vtable =
  vt_current_key :: "'c \<Rightarrow> string list"
  vt_Do :: "'c \<Rightarrow> 'd Partition \<Rightarrow> ('c \<times> 'd Partition) option"
  vt_Split :: "HintKeys \<Rightarrow> 'c \<Rightarrow> 'd Partition \<Rightarrow> ('c \<times> 'd Partition) option"
  vt_Merge :: "'c \<Rightarrow> 'c"
  vt_DoInitial :: "'c \<Rightarrow> 'c option"
  vt_Clear :: "'c \<Rightarrow> 'c"
  vt_Do_null :: "'c \<Rightarrow> 's \<Rightarrow> ('c \<times> 's) option"

text \<open>
  The rest of the configuration: whether writes are logged, the hash and the iteration order of the
  standard library's unordered containers, and the text of a status.
\<close>

record cmd_conf =
  cn_write_binlog :: bool
  cn_std_hash :: "string \<Rightarrow> u64"
  cn_map_order :: "(u32 \<times> HintKeys) list \<Rightarrow> (u32 \<times> HintKeys) list"
  cn_ToString :: "Status \<Rightarrow> string"

definition Cmd_Initial ::
  "(('n, 'x) Cmd_scheme, 's, 'd) cmd_vtable \<Rightarrow> string list \<Rightarrow> string \<Rightarrow> ('n, 'x) Cmd_scheme \<Rightarrow> ('n, 'x) Cmd_scheme option" where
  "Cmd_Initial vt argv table_name c =
     vt_DoInitial vt (vt_Clear vt (c\<lparr>cmd_argv := argv, cmd_table_name := table_name, cmd_res := CmdRes_clear (cmd_res c)\<rparr>))"

definition set_cmd_res :: "(CmdRes \<Rightarrow> CmdRes) \<Rightarrow> ('n, 'x) Cmd_scheme \<Rightarrow> ('n, 'x) Cmd_scheme" where
  "set_cmd_res f c = c\<lparr>cmd_res := f (cmd_res c)\<rparr>"

definition DoCommand ::
  "('n, 'x) Cmd_scheme coord_conf \<Rightarrow> (('n, 'x) Cmd_scheme, 's, 'd) cmd_vtable \<Rightarrow> HintKeys \<Rightarrow> ('n, 'x) Cmd_scheme \<Rightarrow> 'd Partition
    \<Rightarrow> (('n, 'x) Cmd_scheme \<times> 'd Partition) option" where
  "DoCommand cf vt hint_keys c p =
     (if \<not> HintKeys_empty hint_keys \<and> is_multi_partition c \<and> \<not> cf_classic_mode cf \<and> cf_consensus_level cf = 0
      then vt_Split vt hint_keys c p else vt_Do vt c p)"

definition DoBinlog ::
  "('w, 'e) slash_env \<Rightarrow> ('n, 'x) Cmd_scheme coord_conf \<Rightarrow> cmd_conf \<Rightarrow> ('n, 'x) Cmd_scheme
    \<Rightarrow> (('n, 'x) Cmd_scheme, 'n, 'h) ConsensusCoordinator \<Rightarrow> 'w
    \<Rightarrow> (('n, 'x) Cmd_scheme \<times> (('n, 'x) Cmd_scheme, 'n, 'h) ConsensusCoordinator \<times> 'w) option" where
  "DoBinlog E cf cn c st w =
     (if CmdRes_ok (cmd_res c) \<and> is_write c \<and> cn_write_binlog cn
      then if (cmd_conn c = None \<or> \<not> cmd_resp c) \<and> cmd_name c \<noteq> kCmdDummy
           then Some (set_cmd_res (SetRes kErrOther) c, st, w)
           else case ProposeLog E cf c (cmd_conn c) st w of
                  None \<Rightarrow> None
                | Some (s, st, w) \<Rightarrow>
                    if \<not> ok s then Some (set_cmd_res (SetRes_content kErrOther (cn_ToString cn s)) c, st, w)
                    else Some (c, st, w)
      else Some (c, st, w))"

definition InternalProcessCommand ::
  "('w, 'e) slash_env \<Rightarrow> ('n, 'x) Cmd_scheme coord_conf \<Rightarrow> cmd_conf \<Rightarrow> (('n, 'x) Cmd_scheme, 's, 'd) cmd_vtable \<Rightarrow> HintKeys
    \<Rightarrow> ('n, 'x) Cmd_scheme \<Rightarrow> 'd Partition \<Rightarrow> (('n, 'x) Cmd_scheme, 'n, 'h) ConsensusCoordinator \<Rightarrow> 'w
    \<Rightarrow> (('n, 'x) Cmd_scheme \<times> 'd Partition \<times> (('n, 'x) Cmd_scheme, 'n, 'h) ConsensusCoordinator \<times> 'w) option" where
  "InternalProcessCommand E cf cn vt hint_keys c p st w =
     (case DoCommand cf vt hint_keys c p of
        None \<Rightarrow> None
      | Some (c, p) \<Rightarrow> map_option (\<lambda>(c, st, w). (c, p, st, w)) (DoBinlog E cf cn c st w))"

definition ProcessCommand ::
  "('w, 'e) slash_env \<Rightarrow> ('n, 'x) Cmd_scheme coord_conf \<Rightarrow> cmd_conf \<Rightarrow> (('n, 'x) Cmd_scheme, 's, 'd) cmd_vtable \<Rightarrow> HintKeys
    \<Rightarrow> ('n, 'x) Cmd_scheme \<Rightarrow> 'd Partition \<Rightarrow> (('n, 'x) Cmd_scheme, 'n, 'h) ConsensusCoordinator \<Rightarrow> 'w
    \<Rightarrow> (('n, 'x) Cmd_scheme \<times> 'd Partition \<times> (('n, 'x) Cmd_scheme, 'n, 'h) ConsensusCoordinator \<times> 'w) option" where
  "ProcessCommand E cf cn vt hint_keys c p st w =
     (case cmd_stage c of
        kNoneStage \<Rightarrow> InternalProcessCommand E cf cn vt hint_keys c p st w
      | kBinlogStage \<Rightarrow> map_option (\<lambda>(c, st, w). (c, p, st, w)) (DoBinlog E cf cn c st w)
      | kExecuteStage \<Rightarrow> map_option (\<lambda>(c, p). (c, p, st, w)) (DoCommand cf vt hint_keys c p))"

section \<open>Dispatch\<close>

text \<open>Writing a partition and its master back; both are objects that the lookups share.\<close>

definition put_partition :: "string \<Rightarrow> nat \<Rightarrow> 'p \<Rightarrow> 'p tables \<Rightarrow> 'p tables" where
  "put_partition table_name i p tables =
     (case DbIdxFromStr table_name of
        None \<Rightarrow> tables
      | Some idx \<Rightarrow>
          (case snd (tables ! idx) of
             None \<Rightarrow> tables
           | Some t \<Rightarrow> tables[idx := (fst (tables ! idx), Some (t\<lparr>tb_partitions := (tb_partitions t)[i := (fst (tb_partitions t ! i), Some p)]\<rparr>))]))"

definition partition_info :: "'d Partition \<Rightarrow> PartitionInfo" where
  "partition_info p = \<lparr>pi_table_name = pt_table_name p, pi_partition_id = pt_partition_id p\<rparr>"

text \<open>
  A command on one partition of a table: the master of the same name is looked up, the command runs, and
  both objects are as it leaves them. \<open>i\<close> is the slot of the partition.
\<close>

definition run_on ::
  "('w, 'e) slash_env \<Rightarrow> ('n, 'x) Cmd_scheme coord_conf \<Rightarrow> cmd_conf \<Rightarrow> (('n, 'x) Cmd_scheme, 's, 'd) cmd_vtable \<Rightarrow> HintKeys
    \<Rightarrow> string \<Rightarrow> nat \<Rightarrow> 'd Partition \<Rightarrow> ('n, 'x) Cmd_scheme \<Rightarrow> (('n, 'x) Cmd_scheme, 'n, 'h, 'd, 't) node \<Rightarrow> 'w
    \<Rightarrow> (('n, 'x) Cmd_scheme \<times> (('n, 'x) Cmd_scheme, 'n, 'h, 'd, 't) node \<times> 'w) option" where
  "run_on E cf cn vt hint_keys table_name i p c nd w =
     (case PartitionMap_get (partition_info p) (nd_masters nd) of
        None \<Rightarrow> None
      | Some None \<Rightarrow> Some (set_cmd_res (SetRes_content kErrOther ''Partition not found'') c, nd, w)
      | Some (Some st) \<Rightarrow>
          (case ProcessCommand E cf cn vt hint_keys c p st w of
             None \<Rightarrow> None
           | Some (c, p', st, w) \<Rightarrow>
               map_option (\<lambda>masters. (c, nd\<lparr>nd_tables := put_partition table_name i p' (nd_tables nd), nd_masters := masters\<rparr>, w))
                 (PartitionMap_put (partition_info p) (Some st) (nd_masters nd))))"

definition ProcessSinglePartitionCmd ::
  "('w, 'e) slash_env \<Rightarrow> ('n, 'x) Cmd_scheme coord_conf \<Rightarrow> cmd_conf \<Rightarrow> (('n, 'x) Cmd_scheme, 's, 'd) cmd_vtable \<Rightarrow> 't
    \<Rightarrow> ('n, 'x) Cmd_scheme \<Rightarrow> (('n, 'x) Cmd_scheme, 'n, 'h, 'd, 't) node \<Rightarrow> 'w
    \<Rightarrow> (('n, 'x) Cmd_scheme \<times> (('n, 'x) Cmd_scheme, 'n, 'h, 'd, 't) node \<times> 'w) option" where
  "ProcessSinglePartitionCmd E cf cn vt tid c nd w =
     (let not_found = set_cmd_res (SetRes_content kErrOther ''Partition not found'') c;
          table_name = cmd_table_name c
      in if cf_classic_mode cf
         then (case GetPartitionByDbName table_name (nd_tables nd) of
                 None \<Rightarrow> None
               | Some None \<Rightarrow> Some (not_found, nd, w)
               | Some (Some p) \<Rightarrow> run_on E cf cn vt HintKeys0 table_name 0 p c nd w)
         else (case vt_current_key vt c of
                 [] \<Rightarrow> Some (set_cmd_res (SetRes_content kErrOther ''Internal Error'') c, nd, w)
               | key # _ \<Rightarrow>
                   (case GetTablePartitionByKey (cn_std_hash cn) False tid table_name key (nd_tables nd) (nd_dmap nd) of
                      None \<Rightarrow> None
                    | Some (None, dmap) \<Rightarrow> Some (not_found, nd\<lparr>nd_dmap := dmap\<rparr>, w)
                    | Some (Some p, dmap) \<Rightarrow>
                        run_on E cf cn vt HintKeys0 table_name (unat (pt_partition_id p)) p c (nd\<lparr>nd_dmap := dmap\<rparr>) w)))"

text \<open>
  The loop that distributes the keys of a command over the partitions. The map from partitions to their
  keys is a list in the order of insertion. The left alternative is the early return with an error.
\<close>

primrec split_keys ::
  "(string \<Rightarrow> u64) \<Rightarrow> bool \<Rightarrow> 't \<Rightarrow> 'd Partition Table \<Rightarrow> 'm partition_map \<Rightarrow> string list \<Rightarrow> nat \<Rightarrow> (u32 \<times> HintKeys) list
    \<Rightarrow> 't distribution_map \<Rightarrow> (((u32 \<times> HintKeys) list) option \<times> 't distribution_map) option" where
  "split_keys std_hash classic_mode tid table masters [] hint process_map dmap = Some (Some process_map, dmap)"
| "split_keys std_hash classic_mode tid table masters (key # keys) hint process_map dmap =
     (case DistributeKey std_hash classic_mode tid key (tb_partition_num table) dmap of
        None \<Rightarrow> None
      | Some (pid, dmap) \<Rightarrow>
          (case map_of process_map pid of
             Some hk \<Rightarrow>
               split_keys std_hash classic_mode tid table masters keys (hint + 1)
                 (map (\<lambda>(i, h). if i = pid then (i, HintKeys_Push key hint h) else (i, h)) process_map) dmap
           | None \<Rightarrow>
               (case GetPartitionById pid table of
                  None \<Rightarrow> None
                | Some None \<Rightarrow> Some (None, dmap)
                | Some (Some p) \<Rightarrow>
                    (case PartitionMap_get (partition_info p) masters of
                       None \<Rightarrow> None
                     | Some None \<Rightarrow> Some (None, dmap)
                     | Some (Some _) \<Rightarrow>
                         split_keys std_hash classic_mode tid table masters keys (hint + 1)
                           (process_map @ [(pid, HintKeys_Push key hint HintKeys0)]) dmap))))"

text \<open>The loop over the map. The flag tells whether all partitions were processed.\<close>

primrec exec_map ::
  "('w, 'e) slash_env \<Rightarrow> ('n, 'x) Cmd_scheme coord_conf \<Rightarrow> cmd_conf \<Rightarrow> (('n, 'x) Cmd_scheme, 's, 'd) cmd_vtable
    \<Rightarrow> (u32 \<times> HintKeys) list \<Rightarrow> ('n, 'x) Cmd_scheme \<Rightarrow> (('n, 'x) Cmd_scheme, 'n, 'h, 'd, 't) node \<Rightarrow> 'w
    \<Rightarrow> (bool \<times> ('n, 'x) Cmd_scheme \<times> (('n, 'x) Cmd_scheme, 'n, 'h, 'd, 't) node \<times> 'w) option" where
  "exec_map E cf cn vt [] c nd w = Some (True, c, nd, w)"
| "exec_map E cf cn vt (arg # args) c nd w =
     (case GetTablePartitionById (cmd_table_name c) (fst arg) (nd_tables nd) of
        Some (Some p) \<Rightarrow>
          (case run_on E cf cn vt (snd arg) (cmd_table_name c) (unat (fst arg)) p c nd w of
             None \<Rightarrow> None
           | Some (c, nd, w) \<Rightarrow> if \<not> CmdRes_ok (cmd_res c) then Some (False, c, nd, w) else exec_map E cf cn vt args c nd w)
      | _ \<Rightarrow> None)"

definition ProcessMultiPartitionCmd ::
  "('w, 'e) slash_env \<Rightarrow> ('n, 'x) Cmd_scheme coord_conf \<Rightarrow> cmd_conf \<Rightarrow> (('n, 'x) Cmd_scheme, 's, 'd) cmd_vtable \<Rightarrow> 't
    \<Rightarrow> ('n, 'x) Cmd_scheme \<Rightarrow> (('n, 'x) Cmd_scheme, 'n, 'h, 'd, 't) node \<Rightarrow> 'w
    \<Rightarrow> (('n, 'x) Cmd_scheme \<times> (('n, 'x) Cmd_scheme, 'n, 'h, 'd, 't) node \<times> 'w) option" where
  "ProcessMultiPartitionCmd E cf cn vt tid c nd w =
     (let cur_key = vt_current_key vt c
      in if cur_key = [] then Some (set_cmd_res (SetRes_content kErrOther ''Internal Error'') c, nd, w)
         else case GetTable (cmd_table_name c) (nd_tables nd) of
                None \<Rightarrow> None
              | Some None \<Rightarrow> None
              | Some (Some table) \<Rightarrow>
                  (case split_keys (cn_std_hash cn) (cf_classic_mode cf) tid table (nd_masters nd) cur_key 0 [] (nd_dmap nd) of
                     None \<Rightarrow> None
                   | Some (None, dmap) \<Rightarrow>
                       Some (set_cmd_res (SetRes_content kErrOther ''Partition not found'') c, nd\<lparr>nd_dmap := dmap\<rparr>, w)
                   | Some (Some process_map, dmap) \<Rightarrow>
                       (case exec_map E cf cn vt (cn_map_order cn process_map) c (nd\<lparr>nd_dmap := dmap\<rparr>) w of
                          None \<Rightarrow> None
                        | Some (done_all, c, nd, w) \<Rightarrow> Some (if done_all then vt_Merge vt c else c, nd, w))))"

text \<open>The loop of the flush commands over the slots of a table. The flag tells that a master was missing.\<close>

primrec flush_loop ::
  "('w, 'e) slash_env \<Rightarrow> ('n, 'x) Cmd_scheme coord_conf \<Rightarrow> cmd_conf \<Rightarrow> (('n, 'x) Cmd_scheme, 's, 'd) cmd_vtable
    \<Rightarrow> string \<Rightarrow> nat \<Rightarrow> (u32 \<times> 'd Partition option) list \<Rightarrow> ('n, 'x) Cmd_scheme \<Rightarrow> (('n, 'x) Cmd_scheme, 'n, 'h, 'd, 't) node \<Rightarrow> 'w
    \<Rightarrow> (bool \<times> ('n, 'x) Cmd_scheme \<times> (('n, 'x) Cmd_scheme, 'n, 'h, 'd, 't) node \<times> 'w) option" where
  "flush_loop E cf cn vt table_name i [] c nd w = Some (False, c, nd, w)"
| "flush_loop E cf cn vt table_name i (slot # slots) c nd w =
     (case snd slot of
        None \<Rightarrow> None
      | Some p \<Rightarrow>
          (case PartitionMap_find (partition_info p) (nd_masters nd) of
             None \<Rightarrow> None
           | Some None \<Rightarrow> Some (True, set_cmd_res (SetRes_content kErrOther ''Partition not found'') c, nd, w)
           | Some (Some _) \<Rightarrow>
               (case run_on E cf cn vt HintKeys0 table_name i p c nd w of
                  None \<Rightarrow> None
                | Some (c, nd, w) \<Rightarrow> flush_loop E cf cn vt table_name (i + 1) slots c nd w)))"

definition key_scan_message :: string where
  "key_scan_message = ''The keyscan operation is executing, Try again later''"

definition ProcessFlushDBCmd ::
  "('w, 'e) slash_env \<Rightarrow> ('n, 'x) Cmd_scheme coord_conf \<Rightarrow> cmd_conf \<Rightarrow> (('n, 'x) Cmd_scheme, 's, 'd) cmd_vtable
    \<Rightarrow> ('n, 'x) Cmd_scheme \<Rightarrow> (('n, 'x) Cmd_scheme, 'n, 'h, 'd, 't) node \<Rightarrow> 'w
    \<Rightarrow> (('n, 'x) Cmd_scheme \<times> (('n, 'x) Cmd_scheme, 'n, 'h, 'd, 't) node \<times> 'w) option" where
  "ProcessFlushDBCmd E cf cn vt c nd w =
     (case GetTable (cmd_table_name c) (nd_tables nd) of
        None \<Rightarrow> None
      | Some None \<Rightarrow> Some (set_cmd_res (SetRes kInvalidTable) c, nd, w)
      | Some (Some table) \<Rightarrow>
          if ks_key_scaning (tb_key_scan_info table) then Some (set_cmd_res (SetRes_content kErrOther key_scan_message) c, nd, w)
          else case flush_loop E cf cn vt (cmd_table_name c) 0 (tb_partitions table) c nd w of
                 None \<Rightarrow> None
               | Some (missing, c, nd, w) \<Rightarrow> Some (if missing then c else set_cmd_res (SetRes kOk) c, nd, w))"

primrec flush_tables ::
  "('w, 'e) slash_env \<Rightarrow> ('n, 'x) Cmd_scheme coord_conf \<Rightarrow> cmd_conf \<Rightarrow> (('n, 'x) Cmd_scheme, 's, 'd) cmd_vtable
    \<Rightarrow> (string \<times> 'd Partition Table option) list \<Rightarrow> ('n, 'x) Cmd_scheme \<Rightarrow> (('n, 'x) Cmd_scheme, 'n, 'h, 'd, 't) node \<Rightarrow> 'w
    \<Rightarrow> (bool \<times> ('n, 'x) Cmd_scheme \<times> (('n, 'x) Cmd_scheme, 'n, 'h, 'd, 't) node \<times> 'w) option" where
  "flush_tables E cf cn vt [] c nd w = Some (False, c, nd, w)"
| "flush_tables E cf cn vt (item # items) c nd w =
     (case snd item of
        None \<Rightarrow> flush_tables E cf cn vt items c nd w
      | Some table \<Rightarrow>
          (case flush_loop E cf cn vt (fst item) 0 (tb_partitions table) c nd w of
             None \<Rightarrow> None
           | Some (missing, c, nd, w) \<Rightarrow> if missing then Some (True, c, nd, w) else flush_tables E cf cn vt items c nd w))"

definition ProcessFlushAllCmd ::
  "('w, 'e) slash_env \<Rightarrow> ('n, 'x) Cmd_scheme coord_conf \<Rightarrow> cmd_conf \<Rightarrow> (('n, 'x) Cmd_scheme, 's, 'd) cmd_vtable
    \<Rightarrow> ('n, 'x) Cmd_scheme \<Rightarrow> (('n, 'x) Cmd_scheme, 'n, 'h, 'd, 't) node \<Rightarrow> 'w
    \<Rightarrow> (('n, 'x) Cmd_scheme \<times> (('n, 'x) Cmd_scheme, 'n, 'h, 'd, 't) node \<times> 'w) option" where
  "ProcessFlushAllCmd E cf cn vt c nd w =
     (if Server_IsKeyScaning (nd_tables nd) then Some (set_cmd_res (SetRes_content kErrOther key_scan_message) c, nd, w)
      else case flush_tables E cf cn vt (nd_tables nd) c nd w of
             None \<Rightarrow> None
           | Some (missing, c, nd, w) \<Rightarrow> Some (if missing then c else set_cmd_res (SetRes kOk) c, nd, w))"

definition ProcessDoNotSpecifyPartitionCmd ::
  "(('n, 'x) Cmd_scheme, 's, 'd) cmd_vtable \<Rightarrow> ('n, 'x) Cmd_scheme \<Rightarrow> 's \<Rightarrow> (('n, 'x) Cmd_scheme \<times> 's) option" where
  "ProcessDoNotSpecifyPartitionCmd vt c s = vt_Do_null vt c s"

definition Execute ::
  "('w, 'e) slash_env \<Rightarrow> ('n, 'x) Cmd_scheme coord_conf \<Rightarrow> cmd_conf
    \<Rightarrow> (('n, 'x) Cmd_scheme, (('n, 'x) Cmd_scheme, 'n, 'h, 'd, 't) node \<times> 'w, 'd) cmd_vtable \<Rightarrow> 't
    \<Rightarrow> ('n, 'x) Cmd_scheme \<Rightarrow> (('n, 'x) Cmd_scheme, 'n, 'h, 'd, 't) node \<Rightarrow> 'w
    \<Rightarrow> (('n, 'x) Cmd_scheme \<times> (('n, 'x) Cmd_scheme, 'n, 'h, 'd, 't) node \<times> 'w) option" where
  "Execute E cf cn vt tid c nd w =
     (case cmd_special c of
        kGeneral \<Rightarrow>
          if is_single_partition c \<or> (cf_classic_mode cf \<and> cf_consensus_level cf = 0) then ProcessSinglePartitionCmd E cf cn vt tid c nd w
          else if is_multi_partition c then ProcessMultiPartitionCmd E cf cn vt tid c nd w
          else ProcessDoNotSpecifyPartitionCmd vt c (nd, w)
      | kFlushDB \<Rightarrow> ProcessFlushDBCmd E cf cn vt c nd w
      | kFlushAll \<Rightarrow> ProcessFlushAllCmd E cf cn vt c nd w
      | kInfo \<Rightarrow> ProcessDoNotSpecifyPartitionCmd vt c (nd, w)
      | kConfig \<Rightarrow> ProcessDoNotSpecifyPartitionCmd vt c (nd, w))"

section \<open>The binlog of a command\<close>

context slash_numbers
begin

lemma append_args: "fold (append_arg ll2string) argv content = content @ concat (map bulk argv)"
  by (induction argv arbitrary: content)
    (simp_all add: append_arg_def RedisAppendLen_def RedisAppendContent_def bulk_def ll2string_nat)

lemma request_content:
  "fold (append_arg ll2string) argv (RedisAppendLen ll2string [] (int (length argv)) ''*'') = request argv"
  by (simp add: append_args RedisAppendLen_def request_def ll2string_nat)

lemma Cmd_ToBinlog_request:
  "Cmd_ToBinlog C ll2string e t l f off c = BinlogEncode C TypeFirst e t l f off (request (cmd_argv c)) []"
  by (simp add: Cmd_ToBinlog_def Let_def request_content)

end

text \<open>
  What a command writes into the binlog carries its arguments: a replica that decodes the item and
  reads its content as a request gets exactly the arguments the client sent.
\<close>

theorem cmd_to_binlog_roundtrip:
  assumes "slash_numbers ll2string string2l" and "fixed_coding C" and "length (request (cmd_argv c)) < 2 ^ 32"
  shows "\<exists>item. BinlogDecode C TypeFirst (Cmd_ToBinlog C ll2string e t l f off c) BinlogItem0 = (True, item)
    \<and> bi_exec_time item = e \<and> bi_term_id item = t \<and> bi_logic_id item = l \<and> redis_parse (bi_content item) = Some (cmd_argv c)"
  using assms(3)
  by (simp add: slash_numbers.Cmd_ToBinlog_request [OF assms(1)] Decode_Encode [OF assms(2)] redis_parse_request)

section \<open>Distribution of keys\<close>

definition keys_of :: "(string \<Rightarrow> u32) \<Rightarrow> string list \<Rightarrow> u32 \<Rightarrow> nat list" where
  "keys_of part keys pid = filter (\<lambda>i. part (keys ! i) = pid) [0..<length keys]"

definition hint_keys_of :: "(string \<Rightarrow> u32) \<Rightarrow> string list \<Rightarrow> u32 \<Rightarrow> HintKeys" where
  "hint_keys_of part keys pid = \<lparr>hk_keys = map ((!) keys) (keys_of part keys pid), hk_hints = keys_of part keys pid\<rparr>"

definition split_map :: "(string \<Rightarrow> u32) \<Rightarrow> string list \<Rightarrow> (u32 \<times> HintKeys) list \<Rightarrow> bool" where
  "split_map part keys pm \<longleftrightarrow> distinct (map fst pm)
     \<and> (\<forall>pid. map_of pm pid = (if keys_of part keys pid = [] then None else Some (hint_keys_of part keys pid)))"

lemma keys_of_snoc: "keys_of part (keys @ [k]) pid = keys_of part keys pid @ (if part k = pid then [length keys] else [])"
proof -
  have "filter (\<lambda>i. part ((keys @ [k]) ! i) = pid) [0..<length keys] = filter (\<lambda>i. part (keys ! i) = pid) [0..<length keys]"
    by (rule filter_cong) (auto simp: nth_append)
  then show ?thesis by (simp add: keys_of_def)
qed

lemma hint_keys_of_snoc:
  "hint_keys_of part (keys @ [k]) pid = (if part k = pid then HintKeys_Push k (length keys) (hint_keys_of part keys pid) else hint_keys_of part keys pid)"
proof -
  have "map ((!) (keys @ [k])) (keys_of part keys pid) = map ((!) keys) (keys_of part keys pid)"
    by (auto simp: keys_of_def nth_append)
  then show ?thesis by (simp add: hint_keys_of_def keys_of_snoc HintKeys_Push_def)
qed

lemma map_of_update: "map_of (map (\<lambda>(i, h). if i = pid then (i, f h) else (i, h)) pm) j = (if j = pid then map_option f (map_of pm j) else map_of pm j)"
  by (induction pm) auto

lemma split_map_push:
  assumes "split_map part keys pm" and "part k = pid" and "map_of pm pid = Some h"
  shows "split_map part (keys @ [k]) (map (\<lambda>(i, h). if i = pid then (i, HintKeys_Push k (length keys) h) else (i, h)) pm)"
proof -
  have "map fst (map (\<lambda>(i, h). if i = pid then (i, HintKeys_Push k (length keys) h) else (i, h)) pm) = map fst pm" by auto
  then have "distinct (map fst (map (\<lambda>(i, h). if i = pid then (i, HintKeys_Push k (length keys) h) else (i, h)) pm))"
    using assms(1) by (simp only: split_map_def)
  moreover have "\<forall>j. map_of (map (\<lambda>(i, h). if i = pid then (i, HintKeys_Push k (length keys) h) else (i, h)) pm) j
      = (if keys_of part (keys @ [k]) j = [] then None else Some (hint_keys_of part (keys @ [k]) j))"
    using assms by (auto simp: split_map_def map_of_update hint_keys_of_snoc keys_of_snoc split: if_splits)
  ultimately show ?thesis unfolding split_map_def by blast
qed

lemma split_map_new:
  assumes "split_map part keys pm" and "part k = pid" and "map_of pm pid = None"
  shows "split_map part (keys @ [k]) (pm @ [(pid, HintKeys_Push k (length keys) HintKeys0)])"
proof -
  have e: "keys_of part keys pid = []" using assms by (auto simp: split_map_def split: if_splits)
  then have "hint_keys_of part keys pid = HintKeys0" by (simp add: hint_keys_of_def HintKeys0_def)
  moreover have "distinct (map fst (pm @ [(pid, HintKeys_Push k (length keys) HintKeys0)]))"
    using assms(1) assms(3) [unfolded map_of_eq_None_iff] by (simp add: split_map_def)
  ultimately show ?thesis
    using assms e unfolding split_map_def by (auto simp: hint_keys_of_snoc keys_of_snoc map_add_def split: option.splits)
qed

lemma split_keys_map:
  assumes "tb_partition_num table \<noteq> 0" and "split_keys h classic_mode tid table masters keys n pm dmap = Some (Some pm', dmap')"
    and "\<forall>d\<in>ran dmap. d = thread_distribution classic_mode" and "split_map (\<lambda>k. key_partition h classic_mode k (tb_partition_num table)) ks pm"
    and "n = length ks"
  shows "split_map (\<lambda>k. key_partition h classic_mode k (tb_partition_num table)) (ks @ keys) pm'"
  using assms(2-5)
proof (induction keys arbitrary: n pm dmap ks)
  case (Cons k keys)
  let ?part = "\<lambda>k. key_partition h classic_mode k (tb_partition_num table)"
  obtain dmap1 where d: "DistributeKey h classic_mode tid k (tb_partition_num table) dmap = Some (?part k, dmap1)"
    "\<forall>d\<in>ran dmap1. d = thread_distribution classic_mode"
    using DistributeKey_thread [OF Cons.prems(2) assms(1)] by blast
  show ?case
  proof (cases "map_of pm (?part k)")
    case None
    with Cons.prems(1) d(1) have "split_keys h classic_mode tid table masters keys (n + 1) (pm @ [(?part k, HintKeys_Push k n HintKeys0)]) dmap1
        = Some (Some pm', dmap')"
      by (auto split: option.splits)
    from Cons.IH [OF this d(2), of "ks @ [k]"] split_map_new [OF Cons.prems(3) refl None, folded Cons.prems(4)] Cons.prems(4) show ?thesis by simp
  next
    case (Some hk)
    with Cons.prems(1) d(1) have "split_keys h classic_mode tid table masters keys (n + 1)
        (map (\<lambda>(i, h). if i = ?part k then (i, HintKeys_Push k n h) else (i, h)) pm) dmap1 = Some (Some pm', dmap')"
      by simp
    from Cons.IH [OF this d(2), of "ks @ [k]"] split_map_push [OF Cons.prems(3) refl Some, folded Cons.prems(4)] Cons.prems(4) show ?thesis by simp
  qed
qed simp

text \<open>
  C36: A command with several keys is split without loss: every partition is given exactly the keys that
  belong to it, in the order of the arguments and each with its position among them, and no partition
  occurs twice.
\<close>

theorem split_keys_partition:
  assumes "tb_partition_num table \<noteq> 0" and "split_keys h classic_mode tid table masters keys 0 [] dmap = Some (Some process_map, dmap')"
    and "\<forall>d\<in>ran dmap. d = thread_distribution classic_mode"
  shows "distinct (map fst process_map)
    \<and> (\<forall>i < length keys. \<exists>hk. (key_partition h classic_mode (keys ! i) (tb_partition_num table), hk) \<in> set process_map \<and> i \<in> set (hk_hints hk))
    \<and> (\<forall>(pid, hk)\<in>set process_map. hk_keys hk = map ((!) keys) (hk_hints hk) \<and> sorted_wrt (<) (hk_hints hk)
         \<and> (\<forall>i\<in>set (hk_hints hk). i < length keys \<and> key_partition h classic_mode (keys ! i) (tb_partition_num table) = pid))"
proof -
  let ?part = "\<lambda>k. key_partition h classic_mode k (tb_partition_num table)"
  have "split_map ?part [] []" by (simp add: split_map_def keys_of_def)
  from split_keys_map [OF assms this] have m: "split_map ?part keys process_map" by simp
  have "\<exists>hk. (?part (keys ! i), hk) \<in> set process_map \<and> i \<in> set (hk_hints hk)" if "i < length keys" for i
  proof -
    have "i \<in> set (keys_of ?part keys (?part (keys ! i)))" using that by (simp add: keys_of_def)
    moreover from this have "keys_of ?part keys (?part (keys ! i)) \<noteq> []" by auto
    ultimately have "map_of process_map (?part (keys ! i)) = Some (hint_keys_of ?part keys (?part (keys ! i)))"
      using m by (simp add: split_map_def)
    with \<open>i \<in> _\<close> show ?thesis by (auto dest!: map_of_SomeD simp: hint_keys_of_def)
  qed
  moreover have "hk = hint_keys_of ?part keys pid" if "(pid, hk) \<in> set process_map" for pid hk
  proof -
    have "distinct (map fst process_map)" using m by (simp add: split_map_def)
    then have "map_of process_map pid = Some hk" using that by (rule map_of_is_SomeI)
    with m show ?thesis unfolding split_map_def by (metis option.distinct(1) option.inject)
  qed
  moreover have "sorted_wrt (<) (keys_of ?part keys pid)" for pid
    unfolding keys_of_def by (rule sorted_wrt_filter) (rule strict_sorted_iff [THEN iffD2], simp)
  ultimately show ?thesis using m by (fastforce simp: split_map_def hint_keys_of_def keys_of_def)
qed

section \<open>Executing and logging\<close>

lemma ProposeLog_put:
  assumes "binlog_ok E fs (cc_binlog st) w" and "ProposeLog E cf c conn st w = Some (OK, st', w')"
  shows "Binlog_Put E (item_binlog cf c (propose_item E (cc_binlog st) w)) (cc_binlog st) w = Some (OK, cc_binlog st', w')"
  using assms(2) unfolding ProposeLog_append [OF assms(1)]
  by (auto simp: InternalAppendLog_def InternalAppendBinlog_def item_binlog_def cc_binlog_def Let_def
      split: option.splits prod.splits if_splits)

lemma set_cmd_res_simps [simp]:
  "is_write (set_cmd_res f c) = is_write c" "cmd_res (set_cmd_res f c) = f (cmd_res c)"
  by (simp_all add: set_cmd_res_def is_write_def)

lemma DoBinlog_cases:
  assumes "DoBinlog E cf cn c st w = Some (c', st', w')"
  shows "is_write c' = is_write c"
    and "\<not> (CmdRes_ok (cmd_res c) \<and> is_write c \<and> cn_write_binlog cn) \<Longrightarrow> c' = c \<and> st' = st \<and> w' = w"
    and "CmdRes_ok (cmd_res c') \<and> is_write c \<and> cn_write_binlog cn \<Longrightarrow> c' = c \<and> ProposeLog E cf c (cmd_conn c) st w = Some (OK, st', w')"
  using assms
  by (auto simp: DoBinlog_def CmdRes_ok_def SetRes_def SetRes_content_def Let_def split: if_splits option.splits prod.splits)


section \<open>Instances\<close>

definition wit_cmd :: "nat Cmd" where
  "wit_cmd = \<lparr>cmd_name = ''set'', cmd_special = kGeneral, cmd_stage = kNoneStage, cmd_arity = -3, cmd_flag = kCmdFlagsWrite OR kCmdFlagsKv,
     cmd_res = CmdRes0, cmd_argv = [''set'', ''k'', ''v''], cmd_table_name = ''db0'', cmd_conn = Some 1, cmd_resp = True\<rparr>"

theorem cmd_to_binlog_roundtrip_witness:
  "\<exists>item. BinlogDecode le_coding TypeFirst (Cmd_ToBinlog le_coding dec_string 1 2 3 4 5 wit_cmd) BinlogItem0 = (True, item)
    \<and> redis_parse (bi_content item) = Some [''set'', ''k'', ''v'']"
proof -
  have "length (request (cmd_argv wit_cmd)) < 2 ^ 32"
    by (simp add: wit_cmd_def request_def bulk_def kNewLine_def dec_digits.simps)
  from cmd_to_binlog_roundtrip [OF dec.slash_numbers_axioms le.fixed_coding_axioms this, of 1 2 3 4 5] show ?thesis
    by (auto simp: wit_cmd_def)
qed

theorem split_keys_partition_witness:
  "\<exists>pm. split_keys (\<lambda>k. of_nat (length k)) True (0 :: nat)
        ((Table_new ''db0'' 1 [] [])\<lparr>tb_partitions := [(0, Some map_part)]\<rparr>)
        [(\<lparr>pi_table_name = ''db0'', pi_partition_id = 0\<rparr>, Some (7 :: nat))] [''a'', ''bb''] 0 [] Map.empty
      = Some (Some pm, [0 \<mapsto> HashModulo])
    \<and> distinct (map fst pm) \<and> (\<forall>(pid, hk)\<in>set pm. hk_keys hk = map ((!) [''a'', ''bb'']) (hk_hints hk))"
proof -
  let ?t = "(Table_new ''db0'' 1 [] [])\<lparr>tb_partitions := [(0, Some map_part)]\<rparr>"
  let ?m = "[(\<lparr>pi_table_name = ''db0'', pi_partition_id = 0\<rparr>, Some (7 :: nat))]"
  have "\<exists>pm. split_keys (\<lambda>k. of_nat (length k)) True (0 :: nat) ?t ?m [''a'', ''bb''] 0 [] Map.empty = Some (Some pm, [0 \<mapsto> HashModulo])"
    by (simp add: DistributeKey_def CheckCurrentThreadDistributionMapExist_def InsertCurrentThreadDistributionMap_def Let_def Table_new_def
        GetPartitionById_def PartitionMap_get_def PartitionMap_slot_def partition_info_def map_part_def DbIdxFromStr_def)
  then obtain pm where e: "split_keys (\<lambda>k. of_nat (length k)) True (0 :: nat) ?t ?m [''a'', ''bb''] 0 [] Map.empty = Some (Some pm, [0 \<mapsto> HashModulo])"
    by blast
  have "tb_partition_num ?t \<noteq> 0" by (simp add: Table_new_def)
  from split_keys_partition [OF this e] e show ?thesis by (intro exI [of _ pm]) auto
qed

definition cmd_coord :: "('n Cmd, 'n, string \<times> nat) ConsensusCoordinator" where
  "cmd_coord = \<lparr>cc_committed_index = LogOffset0, cc_context = wit_ctx, cc_term = 7, cc_table_name = ''db0'', cc_partition_id = 0,
     cc_sync_pros = SyncProgress0, cc_stable_logger = cc_stable_logger wit_coord,
     cc_mem_logger = \<lparr>ml_logs = [], ml_last_offset = ml_last_offset (cc_mem_logger wit_coord)\<rparr>, cc_scheduled = [], cc_io_error_tables = []\<rparr>"

definition cmd_cf :: "'n Cmd coord_conf" where
  "cmd_cf = \<lparr>cf_consensus_level = 0, cf_log_path = [], cf_classic_mode = True, cf_binlog_file_size = 100, cf_default_table = ''db0'',
     cf_ToBinlog = (\<lambda>c e t l f off. Cmd_ToBinlog le_coding dec_string e t l f off c), cf_table_name = cmd_table_name,
     cf_GetCmd = (\<lambda>_. None), cf_Initial = (\<lambda>argv tbl c. (True, c)), cf_GetTable = (\<lambda>_. True), cf_redis_parse = redis_parse,
     cf_string2l = read_int, cf_StringToLower = id\<rparr>"

definition cmd_cn :: cmd_conf where
  "cmd_cn = \<lparr>cn_write_binlog = True, cn_std_hash = (\<lambda>_. 0), cn_map_order = id, cn_ToString = (\<lambda>_. ''error'')\<rparr>"

definition store_vt :: "(nat Cmd, unit, nat) cmd_vtable" where
  "store_vt = \<lparr>vt_current_key = (\<lambda>c. [cmd_argv c ! 1]), vt_Do = (\<lambda>c p. Some (set_cmd_res (SetRes kOk) c, p\<lparr>pt_db := Some 5\<rparr>)),
     vt_Split = (\<lambda>_ c p. Some (c, p)), vt_Merge = id, vt_DoInitial = Some, vt_Clear = id, vt_Do_null = (\<lambda>c s. Some (c, s))\<rparr>"

lemma cmd_coord_binlog: "cc_binlog cmd_coord = wit_binlog"
  by (simp add: cc_binlog_def cmd_coord_def wit_coord_def)

lemma length_wit_cmd: "cmd_argv c = [''set'', ''k'', ''v''] \<Longrightarrow> length (item_binlog cmd_cf c item) = 61"
  by (simp add: item_binlog_def cmd_cf_def dec.Cmd_ToBinlog_request le.BinlogEncode_eq le.length_item_header transverter_consts
      request_def bulk_def kNewLine_def dec_digits.simps)

lemma cmd_coord_ok: "binlog_ok mem_env mw_files (cc_binlog cmd_coord) coord_world"
  using coord_binlog_ok unfolding cmd_coord_binlog by (simp add: cc_binlog_def wit_coord_def)

text \<open>A coordinator on the log of the instances logs every command with a short item.\<close>

lemma fixture_propose:
  fixes st :: "('c, 'n, string \<times> nat) ConsensusCoordinator" and cf :: "'c coord_conf"
  assumes "cc_binlog st = wit_binlog" and "0 < length (item_binlog cf c (propose_item mem_env wit_binlog coord_world))"
    and "length (item_binlog cf c (propose_item mem_env wit_binlog coord_world)) \<le> 100"
  obtains st' w' where "ProposeLog mem_env cf c conn st coord_world = Some (OK, st', w')"
    and "binlog_room (item_binlog cf c (propose_item mem_env wit_binlog coord_world)) wit_binlog"
proof -
  let ?x = "item_binlog cf c (propose_item mem_env wit_binlog coord_world)"
  have ok: "binlog_ok mem_env mw_files wit_binlog coord_world" using cmd_coord_ok by (simp add: cmd_coord_binlog)
  obtain b' w' where put: "Binlog_Put mem_env ?x wit_binlog coord_world = Some (OK, b', w')"
    using coord_put [of ?x] assms(2,3) by fastforce
  have room: "binlog_room ?x wit_binlog" using assms(2,3) by (auto simp: binlog_room_def wit_simps)
  have "binlog_ok mem_env mw_files b' w'"
    using Put_effect [OF mem.slash_fs_axioms ok, of ?x b' w'] put room by (simp add: binlog_room_def)
  then have "bl_opened b'" by (elim binlog_okE)
  with put have "\<exists>st'. ProposeLog mem_env cf c conn st coord_world = Some (OK, st', w')"
    using ProposeLog_append [where st = st, unfolded assms(1), OF ok, of cf c conn] assms(1)
    by (simp add: InternalAppendLog_def InternalAppendBinlog_def item_binlog_def cc_binlog_def Binlog_GetProducerStatus_def)
  with room show ?thesis using that by blast
qed

lemma cmd_propose:
  fixes c :: "'n Cmd" and level :: int
  assumes "cmd_argv c = [''set'', ''k'', ''v'']"
  defines "x \<equiv> item_binlog cmd_cf c (propose_item mem_env (cc_binlog (cmd_coord :: ('n Cmd, 'n, string \<times> nat) ConsensusCoordinator)) coord_world)"
  obtains st' w' where "ProposeLog mem_env (cmd_cf\<lparr>cf_consensus_level := level\<rparr>) c conn cmd_coord coord_world = Some (OK, st', w')"
    and "binlog_room x (cc_binlog (cmd_coord :: ('n Cmd, 'n, string \<times> nat) ConsensusCoordinator))"
proof -
  have x: "x = item_binlog (cmd_cf\<lparr>cf_consensus_level := level\<rparr>) c (propose_item mem_env wit_binlog coord_world)"
    by (simp add: x_def item_binlog_def cmd_coord_binlog)
  have "length x = 61" unfolding x_def by (rule length_wit_cmd) (rule assms(1))
  then show ?thesis
    using fixture_propose [OF cmd_coord_binlog, of "cmd_cf\<lparr>cf_consensus_level := level\<rparr>" c conn] that unfolding x cmd_coord_binlog by fastforce
qed


end
