(* ===== verification/Pika_Cmd_Table.thy ===== *)
theory Pika_Cmd_Table
  imports Pika_Command
begin

text \<open>
  The command table \<^verbatim>\<open>InitCmdTable\<close> of \<^verbatim>\<open>src/pika_command.cc\<close> builds: the name, the arity and the flags of every
  command, in the order of their indexes, with the lookup of \<^verbatim>\<open>GetCmdFromTable\<close>. The groups under
  \<^verbatim>\<open>#if 0\<close> are not compiled and not part of the model.
\<close>

section \<open>Model\<close>

definition admin_cmds :: "(string \<times> int \<times> u16) list" where
  "admin_cmds = [
    (''slaveof'', -3, kCmdFlagsRead OR kCmdFlagsAdmin),
    (''dbslaveof'', -2, kCmdFlagsRead OR kCmdFlagsAdmin),
    (''auth'', 2, kCmdFlagsRead OR kCmdFlagsAdmin),
    (''bgsave'', -1, kCmdFlagsRead OR kCmdFlagsAdmin OR kCmdFlagsSuspend),
    (''compact'', -1, kCmdFlagsRead OR kCmdFlagsAdmin),
    (''purgelogsto'', -2, kCmdFlagsRead OR kCmdFlagsAdmin),
    (''ping'', 1, kCmdFlagsRead OR kCmdFlagsAdmin),
    (''select'', 2, kCmdFlagsRead OR kCmdFlagsAdmin),
    (''flushall'', 1, kCmdFlagsWrite OR kCmdFlagsSuspend OR kCmdFlagsAdmin),
    (''flushdb'', -1, kCmdFlagsWrite OR kCmdFlagsSuspend OR kCmdFlagsAdmin),
    (''client'', -2, kCmdFlagsRead OR kCmdFlagsAdmin),
    (''shutdown'', 1, kCmdFlagsRead OR kCmdFlagsLocal OR kCmdFlagsAdmin),
    (''info'', -1, kCmdFlagsRead OR kCmdFlagsAdmin OR kCmdFlagsSinglePartition),
    (''config'', -2, kCmdFlagsRead OR kCmdFlagsAdmin),
    (''monitor'', -1, kCmdFlagsRead OR kCmdFlagsAdmin),
    (''dbsize'', 1, kCmdFlagsRead OR kCmdFlagsAdmin),
    (''time'', 1, kCmdFlagsRead OR kCmdFlagsAdmin),
    (''delbackup'', 1, kCmdFlagsRead OR kCmdFlagsAdmin),
    (''echo'', 2, kCmdFlagsRead OR kCmdFlagsAdmin),
    (''scandb'', -1, kCmdFlagsRead OR kCmdFlagsAdmin),
    (''slowlog'', -2, kCmdFlagsRead OR kCmdFlagsAdmin),
    (''padding'', 2, kCmdFlagsWrite OR kCmdFlagsAdmin),
    (''pkpatternmatchdel'', 3, kCmdFlagsWrite OR kCmdFlagsAdmin),
    (''dummy'', 0, kCmdFlagsWrite OR kCmdFlagsSinglePartition),
    (''command'', 0, kCmdFlagsRead OR kCmdFlagsAdmin),
    (''quit'', 0, kCmdFlagsRead OR kCmdFlagsAdmin)]"

definition kv_cmds :: "(string \<times> int \<times> u16) list" where
  "kv_cmds = [
    (''set'', -3, kCmdFlagsWrite OR kCmdFlagsSinglePartition OR kCmdFlagsKv),
    (''get'', 2, kCmdFlagsRead OR kCmdFlagsSinglePartition OR kCmdFlagsKv),
    (''del'', -2, kCmdFlagsWrite OR kCmdFlagsMultiPartition OR kCmdFlagsKv),
    (''incr'', 2, kCmdFlagsWrite OR kCmdFlagsSinglePartition OR kCmdFlagsKv),
    (''incrby'', 3, kCmdFlagsWrite OR kCmdFlagsSinglePartition OR kCmdFlagsKv),
    (''incrbyfloat'', 3, kCmdFlagsWrite OR kCmdFlagsSinglePartition OR kCmdFlagsKv),
    (''decr'', 2, kCmdFlagsWrite OR kCmdFlagsSinglePartition OR kCmdFlagsKv),
    (''decrby'', 3, kCmdFlagsWrite OR kCmdFlagsSinglePartition OR kCmdFlagsKv),
    (''getset'', 3, kCmdFlagsWrite OR kCmdFlagsSinglePartition OR kCmdFlagsKv),
    (''append'', 3, kCmdFlagsWrite OR kCmdFlagsSinglePartition OR kCmdFlagsKv),
    (''mget'', -2, kCmdFlagsRead OR kCmdFlagsMultiPartition OR kCmdFlagsKv),
    (''keys'', -2, kCmdFlagsRead OR kCmdFlagsMultiPartition OR kCmdFlagsKv),
    (''setnx'', 3, kCmdFlagsWrite OR kCmdFlagsSinglePartition OR kCmdFlagsKv),
    (''setex'', 4, kCmdFlagsWrite OR kCmdFlagsSinglePartition OR kCmdFlagsKv),
    (''psetex'', 4, kCmdFlagsWrite OR kCmdFlagsSinglePartition OR kCmdFlagsKv),
    (''delvx'', 3, kCmdFlagsWrite OR kCmdFlagsSinglePartition OR kCmdFlagsKv),
    (''mset'', -3, kCmdFlagsWrite OR kCmdFlagsMultiPartition OR kCmdFlagsKv),
    (''msetnx'', -3, kCmdFlagsWrite OR kCmdFlagsMultiPartition OR kCmdFlagsKv),
    (''getrange'', 4, kCmdFlagsRead OR kCmdFlagsSinglePartition OR kCmdFlagsKv),
    (''setrange'', 4, kCmdFlagsWrite OR kCmdFlagsSinglePartition OR kCmdFlagsKv),
    (''strlen'', 2, kCmdFlagsRead OR kCmdFlagsSinglePartition OR kCmdFlagsKv),
    (''exists'', -2, kCmdFlagsRead OR kCmdFlagsMultiPartition OR kCmdFlagsKv),
    (''expire'', 3, kCmdFlagsWrite OR kCmdFlagsSinglePartition OR kCmdFlagsKv),
    (''pexpire'', 3, kCmdFlagsWrite OR kCmdFlagsSinglePartition OR kCmdFlagsKv),
    (''expireat'', 3, kCmdFlagsWrite OR kCmdFlagsSinglePartition OR kCmdFlagsKv),
    (''pexpireat'', 3, kCmdFlagsWrite OR kCmdFlagsSinglePartition OR kCmdFlagsKv),
    (''ttl'', 2, kCmdFlagsRead OR kCmdFlagsSinglePartition OR kCmdFlagsKv),
    (''pttl'', 2, kCmdFlagsRead OR kCmdFlagsSinglePartition OR kCmdFlagsKv),
    (''persist'', 2, kCmdFlagsWrite OR kCmdFlagsSinglePartition OR kCmdFlagsKv),
    (''type'', 2, kCmdFlagsRead OR kCmdFlagsSinglePartition OR kCmdFlagsKv),
    (''scan'', -2, kCmdFlagsRead OR kCmdFlagsMultiPartition OR kCmdFlagsKv),
    (''scanx'', -3, kCmdFlagsRead OR kCmdFlagsMultiPartition OR kCmdFlagsKv),
    (''pksetexat'', 4, kCmdFlagsWrite OR kCmdFlagsSinglePartition OR kCmdFlagsKv),
    (''pkscanrange'', -4, kCmdFlagsRead OR kCmdFlagsSinglePartition OR kCmdFlagsKv),
    (''pkrscanrange'', -4, kCmdFlagsRead OR kCmdFlagsSinglePartition OR kCmdFlagsKv)]"

definition hash_cmds :: "(string \<times> int \<times> u16) list" where
  "hash_cmds = [
    (''hdel'', -3, kCmdFlagsWrite OR kCmdFlagsSinglePartition OR kCmdFlagsHash),
    (''hset'', 4, kCmdFlagsWrite OR kCmdFlagsSinglePartition OR kCmdFlagsHash),
    (''hget'', 3, kCmdFlagsRead OR kCmdFlagsSinglePartition OR kCmdFlagsHash),
    (''hgetall'', 2, kCmdFlagsRead OR kCmdFlagsSinglePartition OR kCmdFlagsHash),
    (''hexists'', 3, kCmdFlagsRead OR kCmdFlagsSinglePartition OR kCmdFlagsHash),
    (''hincrby'', 4, kCmdFlagsWrite OR kCmdFlagsSinglePartition OR kCmdFlagsHash),
    (''hincrbyfloat'', 4, kCmdFlagsWrite OR kCmdFlagsSinglePartition OR kCmdFlagsHash),
    (''hkeys'', 2, kCmdFlagsRead OR kCmdFlagsSinglePartition OR kCmdFlagsHash),
    (''hlen'', 2, kCmdFlagsRead OR kCmdFlagsSinglePartition OR kCmdFlagsHash),
    (''hmget'', -3, kCmdFlagsRead OR kCmdFlagsSinglePartition OR kCmdFlagsHash),
    (''hmset'', -4, kCmdFlagsWrite OR kCmdFlagsSinglePartition OR kCmdFlagsHash),
    (''hsetnx'', 4, kCmdFlagsWrite OR kCmdFlagsSinglePartition OR kCmdFlagsHash),
    (''hstrlen'', 3, kCmdFlagsRead OR kCmdFlagsSinglePartition OR kCmdFlagsHash),
    (''hvals'', 2, kCmdFlagsRead OR kCmdFlagsSinglePartition OR kCmdFlagsHash),
    (''hscan'', -3, kCmdFlagsRead OR kCmdFlagsSinglePartition OR kCmdFlagsHash),
    (''hscanx'', -3, kCmdFlagsRead OR kCmdFlagsSinglePartition OR kCmdFlagsHash),
    (''pkhscanrange'', -4, kCmdFlagsRead OR kCmdFlagsSinglePartition OR kCmdFlagsHash),
    (''pkhrscanrange'', -4, kCmdFlagsRead OR kCmdFlagsSinglePartition OR kCmdFlagsHash)]"

definition list_cmds :: "(string \<times> int \<times> u16) list" where
  "list_cmds = [
    (''lindex'', 3, kCmdFlagsRead OR kCmdFlagsSinglePartition OR kCmdFlagsList),
    (''linsert'', 5, kCmdFlagsWrite OR kCmdFlagsSinglePartition OR kCmdFlagsList),
    (''llen'', 2, kCmdFlagsRead OR kCmdFlagsSinglePartition OR kCmdFlagsList),
    (''lpop'', 2, kCmdFlagsWrite OR kCmdFlagsSinglePartition OR kCmdFlagsList),
    (''lpush'', -3, kCmdFlagsWrite OR kCmdFlagsSinglePartition OR kCmdFlagsList),
    (''lpushx'', 3, kCmdFlagsWrite OR kCmdFlagsSinglePartition OR kCmdFlagsList),
    (''lrange'', 4, kCmdFlagsRead OR kCmdFlagsSinglePartition OR kCmdFlagsList),
    (''lrem'', 4, kCmdFlagsWrite OR kCmdFlagsSinglePartition OR kCmdFlagsList),
    (''lset'', 4, kCmdFlagsWrite OR kCmdFlagsSinglePartition OR kCmdFlagsList),
    (''ltrim'', 4, kCmdFlagsWrite OR kCmdFlagsSinglePartition OR kCmdFlagsList),
    (''rpop'', 2, kCmdFlagsWrite OR kCmdFlagsSinglePartition OR kCmdFlagsList),
    (''rpoplpush'', 3, kCmdFlagsWrite OR kCmdFlagsSinglePartition OR kCmdFlagsList),
    (''rpush'', -3, kCmdFlagsWrite OR kCmdFlagsSinglePartition OR kCmdFlagsList),
    (''rpushx'', 3, kCmdFlagsWrite OR kCmdFlagsSinglePartition OR kCmdFlagsList)]"

definition zset_cmds :: "(string \<times> int \<times> u16) list" where
  "zset_cmds = [
    (''zadd'', -4, kCmdFlagsWrite OR kCmdFlagsSinglePartition OR kCmdFlagsZset),
    (''zcard'', 2, kCmdFlagsRead OR kCmdFlagsSinglePartition OR kCmdFlagsZset),
    (''zscan'', -3, kCmdFlagsRead OR kCmdFlagsSinglePartition OR kCmdFlagsZset),
    (''zincrby'', 4, kCmdFlagsWrite OR kCmdFlagsSinglePartition OR kCmdFlagsZset),
    (''zrange'', -4, kCmdFlagsRead OR kCmdFlagsSinglePartition OR kCmdFlagsZset),
    (''zrevrange'', -4, kCmdFlagsRead OR kCmdFlagsSinglePartition OR kCmdFlagsZset),
    (''zrangebyscore'', -4, kCmdFlagsRead OR kCmdFlagsSinglePartition OR kCmdFlagsZset),
    (''zrevrangebyscore'', -4, kCmdFlagsRead OR kCmdFlagsSinglePartition OR kCmdFlagsZset),
    (''zcount'', 4, kCmdFlagsRead OR kCmdFlagsSinglePartition OR kCmdFlagsZset),
    (''zrem'', -3, kCmdFlagsWrite OR kCmdFlagsSinglePartition OR kCmdFlagsZset),
    (''zunionstore'', -4, kCmdFlagsWrite OR kCmdFlagsMultiPartition OR kCmdFlagsZset),
    (''zinterstore'', -4, kCmdFlagsWrite OR kCmdFlagsMultiPartition OR kCmdFlagsZset),
    (''zrank'', 3, kCmdFlagsRead OR kCmdFlagsSinglePartition OR kCmdFlagsZset),
    (''zrevrank'', 3, kCmdFlagsRead OR kCmdFlagsSinglePartition OR kCmdFlagsZset),
    (''zscore'', 3, kCmdFlagsRead OR kCmdFlagsSinglePartition OR kCmdFlagsZset),
    (''zrangebylex'', -4, kCmdFlagsRead OR kCmdFlagsSinglePartition OR kCmdFlagsZset),
    (''zrevrangebylex'', -4, kCmdFlagsRead OR kCmdFlagsSinglePartition OR kCmdFlagsZset),
    (''zlexcount'', 4, kCmdFlagsRead OR kCmdFlagsSinglePartition OR kCmdFlagsZset),
    (''zremrangebyrank'', 4, kCmdFlagsWrite OR kCmdFlagsSinglePartition OR kCmdFlagsZset),
    (''zremrangebyscore'', 4, kCmdFlagsWrite OR kCmdFlagsSinglePartition OR kCmdFlagsZset),
    (''zremrangebylex'', 4, kCmdFlagsWrite OR kCmdFlagsSinglePartition OR kCmdFlagsZset),
    (''zpopmax'', -2, kCmdFlagsWrite OR kCmdFlagsSinglePartition OR kCmdFlagsZset),
    (''zpopmin'', -2, kCmdFlagsWrite OR kCmdFlagsSinglePartition OR kCmdFlagsZset)]"

definition set_cmds :: "(string \<times> int \<times> u16) list" where
  "set_cmds = [
    (''sadd'', -3, kCmdFlagsWrite OR kCmdFlagsSinglePartition OR kCmdFlagsSet),
    (''spop'', 2, kCmdFlagsWrite OR kCmdFlagsSinglePartition OR kCmdFlagsSet),
    (''scard'', 2, kCmdFlagsRead OR kCmdFlagsSinglePartition OR kCmdFlagsSet),
    (''smembers'', 2, kCmdFlagsRead OR kCmdFlagsSinglePartition OR kCmdFlagsSet),
    (''sscan'', -3, kCmdFlagsRead OR kCmdFlagsSinglePartition OR kCmdFlagsSet),
    (''srem'', -3, kCmdFlagsWrite OR kCmdFlagsSinglePartition OR kCmdFlagsSet),
    (''sunion'', -2, kCmdFlagsRead OR kCmdFlagsMultiPartition OR kCmdFlagsSet),
    (''sunionstore'', -3, kCmdFlagsWrite OR kCmdFlagsMultiPartition OR kCmdFlagsSet),
    (''sinter'', -2, kCmdFlagsRead OR kCmdFlagsMultiPartition OR kCmdFlagsSet),
    (''sinterstore'', -3, kCmdFlagsWrite OR kCmdFlagsMultiPartition OR kCmdFlagsSet),
    (''sismember'', 3, kCmdFlagsRead OR kCmdFlagsSinglePartition OR kCmdFlagsSet),
    (''sdiff'', -2, kCmdFlagsRead OR kCmdFlagsMultiPartition OR kCmdFlagsSet),
    (''sdiffstore'', -3, kCmdFlagsWrite OR kCmdFlagsMultiPartition OR kCmdFlagsSet),
    (''smove'', 4, kCmdFlagsWrite OR kCmdFlagsMultiPartition OR kCmdFlagsSet),
    (''srandmember'', -2, kCmdFlagsRead OR kCmdFlagsSinglePartition OR kCmdFlagsSet)]"

definition bitmap_cmds :: "(string \<times> int \<times> u16) list" where
  "bitmap_cmds = [
    (''setbit'', 4, kCmdFlagsWrite OR kCmdFlagsSinglePartition OR kCmdFlagsBit),
    (''getbit'', 3, kCmdFlagsRead OR kCmdFlagsSinglePartition OR kCmdFlagsBit),
    (''bitcount'', -2, kCmdFlagsRead OR kCmdFlagsSinglePartition OR kCmdFlagsBit),
    (''bitpos'', -3, kCmdFlagsRead OR kCmdFlagsSinglePartition OR kCmdFlagsBit),
    (''bitop'', -3, kCmdFlagsWrite OR kCmdFlagsMultiPartition OR kCmdFlagsBit)]"

definition hyperloglog_cmds :: "(string \<times> int \<times> u16) list" where
  "hyperloglog_cmds = [
    (''pfadd'', -2, kCmdFlagsWrite OR kCmdFlagsSinglePartition OR kCmdFlagsHyperLogLog),
    (''pfcount'', -2, kCmdFlagsRead OR kCmdFlagsMultiPartition OR kCmdFlagsHyperLogLog),
    (''pfmerge'', -3, kCmdFlagsWrite OR kCmdFlagsMultiPartition OR kCmdFlagsHyperLogLog)]"

definition geo_cmds :: "(string \<times> int \<times> u16) list" where
  "geo_cmds = [
    (''geoadd'', -5, kCmdFlagsWrite OR kCmdFlagsSinglePartition OR kCmdFlagsGeo),
    (''geopos'', -2, kCmdFlagsRead OR kCmdFlagsSinglePartition OR kCmdFlagsGeo),
    (''geodist'', -4, kCmdFlagsRead OR kCmdFlagsSinglePartition OR kCmdFlagsGeo),
    (''geohash'', -2, kCmdFlagsRead OR kCmdFlagsSinglePartition OR kCmdFlagsGeo),
    (''georadius'', -6, kCmdFlagsRead OR kCmdFlagsMultiPartition OR kCmdFlagsGeo),
    (''georadiusbymember'', -5, kCmdFlagsRead OR kCmdFlagsMultiPartition OR kCmdFlagsGeo)]"

definition pubsub_cmds :: "(string \<times> int \<times> u16) list" where
  "pubsub_cmds = [
    (''publish'', 3, kCmdFlagsRead OR kCmdFlagsPubSub),
    (''subscribe'', -2, kCmdFlagsRead OR kCmdFlagsPubSub),
    (''unsubscribe'', -1, kCmdFlagsRead OR kCmdFlagsPubSub),
    (''psubscribe'', -2, kCmdFlagsRead OR kCmdFlagsPubSub),
    (''punsubscribe'', -1, kCmdFlagsRead OR kCmdFlagsPubSub),
    (''pubsub'', -2, kCmdFlagsRead OR kCmdFlagsPubSub)]"

definition all_cmds :: "(string \<times> int \<times> u16) list" where
  "all_cmds = admin_cmds @ kv_cmds @ hash_cmds @ list_cmds @ zset_cmds @ set_cmds @ bitmap_cmds @ hyperloglog_cmds @ geo_cmds @ pubsub_cmds"

text \<open>Three classes mark themselves in their constructors.\<close>

definition special_of :: "string \<Rightarrow> SpecialCmd" where
  "special_of name =
     (if name = ''flushall'' then kFlushAll else if name = ''flushdb'' then kFlushDB else if name = ''config'' then kConfig else kGeneral)"

definition new_cmd :: "string \<times> int \<times> u16 \<Rightarrow> 'n Cmd option" where
  "new_cmd e = map_option (\<lambda>c. c\<lparr>cmd_special := special_of (fst e)\<rparr>) (Cmd_new (fst e) (fst (snd e)) (snd (snd e)))"

text \<open>Adding a command aborts when its name is too long for the class or already in the table.\<close>

definition add_cmd :: "string \<times> int \<times> u16 \<Rightarrow> 'n Cmd list \<Rightarrow> 'n Cmd list option" where
  "add_cmd e cmd_table =
     (case new_cmd e of
        None \<Rightarrow> None
      | Some c \<Rightarrow> if cmd_name c \<in> cmd_name ` set cmd_table then None else Some (cmd_table @ [c]))"

fun add_cmds :: "(string \<times> int \<times> u16) list \<Rightarrow> 'n Cmd list \<Rightarrow> 'n Cmd list option" where
  "add_cmds [] cmd_table = Some cmd_table"
| "add_cmds (e # es) cmd_table = (case add_cmd e cmd_table of None \<Rightarrow> None | Some cmd_table \<Rightarrow> add_cmds es cmd_table)"

definition InitCmdTable :: "'n Cmd list option" where
  "InitCmdTable = add_cmds all_cmds []"

definition GetCmdFromTable :: "string \<Rightarrow> 'n Cmd list \<Rightarrow> 'n Cmd option" where
  "GetCmdFromTable opt cmd_table = List.find (\<lambda>c. cmd_name c = opt) cmd_table"

section \<open>The table is well formed\<close>

lemma new_cmd_name: "new_cmd e = Some c \<Longrightarrow> cmd_name c = fst e"
  by (auto simp: new_cmd_def Cmd_new_def split: if_splits)

lemma add_cmds_ok:
  fixes tab :: "'n Cmd list"
  assumes "distinct (map fst es)" and "\<forall>e\<in>set es. length (fst e) < 31" and "set (map fst es) \<inter> cmd_name ` set tab = {}"
  shows "add_cmds es tab = Some (tab @ map (\<lambda>e. the (new_cmd e)) es)"
  using assms
proof (induction es arbitrary: tab)
  case (Cons e es)
  obtain c :: "'n Cmd" where c: "new_cmd e = Some c" using Cons.prems(2) by (simp add: new_cmd_def Cmd_new_def)
  with new_cmd_name [OF c] Cons show ?case by (auto simp: add_cmd_def)
qed simp

lemmas group_defs = admin_cmds_def kv_cmds_def hash_cmds_def list_cmds_def zset_cmds_def set_cmds_def bitmap_cmds_def
  hyperloglog_cmds_def geo_cmds_def pubsub_cmds_def

lemma all_cmds_distinct: "distinct (map fst all_cmds)"
  unfolding all_cmds_def group_defs by simp

lemma all_cmds_short: "list_all (\<lambda>e. length (fst e) < 31) all_cmds"
  unfolding all_cmds_def group_defs by simp

text \<open>
  What the dispatcher relies on: a name of lower-case letters, the form requests are looked up in; at
  most one of the two partition flags; a partition flag on every command on data; and the exclusive
  lock only for the commands that save or drop a whole database.
\<close>

definition data_flags :: "u16 \<Rightarrow> bool" where
  "data_flags flag = (flag AND 30 \<noteq> kCmdFlagsAdmin \<and> flag AND 30 \<noteq> kCmdFlagsPubSub)"

definition entry_ok :: "string \<times> int \<times> u16 \<Rightarrow> bool" where
  "entry_ok e = (list_all (\<lambda>ch. 97 \<le> (of_char ch :: nat) \<and> (of_char ch :: nat) \<le> 122) (fst e)
     \<and> snd (snd e) AND kCmdFlagsMaskPartition \<noteq> kCmdFlagsMaskPartition
     \<and> (data_flags (snd (snd e)) \<longrightarrow> snd (snd e) AND kCmdFlagsMaskPartition \<noteq> 0)
     \<and> (snd (snd e) AND kCmdFlagsMaskSuspend \<noteq> 0 \<longrightarrow> fst e \<in> {''bgsave'', ''flushall'', ''flushdb''}))"

definition cmd_ok :: "'n Cmd \<Rightarrow> bool" where
  "cmd_ok c = entry_ok (cmd_name c, cmd_arity c, cmd_flag c)"

lemma all_cmds_entries: "list_all entry_ok all_cmds"
  unfolding all_cmds_def group_defs by (simp add: entry_ok_def data_flags_def cmd_flag_defs)

lemma new_cmd_fields:
  assumes "length (fst e) < 31"
  shows "cmd_name (the (new_cmd e)) = fst e" "cmd_ok (the (new_cmd e)) = entry_ok e"
  using assms by (cases e; simp add: new_cmd_def Cmd_new_def cmd_ok_def)+

lemma find_distinct:
  "distinct (map f xs) \<Longrightarrow> x \<in> set xs \<Longrightarrow> List.find (\<lambda>y. f y = f x) xs = Some x"
  by (induction xs) auto

text \<open>
  Building the command table ends without an abort and gives 151 commands. Every one of them is
  found under its name, and is well formed for the dispatcher.
\<close>

theorem cmd_table_wellformed:
  "\<exists>tab :: 'n Cmd list. InitCmdTable = Some tab \<and> length tab = 151 \<and> list_all cmd_ok tab
     \<and> list_all (\<lambda>c. GetCmdFromTable (cmd_name c) tab = Some c) tab"
proof -
  let ?tab = "map (\<lambda>e. the (new_cmd e)) all_cmds :: 'n Cmd list"
  have short: "\<forall>e\<in>set all_cmds. length (fst e) < 31" using all_cmds_short by (simp add: list_all_iff)
  have "InitCmdTable = Some ?tab"
    unfolding InitCmdTable_def using add_cmds_ok [OF all_cmds_distinct short, of "[]"] by simp
  moreover have "length ?tab = 151" unfolding all_cmds_def group_defs by simp
  moreover have "list_all cmd_ok ?tab"
    using all_cmds_entries short by (simp add: list_all_iff new_cmd_fields(2))
  moreover have "map cmd_name ?tab = map fst all_cmds" using short by (simp add: new_cmd_fields(1))
  then have "distinct (map cmd_name ?tab)" using all_cmds_distinct by (simp only:)
  then have "list_all (\<lambda>c. GetCmdFromTable (cmd_name c) ?tab = Some c) ?tab"
    unfolding GetCmdFromTable_def list_all_iff by (intro ballI find_distinct)
  ultimately show ?thesis by blast
qed

end
