(* ===== verification/Pika_Kv.thy ===== *)
theory Pika_Kv
  imports Pika_Command
begin

text \<open>
  The commands on strings and keys of \<^verbatim>\<open>src/pika_kv.cc\<close>: how each reads its arguments (\<^verbatim>\<open>DoInitial\<close>), what it
  asks of the database and how it answers (\<^verbatim>\<open>Do\<close>), how the commands with several keys work on the part of
  one partition (\<^verbatim>\<open>Split\<close>) and put the parts together (\<^verbatim>\<open>Merge\<close>), and what the commands with an expiry write
  into the binlog (\<^verbatim>\<open>ToBinlog\<close>). The database is blackwidow's: its operations are a record of functions.
  One record holds the fields of all the classes; each command uses those its class declares. \<open>None\<close> stands
  for an access out of range, the use of a database that was reset, and for a scan that does not end.
\<close>

section \<open>The database\<close>

datatype DataType = kAll | kStrings | kHashes | kLists | kZSets | kSets

record 'd blackwidow =
  bw_Set :: "string \<Rightarrow> string \<Rightarrow> 'd \<Rightarrow> Status \<times> 'd"
  bw_Setxx :: "string \<Rightarrow> string \<Rightarrow> int \<Rightarrow> 'd \<Rightarrow> Status \<times> int \<times> 'd"
  bw_Setnx :: "string \<Rightarrow> string \<Rightarrow> int \<Rightarrow> 'd \<Rightarrow> Status \<times> int \<times> 'd"
  bw_Setvx :: "string \<Rightarrow> string \<Rightarrow> string \<Rightarrow> int \<Rightarrow> 'd \<Rightarrow> Status \<times> int \<times> 'd"
  bw_Setex :: "string \<Rightarrow> string \<Rightarrow> int \<Rightarrow> 'd \<Rightarrow> Status \<times> 'd"
  bw_Get :: "string \<Rightarrow> 'd \<Rightarrow> Status \<times> string \<times> nat"
  bw_Del :: "string list \<Rightarrow> 'd \<Rightarrow> int \<times> 'd"
  bw_Incrby :: "string \<Rightarrow> int \<Rightarrow> 'd \<Rightarrow> Status \<times> int \<times> 'd"
  bw_Decrby :: "string \<Rightarrow> int \<Rightarrow> 'd \<Rightarrow> Status \<times> int \<times> 'd"
  bw_Incrbyfloat :: "string \<Rightarrow> string \<Rightarrow> 'd \<Rightarrow> Status \<times> string \<times> 'd"
  bw_GetSet :: "string \<Rightarrow> string \<Rightarrow> 'd \<Rightarrow> Status \<times> string \<times> 'd"
  bw_Append :: "string \<Rightarrow> string \<Rightarrow> 'd \<Rightarrow> Status \<times> int \<times> 'd"
  bw_MGet :: "string list \<Rightarrow> 'd \<Rightarrow> Status \<times> (Status \<times> string) list"
  bw_Scan :: "DataType \<Rightarrow> int \<Rightarrow> string \<Rightarrow> int \<Rightarrow> 'd \<Rightarrow> int \<times> string list"
  bw_MSet :: "(string \<times> string) list \<Rightarrow> 'd \<Rightarrow> Status \<times> 'd"
  bw_MSetnx :: "(string \<times> string) list \<Rightarrow> 'd \<Rightarrow> Status \<times> int \<times> 'd"
  bw_Getrange :: "string \<Rightarrow> int \<Rightarrow> int \<Rightarrow> 'd \<Rightarrow> Status \<times> string"
  bw_Setrange :: "string \<Rightarrow> int \<Rightarrow> string \<Rightarrow> 'd \<Rightarrow> Status \<times> int \<times> 'd"
  bw_Strlen :: "string \<Rightarrow> 'd \<Rightarrow> Status \<times> int"
  bw_Exists :: "string list \<Rightarrow> 'd \<Rightarrow> int"
  bw_Expire :: "string \<Rightarrow> int \<Rightarrow> 'd \<Rightarrow> int \<times> 'd"
  bw_Expireat :: "string \<Rightarrow> int \<Rightarrow> 'd \<Rightarrow> int \<times> 'd"
  bw_TTL :: "string \<Rightarrow> 'd \<Rightarrow> (DataType \<times> int) list"
  bw_Persist :: "string \<Rightarrow> 'd \<Rightarrow> int \<times> 'd"
  bw_Type :: "string \<Rightarrow> 'd \<Rightarrow> Status \<times> string"
  bw_Scanx :: "DataType \<Rightarrow> string \<Rightarrow> string \<Rightarrow> int \<Rightarrow> 'd \<Rightarrow> Status \<times> string list \<times> string"
  bw_PKSetexAt :: "string \<Rightarrow> string \<Rightarrow> int \<Rightarrow> 'd \<Rightarrow> Status \<times> 'd"
  bw_PKScanRange :: "DataType \<Rightarrow> string \<Rightarrow> string \<Rightarrow> string \<Rightarrow> int \<Rightarrow> 'd \<Rightarrow> Status \<times> string list \<times> (string \<times> string) list \<times> string"
  bw_PKRScanRange :: "DataType \<Rightarrow> string \<Rightarrow> string \<Rightarrow> string \<Rightarrow> int \<Rightarrow> 'd \<Rightarrow> Status \<times> string list \<times> (string \<times> string) list \<times> string"
  bw_Delvx :: "string \<Rightarrow> string \<Rightarrow> 'd \<Rightarrow> Status \<times> int \<times> 'd"
  bw_ToString :: "Status \<Rightarrow> string"

section \<open>The fields of the commands\<close>

datatype SetCondition = kNONE | kNX | kXX | kVX | kEXORPX

record 'n KvCmd = "'n Cmd" +
  kv_key :: string
  kv_value :: string
  kv_target :: string
  kv_condition :: SetCondition
  kv_success :: int
  kv_sec :: int
  kv_keys :: "string list"
  kv_split_res :: int
  kv_split_values :: "(Status \<times> string) list"
  kv_by :: int
  kv_new_value :: int
  kv_new_string :: string
  kv_pattern :: string
  kv_type :: DataType
  kv_kvs :: "(string \<times> string) list"
  kv_start :: int
  kv_end :: int
  kv_time_stamp :: int
  kv_cursor :: int
  kv_count :: int
  kv_key_start :: string
  kv_key_end :: string
  kv_string_with_value :: bool

text \<open>
  What the functions take from elsewhere: the string functions of slash, the clock, the mode and the
  limit for one answer of the configuration.
\<close>

record 'd kv_env =
  ke_ll2string :: "int \<Rightarrow> string"
  ke_string2l :: "string \<Rightarrow> int option"
  ke_string2d :: "string \<Rightarrow> bool"
  ke_db :: "'d blackwidow"
  ke_classic_mode :: bool
  ke_max_client_response_size :: nat

text \<open>\<^verbatim>\<open>strcasecmp\<close> of the C string in an argument with a word in lower case.\<close>

definition lower :: "char \<Rightarrow> char" where
  "lower c = (if 65 \<le> (of_char c :: nat) \<and> (of_char c :: nat) \<le> 90 then char_of (of_char c + 32 :: nat) else c)"

definition same_word :: "string \<Rightarrow> string \<Rightarrow> bool" where
  "same_word opt w = (map lower (takeWhile (\<lambda>c. c \<noteq> CHR 0x00) opt) = w)"

definition wrong_num :: "string \<Rightarrow> 'n KvCmd \<Rightarrow> 'n KvCmd" where
  "wrong_num name c = set_cmd_res (SetRes_content kWrongNum name) c"

definition set_ret :: "CmdRet \<Rightarrow> 'n KvCmd \<Rightarrow> 'n KvCmd" where
  "set_ret ret c = set_cmd_res (SetRes ret) c"

definition err_other :: "string \<Rightarrow> 'n KvCmd \<Rightarrow> 'n KvCmd" where
  "err_other msg c = set_cmd_res (SetRes_content kErrOther msg) c"

definition add_integer :: "'d kv_env \<Rightarrow> int \<Rightarrow> 'n KvCmd \<Rightarrow> 'n KvCmd" where
  "add_integer e i c = set_cmd_res (AppendInteger (ke_ll2string e) i) c"

definition add_content :: "string \<Rightarrow> 'n KvCmd \<Rightarrow> 'n KvCmd" where
  "add_content v c = set_cmd_res (AppendContent v) c"

definition add_string_len :: "'d kv_env \<Rightarrow> int \<Rightarrow> 'n KvCmd \<Rightarrow> 'n KvCmd" where
  "add_string_len e i c = set_cmd_res (AppendStringLen (ke_ll2string e) i) c"

definition add_array_len :: "'d kv_env \<Rightarrow> int \<Rightarrow> 'n KvCmd \<Rightarrow> 'n KvCmd" where
  "add_array_len e i c = set_cmd_res (AppendArrayLen (ke_ll2string e) i) c"

definition db_error :: "'d kv_env \<Rightarrow> Status \<Rightarrow> 'n KvCmd \<Rightarrow> 'n KvCmd" where
  "db_error e s c = err_other (bw_ToString (ke_db e) s) c"

lemmas kv_res_simps = wrong_num_def set_ret_def err_other_def add_integer_def add_content_def add_string_len_def add_array_len_def
  db_error_def

definition argc :: "'n KvCmd \<Rightarrow> int" where
  "argc c = int (length (cmd_argv c))"

text \<open>An operation on the database of a partition, and one that only reads it.\<close>

definition on_db :: "'d Partition \<Rightarrow> ('d \<Rightarrow> 'c \<times> 'd) \<Rightarrow> ('c \<times> 'd Partition) option" where
  "on_db p f = (case pt_db p of None \<Rightarrow> None | Some d \<Rightarrow> (case f d of (c, d) \<Rightarrow> Some (c, p\<lparr>pt_db := Some d\<rparr>)))"

definition read_db :: "'d Partition \<Rightarrow> ('d \<Rightarrow> 'c) \<Rightarrow> ('c \<times> 'd Partition) option" where
  "read_db p f = (case pt_db p of None \<Rightarrow> None | Some d \<Rightarrow> Some (f d, p))"

text \<open>The argument lists that several commands share: a key, a key and a value, a key and a number.\<close>

definition key_initial :: "string \<Rightarrow> 'n KvCmd \<Rightarrow> 'n KvCmd option" where
  "key_initial name c =
     (if \<not> CheckArg (argc c) c then Some (wrong_num name c)
      else case cmd_argv c of _ # key # _ \<Rightarrow> Some (c\<lparr>kv_key := key\<rparr>) | _ \<Rightarrow> None)"

definition key_value_initial :: "string \<Rightarrow> 'n KvCmd \<Rightarrow> 'n KvCmd option" where
  "key_value_initial name c =
     (if \<not> CheckArg (argc c) c then Some (wrong_num name c)
      else case cmd_argv c of _ # key # v # _ \<Rightarrow> Some (c\<lparr>kv_key := key, kv_value := v\<rparr>) | _ \<Rightarrow> None)"

definition key_int_initial :: "'d kv_env \<Rightarrow> string \<Rightarrow> (int \<Rightarrow> 'n KvCmd \<Rightarrow> 'n KvCmd) \<Rightarrow> 'n KvCmd \<Rightarrow> 'n KvCmd option" where
  "key_int_initial e name upd c =
     (if \<not> CheckArg (argc c) c then Some (wrong_num name c)
      else case cmd_argv c of
             _ # key # n # _ \<Rightarrow>
               (let c = c\<lparr>kv_key := key\<rparr>
                in case ke_string2l e n of None \<Rightarrow> Some (set_ret kInvalidInt c) | Some i \<Rightarrow> Some (upd i c))
           | _ \<Rightarrow> None)"

section \<open>SET\<close>

fun set_options :: "'d kv_env \<Rightarrow> string list \<Rightarrow> 'n KvCmd \<Rightarrow> 'n KvCmd" where
  "set_options e [] c = c"
| "set_options e (opt # rest) c =
     (if same_word opt ''xx'' then set_options e rest (c\<lparr>kv_condition := kXX\<rparr>)
      else if same_word opt ''nx'' then set_options e rest (c\<lparr>kv_condition := kNX\<rparr>)
      else if same_word opt ''vx''
      then (let c = c\<lparr>kv_condition := kVX\<rparr>
            in case rest of [] \<Rightarrow> set_ret kSyntaxErr c | t # rest \<Rightarrow> set_options e rest (c\<lparr>kv_target := t\<rparr>))
      else if same_word opt ''ex'' \<or> same_word opt ''px''
      then (let c = c\<lparr>kv_condition := (if kv_condition c = kNONE then kEXORPX else kv_condition c)\<rparr>
            in case rest of
                 [] \<Rightarrow> set_ret kSyntaxErr c
               | n # rest \<Rightarrow>
                   (case ke_string2l e n of
                      None \<Rightarrow> set_ret kInvalidInt c
                    | Some sec \<Rightarrow>
                        let c = c\<lparr>kv_sec := sec\<rparr>
                        in if sec \<le> 0 then err_other ''invalid expire time in set'' c
                           else set_options e rest (if same_word opt ''px'' then c\<lparr>kv_sec := sec div 1000\<rparr> else c)))
      else set_ret kSyntaxErr c)"

definition SetCmd_DoInitial :: "'d kv_env \<Rightarrow> 'n KvCmd \<Rightarrow> 'n KvCmd option" where
  "SetCmd_DoInitial e c =
     (if \<not> CheckArg (argc c) c then Some (wrong_num ''set'' c)
      else case cmd_argv c of
             _ # key # v # opts \<Rightarrow>
               Some (set_options e opts (c\<lparr>kv_key := key, kv_value := v, kv_condition := kNONE, kv_sec := 0\<rparr>))
           | _ \<Rightarrow> None)"

definition SetCmd_Clear :: "'n KvCmd \<Rightarrow> 'n KvCmd" where
  "SetCmd_Clear c = c\<lparr>kv_sec := 0, kv_success := 0, kv_condition := kNONE\<rparr>"

definition SetCmd_Do :: "'d kv_env \<Rightarrow> 'n KvCmd \<Rightarrow> 'd Partition \<Rightarrow> ('n KvCmd \<times> 'd Partition) option" where
  "SetCmd_Do e c p = on_db p (\<lambda>d.
     let (s, res, c, d) =
           (case kv_condition c of
              kXX \<Rightarrow> (case bw_Setxx (ke_db e) (kv_key c) (kv_value c) (kv_sec c) d of (s, r, d) \<Rightarrow> (s, r, c, d))
            | kNX \<Rightarrow> (case bw_Setnx (ke_db e) (kv_key c) (kv_value c) (kv_sec c) d of (s, r, d) \<Rightarrow> (s, r, c, d))
            | kVX \<Rightarrow> (case bw_Setvx (ke_db e) (kv_key c) (kv_target c) (kv_value c) (kv_sec c) d of
                        (s, r, d) \<Rightarrow> (s, 1, c\<lparr>kv_success := r\<rparr>, d))
            | kEXORPX \<Rightarrow> (case bw_Setex (ke_db e) (kv_key c) (kv_value c) (kv_sec c) d of (s, d) \<Rightarrow> (s, 1, c, d))
            | kNONE \<Rightarrow> (case bw_Set (ke_db e) (kv_key c) (kv_value c) d of (s, d) \<Rightarrow> (s, 1, c, d)))
     in (if ok s \<or> IsNotFound s
         then (if kv_condition c = kVX then add_integer e (kv_success c) c
               else if res = 1 then set_ret kOk c else add_array_len e (-1) c)
         else db_error e s c, d))"

text \<open>
  The item of a relative expiry: the time of expiry becomes absolute. The time stamp is a 32-bit integer.
\<close>

definition int32 :: "int \<Rightarrow> int" where
  "int32 i = sint (word_of_int i :: i32)"

definition pksetexat_content :: "'d kv_env \<Rightarrow> string \<Rightarrow> int \<Rightarrow> string \<Rightarrow> string" where
  "pksetexat_content e key at v =
     fold (append_arg (ke_ll2string e)) [''pksetexat'', key, ke_ll2string e at, v] (RedisAppendLen (ke_ll2string e) [] 4 ''*'')"

definition SetCmd_ToBinlog ::
  "slash_coding \<Rightarrow> 'd kv_env \<Rightarrow> int \<Rightarrow> u32 \<Rightarrow> u32 \<Rightarrow> u64 \<Rightarrow> u32 \<Rightarrow> u64 \<Rightarrow> 'n KvCmd \<Rightarrow> bytes" where
  "SetCmd_ToBinlog C e now exec_time term_id logic_id filenum offset c =
     (if kv_condition c = kEXORPX
      then BinlogEncode C TypeFirst exec_time term_id logic_id filenum offset
             (pksetexat_content e (kv_key c) (int32 (now + kv_sec c)) (kv_value c)) []
      else Cmd_ToBinlog C (ke_ll2string e) exec_time term_id logic_id filenum offset c)"

section \<open>Commands on one key\<close>

definition GetCmd_DoInitial :: "'n KvCmd \<Rightarrow> 'n KvCmd option" where
  "GetCmd_DoInitial c = key_initial ''get'' c"

definition GetCmd_Do :: "'d kv_env \<Rightarrow> 'n KvCmd \<Rightarrow> 'd Partition \<Rightarrow> ('n KvCmd \<times> 'd Partition) option" where
  "GetCmd_Do e c p =
     (case pt_db p of
        None \<Rightarrow> None
      | Some d \<Rightarrow>
          (case bw_Get (ke_db e) (kv_key c) d of (s, v, capacity) \<Rightarrow>
             if ok s then map_option (\<lambda>r. (c\<lparr>cmd_res := r\<rparr>, p)) (AppendString_move (ke_ll2string e) capacity v (cmd_res c))
             else if IsNotFound s then Some (add_string_len e (-1) c, p)
             else Some (db_error e s c, p)))"

text \<open>The answer of the four commands that count; the text of the status tells a value that is no number.\<close>

definition IsInvalidArgument :: "Status \<Rightarrow> bool" where
  "IsInvalidArgument s = (case s of InvalidArgument _ \<Rightarrow> True | _ \<Rightarrow> False)"

definition count_answer :: "'d kv_env \<Rightarrow> Status \<times> int \<times> 'd \<Rightarrow> 'n KvCmd \<Rightarrow> 'n KvCmd \<times> 'd" where
  "count_answer e r c =
     (case r of (s, new_value, d) \<Rightarrow>
        let c = c\<lparr>kv_new_value := new_value\<rparr>
        in (if ok s then add_content ('':'' @ dec_string new_value) c
            else if IsCorruption s \<and> bw_ToString (ke_db e) s = ''Corruption: Value is not a integer'' then set_ret kInvalidInt c
            else if IsInvalidArgument s then set_ret kOverFlow c
            else db_error e s c, d))"

definition IncrCmd_DoInitial :: "'n KvCmd \<Rightarrow> 'n KvCmd option" where
  "IncrCmd_DoInitial c = key_initial ''incr'' c"

definition IncrCmd_Do :: "'d kv_env \<Rightarrow> 'n KvCmd \<Rightarrow> 'd Partition \<Rightarrow> ('n KvCmd \<times> 'd Partition) option" where
  "IncrCmd_Do e c p = on_db p (\<lambda>d. count_answer e (bw_Incrby (ke_db e) (kv_key c) 1 d) c)"

definition IncrbyCmd_DoInitial :: "'d kv_env \<Rightarrow> 'n KvCmd \<Rightarrow> 'n KvCmd option" where
  "IncrbyCmd_DoInitial e c =
     (if \<not> CheckArg (argc c) c then Some (wrong_num ''incrby'' c)
      else case cmd_argv c of
             _ # key # n # _ \<Rightarrow>
               (let c = c\<lparr>kv_key := key\<rparr>
                in case ke_string2l e n of
                     None \<Rightarrow> Some (set_cmd_res (SetRes_content kInvalidInt ''incrby'') c)
                   | Some i \<Rightarrow> Some (c\<lparr>kv_by := i\<rparr>))
           | _ \<Rightarrow> None)"

definition IncrbyCmd_Do :: "'d kv_env \<Rightarrow> 'n KvCmd \<Rightarrow> 'd Partition \<Rightarrow> ('n KvCmd \<times> 'd Partition) option" where
  "IncrbyCmd_Do e c p = on_db p (\<lambda>d. count_answer e (bw_Incrby (ke_db e) (kv_key c) (kv_by c) d) c)"

definition IncrbyfloatCmd_DoInitial :: "'d kv_env \<Rightarrow> 'n KvCmd \<Rightarrow> 'n KvCmd option" where
  "IncrbyfloatCmd_DoInitial e c =
     (if \<not> CheckArg (argc c) c then Some (wrong_num ''incrbyfloat'' c)
      else case cmd_argv c of
             _ # key # v # _ \<Rightarrow>
               (let c = c\<lparr>kv_key := key, kv_value := v\<rparr> in Some (if \<not> ke_string2d e v then set_ret kInvalidFloat c else c))
           | _ \<Rightarrow> None)"

definition IncrbyfloatCmd_Do :: "'d kv_env \<Rightarrow> 'n KvCmd \<Rightarrow> 'd Partition \<Rightarrow> ('n KvCmd \<times> 'd Partition) option" where
  "IncrbyfloatCmd_Do e c p = on_db p (\<lambda>d.
     case bw_Incrbyfloat (ke_db e) (kv_key c) (kv_value c) d of (s, new_value, d) \<Rightarrow>
       let c = c\<lparr>kv_new_string := new_value\<rparr>
       in (if ok s then add_content new_value (add_string_len e (int (length new_value)) c)
           else if IsCorruption s \<and> bw_ToString (ke_db e) s = ''Corruption: Value is not a vaild float'' then set_ret kInvalidFloat c
           else if IsInvalidArgument s then set_ret kOverFlow c
           else db_error e s c, d))"

definition DecrCmd_DoInitial :: "'n KvCmd \<Rightarrow> 'n KvCmd option" where
  "DecrCmd_DoInitial c = key_initial ''decr'' c"

definition DecrCmd_Do :: "'d kv_env \<Rightarrow> 'n KvCmd \<Rightarrow> 'd Partition \<Rightarrow> ('n KvCmd \<times> 'd Partition) option" where
  "DecrCmd_Do e c p = on_db p (\<lambda>d. count_answer e (bw_Decrby (ke_db e) (kv_key c) 1 d) c)"

definition DecrbyCmd_DoInitial :: "'d kv_env \<Rightarrow> 'n KvCmd \<Rightarrow> 'n KvCmd option" where
  "DecrbyCmd_DoInitial e c = key_int_initial e ''decrby'' (\<lambda>i c. c\<lparr>kv_by := i\<rparr>) c"

definition DecrbyCmd_Do :: "'d kv_env \<Rightarrow> 'n KvCmd \<Rightarrow> 'd Partition \<Rightarrow> ('n KvCmd \<times> 'd Partition) option" where
  "DecrbyCmd_Do e c p = on_db p (\<lambda>d. count_answer e (bw_Decrby (ke_db e) (kv_key c) (kv_by c) d) c)"

definition GetsetCmd_DoInitial :: "'n KvCmd \<Rightarrow> 'n KvCmd option" where
  "GetsetCmd_DoInitial c =
     (if \<not> CheckArg (argc c) c then Some (wrong_num ''getset'' c)
      else case cmd_argv c of _ # key # v # _ \<Rightarrow> Some (c\<lparr>kv_key := key, kv_new_string := v\<rparr>) | _ \<Rightarrow> None)"

definition GetsetCmd_Do :: "'d kv_env \<Rightarrow> 'n KvCmd \<Rightarrow> 'd Partition \<Rightarrow> ('n KvCmd \<times> 'd Partition) option" where
  "GetsetCmd_Do e c p = on_db p (\<lambda>d.
     case bw_GetSet (ke_db e) (kv_key c) (kv_new_string c) d of (s, old_value, d) \<Rightarrow>
       (if ok s
        then (if old_value = [] then add_content ''$-1'' c else add_content old_value (add_string_len e (int (length old_value)) c))
        else db_error e s c, d))"

definition AppendCmd_DoInitial :: "'n KvCmd \<Rightarrow> 'n KvCmd option" where
  "AppendCmd_DoInitial c = key_value_initial ''append'' c"

text \<open>The answer of a command that gives a number, also when the key was not found.\<close>

definition number_answer :: "'d kv_env \<Rightarrow> bool \<Rightarrow> Status \<Rightarrow> int \<Rightarrow> 'n KvCmd \<Rightarrow> 'n KvCmd" where
  "number_answer e not_found_ok s n c = (if ok s \<or> not_found_ok \<and> IsNotFound s then add_integer e n c else db_error e s c)"

definition AppendCmd_Do :: "'d kv_env \<Rightarrow> 'n KvCmd \<Rightarrow> 'd Partition \<Rightarrow> ('n KvCmd \<times> 'd Partition) option" where
  "AppendCmd_Do e c p = on_db p (\<lambda>d.
     case bw_Append (ke_db e) (kv_key c) (kv_value c) d of (s, new_len, d) \<Rightarrow> (number_answer e True s new_len c, d))"

definition SetnxCmd_DoInitial :: "'n KvCmd \<Rightarrow> 'n KvCmd option" where
  "SetnxCmd_DoInitial c = key_value_initial ''setnx'' c"

definition SetnxCmd_Do :: "'d kv_env \<Rightarrow> 'n KvCmd \<Rightarrow> 'd Partition \<Rightarrow> ('n KvCmd \<times> 'd Partition) option" where
  "SetnxCmd_Do e c p = on_db p (\<lambda>d.
     case bw_Setnx (ke_db e) (kv_key c) (kv_value c) 0 d of (s, success, d) \<Rightarrow>
       (number_answer e False s success (c\<lparr>kv_success := success\<rparr>), d))"

definition SetnxCmd_ToBinlog ::
  "slash_coding \<Rightarrow> 'd kv_env \<Rightarrow> u32 \<Rightarrow> u32 \<Rightarrow> u64 \<Rightarrow> u32 \<Rightarrow> u64 \<Rightarrow> 'n KvCmd \<Rightarrow> bytes" where
  "SetnxCmd_ToBinlog C e exec_time term_id logic_id filenum offset c =
     BinlogEncode C TypeFirst exec_time term_id logic_id filenum offset
       (fold (append_arg (ke_ll2string e)) [''setnx'', kv_key c, kv_value c] (RedisAppendLen (ke_ll2string e) [] 3 ''*'')) []"

text \<open>The arguments of SETEX and PSETEX: a number between key and value.\<close>

definition setex_initial :: "'d kv_env \<Rightarrow> string \<Rightarrow> 'n KvCmd \<Rightarrow> 'n KvCmd option" where
  "setex_initial e name c =
     (if \<not> CheckArg (argc c) c then Some (wrong_num name c)
      else case cmd_argv c of
             _ # key # n # v # _ \<Rightarrow>
               (let c = c\<lparr>kv_key := key\<rparr>
                in case ke_string2l e n of
                     None \<Rightarrow> Some (set_ret kInvalidInt c)
                   | Some sec \<Rightarrow> Some (c\<lparr>kv_sec := sec, kv_value := v\<rparr>))
           | _ \<Rightarrow> None)"

definition ok_answer :: "'d kv_env \<Rightarrow> Status \<Rightarrow> 'n KvCmd \<Rightarrow> 'n KvCmd" where
  "ok_answer e s c = (if ok s then set_ret kOk c else db_error e s c)"

definition SetexCmd_DoInitial :: "'d kv_env \<Rightarrow> 'n KvCmd \<Rightarrow> 'n KvCmd option" where
  "SetexCmd_DoInitial e c = setex_initial e ''setex'' c"

definition SetexCmd_Do :: "'d kv_env \<Rightarrow> 'n KvCmd \<Rightarrow> 'd Partition \<Rightarrow> ('n KvCmd \<times> 'd Partition) option" where
  "SetexCmd_Do e c p = on_db p (\<lambda>d.
     case bw_Setex (ke_db e) (kv_key c) (kv_value c) (kv_sec c) d of (s, d) \<Rightarrow> (ok_answer e s c, d))"

definition SetexCmd_ToBinlog ::
  "slash_coding \<Rightarrow> 'd kv_env \<Rightarrow> int \<Rightarrow> u32 \<Rightarrow> u32 \<Rightarrow> u64 \<Rightarrow> u32 \<Rightarrow> u64 \<Rightarrow> 'n KvCmd \<Rightarrow> bytes" where
  "SetexCmd_ToBinlog C e now exec_time term_id logic_id filenum offset c =
     BinlogEncode C TypeFirst exec_time term_id logic_id filenum offset
       (pksetexat_content e (kv_key c) (int32 (now + kv_sec c)) (kv_value c)) []"

definition PsetexCmd_DoInitial :: "'d kv_env \<Rightarrow> 'n KvCmd \<Rightarrow> 'n KvCmd option" where
  "PsetexCmd_DoInitial e c = setex_initial e ''psetex'' c"

text \<open>Division of 64-bit integers truncates towards zero.\<close>

definition trunc_div :: "int \<Rightarrow> int \<Rightarrow> int" where
  "trunc_div a b = (if a < 0 then - ((- a) div b) else a div b)"

definition PsetexCmd_Do :: "'d kv_env \<Rightarrow> 'n KvCmd \<Rightarrow> 'd Partition \<Rightarrow> ('n KvCmd \<times> 'd Partition) option" where
  "PsetexCmd_Do e c p = on_db p (\<lambda>d.
     case bw_Setex (ke_db e) (kv_key c) (kv_value c) (trunc_div (kv_sec c) 1000) d of (s, d) \<Rightarrow> (ok_answer e s c, d))"

definition PsetexCmd_ToBinlog ::
  "slash_coding \<Rightarrow> 'd kv_env \<Rightarrow> int \<Rightarrow> u32 \<Rightarrow> u32 \<Rightarrow> u64 \<Rightarrow> u32 \<Rightarrow> u64 \<Rightarrow> 'n KvCmd \<Rightarrow> bytes" where
  "PsetexCmd_ToBinlog C e now exec_time term_id logic_id filenum offset c =
     BinlogEncode C TypeFirst exec_time term_id logic_id filenum offset
       (pksetexat_content e (kv_key c) (int32 (now + trunc_div (kv_sec c) 1000)) (kv_value c)) []"

definition DelvxCmd_DoInitial :: "'n KvCmd \<Rightarrow> 'n KvCmd option" where
  "DelvxCmd_DoInitial c = key_value_initial ''delvx'' c"

definition DelvxCmd_Do :: "'d kv_env \<Rightarrow> 'n KvCmd \<Rightarrow> 'd Partition \<Rightarrow> ('n KvCmd \<times> 'd Partition) option" where
  "DelvxCmd_Do e c p = on_db p (\<lambda>d.
     case bw_Delvx (ke_db e) (kv_key c) (kv_value c) d of (s, success, d) \<Rightarrow>
       (number_answer e True s success (c\<lparr>kv_success := success\<rparr>), d))"

definition GetrangeCmd_DoInitial :: "'d kv_env \<Rightarrow> 'n KvCmd \<Rightarrow> 'n KvCmd option" where
  "GetrangeCmd_DoInitial e c =
     (if \<not> CheckArg (argc c) c then Some (wrong_num ''getrange'' c)
      else case cmd_argv c of
             _ # key # a # b # _ \<Rightarrow>
               (let c = c\<lparr>kv_key := key\<rparr>
                in case ke_string2l e a of
                     None \<Rightarrow> Some (set_ret kInvalidInt c)
                   | Some i \<Rightarrow>
                       (let c = c\<lparr>kv_start := i\<rparr>
                        in case ke_string2l e b of None \<Rightarrow> Some (set_ret kInvalidInt c) | Some j \<Rightarrow> Some (c\<lparr>kv_end := j\<rparr>)))
           | _ \<Rightarrow> None)"

definition GetrangeCmd_Do :: "'d kv_env \<Rightarrow> 'n KvCmd \<Rightarrow> 'd Partition \<Rightarrow> ('n KvCmd \<times> 'd Partition) option" where
  "GetrangeCmd_Do e c p = read_db p (\<lambda>d.
     case bw_Getrange (ke_db e) (kv_key c) (kv_start c) (kv_end c) d of (s, substr) \<Rightarrow>
       if ok s \<or> IsNotFound s then add_content substr (add_string_len e (int (length substr)) c) else db_error e s c)"

definition SetrangeCmd_DoInitial :: "'d kv_env \<Rightarrow> 'n KvCmd \<Rightarrow> 'n KvCmd option" where
  "SetrangeCmd_DoInitial e c =
     (if \<not> CheckArg (argc c) c then Some (wrong_num ''setrange'' c)
      else case cmd_argv c of
             _ # key # n # v # _ \<Rightarrow>
               (let c = c\<lparr>kv_key := key\<rparr>
                in case ke_string2l e n of
                     None \<Rightarrow> Some (set_ret kInvalidInt c)
                   | Some i \<Rightarrow> Some (c\<lparr>kv_start := i, kv_value := v\<rparr>))
           | _ \<Rightarrow> None)"

definition SetrangeCmd_Do :: "'d kv_env \<Rightarrow> 'n KvCmd \<Rightarrow> 'd Partition \<Rightarrow> ('n KvCmd \<times> 'd Partition) option" where
  "SetrangeCmd_Do e c p = on_db p (\<lambda>d.
     case bw_Setrange (ke_db e) (kv_key c) (kv_start c) (kv_value c) d of (s, new_len, d) \<Rightarrow> (number_answer e False s new_len c, d))"

definition StrlenCmd_DoInitial :: "'n KvCmd \<Rightarrow> 'n KvCmd option" where
  "StrlenCmd_DoInitial c = key_initial ''strlen'' c"

definition StrlenCmd_Do :: "'d kv_env \<Rightarrow> 'n KvCmd \<Rightarrow> 'd Partition \<Rightarrow> ('n KvCmd \<times> 'd Partition) option" where
  "StrlenCmd_Do e c p = read_db p (\<lambda>d. case bw_Strlen (ke_db e) (kv_key c) d of (s, len) \<Rightarrow> number_answer e True s len c)"

definition TypeCmd_DoInitial :: "'n KvCmd \<Rightarrow> 'n KvCmd option" where
  "TypeCmd_DoInitial c = key_initial ''type'' c"

definition TypeCmd_Do :: "'d kv_env \<Rightarrow> 'n KvCmd \<Rightarrow> 'd Partition \<Rightarrow> ('n KvCmd \<times> 'd Partition) option" where
  "TypeCmd_Do e c p = read_db p (\<lambda>d.
     case bw_Type (ke_db e) (kv_key c) d of (s, res) \<Rightarrow> if ok s then add_content (''+'' @ res) c else db_error e s c)"

section \<open>Expiry\<close>

definition int_answer :: "'d kv_env \<Rightarrow> string \<Rightarrow> int \<Rightarrow> 'n KvCmd \<Rightarrow> 'n KvCmd" where
  "int_answer e msg res c = (if res \<noteq> -1 then add_integer e res c else err_other msg c)"

text \<open>An item of the binlog with a key and a time, of which \<open>n\<close> arguments are announced.\<close>

definition expireat_content :: "'d kv_env \<Rightarrow> int \<Rightarrow> string \<Rightarrow> int \<Rightarrow> string" where
  "expireat_content e n key at =
     fold (append_arg (ke_ll2string e)) [''expireat'', key, ke_ll2string e at] (RedisAppendLen (ke_ll2string e) [] n ''*'')"

definition ExpireCmd_DoInitial :: "'d kv_env \<Rightarrow> 'n KvCmd \<Rightarrow> 'n KvCmd option" where
  "ExpireCmd_DoInitial e c = key_int_initial e ''expire'' (\<lambda>i c. c\<lparr>kv_sec := i\<rparr>) c"

definition ExpireCmd_Do :: "'d kv_env \<Rightarrow> 'n KvCmd \<Rightarrow> 'd Partition \<Rightarrow> ('n KvCmd \<times> 'd Partition) option" where
  "ExpireCmd_Do e c p = on_db p (\<lambda>d.
     case bw_Expire (ke_db e) (kv_key c) (kv_sec c) d of (res, d) \<Rightarrow> (int_answer e ''expire internal error'' res c, d))"

definition ExpireCmd_ToBinlog ::
  "slash_coding \<Rightarrow> 'd kv_env \<Rightarrow> int \<Rightarrow> u32 \<Rightarrow> u32 \<Rightarrow> u64 \<Rightarrow> u32 \<Rightarrow> u64 \<Rightarrow> 'n KvCmd \<Rightarrow> bytes" where
  "ExpireCmd_ToBinlog C e now exec_time term_id logic_id filenum offset c =
     BinlogEncode C TypeFirst exec_time term_id logic_id filenum offset (expireat_content e 3 (kv_key c) (now + kv_sec c)) []"

definition PexpireCmd_DoInitial :: "'d kv_env \<Rightarrow> 'n KvCmd \<Rightarrow> 'n KvCmd option" where
  "PexpireCmd_DoInitial e c = key_int_initial e ''pexpire'' (\<lambda>i c. c\<lparr>kv_sec := i\<rparr>) c"

definition PexpireCmd_Do :: "'d kv_env \<Rightarrow> 'n KvCmd \<Rightarrow> 'd Partition \<Rightarrow> ('n KvCmd \<times> 'd Partition) option" where
  "PexpireCmd_Do e c p = on_db p (\<lambda>d.
     case bw_Expire (ke_db e) (kv_key c) (trunc_div (kv_sec c) 1000) d of (res, d) \<Rightarrow> (int_answer e ''expire internal error'' res c, d))"

definition PexpireCmd_ToBinlog ::
  "slash_coding \<Rightarrow> 'd kv_env \<Rightarrow> int \<Rightarrow> u32 \<Rightarrow> u32 \<Rightarrow> u64 \<Rightarrow> u32 \<Rightarrow> u64 \<Rightarrow> 'n KvCmd \<Rightarrow> bytes" where
  "PexpireCmd_ToBinlog C e now exec_time term_id logic_id filenum offset c =
     BinlogEncode C TypeFirst exec_time term_id logic_id filenum offset
       (expireat_content e (argc c) (kv_key c) (now + trunc_div (kv_sec c) 1000)) []"

definition ExpireatCmd_DoInitial :: "'d kv_env \<Rightarrow> 'n KvCmd \<Rightarrow> 'n KvCmd option" where
  "ExpireatCmd_DoInitial e c = key_int_initial e ''expireat'' (\<lambda>i c. c\<lparr>kv_time_stamp := i\<rparr>) c"

definition ExpireatCmd_Do :: "'d kv_env \<Rightarrow> 'n KvCmd \<Rightarrow> 'd Partition \<Rightarrow> ('n KvCmd \<times> 'd Partition) option" where
  "ExpireatCmd_Do e c p = on_db p (\<lambda>d.
     case bw_Expireat (ke_db e) (kv_key c) (kv_time_stamp c) d of (res, d) \<Rightarrow> (int_answer e ''expireat internal error'' res c, d))"

definition PexpireatCmd_DoInitial :: "'d kv_env \<Rightarrow> 'n KvCmd \<Rightarrow> 'n KvCmd option" where
  "PexpireatCmd_DoInitial e c = key_int_initial e ''pexpireat'' (\<lambda>i c. c\<lparr>kv_time_stamp := i\<rparr>) c"

definition PexpireatCmd_ToBinlog ::
  "slash_coding \<Rightarrow> 'd kv_env \<Rightarrow> u32 \<Rightarrow> u32 \<Rightarrow> u64 \<Rightarrow> u32 \<Rightarrow> u64 \<Rightarrow> 'n KvCmd \<Rightarrow> bytes" where
  "PexpireatCmd_ToBinlog C e exec_time term_id logic_id filenum offset c =
     BinlogEncode C TypeFirst exec_time term_id logic_id filenum offset
       (expireat_content e (argc c) (kv_key c) (trunc_div (kv_time_stamp c) 1000)) []"

definition PexpireatCmd_Do :: "'d kv_env \<Rightarrow> 'n KvCmd \<Rightarrow> 'd Partition \<Rightarrow> ('n KvCmd \<times> 'd Partition) option" where
  "PexpireatCmd_Do e c p = on_db p (\<lambda>d.
     case bw_Expireat (ke_db e) (kv_key c) (trunc_div (kv_time_stamp c) 1000) d of
       (res, d) \<Rightarrow> (int_answer e ''pexpireat internal error'' res c, d))"

text \<open>The time a map gives for a type; a missing entry is created as 0.\<close>

definition ttl_of :: "DataType \<Rightarrow> (DataType \<times> int) list \<Rightarrow> int" where
  "ttl_of ty ts = (case map_of ts ty of None \<Rightarrow> 0 | Some t \<Rightarrow> t)"

definition TtlCmd_DoInitial :: "'n KvCmd \<Rightarrow> 'n KvCmd option" where
  "TtlCmd_DoInitial c = key_initial ''ttl'' c"

definition TtlCmd_Do :: "'d kv_env \<Rightarrow> 'n KvCmd \<Rightarrow> 'd Partition \<Rightarrow> ('n KvCmd \<times> 'd Partition) option" where
  "TtlCmd_Do e c p = read_db p (\<lambda>d.
     let ts = bw_TTL (ke_db e) (kv_key c) d
     in if \<exists>item\<in>set ts. snd item = -3 then err_other ''ttl internal error'' c
        else if ttl_of kStrings ts \<noteq> -2 then add_integer e (ttl_of kStrings ts) c
        else if ttl_of kHashes ts \<noteq> -2 then add_integer e (ttl_of kHashes ts) c
        else if ttl_of kLists ts \<noteq> -2 then add_integer e (ttl_of kLists ts) c
        else if ttl_of kZSets ts \<noteq> -2 then add_integer e (ttl_of kZSets ts) c
        else if ttl_of kSets ts \<noteq> -2 then add_integer e (ttl_of kSets ts) c
        else add_integer e (-2) c)"

definition PttlCmd_DoInitial :: "'n KvCmd \<Rightarrow> 'n KvCmd option" where
  "PttlCmd_DoInitial c = key_initial ''pttl'' c"

definition add_millis :: "'d kv_env \<Rightarrow> int \<Rightarrow> 'n KvCmd \<Rightarrow> 'n KvCmd" where
  "add_millis e t c = (if t = -1 then add_integer e (-1) c else add_integer e (t * 1000) c)"

definition PttlCmd_Do :: "'d kv_env \<Rightarrow> 'n KvCmd \<Rightarrow> 'd Partition \<Rightarrow> ('n KvCmd \<times> 'd Partition) option" where
  "PttlCmd_Do e c p = read_db p (\<lambda>d.
     let ts = bw_TTL (ke_db e) (kv_key c) d
     in if \<exists>item\<in>set ts. snd item = -3 then err_other ''ttl internal error'' c
        else if ttl_of kStrings ts \<noteq> -2 then add_millis e (ttl_of kStrings ts) c
        else if ttl_of kHashes ts \<noteq> -2 then add_millis e (ttl_of kHashes ts) c
        else if ttl_of kLists ts \<noteq> -2 then add_millis e (ttl_of kLists ts) c
        else if ttl_of kSets ts \<noteq> -2 then add_millis e (ttl_of kSets ts) c
        else if ttl_of kZSets ts \<noteq> -2 then add_millis e (ttl_of kZSets ts) c
        else add_integer e (-2) c)"

definition PersistCmd_DoInitial :: "'n KvCmd \<Rightarrow> 'n KvCmd option" where
  "PersistCmd_DoInitial c = key_initial ''persist'' c"

definition PersistCmd_Do :: "'d kv_env \<Rightarrow> 'n KvCmd \<Rightarrow> 'd Partition \<Rightarrow> ('n KvCmd \<times> 'd Partition) option" where
  "PersistCmd_Do e c p = on_db p (\<lambda>d.
     case bw_Persist (ke_db e) (kv_key c) d of (res, d) \<Rightarrow> (int_answer e ''persist internal error'' res c, d))"

definition PKSetexAtCmd_DoInitial :: "'d kv_env \<Rightarrow> 'n KvCmd \<Rightarrow> 'n KvCmd option" where
  "PKSetexAtCmd_DoInitial e c =
     (if \<not> CheckArg (argc c) c then Some (wrong_num ''pksetexat'' c)
      else case cmd_argv c of
             _ # key # n # v # _ \<Rightarrow>
               (let c = c\<lparr>kv_key := key, kv_value := v\<rparr>
                in case ke_string2l e n of
                     None \<Rightarrow> Some (set_ret kInvalidInt c)
                   | Some i \<Rightarrow>
                       (let c = c\<lparr>kv_time_stamp := i\<rparr> in Some (if i \<ge> 2 ^ 31 - 1 then set_ret kInvalidInt c else c)))
           | _ \<Rightarrow> None)"

definition PKSetexAtCmd_Do :: "'d kv_env \<Rightarrow> 'n KvCmd \<Rightarrow> 'd Partition \<Rightarrow> ('n KvCmd \<times> 'd Partition) option" where
  "PKSetexAtCmd_Do e c p = on_db p (\<lambda>d.
     case bw_PKSetexAt (ke_db e) (kv_key c) (kv_value c) (kv_time_stamp c) d of (s, d) \<Rightarrow> (ok_answer e s c, d))"

section \<open>Commands on several keys\<close>

definition keys_initial :: "string \<Rightarrow> 'n KvCmd \<Rightarrow> 'n KvCmd option" where
  "keys_initial name c =
     (if \<not> CheckArg (argc c) c then Some (wrong_num name c)
      else case cmd_argv c of _ # keys \<Rightarrow> Some (c\<lparr>kv_keys := keys\<rparr>) | [] \<Rightarrow> None)"

definition DelCmd_DoInitial :: "'n KvCmd \<Rightarrow> 'n KvCmd option" where
  "DelCmd_DoInitial c = keys_initial ''del'' c"

definition DelCmd_Do :: "'d kv_env \<Rightarrow> 'n KvCmd \<Rightarrow> 'd Partition \<Rightarrow> ('n KvCmd \<times> 'd Partition) option" where
  "DelCmd_Do e c p = on_db p (\<lambda>d.
     case bw_Del (ke_db e) (kv_keys c) d of (cnt, d) \<Rightarrow>
       (if cnt \<ge> 0 then add_integer e cnt c else err_other ''delete error'' c, d))"

definition DelCmd_Split :: "'d kv_env \<Rightarrow> HintKeys \<Rightarrow> 'n KvCmd \<Rightarrow> 'd Partition \<Rightarrow> ('n KvCmd \<times> 'd Partition) option" where
  "DelCmd_Split e hint_keys c p = on_db p (\<lambda>d.
     case bw_Del (ke_db e) (hk_keys hint_keys) d of (cnt, d) \<Rightarrow>
       (if cnt \<ge> 0 then c\<lparr>kv_split_res := kv_split_res c + cnt\<rparr> else err_other ''delete error'' c, d))"

definition DelCmd_Merge :: "'d kv_env \<Rightarrow> 'n KvCmd \<Rightarrow> 'n KvCmd" where
  "DelCmd_Merge e c = add_integer e (kv_split_res c) c"

definition ExistsCmd_DoInitial :: "'n KvCmd \<Rightarrow> 'n KvCmd option" where
  "ExistsCmd_DoInitial c = keys_initial ''exists'' c"

definition ExistsCmd_Do :: "'d kv_env \<Rightarrow> 'n KvCmd \<Rightarrow> 'd Partition \<Rightarrow> ('n KvCmd \<times> 'd Partition) option" where
  "ExistsCmd_Do e c p = read_db p (\<lambda>d. int_answer e ''exists internal error'' (bw_Exists (ke_db e) (kv_keys c) d) c)"

definition ExistsCmd_Split :: "'d kv_env \<Rightarrow> HintKeys \<Rightarrow> 'n KvCmd \<Rightarrow> 'd Partition \<Rightarrow> ('n KvCmd \<times> 'd Partition) option" where
  "ExistsCmd_Split e hint_keys c p = read_db p (\<lambda>d.
     let res = bw_Exists (ke_db e) (hk_keys hint_keys) d
     in if res \<noteq> -1 then c\<lparr>kv_split_res := kv_split_res c + res\<rparr> else err_other ''exists internal error'' c)"

definition ExistsCmd_Merge :: "'d kv_env \<Rightarrow> 'n KvCmd \<Rightarrow> 'n KvCmd" where
  "ExistsCmd_Merge e c = add_integer e (kv_split_res c) c"

text \<open>A default-constructed value of the database library has an empty value and the status OK.\<close>

definition MgetCmd_DoInitial :: "'n KvCmd \<Rightarrow> 'n KvCmd option" where
  "MgetCmd_DoInitial c =
     (if \<not> CheckArg (argc c) c then Some (wrong_num ''mget'' c)
      else case cmd_argv c of
             _ # keys \<Rightarrow>
               Some (c\<lparr>kv_keys := keys,
                  kv_split_values := take (length keys) (kv_split_values c @ replicate (length keys) (OK, []))\<rparr>)
           | [] \<Rightarrow> None)"

definition add_value :: "'d kv_env \<Rightarrow> Status \<times> string \<Rightarrow> 'n KvCmd \<Rightarrow> 'n KvCmd" where
  "add_value e vs c =
     (if ok (fst vs) then add_content (snd vs) (add_string_len e (int (length (snd vs))) c) else add_content ''$-1'' c)"

definition MgetCmd_Do :: "'d kv_env \<Rightarrow> 'n KvCmd \<Rightarrow> 'd Partition \<Rightarrow> ('n KvCmd \<times> 'd Partition) option" where
  "MgetCmd_Do e c p = read_db p (\<lambda>d.
     case bw_MGet (ke_db e) (kv_keys c) d of (s, vss) \<Rightarrow>
       if ok s then fold (add_value e) vss (add_array_len e (int (length vss)) c) else db_error e s c)"

text \<open>Storing the values of a partition at their positions; a position out of range is \<open>None\<close>.\<close>

fun place_values :: "nat list \<Rightarrow> (Status \<times> string) list \<Rightarrow> (Status \<times> string) list \<Rightarrow> (Status \<times> string) list option" where
  "place_values hints [] res = Some res"
| "place_values [] (vs # vss) res = None"
| "place_values (i # hints) (vs # vss) res = (if i < length res then place_values hints vss (res[i := vs]) else None)"

definition MgetCmd_Split :: "'d kv_env \<Rightarrow> HintKeys \<Rightarrow> 'n KvCmd \<Rightarrow> 'd Partition \<Rightarrow> ('n KvCmd \<times> 'd Partition) option" where
  "MgetCmd_Split e hint_keys c p =
     (case pt_db p of
        None \<Rightarrow> None
      | Some d \<Rightarrow>
          (case bw_MGet (ke_db e) (hk_keys hint_keys) d of (s, vss) \<Rightarrow>
             if ok s
             then let c = (if length (hk_hints hint_keys) \<noteq> length vss then err_other ''internal Mget return size invalid'' c else c)
                  in map_option (\<lambda>res. (c\<lparr>kv_split_values := res\<rparr>, p)) (place_values (hk_hints hint_keys) vss (kv_split_values c))
             else Some (db_error e s c, p)))"

definition MgetCmd_Merge :: "'d kv_env \<Rightarrow> 'n KvCmd \<Rightarrow> 'n KvCmd" where
  "MgetCmd_Merge e c = fold (add_value e) (kv_split_values c) (add_array_len e (int (length (kv_split_values c))) c)"

text \<open>The loop over the arguments, two at a time; the number of arguments is odd there.\<close>

fun pairs :: "string list \<Rightarrow> (string \<times> string) list" where
  "pairs (k # v # r) = (k, v) # pairs r"
| "pairs r = []"

definition mset_initial :: "string \<Rightarrow> 'n KvCmd \<Rightarrow> 'n KvCmd option" where
  "mset_initial name c =
     (if \<not> CheckArg (argc c) c then Some (wrong_num name c)
      else if even (length (cmd_argv c)) then Some (wrong_num name c)
      else Some (c\<lparr>kv_kvs := pairs (tl (cmd_argv c))\<rparr>))"

definition MsetCmd_DoInitial :: "'n KvCmd \<Rightarrow> 'n KvCmd option" where
  "MsetCmd_DoInitial c = mset_initial ''mset'' c"

definition MsetCmd_Do :: "'d kv_env \<Rightarrow> 'n KvCmd \<Rightarrow> 'd Partition \<Rightarrow> ('n KvCmd \<times> 'd Partition) option" where
  "MsetCmd_Do e c p = on_db p (\<lambda>d. case bw_MSet (ke_db e) (kv_kvs c) d of (s, d) \<Rightarrow> (ok_answer e s c, d))"

text \<open>
  Collecting the pairs of a partition: a key that does not match its position is the left alternative, a
  position out of range is \<open>None\<close>.
\<close>

fun pick_pairs :: "(string \<times> string) list \<Rightarrow> string list \<Rightarrow> nat list \<Rightarrow> (string + (string \<times> string) list) option" where
  "pick_pairs kvs [] hints = Some (Inr [])"
| "pick_pairs kvs (k # keys) [] = None"
| "pick_pairs kvs (k # keys) (i # hints) =
     (if i \<ge> length kvs then None
      else if fst (kvs ! i) = k then map_option (map_sum id (Cons (kvs ! i))) (pick_pairs kvs keys hints)
      else Some (Inl k))"

definition MsetCmd_Split :: "'d kv_env \<Rightarrow> HintKeys \<Rightarrow> 'n KvCmd \<Rightarrow> 'd Partition \<Rightarrow> ('n KvCmd \<times> 'd Partition) option" where
  "MsetCmd_Split e hint_keys c p =
     (let c = (if length (hk_keys hint_keys) \<noteq> length (hk_hints hint_keys) then err_other ''SplitError hint_keys size not match'' c else c)
      in case pick_pairs (kv_kvs c) (hk_keys hint_keys) (hk_hints hint_keys) of
           None \<Rightarrow> None
         | Some (Inl k) \<Rightarrow> Some (err_other (''SplitError hint key: '' @ k) c, p)
         | Some (Inr kvs) \<Rightarrow> on_db p (\<lambda>d. case bw_MSet (ke_db e) kvs d of (s, d) \<Rightarrow> (ok_answer e s c, d)))"

definition MsetCmd_Merge :: "'n KvCmd \<Rightarrow> 'n KvCmd" where
  "MsetCmd_Merge c = c"

definition MsetnxCmd_DoInitial :: "'n KvCmd \<Rightarrow> 'n KvCmd option" where
  "MsetnxCmd_DoInitial c = mset_initial ''msetnx'' c"

definition MsetnxCmd_Do :: "'d kv_env \<Rightarrow> 'n KvCmd \<Rightarrow> 'd Partition \<Rightarrow> ('n KvCmd \<times> 'd Partition) option" where
  "MsetnxCmd_Do e c p = on_db p (\<lambda>d.
     case bw_MSetnx (ke_db e) (kv_kvs c) d of (s, success, d) \<Rightarrow> (number_answer e False s success (c\<lparr>kv_success := success\<rparr>), d))"

section \<open>Scans\<close>

definition PIKA_SCAN_STEP_LENGTH :: int where "PIKA_SCAN_STEP_LENGTH = 1000"

definition limit_message :: string where
  "limit_message = ''Response exceeds the max-client-response-size limit''"

definition add_raw :: "string \<Rightarrow> 'n KvCmd \<Rightarrow> 'n KvCmd" where
  "add_raw v c = set_cmd_res (AppendStringRaw v) c"

definition KeysCmd_DoInitial :: "'n KvCmd \<Rightarrow> 'n KvCmd option" where
  "KeysCmd_DoInitial c =
     (if \<not> CheckArg (argc c) c then Some (wrong_num ''keys'' c)
      else case cmd_argv c of
             [_, pattern] \<Rightarrow> Some (c\<lparr>kv_pattern := pattern\<rparr>)
           | [_, pattern, opt] \<Rightarrow>
               (let c = c\<lparr>kv_pattern := pattern\<rparr>
                in Some (if same_word opt ''string'' then c\<lparr>kv_type := kStrings\<rparr>
                         else if same_word opt ''zset'' then c\<lparr>kv_type := kZSets\<rparr>
                         else if same_word opt ''set'' then c\<lparr>kv_type := kSets\<rparr>
                         else if same_word opt ''list'' then c\<lparr>kv_type := kLists\<rparr>
                         else if same_word opt ''hash'' then c\<lparr>kv_type := kHashes\<rparr>
                         else set_ret kSyntaxErr c))
           | _ # pattern # _ \<Rightarrow> Some (set_ret kSyntaxErr (c\<lparr>kv_pattern := pattern\<rparr>))
           | _ \<Rightarrow> None)"

definition KeysCmd_Clear :: "'n KvCmd \<Rightarrow> 'n KvCmd" where
  "KeysCmd_Clear c = c\<lparr>kv_type := kAll\<rparr>"

text \<open>
  The loop of KEYS ends when the database gives back the cursor 0; a database that never does keeps it
  running. The right alternative holds the number of keys and the text collected.
\<close>

partial_function (option) keys_loop ::
  "'d kv_env \<Rightarrow> DataType \<Rightarrow> string \<Rightarrow> 'd \<Rightarrow> int \<Rightarrow> int \<Rightarrow> string \<Rightarrow> (unit + int \<times> string) option" where
  "keys_loop e ty pattern d cursor total_key raw =
     (case bw_Scan (ke_db e) ty cursor pattern PIKA_SCAN_STEP_LENGTH d of (cursor, keys) \<Rightarrow>
        let raw = fold (append_arg (ke_ll2string e)) keys raw
        in if length raw \<ge> ke_max_client_response_size e then Some (Inl ())
           else let total_key = total_key + int (length keys)
                in if cursor \<noteq> 0 then keys_loop e ty pattern d cursor total_key raw else Some (Inr (total_key, raw)))"

definition KeysCmd_Do :: "'d kv_env \<Rightarrow> 'n KvCmd \<Rightarrow> 'd Partition \<Rightarrow> ('n KvCmd \<times> 'd Partition) option" where
  "KeysCmd_Do e c p =
     (case pt_db p of
        None \<Rightarrow> None
      | Some d \<Rightarrow>
          (case keys_loop e (kv_type c) (kv_pattern c) d 0 0 [] of
             None \<Rightarrow> None
           | Some (Inl _) \<Rightarrow> Some (err_other limit_message c, p)
           | Some (Inr (total_key, raw)) \<Rightarrow> Some (add_raw raw (add_array_len e total_key c), p)))"

text \<open>The options of the scans: a pattern and a number, which \<open>word\<close> names.\<close>

fun scan_options :: "'d kv_env \<Rightarrow> string \<Rightarrow> string list \<Rightarrow> 'n KvCmd \<Rightarrow> 'n KvCmd" where
  "scan_options e word [] c = c"
| "scan_options e word (opt # rest) c =
     (if same_word opt ''match'' \<or> same_word opt word
      then (case rest of
              [] \<Rightarrow> set_ret kSyntaxErr c
            | a # rest \<Rightarrow>
                if same_word opt ''match'' then scan_options e word rest (c\<lparr>kv_pattern := a\<rparr>)
                else (case ke_string2l e a of
                        None \<Rightarrow> set_ret kInvalidInt c
                      | Some n \<Rightarrow>
                          let c = c\<lparr>kv_count := n\<rparr> in if n \<le> 0 then set_ret kInvalidInt c else scan_options e word rest c))
      else set_ret kSyntaxErr c)"

definition ScanCmd_DoInitial :: "'d kv_env \<Rightarrow> 'n KvCmd \<Rightarrow> 'n KvCmd option" where
  "ScanCmd_DoInitial e c =
     (if \<not> CheckArg (argc c) c then Some (wrong_num ''scan'' c)
      else case cmd_argv c of
             _ # n # opts \<Rightarrow>
               (case ke_string2l e n of
                  None \<Rightarrow> Some (set_ret kInvalidInt c)
                | Some i \<Rightarrow> Some (scan_options e ''count'' opts (c\<lparr>kv_cursor := i\<rparr>)))
           | _ \<Rightarrow> None)"

text \<open>The loop of SCAN takes steps of at most a thousand keys until the number asked for is used up.\<close>

function scan_keys ::
  "'d kv_env \<Rightarrow> string \<Rightarrow> 'd \<Rightarrow> int \<Rightarrow> int \<Rightarrow> int \<Rightarrow> string \<Rightarrow> unit + int \<times> int \<times> string" where
  "scan_keys e pattern d left cursor total_key raw =
     (let batch_count = (if left < PIKA_SCAN_STEP_LENGTH then left else PIKA_SCAN_STEP_LENGTH);
          left' = (if left > PIKA_SCAN_STEP_LENGTH then left - PIKA_SCAN_STEP_LENGTH else 0)
      in case bw_Scan (ke_db e) kAll cursor pattern batch_count d of (cursor, keys) \<Rightarrow>
           let raw = fold (append_arg (ke_ll2string e)) keys raw
           in if length raw \<ge> ke_max_client_response_size e then Inl ()
              else let total_key = total_key + int (length keys)
                   in if cursor \<noteq> 0 \<and> left' \<noteq> 0 then scan_keys e pattern d left' cursor total_key raw
                      else Inr (cursor, total_key, raw))"
  by pat_completeness auto

termination
  by (relation "measure (\<lambda>(e, pattern, d, left, cursor, total_key, raw). nat left)")
    (auto simp: PIKA_SCAN_STEP_LENGTH_def split: if_splits)

definition ScanCmd_Do :: "'d kv_env \<Rightarrow> 'n KvCmd \<Rightarrow> 'd Partition \<Rightarrow> ('n KvCmd \<times> 'd Partition) option" where
  "ScanCmd_Do e c p = read_db p (\<lambda>d.
     case scan_keys e (kv_pattern c) d (kv_count c) (kv_cursor c) 0 [] of
       Inl _ \<Rightarrow> err_other limit_message c
     | Inr (cursor_ret, total_key, raw) \<Rightarrow>
         let buf = ke_ll2string e cursor_ret;
             c = add_array_len e 2 c;
             c = add_content buf (add_string_len e (int (length buf)) c)
         in add_raw raw (add_array_len e total_key c))"

definition data_type :: "string \<Rightarrow> DataType option" where
  "data_type w =
     (if same_word w ''string'' then Some kStrings
      else if same_word w ''hash'' then Some kHashes
      else if same_word w ''set'' then Some kSets
      else if same_word w ''zset'' then Some kZSets
      else if same_word w ''list'' then Some kLists
      else None)"

definition ScanxCmd_DoInitial :: "'d kv_env \<Rightarrow> 'n KvCmd \<Rightarrow> 'n KvCmd option" where
  "ScanxCmd_DoInitial e c =
     (if \<not> CheckArg (argc c) c then Some (wrong_num ''scanx'' c)
      else case cmd_argv c of
             _ # w # start_key # opts \<Rightarrow>
               (case data_type w of
                  None \<Rightarrow> Some (set_ret kInvalidDbType c)
                | Some ty \<Rightarrow> Some (scan_options e ''count'' opts (c\<lparr>kv_type := ty, kv_key_start := start_key\<rparr>)))
           | _ \<Rightarrow> None)"

definition add_strings :: "'d kv_env \<Rightarrow> string list \<Rightarrow> 'n KvCmd \<Rightarrow> 'n KvCmd" where
  "add_strings e vs c = fold (\<lambda>v. set_cmd_res (AppendString (ke_ll2string e) v)) vs c"

definition ScanxCmd_Do :: "'d kv_env \<Rightarrow> 'n KvCmd \<Rightarrow> 'd Partition \<Rightarrow> ('n KvCmd \<times> 'd Partition) option" where
  "ScanxCmd_Do e c p = read_db p (\<lambda>d.
     case bw_Scanx (ke_db e) (kv_type c) (kv_key_start c) (kv_pattern c) (kv_count c) d of (s, keys, next_key) \<Rightarrow>
       if ok s
       then let c = add_array_len e 2 c;
                c = add_content next_key (add_string_len e (int (length next_key)) c)
            in add_strings e keys (add_array_len e (int (length keys)) c)
       else db_error e s c)"

text \<open>The arguments of the two range scans. The check of the hash tags compares the start with itself.\<close>

definition range_initial :: "'d kv_env \<Rightarrow> string \<Rightarrow> 'n KvCmd \<Rightarrow> 'n KvCmd option" where
  "range_initial e name c =
     (if \<not> CheckArg (argc c) c then Some (wrong_num name c)
      else case cmd_argv c of
             _ # w # key_start # key_end # opts \<Rightarrow>
               (case (if same_word w ''string_with_value'' then Some (kStrings, True) else map_option (\<lambda>ty. (ty, kv_string_with_value c)) (data_type w)) of
                  None \<Rightarrow> Some (set_ret kInvalidDbType c)
                | Some (ty, with_value) \<Rightarrow>
                    let c = c\<lparr>kv_type := ty, kv_string_with_value := with_value, kv_key_start := key_start, kv_key_end := key_end\<rparr>
                    in if \<not> HashtagIsConsistent (ke_classic_mode e) key_start key_start then Some (set_ret kInconsistentHashTag c)
                       else Some (scan_options e ''limit'' opts c))
           | _ \<Rightarrow> None)"

definition range_answer ::
  "'d kv_env \<Rightarrow> Status \<times> string list \<times> (string \<times> string) list \<times> string \<Rightarrow> 'n KvCmd \<Rightarrow> 'n KvCmd" where
  "range_answer e r c =
     (case r of (s, keys, kvs, next_key) \<Rightarrow>
        if ok s
        then let c = add_array_len e 2 c;
                 c = add_content next_key (add_string_len e (int (length next_key)) c)
             in if kv_type c = kStrings
                then add_strings e (concat (map (\<lambda>kv. if kv_string_with_value c then [fst kv, snd kv] else [fst kv]) kvs))
                       (add_array_len e (if kv_string_with_value c then 2 * int (length kvs) else int (length kvs)) c)
                else add_strings e keys (add_array_len e (int (length keys)) c)
        else db_error e s c)"

definition PKScanRangeCmd_DoInitial :: "'d kv_env \<Rightarrow> 'n KvCmd \<Rightarrow> 'n KvCmd option" where
  "PKScanRangeCmd_DoInitial e c = range_initial e ''pkscanrange'' c"

definition PKScanRangeCmd_Do :: "'d kv_env \<Rightarrow> 'n KvCmd \<Rightarrow> 'd Partition \<Rightarrow> ('n KvCmd \<times> 'd Partition) option" where
  "PKScanRangeCmd_Do e c p = read_db p (\<lambda>d.
     range_answer e (bw_PKScanRange (ke_db e) (kv_type c) (kv_key_start c) (kv_key_end c) (kv_pattern c) (kv_count c) d) c)"

definition PKRScanRangeCmd_DoInitial :: "'d kv_env \<Rightarrow> 'n KvCmd \<Rightarrow> 'n KvCmd option" where
  "PKRScanRangeCmd_DoInitial e c = range_initial e ''pkrscanrange'' c"

definition PKRScanRangeCmd_Do :: "'d kv_env \<Rightarrow> 'n KvCmd \<Rightarrow> 'd Partition \<Rightarrow> ('n KvCmd \<times> 'd Partition) option" where
  "PKRScanRangeCmd_Do e c p = read_db p (\<lambda>d.
     range_answer e (bw_PKRScanRange (ke_db e) (kv_type c) (kv_key_start c) (kv_key_end c) (kv_pattern c) (kv_count c) d) c)"

text \<open>Resetting the fields of a command that is executed again.\<close>

definition ScanCmd_Clear :: "'n KvCmd \<Rightarrow> 'n KvCmd" where
  "ScanCmd_Clear c = c\<lparr>kv_pattern := ''*'', kv_count := 10\<rparr>"

definition ScanxCmd_Clear :: "'n KvCmd \<Rightarrow> 'n KvCmd" where
  "ScanxCmd_Clear c = c\<lparr>kv_pattern := ''*'', kv_count := 10\<rparr>"

definition PKSetexAtCmd_Clear :: "'n KvCmd \<Rightarrow> 'n KvCmd" where
  "PKSetexAtCmd_Clear c = c\<lparr>kv_time_stamp := 0\<rparr>"

definition PKScanRangeCmd_Clear :: "'n KvCmd \<Rightarrow> 'n KvCmd" where
  "PKScanRangeCmd_Clear c = c\<lparr>kv_pattern := ''*'', kv_count := 10, kv_string_with_value := False\<rparr>"

definition PKRScanRangeCmd_Clear :: "'n KvCmd \<Rightarrow> 'n KvCmd" where
  "PKRScanRangeCmd_Clear c = c\<lparr>kv_pattern := ''*'', kv_count := 10, kv_string_with_value := False\<rparr>"

section \<open>An instance\<close>

text \<open>A database of strings as a map; keys do not expire, and a scan gives all keys of a list at once.\<close>

definition map_db :: "string list \<Rightarrow> (string \<rightharpoonup> string) blackwidow" where
  "map_db ks = \<lparr>
     bw_Set = (\<lambda>k v d. (OK, d(k \<mapsto> v))),
     bw_Setxx = (\<lambda>k v t d. if d k = None then (OK, 0, d) else (OK, 1, d(k \<mapsto> v))),
     bw_Setnx = (\<lambda>k v t d. if d k = None then (OK, 1, d(k \<mapsto> v)) else (OK, 0, d)),
     bw_Setvx = (\<lambda>k target v t d. case d k of None \<Rightarrow> (NotFound [], 0, d) | Some u \<Rightarrow> if u = target then (OK, 1, d(k \<mapsto> v)) else (OK, -1, d)),
     bw_Setex = (\<lambda>k v t d. if t \<le> 0 then (InvalidArgument ''invalid expire time'', d) else (OK, d(k \<mapsto> v))),
     bw_Get = (\<lambda>k d. case d k of None \<Rightarrow> (NotFound [], [], 0) | Some v \<Rightarrow> (OK, v, length v)),
     bw_Del = (\<lambda>keys d. (int (length (filter (\<lambda>k. d k \<noteq> None) (remdups keys))), \<lambda>k. if k \<in> set keys then None else d k)),
     bw_Incrby = (\<lambda>k i d. case d k of
        None \<Rightarrow> (OK, i, d(k \<mapsto> dec_string i))
      | Some v \<Rightarrow> (case read_int v of
           None \<Rightarrow> (Corruption ''Value is not a integer'', 0, d)
         | Some n \<Rightarrow> if int64 (n + i) then (OK, n + i, d(k \<mapsto> dec_string (n + i))) else (InvalidArgument ''Overflow'', 0, d))),
     bw_Decrby = (\<lambda>k i d. case d k of
        None \<Rightarrow> (OK, - i, d(k \<mapsto> dec_string (- i)))
      | Some v \<Rightarrow> (case read_int v of
           None \<Rightarrow> (Corruption ''Value is not a integer'', 0, d)
         | Some n \<Rightarrow> if int64 (n - i) then (OK, n - i, d(k \<mapsto> dec_string (n - i))) else (InvalidArgument ''Overflow'', 0, d))),
     bw_Incrbyfloat = (\<lambda>k v d. (Corruption ''Value is not a vaild float'', [], d)),
     bw_GetSet = (\<lambda>k v d. (OK, case d k of None \<Rightarrow> [] | Some u \<Rightarrow> u, d(k \<mapsto> v))),
     bw_Append = (\<lambda>k v d. let u = (case d k of None \<Rightarrow> [] | Some u \<Rightarrow> u) @ v in (OK, int (length u), d(k \<mapsto> u))),
     bw_MGet = (\<lambda>keys d. (OK, map (\<lambda>k. case d k of None \<Rightarrow> (NotFound [], []) | Some v \<Rightarrow> (OK, v)) keys)),
     bw_Scan = (\<lambda>ty cursor pattern n d. (0, filter (\<lambda>k. d k \<noteq> None) ks)),
     bw_MSet = (\<lambda>kvs d. (OK, fold (\<lambda>(k, v) d. d(k \<mapsto> v)) kvs d)),
     bw_MSetnx = (\<lambda>kvs d. if \<exists>kv\<in>set kvs. d (fst kv) \<noteq> None then (OK, 0, d) else (OK, 1, fold (\<lambda>(k, v) d. d(k \<mapsto> v)) kvs d)),
     bw_Getrange = (\<lambda>k a b d. case d k of None \<Rightarrow> (NotFound [], []) | Some v \<Rightarrow> (OK, take (nat (b + 1 - a)) (drop (nat a) v))),
     bw_Setrange = (\<lambda>k a v d. (OK, int (length v), d(k \<mapsto> v))),
     bw_Strlen = (\<lambda>k d. case d k of None \<Rightarrow> (NotFound [], 0) | Some v \<Rightarrow> (OK, int (length v))),
     bw_Exists = (\<lambda>keys d. int (length (filter (\<lambda>k. d k \<noteq> None) keys))),
     bw_Expire = (\<lambda>k t d. (if d k = None then 0 else 1, d)),
     bw_Expireat = (\<lambda>k t d. (if d k = None then 0 else 1, d)),
     bw_TTL = (\<lambda>k d. [(kStrings, if d k = None then -2 else -1), (kHashes, -2), (kLists, -2), (kZSets, -2), (kSets, -2)]),
     bw_Persist = (\<lambda>k d. (0, d)),
     bw_Type = (\<lambda>k d. (OK, if d k = None then ''none'' else ''string'')),
     bw_Scanx = (\<lambda>ty start pattern n d. (OK, filter (\<lambda>k. d k \<noteq> None) ks, [])),
     bw_PKSetexAt = (\<lambda>k v t d. (OK, d(k \<mapsto> v))),
     bw_PKScanRange = (\<lambda>ty a b pattern n d. (OK, filter (\<lambda>k. d k \<noteq> None) ks, map (\<lambda>k. (k, the (d k))) (filter (\<lambda>k. d k \<noteq> None) ks), [])),
     bw_PKRScanRange = (\<lambda>ty a b pattern n d. (OK, filter (\<lambda>k. d k \<noteq> None) ks, map (\<lambda>k. (k, the (d k))) (filter (\<lambda>k. d k \<noteq> None) ks), [])),
     bw_Delvx = (\<lambda>k v d. if d k = Some v then (OK, 1, d(k := None)) else (OK, 0, d)),
     bw_ToString = (\<lambda>s. case s of OK \<Rightarrow> ''OK'' | _ \<Rightarrow> ''error'')\<rparr>"

definition map_env :: "string list \<Rightarrow> (string \<rightharpoonup> string) kv_env" where
  "map_env ks = \<lparr>ke_ll2string = dec_string, ke_string2l = read_int, ke_string2d = (\<lambda>_. False), ke_db = map_db ks, ke_classic_mode = True,
     ke_max_client_response_size = 1073741824\<rparr>"

definition map_db_part :: "(string \<rightharpoonup> string) \<Rightarrow> (string \<rightharpoonup> string) Partition" where
  "map_db_part d = \<lparr>pt_table_name = ''db0'', pt_partition_id = 0, pt_db_path = ''db/'', pt_bgsave_sub_path = ''db0'', pt_dbsync_path = ''sync/'',
     pt_partition_name = ''db0'', pt_opened = True, pt_db = Some d, pt_key_scan_info = KeyScanInfo0, pt_bgsave_info = BgSaveInfo0\<rparr>"

definition kv_cmd :: "string \<Rightarrow> int \<Rightarrow> string list \<Rightarrow> nat KvCmd" where
  "kv_cmd name n argv = \<lparr>cmd_name = name, cmd_special = kGeneral, cmd_stage = kNoneStage, cmd_arity = n, cmd_flag = kCmdFlagsKv,
     cmd_res = CmdRes0, cmd_argv = argv, cmd_table_name = ''db0'', cmd_conn = None, cmd_resp = True,
     kv_key = [], kv_value = [], kv_target = [], kv_condition = kNONE, kv_success = 0, kv_sec = 0, kv_keys = [], kv_split_res = 0,
     kv_split_values = [], kv_by = 0, kv_new_value = 0, kv_new_string = [], kv_pattern = ''*'', kv_type = kAll, kv_kvs = [], kv_start = 0,
     kv_end = 0, kv_time_stamp = 0, kv_cursor = 0, kv_count = 10, kv_key_start = [], kv_key_end = [], kv_string_with_value = False\<rparr>"

end
