(* ===== verification/Pika_Kv_Reply.thy ===== *)
theory Pika_Kv_Reply
  imports Pika_Kv
begin

text \<open>
  The answers of the commands of \<^verbatim>\<open>src/pika_kv.cc\<close>: whatever the database returns, a client reads exactly one
  reply of the protocol, and the loops over the keys end.
\<close>

section \<open>Answers\<close>

named_theorems answers

definition answered :: "'n KvCmd \<Rightarrow> bool" where
  "answered c = reply (CmdRes_message (cmd_res c))"

definition fresh :: "'n KvCmd \<Rightarrow> bool" where
  "fresh c = CmdRes_none (cmd_res c)"

text \<open>What the commands rely on: numbers are printed in decimal, and the texts of the database are lines.\<close>

definition plain_texts :: "'d kv_env \<Rightarrow> bool" where
  "plain_texts e \<longleftrightarrow> ke_ll2string e = dec_string \<and> (\<forall>s. one_line (bw_ToString (ke_db e) s)) \<and> (\<forall>k d. one_line (snd (bw_Type (ke_db e) k d)))"

lemmas answer_defs = answered_def fresh_def plain_texts_def CmdRes_none_def kv_res_simps cmd_res_simps

lemma fresh_update [simp]:
  "fresh (c\<lparr>kv_success := i\<rparr>) = fresh c" "fresh (c\<lparr>kv_new_value := i\<rparr>) = fresh c" "fresh (c\<lparr>kv_new_string := v\<rparr>) = fresh c"
  by (simp_all add: fresh_def)

lemma answered_ret [answers]: "fresh c \<Longrightarrow> ret \<noteq> kNone \<Longrightarrow> answered (set_ret ret c)"
  by (auto simp: answer_defs intro!: reply_code)

lemma answered_err_other [answers]: "fresh c \<Longrightarrow> one_line msg \<Longrightarrow> answered (err_other msg c)"
  by (auto simp: answer_defs intro!: reply_code)

lemma answered_db_error [answers]: "plain_texts e \<Longrightarrow> fresh c \<Longrightarrow> answered (db_error e s c)"
  by (auto simp: db_error_def plain_texts_def intro: answered_err_other)

lemma answered_integer [answers]: "plain_texts e \<Longrightarrow> fresh c \<Longrightarrow> answered (add_integer e i c)"
  using reply.integer [of i] by (simp add: answer_defs CmdRes_message_def)

lemma answered_count [answers]: "fresh c \<Longrightarrow> answered (add_content ('':'' @ dec_string i) c)"
  using reply.integer [of i] by (simp add: answer_defs CmdRes_message_def)

lemma answered_status [answers]: "fresh c \<Longrightarrow> one_line v \<Longrightarrow> answered (add_content (''+'' @ v) c)"
  using reply.status [of v] by (simp add: answer_defs CmdRes_message_def)

lemma answered_bulk [answers]: "plain_texts e \<Longrightarrow> fresh c \<Longrightarrow> answered (add_content v (add_string_len e (int (length v)) c))"
  using reply.bulk [of v] by (simp add: answer_defs CmdRes_message_def bulk_def dec_string_def)

lemma answered_nil [answers]: "fresh c \<Longrightarrow> answered (add_content ''$-1'' c)"
  using reply.nil by (simp add: answer_defs CmdRes_message_def)

lemma answered_nil_len [answers]: "plain_texts e \<Longrightarrow> fresh c \<Longrightarrow> answered (add_string_len e (- 1) c)"
  using reply.nil by (simp add: answer_defs CmdRes_message_def dec_string_def dec_digits.simps char_of_def bit_0)

lemma answered_nil_array [answers]: "plain_texts e \<Longrightarrow> fresh c \<Longrightarrow> answered (add_array_len e (- 1) c)"
  using reply.nil_array by (simp add: answer_defs CmdRes_message_def dec_string_def dec_digits.simps char_of_def bit_0)


lemma answered_number [answers]: "plain_texts e \<Longrightarrow> fresh c \<Longrightarrow> answered (number_answer e b s n c)"
  by (simp add: number_answer_def answers)

lemma answered_ok [answers]: "plain_texts e \<Longrightarrow> fresh c \<Longrightarrow> answered (ok_answer e s c)"
  by (simp add: ok_answer_def answers)

lemma answered_int [answers]: "plain_texts e \<Longrightarrow> fresh c \<Longrightarrow> one_line msg \<Longrightarrow> answered (int_answer e msg n c)"
  by (simp add: int_answer_def answers)

lemma answered_millis [answers]: "plain_texts e \<Longrightarrow> fresh c \<Longrightarrow> answered (add_millis e n c)"
  by (simp add: add_millis_def answers)

lemma answered_count_answer [answers]: "plain_texts e \<Longrightarrow> fresh c \<Longrightarrow> answered (fst (count_answer e r c))"
  using answered_count [of "c\<lparr>kv_new_value := i\<rparr>" i for i] by (auto simp: count_answer_def Let_def intro: answers split: prod.split)

text \<open>Arrays: after the number of elements the message grows by one reply for each of them.\<close>

definition message_of :: "'n KvCmd \<Rightarrow> string" where
  "message_of c = cr_message (cmd_res c)"

definition plain :: "'n KvCmd \<Rightarrow> bool" where
  "plain c = (cr_ret (cmd_res c) = kNone)"

lemmas message_defs = message_of_def plain_def

lemma message_array_len: "plain_texts e \<Longrightarrow> message_of (add_array_len e (int n) c) = message_of c @ ''*'' @ dec_digits n @ kNewLine"
  "plain (add_array_len e i c) = plain c"
  by (simp_all add: message_defs answer_defs dec_string_def)

lemma message_bulk: "plain_texts e \<Longrightarrow> message_of (add_content v (add_string_len e (int (length v)) c)) = message_of c @ bulk v"
  "plain (add_content v (add_string_len e i c)) = plain c"
  by (simp_all add: message_defs answer_defs dec_string_def bulk_def)

lemma message_raw: "message_of (add_raw v c) = message_of c @ v" "plain (add_raw v c) = plain c"
  by (simp_all add: message_defs add_raw_def answer_defs)

definition value_text :: "Status \<times> string \<Rightarrow> string" where
  "value_text vs = (if ok (fst vs) then bulk (snd vs) else ''$-1'' @ kNewLine)"

lemma message_values:
  "plain_texts e \<Longrightarrow> message_of (fold (add_value e) vss c)
     = message_of c @ concat (map value_text vss)"
  "plain (fold (add_value e) vss c) = plain c"
  by (induction vss arbitrary: c)
    (simp_all add: add_value_def value_text_def message_bulk, simp_all add: message_defs answer_defs)

lemma message_strings:
  "plain_texts e \<Longrightarrow> message_of (add_strings e vs c) = message_of c @ concat (map bulk vs)" "plain (add_strings e vs c) = plain c"
  unfolding add_strings_def
  by (induction vs arbitrary: c) (simp_all add: message_defs answer_defs dec_string_def bulk_def)

lemma answered_array:
  assumes "fresh c" and "plain c'" and "message_of c' = message_of c @ ''*'' @ dec_digits (length vs) @ kNewLine @ concat vs"
    and "\<forall>v\<in>set vs. reply v"
  shows "answered c'"
  using reply.array [OF assms(4)] assms(1-3) by (simp add: message_defs answer_defs CmdRes_message_def)

lemma fresh_plain: "fresh c \<Longrightarrow> plain c"
  by (simp add: message_defs answer_defs)

lemma reply_bulks: "reply (''*'' @ dec_digits (length vs) @ kNewLine @ concat (map bulk vs))"
  using reply.array [of "map bulk vs"] by (simp add: reply.bulk)

text \<open>The answer of a scan: where to go on, and an array of keys.\<close>

lemma answered_scan:
  assumes "fresh c" and "plain c'"
    and "message_of c' = message_of c @ ''*'' @ dec_digits 2 @ kNewLine @ bulk v @ ''*'' @ dec_digits (length vs) @ kNewLine @ concat (map bulk vs)"
  shows "answered c'"
  by (rule answered_array [OF assms(1,2), of "[bulk v, ''*'' @ dec_digits (length vs) @ kNewLine @ concat (map bulk vs)]"])
    (use assms(3) reply_bulks [of vs] in \<open>auto simp: numeral_2_eq_2 intro: reply.bulk\<close>)

section \<open>The loops over the keys\<close>

lemma append_bulks: "plain_texts e \<Longrightarrow> fold (append_arg (ke_ll2string e)) keys raw = raw @ concat (map bulk keys)"
  using dec.append_args by (simp add: plain_texts_def)

lemma keys_loop_bulks:
  assumes "keys_loop e ty pattern d cursor n raw = Some y"
  shows "plain_texts e \<longrightarrow> (\<forall>vs n' raw'. n = int (length vs) \<longrightarrow> raw = concat (map bulk vs) \<longrightarrow> y = Inr (n', raw')
    \<longrightarrow> (\<exists>vs. n' = int (length vs) \<and> raw' = concat (map bulk vs)))"
proof (rule keys_loop.raw_induct [OF _ assms], intro impI allI)
  fix keys_loop and e :: "'d kv_env" and ty pattern d cursor n raw y vs n' raw'
  assume IH: "\<And>e ty pattern d cursor n raw y. keys_loop e ty pattern d cursor n raw = Some y
      \<Longrightarrow> plain_texts e \<longrightarrow> (\<forall>vs n' raw'. n = int (length vs) \<longrightarrow> raw = concat (map bulk vs) \<longrightarrow> y = Inr (n', raw')
        \<longrightarrow> (\<exists>vs. n' = int (length vs) \<and> raw' = concat (map bulk vs)))"
    and step: "(case bw_Scan (ke_db e) ty cursor pattern PIKA_SCAN_STEP_LENGTH d of (cursor, keys) \<Rightarrow>
        let raw = fold (append_arg (ke_ll2string e)) keys raw
        in if length raw \<ge> ke_max_client_response_size e then Some (Inl ())
           else let n = n + int (length keys)
                in if cursor \<noteq> 0 then keys_loop e ty pattern d cursor n raw else Some (Inr (n, raw))) = Some y"
    and e: "plain_texts e" and n: "n = int (length vs)" "raw = concat (map bulk vs)" and y: "y = Inr (n', raw')"
  obtain cursor' keys where s: "bw_Scan (ke_db e) ty cursor pattern PIKA_SCAN_STEP_LENGTH d = (cursor', keys)" by fastforce
  let ?raw = "concat (map bulk (vs @ keys))" and ?n = "int (length (vs @ keys))"
  have "n' = ?n \<and> raw' = ?raw \<or> keys_loop e ty pattern d cursor' ?n ?raw = Some y"
    using step y by (auto simp: s Let_def append_bulks [OF e] n split: if_splits)
  then show "\<exists>vs. n' = int (length vs) \<and> raw' = concat (map bulk vs)" using IH e y by blast
qed

lemma keys_loop_returns:
  assumes "\<And>cursor. fst (bw_Scan (ke_db e) ty cursor pattern PIKA_SCAN_STEP_LENGTH d) = 0
    \<or> rank (fst (bw_Scan (ke_db e) ty cursor pattern PIKA_SCAN_STEP_LENGTH d)) < (rank cursor :: nat)"
  shows "\<exists>y. keys_loop e ty pattern d cursor n raw = Some y"
proof (induction "rank cursor" arbitrary: cursor n raw rule: less_induct)
  case less
  obtain cursor' keys where s: "bw_Scan (ke_db e) ty cursor pattern PIKA_SCAN_STEP_LENGTH d = (cursor', keys)" by fastforce
  with assms [of cursor] have "cursor' = 0 \<or> rank cursor' < rank cursor" by simp
  then show ?case using less [of cursor'] by (subst keys_loop.simps) (auto simp: s Let_def)
qed

lemma scan_keys_bulks:
  assumes "scan_keys e pattern d left cursor n raw = Inr (cursor', n', raw')" and "plain_texts e"
    and "n = int (length vs)" and "raw = concat (map bulk vs)"
  shows "\<exists>vs. n' = int (length vs) \<and> raw' = concat (map bulk vs)"
  using assms
proof (induction e pattern d left cursor n raw arbitrary: vs rule: scan_keys.induct)
  case (1 e pattern d left cursor n raw)
  let ?left = "if left > PIKA_SCAN_STEP_LENGTH then left - PIKA_SCAN_STEP_LENGTH else 0"
    and ?batch = "if left < PIKA_SCAN_STEP_LENGTH then left else PIKA_SCAN_STEP_LENGTH"
  obtain c keys where s: "bw_Scan (ke_db e) kAll cursor pattern ?batch d = (c, keys)" by fastforce
  let ?raw = "concat (map bulk (vs @ keys))" and ?n = "int (length (vs @ keys))"
  have r: "fold (append_arg (ke_ll2string e)) keys raw = ?raw" using append_bulks [OF 1(3)] 1(5) by simp
  have l: "\<not> length ?raw \<ge> ke_max_client_response_size e"
    and d: "c \<noteq> 0 \<and> ?left \<noteq> 0 \<and> scan_keys e pattern d ?left c ?n ?raw = Inr (cursor', n', raw') \<or> n' = ?n \<and> raw' = ?raw"
    using 1(2) by (subst (asm) scan_keys.simps, simp add: s r 1(4) Let_def split: if_splits)+
  have n: "n + int (length keys) = ?n" using 1(4) by simp
  from d show ?case
  proof
    assume "c \<noteq> 0 \<and> ?left \<noteq> 0 \<and> scan_keys e pattern d ?left c ?n ?raw = Inr (cursor', n', raw')"
    with 1(1) [OF refl refl s [symmetric] refl _ refl, unfolded r n, OF l _ _ 1(3) refl refl] show ?thesis by blast
  qed blast
qed

section \<open>Every command answers\<close>

definition all_answered :: "('n KvCmd \<times> 'd Partition) option \<Rightarrow> bool" where
  "all_answered r = (case r of None \<Rightarrow> True | Some (c, _) \<Rightarrow> answered c)"

lemma on_db_answered: "(\<And>d. answered (fst (f d))) \<Longrightarrow> all_answered (on_db p f)"
  by (auto simp: on_db_def all_answered_def split: option.splits prod.splits) (metis fst_conv)

lemma read_db_answered: "(\<And>d. answered (f d)) \<Longrightarrow> all_answered (read_db p f)"
  by (auto simp: read_db_def all_answered_def split: option.splits)

definition kv_commands :: "'d kv_env \<Rightarrow> ('n KvCmd \<Rightarrow> 'd Partition \<Rightarrow> ('n KvCmd \<times> 'd Partition) option) list" where
  "kv_commands e =
     [SetCmd_Do e, IncrCmd_Do e, IncrbyCmd_Do e, IncrbyfloatCmd_Do e, DecrCmd_Do e, DecrbyCmd_Do e, GetsetCmd_Do e, AppendCmd_Do e,
      SetnxCmd_Do e, SetexCmd_Do e, PsetexCmd_Do e, DelvxCmd_Do e, SetrangeCmd_Do e, ExpireCmd_Do e, PexpireCmd_Do e, ExpireatCmd_Do e,
      PexpireatCmd_Do e, PersistCmd_Do e, PKSetexAtCmd_Do e, DelCmd_Do e, MsetCmd_Do e, MsetnxCmd_Do e]"

definition kv_queries :: "'d kv_env \<Rightarrow> ('n KvCmd \<Rightarrow> 'd Partition \<Rightarrow> ('n KvCmd \<times> 'd Partition) option) list" where
  "kv_queries e =
     [GetrangeCmd_Do e, StrlenCmd_Do e, TypeCmd_Do e, TtlCmd_Do e, PttlCmd_Do e, ExistsCmd_Do e, MgetCmd_Do e, ScanCmd_Do e, ScanxCmd_Do e,
      PKScanRangeCmd_Do e, PKRScanRangeCmd_Do e, GetCmd_Do e, KeysCmd_Do e]"

lemmas kv_write_defs = IncrCmd_Do_def IncrbyCmd_Do_def IncrbyfloatCmd_Do_def DecrCmd_Do_def DecrbyCmd_Do_def GetsetCmd_Do_def
  AppendCmd_Do_def SetnxCmd_Do_def SetexCmd_Do_def PsetexCmd_Do_def DelvxCmd_Do_def SetrangeCmd_Do_def ExpireCmd_Do_def PexpireCmd_Do_def
  ExpireatCmd_Do_def PexpireatCmd_Do_def PersistCmd_Do_def PKSetexAtCmd_Do_def DelCmd_Do_def MsetCmd_Do_def MsetnxCmd_Do_def

lemma SetCmd_answer: "plain_texts e \<Longrightarrow> fresh c \<Longrightarrow> all_answered (SetCmd_Do e c p)"
  unfolding SetCmd_Do_def
  by (rule on_db_answered) (auto simp: Let_def intro!: answers split: prod.splits SetCondition.splits)

lemma kv_commands_answer:
  "plain_texts e \<Longrightarrow> fresh c \<Longrightarrow> list_all (\<lambda>f. all_answered (f c p)) (kv_commands e)"
  unfolding kv_commands_def list.pred_inject kv_write_defs
  by (intro conjI; (erule (1) SetCmd_answer | rule on_db_answered | simp only: list.pred_inject))
    (auto simp: Let_def intro!: answers split: prod.splits)

text \<open>The queries.\<close>

lemma reply_value_text: "reply (value_text vs)"
  using reply.bulk reply.nil by (simp add: value_text_def)

lemma answered_values [answers]:
  "plain_texts e \<Longrightarrow> fresh c \<Longrightarrow> answered (fold (add_value e) vss (add_array_len e (int (length vss)) c))"
  by (rule answered_array [of c _ "map value_text vss"])
    (auto simp: message_array_len message_values fresh_plain reply_value_text)

lemma answered_cursor [answers]:
  assumes "plain_texts e" and "fresh c"
  shows "answered (add_raw (concat (map bulk vs)) (add_array_len e (int (length vs))
    (add_content v (add_string_len e (int (length v)) (add_array_len e 2 c)))))"
    "n = int (length vs) \<Longrightarrow> answered (add_strings e vs (add_array_len e n
      (add_content v (add_string_len e (int (length v)) (add_array_len e 2 c)))))"
  using message_array_len(1) [OF assms(1), of 2 c] assms
  by (auto simp: message_array_len message_bulk message_raw message_strings fresh_plain
      intro!: answered_scan [where c = c and v = v and vs = vs])

lemma GetCmd_answer:
  assumes "plain_texts e" and "fresh c"
  shows "all_answered (GetCmd_Do e c p)"
proof -
  have "answered (c\<lparr>cmd_res := r\<rparr>)" if "AppendString_move (ke_ll2string e) capacity v (cmd_res c) = Some r" for capacity v r
    using reply.bulk [of v] that assms
    by (auto simp: AppendString_move_def bulk_def answer_defs CmdRes_message_def dec_string_def split: if_splits)
  then show ?thesis
    using assms by (auto simp: GetCmd_Do_def all_answered_def intro!: answers split: option.splits prod.splits)
qed


lemma KeysCmd_answer:
  assumes "plain_texts e" and "fresh c"
  shows "all_answered (KeysCmd_Do e c p)"
proof -
  have "answered (add_raw raw (add_array_len e n c))" if k: "keys_loop e ty pattern d 0 0 [] = Some (Inr (n, raw))" for n raw ty pattern d
  proof -
    obtain vs where "n = int (length vs)" "raw = concat (map bulk vs)"
      using keys_loop_bulks [OF k, rule_format, OF assms(1), of "[]"] by auto
    then show ?thesis using assms
      by (auto simp: message_array_len message_raw fresh_plain intro!: answered_array [of c _ "map bulk vs"] reply.bulk)
  qed
  moreover have "one_line limit_message" by (simp add: limit_message_def)
  ultimately show ?thesis
    using assms by (auto simp: KeysCmd_Do_def all_answered_def intro!: answers split: option.splits sum.splits)
qed

declare scan_keys.simps [simp del]

lemma ScanCmd_answer:
  assumes "plain_texts e" and "fresh c"
  shows "all_answered (ScanCmd_Do e c p)"
proof -
  have "answered (err_other limit_message c)" using assms by (simp add: answered_err_other limit_message_def)
  moreover have "answered (add_raw raw (add_array_len e n
      (add_content v (add_string_len e (int (length v)) (add_array_len e 2 c)))))"
    if s: "scan_keys e (kv_pattern c) d (kv_count c) (kv_cursor c) 0 [] = Inr (cursor', n, raw)" for d cursor' n raw v
  proof -
    obtain vs where "n = int (length vs)" "raw = concat (map bulk vs)" using scan_keys_bulks [OF s assms(1), of "[]"] by auto
    then show ?thesis using answered_cursor(1) [OF assms] by simp
  qed
  ultimately show ?thesis
    unfolding ScanCmd_Do_def Let_def by (intro read_db_answered) (simp split: sum.split prod.split)
qed

lemma range_answered [answers]: "plain_texts e \<Longrightarrow> fresh c \<Longrightarrow> answered (range_answer e r c)"
  by (auto simp: range_answer_def Let_def sum_list_triv length_concat comp_def intro!: answers split: prod.split)

lemmas kv_query_defs = GetrangeCmd_Do_def StrlenCmd_Do_def TtlCmd_Do_def PttlCmd_Do_def ExistsCmd_Do_def MgetCmd_Do_def
  ScanxCmd_Do_def PKScanRangeCmd_Do_def PKRScanRangeCmd_Do_def

lemma TypeCmd_answer: "plain_texts e \<Longrightarrow> fresh c \<Longrightarrow> all_answered (TypeCmd_Do e c p)"
  unfolding TypeCmd_Do_def split_beta
  by (rule read_db_answered) (simp add: answers answered_status [simplified] plain_texts_def)

lemma kv_queries_answer:
  "plain_texts e \<Longrightarrow> fresh c \<Longrightarrow> list_all (\<lambda>f. all_answered (f c p)) (kv_queries e)"
  unfolding kv_queries_def list.pred_inject kv_query_defs
  by (intro conjI; (erule (1) TypeCmd_answer GetCmd_answer KeysCmd_answer ScanCmd_answer | rule read_db_answered | simp only: list.pred_inject))
    (simp_all add: Let_def answers answered_cursor answered_values [simplified] split: prod.split)

text \<open>
  C34: Whatever the database returns, a command on strings and keys that starts from an empty result leaves
  exactly one well-formed reply of the protocol, provided only that the texts of the database library are
  lines.
\<close>

theorem kv_replies_wellformed:
  assumes "plain_texts e" and "CmdRes_none (cmd_res c)" and "f \<in> set (kv_commands e @ kv_queries e)" and "f c p = Some (c', p')"
  shows "reply (CmdRes_message (cmd_res c'))"
proof -
  have "list_all (\<lambda>f. all_answered (f c p)) (kv_commands e @ kv_queries e)"
    using kv_commands_answer [of e c] kv_queries_answer [of e c] assms(1,2) by (simp add: fresh_def)
  with assms(3) have "all_answered (f c p)" unfolding list_all_iff by blast
  then show ?thesis using assms(4) by (simp add: all_answered_def answered_def)
qed

theorem kv_replies_wellformed_witness:
  "GetCmd_Do (map_env []) ((kv_cmd ''get'' 2 [''get'', ''k''])\<lparr>kv_key := ''k''\<rparr>) (map_db_part [''k'' \<mapsto> ''v''])
     = Some ((kv_cmd ''get'' 2 [''get'', ''k''])\<lparr>kv_key := ''k'', cmd_res := \<lparr>cr_message = ''$1'' @ kNewLine @ ''v'' @ kNewLine, cr_ret = kNone\<rparr>\<rparr>,
         map_db_part [''k'' \<mapsto> ''v''])
   \<and> reply (''$1'' @ kNewLine @ ''v'' @ kNewLine)"
proof -
  let ?c = "(kv_cmd ''get'' 2 [''get'', ''k''])\<lparr>kv_key := ''k''\<rparr>"
  have e: "GetCmd_Do (map_env []) ?c (map_db_part [''k'' \<mapsto> ''v''])
      = Some (?c\<lparr>cmd_res := \<lparr>cr_message = ''$1'' @ kNewLine @ ''v'' @ kNewLine, cr_ret = kNone\<rparr>\<rparr>, map_db_part [''k'' \<mapsto> ''v''])"
    by (simp add: GetCmd_Do_def map_env_def map_db_def map_db_part_def kv_cmd_def AppendString_move_def cmd_res_simps CmdRes0_def
        dec_string_def dec_digits.simps char_of_def bit_0)
  have "plain_texts (map_env [])" by (simp add: plain_texts_def map_env_def map_db_def split: Status.split)
  moreover have "CmdRes_none (cmd_res ?c)" by (simp add: kv_cmd_def CmdRes0_def CmdRes_none_def)
  moreover have "GetCmd_Do (map_env []) \<in> set (kv_commands (map_env []) @ kv_queries (map_env []))" by (simp add: kv_queries_def)
  ultimately show ?thesis using kv_replies_wellformed [where f = "GetCmd_Do (map_env [])", OF _ _ _ e] e by (simp add: CmdRes_message_def)
qed

text \<open>
  KEYS ends. If the cursors of the database come to 0 (some rank of them decreases until then), the
  command returns, and its answer is either the refusal of an oversized response or an array of exactly
  as many bulk strings as it announces.
\<close>

theorem keys_returns:
  assumes "\<And>cursor. fst (bw_Scan (ke_db e) (kv_type c) cursor (kv_pattern c) PIKA_SCAN_STEP_LENGTH d) = 0
      \<or> rank (fst (bw_Scan (ke_db e) (kv_type c) cursor (kv_pattern c) PIKA_SCAN_STEP_LENGTH d)) < (rank cursor :: nat)"
    and "plain_texts e" and "CmdRes_none (cmd_res c)" and "pt_db p = Some d"
  shows "\<exists>c'. KeysCmd_Do e c p = Some (c', p)
    \<and> (CmdRes_message (cmd_res c') = ''-ERR Response exceeds the max-client-response-size limit'' @ kNewLine
       \<or> (\<exists>vs. CmdRes_message (cmd_res c') = request vs))"
proof -
  obtain y where y: "keys_loop e (kv_type c) (kv_pattern c) d 0 0 [] = Some y" using keys_loop_returns [OF assms(1)] by blast
  show ?thesis
  proof (cases y)
    case Inl
    with y assms(4) show ?thesis by (simp add: KeysCmd_Do_def answer_defs limit_message_def CmdRes_message_def)
  next
    case (Inr x)
    obtain n raw where x: "x = (n, raw)" by fastforce
    then obtain vs where v: "n = int (length vs)" "raw = concat (map bulk vs)"
      using keys_loop_bulks [OF y, rule_format, OF assms(2), of "[]"] Inr by auto
    have "CmdRes_message (cmd_res (add_raw raw (add_array_len e n c))) = request vs"
      using assms(2,3) v by (simp add: add_raw_def answer_defs CmdRes_message_def request_def dec_string_def)
    with y assms(4) Inr x show ?thesis by (auto simp: KeysCmd_Do_def)
  qed
qed

theorem keys_returns_witness:
  "\<exists>c'. KeysCmd_Do (map_env [''a'', ''b'']) (kv_cmd ''keys'' (- 2) [''keys'', ''*'']) (map_db_part [''a'' \<mapsto> ''x''])
     = Some (c', map_db_part [''a'' \<mapsto> ''x'']) \<and> CmdRes_message (cmd_res c') = request [''a'']"
proof -
  let ?e = "map_env [''a'', ''b'']" and ?c = "kv_cmd ''keys'' (- 2) [''keys'', ''*'']" and ?d = "[''a'' \<mapsto> ''x'']"
  have "fst (bw_Scan (ke_db ?e) (kv_type ?c) cursor (kv_pattern ?c) PIKA_SCAN_STEP_LENGTH ?d) = 0
      \<or> (0 :: nat) < 0" for cursor by (simp add: map_env_def map_db_def)
  moreover have "plain_texts ?e" by (simp add: plain_texts_def map_env_def map_db_def split: Status.split)
  moreover have "CmdRes_none (cmd_res ?c)" "pt_db (map_db_part ?d) = Some ?d"
    by (simp_all add: kv_cmd_def CmdRes0_def CmdRes_none_def map_db_part_def)
  ultimately obtain c' where c': "KeysCmd_Do ?e ?c (map_db_part ?d) = Some (c', map_db_part ?d)"
    using keys_returns [of ?e ?c ?d "\<lambda>_. 0" "map_db_part ?d"] by blast
  have l: "keys_loop ?e kAll ''*'' ?d 0 0 [] = Some (Inr (1, bulk ''a''))"
    by (subst keys_loop.simps) (simp add: map_env_def map_db_def append_arg_def cmd_res_simps bulk_def dec_string_def kNewLine_def dec_digits.simps)
  have "c' = add_raw (bulk ''a'') (add_array_len ?e 1 ?c)"
    using c' l by (simp add: KeysCmd_Do_def map_db_part_def kv_cmd_def)
  then have "CmdRes_message (cmd_res c') = request [''a'']"
    by (simp add: kv_cmd_def add_raw_def answer_defs CmdRes_message_def CmdRes0_def map_env_def request_def dec_string_def)
  with c' show ?thesis by blast
qed

end
