(* ===== verification/Pika_Kv_Log.thy ===== *)
theory Pika_Kv_Log
  imports Pika_Kv
begin

text \<open>
  What a replica makes of the binlog items of the commands with an expiry, and how a command that was
  split over partitions is put together again.
\<close>

section \<open>Replay\<close>

text \<open>The arguments a replica gets from an item.\<close>

definition replica_args :: "slash_coding \<Rightarrow> bytes \<Rightarrow> string list option" where
  "replica_args C binlog =
     (case BinlogDecode C TypeFirst binlog BinlogItem0 of (True, item) \<Rightarrow> redis_parse (bi_content item) | (False, _) \<Rightarrow> None)"

lemma replica_args_request:
  assumes "fixed_coding C" and "length (request argv) < 2 ^ 32"
  shows "replica_args C (BinlogEncode C TypeFirst x t l f off (request argv) []) = Some argv"
  using assms(2) by (simp add: replica_args_def Decode_Encode [OF assms(1)] redis_parse_request)

lemma int32_small: "0 \<le> i \<Longrightarrow> i < 2 ^ 31 \<Longrightarrow> int32 i = i"
  by (simp add: int32_def sint_uint uint_word_of_int signed_take_bit_int_eq_self)

lemma pksetexat_request:
  assumes "slash_numbers (ke_ll2string e) (ke_string2l e)"
  shows "pksetexat_content e key at v = request [''pksetexat'', key, dec_string at, v]"
  using slash_numbers.request_content [OF assms, of "[''pksetexat'', key, dec_string at, v]"]
  by (simp add: pksetexat_content_def slash_numbers.ll2string_dec [OF assms])

lemma expireat_request:
  assumes "slash_numbers (ke_ll2string e) (ke_string2l e)"
  shows "expireat_content e 3 key at = request [''expireat'', key, dec_string at]"
  using slash_numbers.request_content [OF assms, of "[''expireat'', key, dec_string at]"]
  by (simp add: expireat_content_def slash_numbers.ll2string_dec [OF assms])


text \<open>
  EXPIRE, PEXPIRE and PEXPIREAT reach a replica as EXPIREAT with the same key and the moment of expiry in
  seconds.
\<close>

theorem expire_logged_absolute:
  assumes "slash_numbers (ke_ll2string e) (ke_string2l e)" and "fixed_coding C" and "int64 at" and "cmd_arity r = 3" and "argc c = 3"
    and "length (request [''expireat'', kv_key c, dec_string at]) < 2 ^ 32"
    and "binlog = ExpireCmd_ToBinlog C e now x t l f off c \<and> at = now + kv_sec c
      \<or> binlog = PexpireCmd_ToBinlog C e now x t l f off c \<and> at = now + trunc_div (kv_sec c) 1000
      \<or> binlog = PexpireatCmd_ToBinlog C e x t l f off c \<and> at = trunc_div (kv_time_stamp c) 1000"
  shows "\<exists>argv. replica_args C binlog = Some argv
    \<and> ExpireatCmd_DoInitial e (r\<lparr>cmd_argv := argv\<rparr>) = Some (r\<lparr>cmd_argv := argv, kv_key := kv_key c, kv_time_stamp := at\<rparr>)"
proof -
  let ?argv = "[''expireat'', kv_key c, dec_string at]"
  have "binlog = BinlogEncode C TypeFirst x t l f off (request ?argv) []"
    using assms(5,7) by (auto simp: ExpireCmd_ToBinlog_def PexpireCmd_ToBinlog_def PexpireatCmd_ToBinlog_def expireat_request [OF assms(1)])
  then have "replica_args C binlog = Some ?argv" using replica_args_request [OF assms(2,6)] by simp
  moreover have "ke_string2l e (dec_string at) = Some at" using assms(3) by (rule slash_numbers.string2l_dec [OF assms(1)])
  ultimately show ?thesis
    using assms(4) by (auto simp: ExpireatCmd_DoInitial_def key_int_initial_def CheckArg_def argc_def Let_def)
qed

text \<open>
  With a condition the expiry of SET stays relative in the binlog: the arguments of SET NX EX are
  accepted with the condition NX, and the item carries them unchanged, so the replica counts the seconds
  from the time of its replay.
\<close>

theorem set_conditional_expiry_relative:
  assumes "slash_numbers (ke_ll2string e) (ke_string2l e)" and "fixed_coding C" and "cmd_arity c = -3"
    and "cmd_argv c = [''set'', key, v, ''nx'', ''ex'', dec_string sec]" and "0 < sec" and "int64 sec"
    and "length (request (cmd_argv c)) < 2 ^ 32"
  shows "\<exists>c'. SetCmd_DoInitial e c = Some c' \<and> kv_condition c' = kNX \<and> kv_sec c' = sec \<and> cmd_res c' = cmd_res c
    \<and> replica_args C (SetCmd_ToBinlog C e now x t l f off c') = Some (cmd_argv c)"
proof -
  let ?c = "c\<lparr>kv_key := key, kv_value := v, kv_condition := kNX, kv_sec := sec\<rparr>"
  have "same_word ''nx'' ''nx''" "\<not> same_word ''nx'' ''xx''" "same_word ''ex'' ''ex''" "\<not> same_word ''ex'' ''xx''"
    "\<not> same_word ''ex'' ''nx''" "\<not> same_word ''ex'' ''vx''" "\<not> same_word ''ex'' ''px''"
    by (simp_all add: same_word_def lower_def)
  moreover have "ke_string2l e (dec_string sec) = Some sec" using assms(6) by (rule slash_numbers.string2l_dec [OF assms(1)])
  ultimately have "SetCmd_DoInitial e c = Some ?c"
    using assms(3-5) by (simp add: SetCmd_DoInitial_def CheckArg_def argc_def Let_def)
  moreover have "replica_args C (SetCmd_ToBinlog C e now x t l f off ?c) = Some (cmd_argv c)"
    using replica_args_request [OF assms(2,7)] by (simp add: SetCmd_ToBinlog_def slash_numbers.Cmd_ToBinlog_request [OF assms(1)])
  ultimately show ?thesis by (intro exI [of _ ?c]) simp
qed

section \<open>Several partitions\<close>

text \<open>The parts of MGET, one after the other, each on the partition that holds its keys.\<close>

primrec mget_parts ::
  "'d kv_env \<Rightarrow> (u32 \<Rightarrow> 'd Partition) \<Rightarrow> (u32 \<times> HintKeys) list \<Rightarrow> 'n KvCmd \<Rightarrow> 'n KvCmd option" where
  "mget_parts e parts [] c = Some c"
| "mget_parts e parts (x # pm) c =
     (case MgetCmd_Split e (snd x) c (parts (fst x)) of None \<Rightarrow> None | Some (c, _) \<Rightarrow> mget_parts e parts pm c)"

lemma place_values_map:
  assumes "\<forall>i\<in>set hints. i < length res"
  shows "place_values hints (map g hints) res = Some (map (\<lambda>i. if i \<in> set hints then g i else res ! i) [0..<length res])"
  using assms
proof (induction hints arbitrary: res)
  case Nil
  then show ?case by (simp add: map_nth)
next
  case (Cons i hints)
  have "place_values hints (map g hints) (res[i := g i])
      = Some (map (\<lambda>j. if j \<in> set hints then g j else res[i := g i] ! j) [0..<length res])"
    using Cons.IH [of "res[i := g i]"] Cons.prems by simp
  moreover have "map (\<lambda>j. if j \<in> set hints then g j else res[i := g i] ! j) [0..<length res]
      = map (\<lambda>j. if j \<in> set (i # hints) then g j else res ! j) [0..<length res]"
    by (auto simp: nth_list_update)
  ultimately show ?case using Cons.prems by simp
qed

lemma MgetCmd_Split_part:
  assumes "\<And>ks d. bw_MGet (ke_db e) ks d = (OK, map (look d) ks)" and "pt_db p = Some d" and "length (kv_split_values c) = length keys"
  shows "MgetCmd_Split e (hint_keys_of part keys pid) c p = Some (c\<lparr>kv_split_values :=
    map (\<lambda>i. if part (keys ! i) = pid then look d (keys ! i) else kv_split_values c ! i) [0..<length keys]\<rparr>, p)"
proof -
  let ?h = "keys_of part keys pid"
  have "place_values ?h (map (\<lambda>i. look d (keys ! i)) ?h) (kv_split_values c)
      = Some (map (\<lambda>i. if part (keys ! i) = pid then look d (keys ! i) else kv_split_values c ! i) [0..<length keys])"
    using place_values_map [of ?h "kv_split_values c"] assms(3) by (auto simp: keys_of_def cong: map_cong)
  then show ?thesis using assms by (simp add: MgetCmd_Split_def hint_keys_of_def comp_def ok_def)
qed

lemma mget_parts_values:
  assumes "\<And>ks d. bw_MGet (ke_db e) ks d = (OK, map (look d) ks)" and "\<And>pid. pt_db (parts pid) = Some (dbs pid)"
    and "length (kv_split_values c) = length keys" and "\<forall>(pid, hk)\<in>set pm. hk = hint_keys_of part keys pid"
  shows "mget_parts e parts pm c = Some (c\<lparr>kv_split_values :=
    map (\<lambda>i. if part (keys ! i) \<in> fst ` set pm then look (dbs (part (keys ! i))) (keys ! i) else kv_split_values c ! i) [0..<length keys]\<rparr>)"
  using assms(3,4)
proof (induction pm arbitrary: c)
  case Nil
  then show ?case by (simp add: map_nth flip: Nil.prems(1))
next
  case (Cons x pm)
  obtain pid where x: "x = (pid, hint_keys_of part keys pid)" using Cons.prems(2) by (cases x) auto
  let ?c = "c\<lparr>kv_split_values := map (\<lambda>i. if part (keys ! i) = pid then look (dbs pid) (keys ! i) else kv_split_values c ! i) [0..<length keys]\<rparr>"
  have "MgetCmd_Split e (hint_keys_of part keys pid) c (parts pid) = Some (?c, parts pid)"
    by (rule MgetCmd_Split_part [OF assms(1,2) Cons.prems(1)])
  then show ?case using Cons.IH [of ?c] Cons.prems(2) by (auto simp: x cong: map_cong)
qed

lemma cmd_res_add_value: "cmd_res c = cmd_res c' \<Longrightarrow> cmd_res (fold (add_value e) vss c) = cmd_res (fold (add_value e) vss c')"
  by (induction vss arbitrary: c c') (simp_all add: add_value_def kv_res_simps)

text \<open>
  C33: MGET over several partitions is MGET on one database: in whatever order the partitions are asked, the
  merged answer is byte for byte that of a single database that holds all the keys, the values in the
  order of the arguments.
\<close>

theorem mget_split_merge:
  assumes "\<And>ks d. bw_MGet (ke_db e) ks d = (OK, map (look d) ks)" and "\<And>pid. pt_db (parts pid) = Some (dbs pid)"
    and "CheckArg (argc c0) c0" and "MgetCmd_DoInitial c0 = Some c" and "split_map part (kv_keys c) pm0" and "set pm = set pm0"
    and "pt_db p = Some d" and "\<forall>k\<in>set (kv_keys c). look d k = look (dbs (part k)) k"
  shows "\<exists>c1 c2. mget_parts e parts pm c = Some c1 \<and> MgetCmd_Do e c p = Some (c2, p) \<and> cmd_res (MgetCmd_Merge e c1) = cmd_res c2"
proof -
  let ?v = "map (\<lambda>k. look d k) (kv_keys c)"
  have len: "length (kv_split_values c) = length (kv_keys c)"
    using assms(3,4) by (auto simp: MgetCmd_DoInitial_def split: list.splits)
  have hk: "hk = hint_keys_of part (kv_keys c) pid" if "(pid, hk) \<in> set pm" for pid hk
  proof -
    have "map_of pm0 pid = Some hk"
      using assms(5) [unfolded split_map_def] that [unfolded assms(6)] by (intro map_of_is_SomeI) blast+
    then show ?thesis using assms(5) unfolding split_map_def by (metis option.distinct(1) option.inject)
  qed
  have cover: "part (kv_keys c ! i) \<in> fst ` set pm" if i: "i < length (kv_keys c)" for i
  proof -
    have "i \<in> set (keys_of part (kv_keys c) (part (kv_keys c ! i)))" using i by (simp add: keys_of_def)
    then have "keys_of part (kv_keys c) (part (kv_keys c ! i)) \<noteq> []" by auto
    then have "map_of pm0 (part (kv_keys c ! i)) \<noteq> None" using assms(5) by (simp add: split_map_def)
    then show ?thesis by (simp add: map_of_eq_None_iff assms(6))
  qed
  have "map (\<lambda>i. if part (kv_keys c ! i) \<in> fst ` set pm then look (dbs (part (kv_keys c ! i))) (kv_keys c ! i) else kv_split_values c ! i)
      [0..<length (kv_keys c)] = ?v"
    using cover assms(8) by (intro nth_equalityI) auto
  then have "mget_parts e parts pm c = Some (c\<lparr>kv_split_values := ?v\<rparr>)"
    using mget_parts_values [where parts = parts and dbs = dbs, OF assms(1,2) len, of pm part] hk by fastforce
  moreover have "MgetCmd_Do e c p = Some (fold (add_value e) ?v (add_array_len e (int (length ?v)) c), p)"
    using assms(1,7) by (simp add: MgetCmd_Do_def read_db_def ok_def)
  moreover have "cmd_res (MgetCmd_Merge e (c\<lparr>kv_split_values := ?v\<rparr>)) = cmd_res (fold (add_value e) ?v (add_array_len e (int (length ?v)) c))"
    by (auto simp: MgetCmd_Merge_def kv_res_simps intro!: cmd_res_add_value)
  ultimately show ?thesis by blast
qed

section \<open>Instances\<close>

lemma map_env_numbers: "slash_numbers (ke_ll2string (map_env ks)) (ke_string2l (map_env ks))"
  using dec.slash_numbers_axioms by (simp add: map_env_def)


theorem expire_logged_absolute_witness:
  "\<exists>argv. replica_args le_coding (ExpireCmd_ToBinlog le_coding (map_env []) 100 1 2 3 4 5
        ((kv_cmd ''expire'' 3 [''expire'', ''k'', ''7''])\<lparr>kv_key := ''k'', kv_sec := 7\<rparr>)) = Some argv
    \<and> ExpireatCmd_DoInitial (map_env []) (kv_cmd ''expireat'' 3 argv)
        = Some ((kv_cmd ''expireat'' 3 argv)\<lparr>kv_key := ''k'', kv_time_stamp := 107\<rparr>)"
proof -
  let ?c = "(kv_cmd ''expire'' 3 [''expire'', ''k'', ''7''])\<lparr>kv_key := ''k'', kv_sec := 7\<rparr>" and ?r = "kv_cmd ''expireat'' 3 []"
  have "int64 107" "cmd_arity ?r = 3" "argc ?c = 3" by (simp_all add: kv_cmd_def int64_def argc_def)
  moreover have "length (request [''expireat'', kv_key ?c, dec_string 107]) < 2 ^ 32"
    by (simp add: request_def bulk_def kNewLine_def dec_string_def dec_digits.simps)
  moreover have "107 = 100 + kv_sec ?c" by simp
  ultimately have "\<exists>argv. replica_args le_coding (ExpireCmd_ToBinlog le_coding (map_env []) 100 1 2 3 4 5 ?c) = Some argv
    \<and> ExpireatCmd_DoInitial (map_env []) (?r\<lparr>cmd_argv := argv\<rparr>)
        = Some (?r\<lparr>cmd_argv := argv, kv_key := kv_key ?c, kv_time_stamp := 107\<rparr>)"
    by (intro expire_logged_absolute [OF map_env_numbers le.fixed_coding_axioms]) blast+
  then show ?thesis by (simp add: kv_cmd_def)
qed

theorem set_conditional_expiry_relative_witness:
  "\<exists>c'. SetCmd_DoInitial (map_env []) (kv_cmd ''set'' (- 3) [''set'', ''k'', ''v'', ''nx'', ''ex'', dec_string 7]) = Some c' \<and> kv_condition c' = kNX
    \<and> replica_args le_coding (SetCmd_ToBinlog le_coding (map_env []) 100 1 2 3 4 5 c') = Some [''set'', ''k'', ''v'', ''nx'', ''ex'', dec_string 7]"
proof -
  let ?c = "kv_cmd ''set'' (- 3) [''set'', ''k'', ''v'', ''nx'', ''ex'', dec_string 7]"
  have "cmd_arity ?c = - 3" "cmd_argv ?c = [''set'', ''k'', ''v'', ''nx'', ''ex'', dec_string 7]" "(0 :: int) < 7" "int64 7"
    "length (request (cmd_argv ?c)) < 2 ^ 32"
    by (simp_all add: kv_cmd_def int64_def request_def bulk_def kNewLine_def dec_string_def dec_digits.simps)
  from set_conditional_expiry_relative [OF map_env_numbers [of "[]"] le.fixed_coding_axioms this, of 100 1 2 3 4 5] show ?thesis
    by (auto simp: kv_cmd_def)
qed

theorem mget_split_merge_witness:
  "\<exists>c1 c2. mget_parts (map_env [])
        (\<lambda>pid. map_db_part (if pid = 1 then [''a'' \<mapsto> ''x'', ''c'' \<mapsto> ''z''] else [''bb'' \<mapsto> ''y'']))
        [(2, \<lparr>hk_keys = [''bb''], hk_hints = [1]\<rparr>), (1, \<lparr>hk_keys = [''a'', ''c''], hk_hints = [0, 2]\<rparr>)]
        ((kv_cmd ''mget'' (- 2) [''mget'', ''a'', ''bb'', ''c''])\<lparr>kv_keys := [''a'', ''bb'', ''c''], kv_split_values := replicate 3 (OK, [])\<rparr>) = Some c1
    \<and> MgetCmd_Do (map_env []) ((kv_cmd ''mget'' (- 2) [''mget'', ''a'', ''bb'', ''c''])\<lparr>kv_keys := [''a'', ''bb'', ''c''], kv_split_values := replicate 3 (OK, [])\<rparr>)
        (map_db_part [''a'' \<mapsto> ''x'', ''bb'' \<mapsto> ''y'', ''c'' \<mapsto> ''z'']) = Some (c2, map_db_part [''a'' \<mapsto> ''x'', ''bb'' \<mapsto> ''y'', ''c'' \<mapsto> ''z''])
    \<and> cmd_res (MgetCmd_Merge (map_env []) c1) = cmd_res c2"
proof -
  let ?c0 = "kv_cmd ''mget'' (- 2) [''mget'', ''a'', ''bb'', ''c'']"
  let ?c = "?c0\<lparr>kv_keys := [''a'', ''bb'', ''c''], kv_split_values := replicate 3 (OK, [])\<rparr>"
  let ?dbs = "\<lambda>pid :: u32. if pid = 1 then [''a'' \<mapsto> ''x'', ''c'' \<mapsto> ''z''] else [''bb'' \<mapsto> ''y'']"
  let ?pm = "[(2 :: u32, \<lparr>hk_keys = [''bb''], hk_hints = [1]\<rparr>), (1, \<lparr>hk_keys = [''a'', ''c''], hk_hints = [0, 2]\<rparr>)]"
  let ?look = "\<lambda>(d :: string \<rightharpoonup> string) k. case d k of None \<Rightarrow> (NotFound [], []) | Some v \<Rightarrow> (OK, v)"
  let ?part = "\<lambda>k :: string. of_nat (length k) :: u32" and ?d = "[''a'' \<mapsto> ''x'', ''bb'' \<mapsto> ''y'', ''c'' \<mapsto> ''z'']"
  have 1: "bw_MGet (ke_db (map_env [])) ks d = (OK, map (?look d) ks)" for ks d by (simp add: map_env_def map_db_def)
  have 2: "pt_db (map_db_part (?dbs pid)) = Some (?dbs pid)" "pt_db (map_db_part ?d) = Some ?d" for pid by (simp_all add: map_db_part_def)
  have 3: "CheckArg (argc ?c0) ?c0" "MgetCmd_DoInitial ?c0 = Some ?c"
    by (simp_all add: CheckArg_def argc_def kv_cmd_def MgetCmd_DoInitial_def numeral_3_eq_3)
  have k: "keys_of ?part [''a'', ''bb'', ''c''] pid = (if pid = 1 then [0, 2] else if pid = 2 then [1] else [])" for pid
    by (auto simp: keys_of_def upt_rec)
  have 4: "split_map ?part (kv_keys ?c) ?pm" by (simp add: split_map_def k hint_keys_of_def)
  have 5: "\<forall>k\<in>set (kv_keys ?c). ?look ?d k = ?look (?dbs (?part k)) k" by simp
  show ?thesis by (rule mget_split_merge [where parts = "\<lambda>pid. map_db_part (?dbs pid)" and dbs = ?dbs, OF 1 2(1) 3 4 refl 2(2) 5])
qed

end
