(* ===== verification/Pika_Sync_Master.thy ===== *)
theory Pika_Sync_Master
  imports Pika_Consensus
begin

text \<open>
  The master side of a replicated partition, \<^verbatim>\<open>SyncMasterPartition\<close> of \<^verbatim>\<open>src/pika_rm.cc\<close>: the slaves, their
  sessions and time-outs, reading the binlog into their windows, and the queues of binlogs to be sent,
  which belong to \<^verbatim>\<open>PikaReplicaManager\<close>. \<open>None\<close> stands for a reader that does not return.
\<close>

section \<open>Write queues\<close>

record BinlogChip =
  bc_offset :: LogOffset
  bc_binlog :: bytes

record WriteTask =
  wt_rm_node :: RmNode
  wt_binlog_chip :: BinlogChip
  wt_prev_offset :: LogOffset

text \<open>For every slave, by address and port, and every partition a queue. A lookup of a missing key creates it.\<close>

type_synonym write_queues = "(string \<times> (u32 \<times> WriteTask list) list) list"

definition queue_index :: "string \<Rightarrow> int \<Rightarrow> string" where
  "queue_index ip port = ip @ '':'' @ dec_string port"

definition the_list :: "'b list option \<Rightarrow> 'b list" where
  "the_list r = (case r of None \<Rightarrow> [] | Some xs \<Rightarrow> xs)"

definition task_queue :: "string \<Rightarrow> u32 \<Rightarrow> write_queues \<Rightarrow> WriteTask list" where
  "task_queue index partition_id q = the_list (map_of (the_list (map_of q index)) partition_id)"

definition push_task :: "string \<Rightarrow> u32 \<Rightarrow> WriteTask \<Rightarrow> write_queues \<Rightarrow> write_queues" where
  "push_task index partition_id task q =
     AList.update index
       (AList.update partition_id (task_queue index partition_id q @ [task]) (the_list (map_of q index))) q"

definition ProduceWriteQueue :: "string \<Rightarrow> int \<Rightarrow> u32 \<Rightarrow> WriteTask list \<Rightarrow> write_queues \<Rightarrow> write_queues" where
  "ProduceWriteQueue ip port partition_id tasks q = fold (push_task (queue_index ip port) partition_id) tasks q"

definition DropItemInWriteQueue :: "string \<Rightarrow> int \<Rightarrow> write_queues \<Rightarrow> write_queues" where
  "DropItemInWriteQueue ip port q = AList.delete (queue_index ip port) q"

definition kBinlogSendPacketNum :: nat where "kBinlogSendPacketNum = 40"

definition kBinlogSendBatchNum :: nat where "kBinlogSendBatchNum = 100"

definition PIKA_MAX_CONN_RBUF_HB :: int where "PIKA_MAX_CONN_RBUF_HB = 2 ^ 29"

text \<open>
  One batch: at most a number of tasks, and only as many as keep the sum of their sizes, a 32-bit integer,
  within the limit.
\<close>

primrec take_batch :: "nat \<Rightarrow> i32 \<Rightarrow> WriteTask list \<Rightarrow> WriteTask list \<times> WriteTask list" where
  "take_batch 0 batch_size queue = ([], queue)"
| "take_batch (Suc n) batch_size queue =
     (case queue of
        [] \<Rightarrow> ([], [])
      | task # rest \<Rightarrow>
          let batch_size = batch_size + of_nat (length (bc_binlog (wt_binlog_chip task)))
          in if sint batch_size > PIKA_MAX_CONN_RBUF_HB then ([], queue)
             else case take_batch n batch_size rest of (to_send, queue) \<Rightarrow> (task # to_send, queue))"

primrec take_packets :: "nat \<Rightarrow> WriteTask list \<Rightarrow> WriteTask list list \<times> WriteTask list" where
  "take_packets 0 queue = ([], queue)"
| "take_packets (Suc n) queue =
     (if queue = [] then ([], [])
      else case take_batch (if length queue > kBinlogSendBatchNum then kBinlogSendBatchNum else length queue) 0 queue of
             (to_send, queue) \<Rightarrow>
               (case take_packets n queue of
                  (packets, queue) \<Rightarrow> (if to_send \<noteq> [] then to_send # packets else packets, queue)))"

text \<open>The queues of one slave, and of all; \<open>to_send_map\<close> has an entry only where there is something to send.\<close>

primrec drain_partitions :: "(u32 \<times> WriteTask list) list \<Rightarrow> WriteTask list list \<times> (u32 \<times> WriteTask list) list" where
  "drain_partitions [] = ([], [])"
| "drain_partitions (x # p_map) =
     (case take_packets kBinlogSendPacketNum (snd x) of
        (packets, queue) \<Rightarrow> (case drain_partitions p_map of (packets', p_map) \<Rightarrow> (packets @ packets', (fst x, queue) # p_map)))"

primrec drain_queues :: "write_queues \<Rightarrow> (string \<times> WriteTask list list) list \<times> write_queues" where
  "drain_queues [] = ([], [])"
| "drain_queues (x # q) =
     (case drain_partitions (snd x) of
        (packets, p_map) \<Rightarrow>
          (case drain_queues q of
             (to_send_map, q) \<Rightarrow> (if packets \<noteq> [] then (fst x, packets) # to_send_map else to_send_map, (fst x, p_map) # q)))"

text \<open>
  Sending. \<open>send\<close> is \<^verbatim>\<open>SendSlaveBinlogChips\<close> on the state of the connections, \<open>parse\<close> the reader of addresses
  of slash. A packet that cannot be sent does not keep the later ones of the same slave from being sent.
\<close>

primrec send_packets ::
  "(string \<Rightarrow> int \<Rightarrow> WriteTask list \<Rightarrow> 'x \<Rightarrow> Status \<times> 'x) \<Rightarrow> string \<Rightarrow> string \<Rightarrow> int \<Rightarrow> WriteTask list list \<Rightarrow> 'x \<Rightarrow> string list \<times> 'x" where
  "send_packets send index ip port [] x = ([], x)"
| "send_packets send index ip port (to_send # packets) x =
     (case send ip port to_send x of
        (s, x) \<Rightarrow>
          (case send_packets send index ip port packets x of
             (to_delete, x) \<Rightarrow> (if \<not> ok s then index # to_delete else to_delete, x)))"

primrec send_map ::
  "(string \<Rightarrow> int \<Rightarrow> WriteTask list \<Rightarrow> 'x \<Rightarrow> Status \<times> 'x) \<Rightarrow> (string \<Rightarrow> (string \<times> int) option)
    \<Rightarrow> (string \<times> WriteTask list list) list \<Rightarrow> 'x \<Rightarrow> string list \<times> 'x" where
  "send_map send parse [] x = ([], x)"
| "send_map send parse (e # to_send_map) x =
     (case parse (fst e) of
        None \<Rightarrow> send_map send parse to_send_map x
      | Some (ip, port) \<Rightarrow>
          (case send_packets send (fst e) ip port (snd e) x of
             (to_delete, x) \<Rightarrow> (case send_map send parse to_send_map x of (to_delete', x) \<Rightarrow> (to_delete @ to_delete', x))))"

definition ConsumeWriteQueue ::
  "(string \<Rightarrow> int \<Rightarrow> WriteTask list \<Rightarrow> 'x \<Rightarrow> Status \<times> 'x) \<Rightarrow> (string \<Rightarrow> (string \<times> int) option) \<Rightarrow> write_queues \<Rightarrow> 'x
    \<Rightarrow> nat \<times> write_queues \<times> 'x" where
  "ConsumeWriteQueue send parse q x =
     (case drain_queues q of
        (to_send_map, q) \<Rightarrow>
          (case send_map send parse to_send_map x of
             (to_delete, x) \<Rightarrow>
               (sum_list (map (\<lambda>e. sum_list (map length (snd e))) to_send_map), fold AList.delete to_delete q, x)))"

section \<open>The slaves of a partition\<close>

record ('c, 'n, 'h) SyncMasterPartition =
  sm_partition_info :: PartitionInfo
  sm_session_id :: i32
  sm_coordinator :: "('c, 'n, 'h) ConsensusCoordinator"

definition SyncMasterPartition_new ::
  "('w, 'e) slash_env \<Rightarrow> slash_coding \<Rightarrow> 'c coord_conf \<Rightarrow> u32 \<Rightarrow> u32 \<Rightarrow> string \<Rightarrow> u32 \<Rightarrow> 'w
    \<Rightarrow> (('c, 'n, 'h) SyncMasterPartition \<times> 'w) option" where
  "SyncMasterPartition_new E C cf indet indet_term table_name partition_id w =
     map_option (\<lambda>(cc, w).
         (\<lparr>sm_partition_info = \<lparr>pi_table_name = table_name, pi_partition_id = partition_id\<rparr>, sm_session_id = 0, sm_coordinator = cc\<rparr>, w))
       (ConsensusCoordinator_new E C cf indet indet_term table_name partition_id w)"

definition sm_slaves :: "('c, 'n, 'h) SyncMasterPartition \<Rightarrow> (string \<times> 'h SlaveNode) list" where
  "sm_slaves sm = GetAllSlaveNodes (cc_sync_pros (sm_coordinator sm))"

definition sm_slave :: "string \<Rightarrow> int \<Rightarrow> ('c, 'n, 'h) SyncMasterPartition \<Rightarrow> 'h SlaveNode option" where
  "sm_slave ip port sm = GetSlaveNode ip port (cc_sync_pros (sm_coordinator sm))"

definition sm_logger :: "('c, 'n, 'h) SyncMasterPartition \<Rightarrow> Binlog" where
  "sm_logger sm = cc_binlog (sm_coordinator sm)"

text \<open>The slave nodes are shared: what a function does to one is seen by all.\<close>

definition set_slave :: "string \<Rightarrow> 'h SlaveNode \<Rightarrow> ('c, 'n, 'h) SyncMasterPartition \<Rightarrow> ('c, 'n, 'h) SyncMasterPartition" where
  "set_slave key sn sm =
     sm\<lparr>sm_coordinator := (sm_coordinator sm)\<lparr>cc_sync_pros := (cc_sync_pros (sm_coordinator sm))
         \<lparr>sp_slaves := AList.update key sn (sp_slaves (cc_sync_pros (sm_coordinator sm)))\<rparr>\<rparr>\<rparr>"

definition no_slave :: "string \<Rightarrow> int \<Rightarrow> Status" where
  "no_slave ip port = NotFound (''ip '' @ ip @ '' port '' @ dec_string port)"

definition GetNumberOfSlaveNode :: "('c, 'n, 'h) SyncMasterPartition \<Rightarrow> int" where
  "GetNumberOfSlaveNode sm = SlaveSize (cc_sync_pros (sm_coordinator sm))"

definition CheckSlaveNodeExist :: "string \<Rightarrow> int \<Rightarrow> ('c, 'n, 'h) SyncMasterPartition \<Rightarrow> bool" where
  "CheckSlaveNodeExist ip port sm = (sm_slave ip port sm \<noteq> None)"

definition GetSlaveNodeSession :: "string \<Rightarrow> int \<Rightarrow> ('c, 'n, 'h) SyncMasterPartition \<Rightarrow> Status \<times> i32 option" where
  "GetSlaveNodeSession ip port sm =
     (case sm_slave ip port sm of
        None \<Rightarrow> (NotFound (''slave '' @ ip @ '':'' @ dec_string port @ '' not found''), None)
      | Some sn \<Rightarrow> (OK, Some (rn_session_id (sn_node sn))))"

definition sm_AddSlaveNode ::
  "string \<Rightarrow> int \<Rightarrow> i32 \<Rightarrow> u64 \<Rightarrow> u64 \<Rightarrow> ('c, 'n, 'h) SyncMasterPartition \<Rightarrow> Status \<times> ('c, 'n, 'h) SyncMasterPartition" where
  "sm_AddSlaveNode ip port session_id now1 now2 sm =
     (case Coordinator_AddSlaveNode ip port session_id now1 now2 (sm_coordinator sm) of
        (s, cc) \<Rightarrow> (if \<not> ok s then s else OK, sm\<lparr>sm_coordinator := cc\<rparr>))"

definition sm_RemoveSlaveNode ::
  "string \<Rightarrow> int \<Rightarrow> ('c, 'n, 'h) SyncMasterPartition \<Rightarrow> Status \<times> ('c, 'n, 'h) SyncMasterPartition" where
  "sm_RemoveSlaveNode ip port sm =
     (case Coordinator_RemoveSlaveNode ip port (sm_coordinator sm) of
        (s, cc) \<Rightarrow> (if \<not> ok s then s else OK, sm\<lparr>sm_coordinator := cc\<rparr>))"

definition GenSessionId :: "('c, 'n, 'h) SyncMasterPartition \<Rightarrow> i32 \<times> ('c, 'n, 'h) SyncMasterPartition" where
  "GenSessionId sm = (sm_session_id sm, sm\<lparr>sm_session_id := sm_session_id sm + 1\<rparr>)"

definition CheckSessionId :: "string \<Rightarrow> int \<Rightarrow> i32 \<Rightarrow> ('c, 'n, 'h) SyncMasterPartition \<Rightarrow> bool" where
  "CheckSessionId ip port session_id sm =
     (case sm_slave ip port sm of
        None \<Rightarrow> False
      | Some sn \<Rightarrow> if session_id \<noteq> rn_session_id (sn_node sn) then False else True)"

text \<open>Getters and setters of one slave.\<close>

definition on_slave ::
  "string \<Rightarrow> int \<Rightarrow> ('h SlaveNode \<Rightarrow> 'h SlaveNode) \<Rightarrow> ('c, 'n, 'h) SyncMasterPartition \<Rightarrow> Status \<times> ('c, 'n, 'h) SyncMasterPartition" where
  "on_slave ip port f sm =
     (case sm_slave ip port sm of
        None \<Rightarrow> (no_slave ip port, sm)
      | Some sn \<Rightarrow> (OK, set_slave (slave_key ip port) (f sn) sm))"

definition of_slave :: "string \<Rightarrow> int \<Rightarrow> ('h SlaveNode \<Rightarrow> 'a) \<Rightarrow> ('c, 'n, 'h) SyncMasterPartition \<Rightarrow> Status \<times> 'a option" where
  "of_slave ip port f sm = (case sm_slave ip port sm of None \<Rightarrow> (no_slave ip port, None) | Some sn \<Rightarrow> (OK, Some (f sn)))"

definition ActivateSlaveDbSync ::
  "string \<Rightarrow> int \<Rightarrow> ('c, 'n, 'h) SyncMasterPartition \<Rightarrow> Status \<times> ('c, 'n, 'h) SyncMasterPartition" where
  "ActivateSlaveDbSync ip port sm = on_slave ip port (\<lambda>sn. sn\<lparr>sn_slave_state := kSlaveDbSync\<rparr>) sm"

definition GetSlaveSyncBinlogInfo ::
  "string \<Rightarrow> int \<Rightarrow> ('c, 'n, 'h) SyncMasterPartition \<Rightarrow> Status \<times> (BinlogOffset \<times> BinlogOffset) option" where
  "GetSlaveSyncBinlogInfo ip port sm = of_slave ip port (\<lambda>sn. (b_offset (sn_sent_offset sn), b_offset (sn_acked_offset sn))) sm"

definition GetSlaveState :: "string \<Rightarrow> int \<Rightarrow> ('c, 'n, 'h) SyncMasterPartition \<Rightarrow> Status \<times> SlaveState option" where
  "GetSlaveState ip port sm = of_slave ip port sn_slave_state sm"

definition set_send_time :: "u64 \<Rightarrow> 'h SlaveNode \<Rightarrow> 'h SlaveNode" where
  "set_send_time t sn = sn\<lparr>sn_node := (sn_node sn)\<lparr>rn_last_send_time := t\<rparr>\<rparr>"

definition SetLastSendTime ::
  "string \<Rightarrow> int \<Rightarrow> u64 \<Rightarrow> ('c, 'n, 'h) SyncMasterPartition \<Rightarrow> Status \<times> ('c, 'n, 'h) SyncMasterPartition" where
  "SetLastSendTime ip port t sm = on_slave ip port (set_send_time t) sm"

definition GetLastSendTime :: "string \<Rightarrow> int \<Rightarrow> ('c, 'n, 'h) SyncMasterPartition \<Rightarrow> Status \<times> u64 option" where
  "GetLastSendTime ip port sm = of_slave ip port (\<lambda>sn. rn_last_send_time (sn_node sn)) sm"

definition SetLastRecvTime ::
  "string \<Rightarrow> int \<Rightarrow> u64 \<Rightarrow> ('c, 'n, 'h) SyncMasterPartition \<Rightarrow> Status \<times> ('c, 'n, 'h) SyncMasterPartition" where
  "SetLastRecvTime ip port t sm = on_slave ip port (\<lambda>sn. sn\<lparr>sn_node := (sn_node sn)\<lparr>rn_last_recv_time := t\<rparr>\<rparr>) sm"

definition GetLastRecvTime :: "string \<Rightarrow> int \<Rightarrow> ('c, 'n, 'h) SyncMasterPartition \<Rightarrow> Status \<times> u64 option" where
  "GetLastRecvTime ip port sm = of_slave ip port (\<lambda>sn. rn_last_recv_time (sn_node sn)) sm"

section \<open>Reading the binlog for a slave\<close>

text \<open>
  The parameters of the environment: the configured size of the window, the clock at the readings of a
  loop, the values of the uninitialised file number and offset, and the texts of statuses.
\<close>

record send_conf =
  sc_sync_window_size :: i32
  sc_clock :: "nat \<Rightarrow> u64"
  sc_indet :: "u32 \<times> u64"
  sc_ToString :: "Status \<Rightarrow> string"

text \<open>
  The loop of \<^verbatim>\<open>ReadBinlogFileToWq\<close>; the first argument is the number of rounds left. The tasks are
  collected in the last argument.
\<close>

primrec read_chips ::
  "('w, 'h) slash_env \<Rightarrow> slash_coding \<Rightarrow> send_conf \<Rightarrow> Binlog \<Rightarrow> 'w \<Rightarrow> nat \<Rightarrow> 'h SlaveNode \<Rightarrow> WriteTask list
    \<Rightarrow> (Status \<times> 'h SlaveNode \<times> WriteTask list) option" where
  "read_chips E C sc b w 0 sn tasks = Some (OK, sn, tasks)"
| "read_chips E C sc b w (Suc n) sn tasks =
     (if uint (SyncWindow_GetTotalBinlogSize (sn_sync_win sn)) > PIKA_MAX_CONN_RBUF_HB * 2 then Some (OK, sn, tasks)
      else case sn_binlog_reader sn of
             None \<Rightarrow> None
           | Some r \<Rightarrow>
               (case Get E b [] (fst (sc_indet sc)) (snd (sc_indet sc)) r w of
                  None \<Rightarrow> None
                | Some (s, msg, filenum, offset, r) \<Rightarrow>
                    let sn = sn\<lparr>sn_binlog_reader := Some r\<rparr>
                    in if IsEndFile s then Some (OK, sn, tasks)
                       else if IsCorruption s \<or> IsIOError s then Some (s, sn, tasks)
                       else (case BinlogItemWithoutContentDecode C TypeFirst msg BinlogItem0 of
                               (False, _) \<Rightarrow> Some (Corruption ''Binlog item decode failed'', sn, tasks)
                             | (True, item) \<Rightarrow>
                                 let sent_offset = \<lparr>b_offset = BinlogOffset filenum offset,
                                                    l_offset = \<lparr>lo_term = bi_term_id item, lo_index = bi_logic_id item\<rparr>\<rparr>;
                                     sn = sn\<lparr>sn_sync_win := SyncWindow_Push (SyncWinItem_new sent_offset (of_nat (length msg))) (sn_sync_win sn)\<rparr>;
                                     sn = set_send_time (sc_clock sc n) sn;
                                     node = sn_node sn;
                                     rm_node = RmNode_new (rn_ip node) (rn_port node) (pi_table_name (rn_partition_info node))
                                                 (pi_partition_id (rn_partition_info node)) (rn_session_id node);
                                     task = \<lparr>wt_rm_node = rm_node, wt_binlog_chip = \<lparr>bc_offset = sent_offset, bc_binlog = msg\<rparr>,
                                             wt_prev_offset = sn_sent_offset sn\<rparr>
                                 in read_chips E C sc b w n (sn\<lparr>sn_sent_offset := sent_offset\<rparr>) (tasks @ [task]))))"

definition ReadBinlogFileToWq ::
  "('w, 'h) slash_env \<Rightarrow> slash_coding \<Rightarrow> send_conf \<Rightarrow> Binlog \<Rightarrow> u32 \<Rightarrow> 'h SlaveNode \<Rightarrow> write_queues \<Rightarrow> 'w
    \<Rightarrow> (Status \<times> 'h SlaveNode \<times> write_queues) option" where
  "ReadBinlogFileToWq E C sc b partition_id sn q w =
     (let cnt = SyncWindow_Remaining (sc_sync_window_size sc) (sn_sync_win sn)
      in if sn_binlog_reader sn = None then Some (OK, sn, q)
         else case read_chips E C sc b w (nat cnt) sn [] of
                None \<Rightarrow> None
              | Some (s, sn, tasks) \<Rightarrow>
                  if \<not> ok s then Some (s, sn, q)
                  else Some (OK, sn, if tasks \<noteq> [] then ProduceWriteQueue (rn_ip (sn_node sn)) (rn_port (sn_node sn)) partition_id tasks q else q))"

definition SyncBinlogToWq ::
  "('w, 'h) slash_env \<Rightarrow> slash_coding \<Rightarrow> send_conf \<Rightarrow> string \<Rightarrow> int \<Rightarrow> ('c, 'n, 'h) SyncMasterPartition \<Rightarrow> write_queues \<Rightarrow> 'w
    \<Rightarrow> (Status \<times> ('c, 'n, 'h) SyncMasterPartition \<times> write_queues) option" where
  "SyncBinlogToWq E C sc ip port sm q w =
     (case sm_slave ip port sm of
        None \<Rightarrow> Some (no_slave ip port, sm, q)
      | Some sn \<Rightarrow>
          (case ReadBinlogFileToWq E C sc (sm_logger sm) (pi_partition_id (sm_partition_info sm)) sn q w of
             None \<Rightarrow> None
           | Some (s, sn, q) \<Rightarrow> Some (if \<not> ok s then s else OK, set_slave (slave_key ip port) sn sm, q)))"

definition ActivateSlaveBinlogSync ::
  "('w, 'h) slash_env \<Rightarrow> slash_coding \<Rightarrow> send_conf \<Rightarrow> string \<Rightarrow> int \<Rightarrow> LogOffset \<Rightarrow> ('c, 'n, 'h) SyncMasterPartition \<Rightarrow> write_queues \<Rightarrow> 'w
    \<Rightarrow> (Status \<times> ('c, 'n, 'h) SyncMasterPartition \<times> write_queues) option" where
  "ActivateSlaveBinlogSync E C sc ip port offset sm q w =
     (case sm_slave ip port sm of
        None \<Rightarrow> Some (no_slave ip port, sm, q)
      | Some sn \<Rightarrow>
          (case InitBinlogFileReader E (sm_logger sm) (b_offset offset)
                  (sn\<lparr>sn_slave_state := kSlaveBinlogSync, sn_sent_offset := offset, sn_acked_offset := offset\<rparr>) w of
             None \<Rightarrow> None
           | Some (s, sn) \<Rightarrow>
               if \<not> ok s
               then Some (Corruption (''Init binlog file reader failed'' @ sc_ToString sc s), set_slave (slave_key ip port) sn sm, q)
               else (case SyncBinlogToWq E C sc ip port (set_slave (slave_key ip port) (sn\<lparr>sn_b_state := kReadFromFile\<rparr>) sm) q w of
                       None \<Rightarrow> None
                     | Some (s, sm, q) \<Rightarrow> Some (if \<not> ok s then s else OK, sm, q))))"

text \<open>
  Waking up the slaves that have acknowledged everything sent. Those whose reading failed are removed
  afterwards.
\<close>

primrec wake_slaves ::
  "('w, 'h) slash_env \<Rightarrow> slash_coding \<Rightarrow> send_conf \<Rightarrow> (string \<times> 'h SlaveNode) list \<Rightarrow> ('c, 'n, 'h) SyncMasterPartition \<Rightarrow> write_queues \<Rightarrow> 'w
    \<Rightarrow> ('h SlaveNode list \<times> ('c, 'n, 'h) SyncMasterPartition \<times> write_queues) option" where
  "wake_slaves E C sc [] sm q w = Some ([], sm, q)"
| "wake_slaves E C sc (e # slaves) sm q w =
     (if LogOffset_eq (sn_sent_offset (snd e)) (sn_acked_offset (snd e))
      then (case ReadBinlogFileToWq E C sc (sm_logger sm) (pi_partition_id (sm_partition_info sm)) (snd e) q w of
              None \<Rightarrow> None
            | Some (s, sn, q) \<Rightarrow>
                map_option (\<lambda>(to_del, sm, q). (if \<not> ok s then sn # to_del else to_del, sm, q))
                  (wake_slaves E C sc slaves (set_slave (fst e) sn sm) q w))
      else wake_slaves E C sc slaves sm q w)"

definition remove_slave :: "'h SlaveNode \<Rightarrow> ('c, 'n, 'h) SyncMasterPartition \<Rightarrow> ('c, 'n, 'h) SyncMasterPartition" where
  "remove_slave sn sm = snd (sm_RemoveSlaveNode (rn_ip (sn_node sn)) (rn_port (sn_node sn)) sm)"

definition WakeUpSlaveBinlogSync ::
  "('w, 'h) slash_env \<Rightarrow> slash_coding \<Rightarrow> send_conf \<Rightarrow> ('c, 'n, 'h) SyncMasterPartition \<Rightarrow> write_queues \<Rightarrow> 'w
    \<Rightarrow> (Status \<times> ('c, 'n, 'h) SyncMasterPartition \<times> write_queues) option" where
  "WakeUpSlaveBinlogSync E C sc sm q w =
     (case wake_slaves E C sc (sm_slaves sm) sm q w of
        None \<Rightarrow> None
      | Some (to_del, sm, q) \<Rightarrow> Some (OK, fold remove_slave to_del sm, q))"

section \<open>Purging\<close>

text \<open>The highest file that may be purged; a slave that does not replicate the binlog stops the search.\<close>

fun safety_purge_loop :: "(string \<times> 'h SlaveNode) list \<Rightarrow> u32 \<Rightarrow> bool \<times> u32" where
  "safety_purge_loop [] purge_max = (True, purge_max)"
| "safety_purge_loop ((_, sn) # slaves) purge_max =
     (if sn_slave_state sn = kSlaveBinlogSync \<and> bo_filenum (b_offset (sn_acked_offset sn)) > 0
      then safety_purge_loop slaves (min (bo_filenum (b_offset (sn_acked_offset sn)) - 1) purge_max)
      else (False, purge_max))"

definition GetSafetyPurgeBinlog :: "('c, 'n, 'h) SyncMasterPartition \<Rightarrow> Status \<times> string option" where
  "GetSafetyPurgeBinlog sm =
     (case Binlog_GetProducerStatus (sm_logger sm) of
        (s, None) \<Rightarrow> (s, None)
      | (_, Some (filenum, _, _, _)) \<Rightarrow>
          let (success, purge_max) =
                (if filenum \<ge> 10 then safety_purge_loop (sm_slaves sm) (filenum - 10) else (False, filenum))
          in (OK, Some (if success then kBinlogPrefix @ dec_string (sint (ucast purge_max :: i32)) else ''none'')))"

fun cloud_purge_loop :: "u32 \<Rightarrow> (string \<times> 'h SlaveNode) list \<Rightarrow> bool" where
  "cloud_purge_loop index [] = True"
| "cloud_purge_loop index ((_, sn) # slaves) =
     (if sn_slave_state sn = kSlaveDbSync then False
      else if sn_slave_state sn = kSlaveBinlogSync \<and> index \<ge> bo_filenum (b_offset (sn_acked_offset sn)) then False
      else cloud_purge_loop index slaves)"

definition BinlogCloudPurge :: "u32 \<Rightarrow> ('c, 'n, 'h) SyncMasterPartition \<Rightarrow> bool" where
  "BinlogCloudPurge index sm =
     (case Binlog_GetProducerStatus (sm_logger sm) of
        (_, None) \<Rightarrow> False
      | (_, Some (filenum, _, _, _)) \<Rightarrow> if index > filenum - 10 then False else cloud_purge_loop index (sm_slaves sm))"

section \<open>Keeping alive\<close>

definition kSendKeepAliveTimeout :: u64 where "kSendKeepAliveTimeout = 2 * 1000000"

definition kRecvKeepAliveTimeout :: u64 where "kRecvKeepAliveTimeout = 20 * 1000000"

text \<open>A ping is an empty binlog. The left alternative is the early return when a ping could not be sent.\<close>

definition ping_task :: "'h SlaveNode \<Rightarrow> WriteTask" where
  "ping_task sn =
     (let node = sn_node sn
      in \<lparr>wt_rm_node = RmNode_new (rn_ip node) (rn_port node) (pi_table_name (rn_partition_info node))
                        (pi_partition_id (rn_partition_info node)) (rn_session_id node),
          wt_binlog_chip = \<lparr>bc_offset = LogOffset0, bc_binlog = []\<rparr>, wt_prev_offset = LogOffset0\<rparr>)"

primrec timeout_slaves ::
  "(string \<Rightarrow> int \<Rightarrow> WriteTask list \<Rightarrow> 'x \<Rightarrow> Status \<times> 'x) \<Rightarrow> u64 \<Rightarrow> (string \<times> 'h SlaveNode) list
    \<Rightarrow> ('c, 'n, 'h) SyncMasterPartition \<Rightarrow> 'x \<Rightarrow> (Status + (string \<times> int) list) \<times> ('c, 'n, 'h) SyncMasterPartition \<times> 'x" where
  "timeout_slaves send now [] sm x = (Inr [], sm, x)"
| "timeout_slaves send now (e # slaves) sm x =
     (let sn = snd e; node = sn_node sn
      in if rn_last_recv_time node + kRecvKeepAliveTimeout < now
         then (case timeout_slaves send now slaves sm x of (r, sm, x) \<Rightarrow> (map_sum id (Cons (rn_ip node, rn_port node)) r, sm, x))
         else if rn_last_send_time node + kSendKeepAliveTimeout < now \<and> LogOffset_eq (sn_sent_offset sn) (sn_acked_offset sn)
         then (case send (rn_ip node) (rn_port node) [ping_task sn] x of
                 (s, x) \<Rightarrow>
                   let sm = set_slave (fst e) (set_send_time now sn) sm
                   in if \<not> ok s then (Inl (Corruption (''Send ping failed: '' @ rn_ip node @ '':'' @ dec_string (rn_port node))), sm, x)
                      else timeout_slaves send now slaves sm x)
         else timeout_slaves send now slaves sm x)"

definition drop_slave ::
  "string \<times> int \<Rightarrow> ('c, 'n, 'h) SyncMasterPartition \<times> write_queues \<Rightarrow> ('c, 'n, 'h) SyncMasterPartition \<times> write_queues" where
  "drop_slave node r =
     (case r of (sm, q) \<Rightarrow>
        (sm\<lparr>sm_coordinator := (sm_coordinator sm)\<lparr>cc_sync_pros := snd (SyncProgress_RemoveSlaveNode (fst node) (snd node) (cc_sync_pros (sm_coordinator sm)))\<rparr>\<rparr>,
         DropItemInWriteQueue (fst node) (snd node) q))"

definition sm_CheckSyncTimeout ::
  "(string \<Rightarrow> int \<Rightarrow> WriteTask list \<Rightarrow> 'x \<Rightarrow> Status \<times> 'x) \<Rightarrow> u64 \<Rightarrow> ('c, 'n, 'h) SyncMasterPartition \<Rightarrow> write_queues \<Rightarrow> 'x
    \<Rightarrow> Status \<times> ('c, 'n, 'h) SyncMasterPartition \<times> write_queues \<times> 'x" where
  "sm_CheckSyncTimeout send now sm q x =
     (case timeout_slaves send now (sm_slaves sm) sm x of
        (Inl s, sm, x) \<Rightarrow> (s, sm, q, x)
      | (Inr to_del, sm, x) \<Rightarrow> (case fold drop_slave to_del (sm, q) of (sm, q) \<Rightarrow> (OK, sm, q, x)))"

section \<open>Information\<close>

definition GetValidSlaveNames :: "('c, 'n, 'h) SyncMasterPartition \<Rightarrow> string list" where
  "GetValidSlaveNames sm =
     map (\<lambda>(_, sn). rn_ip (sn_node sn) @ '':'' @ dec_string (rn_port (sn_node sn)))
       (filter (\<lambda>(_, sn). \<not> sn_slave_state sn \<noteq> kSlaveBinlogSync) (sm_slaves sm))"

primrec SlaveStateMsg :: "SlaveState \<Rightarrow> string" where
  "SlaveStateMsg kSlaveNotSync = ''SlaveNotSync''"
| "SlaveStateMsg kSlaveDbSync = ''SlaveDbSync''"
| "SlaveStateMsg kSlaveBinlogSync = ''SlaveBinlogSync''"

text \<open>The lag of a slave: the file numbers and the file size, an \<^verbatim>\<open>int\<close>, are multiplied with 32 bits.\<close>

definition slave_lag :: "i32 \<Rightarrow> u32 \<Rightarrow> u64 \<Rightarrow> BinlogOffset \<Rightarrow> u64" where
  "slave_lag binlog_file_size filenum offset acked =
     (ucast ((filenum - bo_filenum acked) * (ucast binlog_file_size :: u32)) :: u64) + (offset - bo_offset acked)"

fun slave_infos :: "i32 \<Rightarrow> Binlog \<Rightarrow> nat \<Rightarrow> (string \<times> 'h SlaveNode) list \<Rightarrow> Status + string" where
  "slave_infos file_size b i [] = Inr []"
| "slave_infos file_size b i ((_, sn) # slaves) =
     (let t = ''  slave['' @ dec_string (int i) @ '']: '' @ rn_ip (sn_node sn) @ '':'' @ dec_string (rn_port (sn_node sn)) @ kNewLine
                @ ''  replication_status: '' @ SlaveStateMsg (sn_slave_state sn) @ kNewLine
      in if sn_slave_state sn = kSlaveBinlogSync
         then (case Binlog_GetProducerStatus b of
                 (s, None) \<Rightarrow> Inl s
               | (_, Some (filenum, offset, _, _)) \<Rightarrow>
                   map_sum id (\<lambda>r. t @ ''  lag: '' @ dec_string (uint (slave_lag file_size filenum offset (b_offset (sn_acked_offset sn)))) @ kNewLine @ r)
                     (slave_infos file_size b (i + 1) slaves))
         else map_sum id (\<lambda>r. t @ r) (slave_infos file_size b (i + 1) slaves))"

definition sm_GetInfo :: "'c coord_conf \<Rightarrow> ('c, 'n, 'h) SyncMasterPartition \<Rightarrow> string \<Rightarrow> Status \<times> string" where
  "sm_GetInfo cf sm info =
     (case slave_infos (cf_binlog_file_size cf) (sm_logger sm) 0 (sm_slaves sm) of
        Inl s \<Rightarrow> (s, info)
      | Inr t \<Rightarrow>
          (OK, info @ ''  Role: Master'' @ kNewLine @ ''  connected_slaves: '' @ dec_string (int (length (sm_slaves sm))) @ kNewLine @ t))"

section \<open>Consensus\<close>

definition ConsensusUpdateSlave ::
  "'c coord_conf \<Rightarrow> string \<Rightarrow> int \<Rightarrow> LogOffset \<Rightarrow> LogOffset \<Rightarrow> ('c, 'n, 'h) SyncMasterPartition
    \<Rightarrow> (Status \<times> ('c, 'n, 'h) SyncMasterPartition) option" where
  "ConsensusUpdateSlave cf ip port start stop sm =
     map_option (\<lambda>(s, cc). (if \<not> ok s then s else OK, sm\<lparr>sm_coordinator := cc\<rparr>)) (UpdateSlave cf ip port start stop (sm_coordinator sm))"

definition ConsensusUpdateAppliedIndex ::
  "('w, 'e) slash_env \<Rightarrow> LogOffset \<Rightarrow> ('c, 'n, 'h) SyncMasterPartition \<Rightarrow> 'w \<Rightarrow> (Status \<times> ('c, 'n, 'h) SyncMasterPartition \<times> 'w) option" where
  "ConsensusUpdateAppliedIndex E offset sm w =
     map_option (\<lambda>(ctx, w). (OK, sm\<lparr>sm_coordinator := (sm_coordinator sm)\<lparr>cc_context := ctx\<rparr>\<rparr>, w))
       (UpdateAppliedIndex E offset (cc_context (sm_coordinator sm)) w)"

end
