(* ===== verification/Pika_Write_Queue.thy ===== *)
theory Pika_Write_Queue
  imports Pika_Sync_Master
begin

text \<open>
  The queues of binlogs under way to the slaves: they keep the order of every partition, a packet stays
  within the limits, and what is purged or reported about a slave.
\<close>

section \<open>Packets\<close>

definition binlog_size :: "WriteTask \<Rightarrow> nat" where
  "binlog_size task = length (bc_binlog (wt_binlog_chip task))"

lemma take_batch_append: "take_batch n s queue = (to_send, rest) \<Longrightarrow> to_send @ rest = queue \<and> length to_send \<le> n"
  by (induction n arbitrary: s queue to_send) (auto simp: Let_def split: list.splits if_splits prod.splits)

lemma take_batch_size:
  assumes "take_batch n s queue = (to_send, rest)" and "\<forall>task\<in>set queue. binlog_size task < 2 ^ 30" and "0 \<le> sint s" and "sint s \<le> 2 ^ 29"
  shows "sint s + int (sum_list (map binlog_size to_send)) \<le> 2 ^ 29"
  using assms
proof (induction n arbitrary: s queue to_send)
  case (Suc n)
  show ?case
  proof (cases queue)
    case (Cons task queue')
    have sz: "binlog_size task < 2 ^ 30" using Suc.prems(2) Cons by simp
    let ?s = "s + of_nat (binlog_size task)"
    have "sint (of_nat (binlog_size task) :: i32) = int (binlog_size task)"
      using sz by (simp add: sint_uint uint_nat unat_of_nat signed_take_bit_int_eq_self)
    then have s: "sint ?s = sint s + int (binlog_size task)"
      using sz Suc.prems(3,4) by (simp add: sint_word_ariths signed_take_bit_int_eq_self)
    show ?thesis
    proof (cases "sint ?s > PIKA_MAX_CONN_RBUF_HB")
      case True
      then show ?thesis using Suc.prems Cons by (auto simp: Let_def binlog_size_def)
    next
      case False
      then obtain ts where ts: "take_batch n ?s queue' = (ts, rest)" "to_send = task # ts"
        using Suc.prems(1) Cons by (auto simp: Let_def binlog_size_def split: prod.splits)
      then show ?thesis
        using Suc.IH [OF ts(1)] Suc.prems(2,3) False s Cons by (auto simp: PIKA_MAX_CONN_RBUF_HB_def)
    qed
  qed (use Suc.prems in auto)
qed simp

definition packet_ok :: "WriteTask list \<Rightarrow> bool" where
  "packet_ok packet \<longleftrightarrow> packet \<noteq> [] \<and> length packet \<le> kBinlogSendBatchNum \<and> sum_list (map binlog_size packet) \<le> 2 ^ 29"

lemma take_packets_ok:
  assumes "take_packets n queue = (packets, rest)"
  shows "concat packets @ rest = queue \<and> length packets \<le> n"
    and "(\<forall>task\<in>set queue. binlog_size task < 2 ^ 30) \<Longrightarrow> \<forall>packet\<in>set packets. packet_ok packet"
proof -
  have "concat packets @ rest = queue \<and> length packets \<le> n
    \<and> ((\<forall>task\<in>set queue. binlog_size task < 2 ^ 30) \<longrightarrow> (\<forall>packet\<in>set packets. packet_ok packet))"
    using assms
  proof (induction n arbitrary: queue packets)
    case (Suc n)
    let ?k = "if length queue > kBinlogSendBatchNum then kBinlogSendBatchNum else length queue"
    show ?case
    proof (cases "queue = []")
      case False
      obtain to_send q where b: "take_batch ?k 0 queue = (to_send, q)" by fastforce
      obtain ps where ps: "take_packets n q = (ps, rest)" "packets = (if to_send \<noteq> [] then to_send # ps else ps)"
        using Suc.prems b False by (auto split: prod.splits)
      have q: "to_send @ q = queue" "length to_send \<le> ?k" using take_batch_append [OF b] by auto
      have "packet_ok to_send" if "\<forall>task\<in>set queue. binlog_size task < 2 ^ 30" "to_send \<noteq> []"
      proof -
        have "length to_send \<le> kBinlogSendBatchNum" using q(2) by (auto split: if_splits)
        then show ?thesis using take_batch_size [OF b that(1)] that(2) by (simp add: packet_ok_def)
      qed
      moreover have "set q \<subseteq> set queue" using q(1) by auto
      moreover have ih: "concat ps @ rest = q" "length ps \<le> n"
        "(\<forall>task\<in>set q. binlog_size task < 2 ^ 30) \<longrightarrow> (\<forall>packet\<in>set ps. packet_ok packet)" using Suc.IH [OF ps(1)] by blast+
      ultimately have "(\<forall>task\<in>set queue. binlog_size task < 2 ^ 30) \<longrightarrow> (\<forall>packet\<in>set packets. packet_ok packet)"
        unfolding ps(2) by (simp split: if_split) blast
      moreover have "concat packets @ rest = queue" "length packets \<le> Suc n" using ih(1,2) q(1) ps(2) by auto
      ultimately show ?thesis by blast
    qed (use Suc.prems in simp)
  qed simp
  then show "concat packets @ rest = queue \<and> length packets \<le> n"
    and "(\<forall>task\<in>set queue. binlog_size task < 2 ^ 30) \<Longrightarrow> \<forall>packet\<in>set packets. packet_ok packet" by blast+
qed

text \<open>How one queue was drained: the packets taken from it, and what is left.\<close>

definition drained :: "u32 \<times> WriteTask list \<Rightarrow> WriteTask list list \<times> u32 \<times> WriteTask list \<Rightarrow> bool" where
  "drained e r \<longleftrightarrow> fst (snd r) = fst e \<and> concat (fst r) @ snd (snd r) = snd e \<and> length (fst r) \<le> kBinlogSendPacketNum
     \<and> ((\<forall>task\<in>set (snd e). binlog_size task < 2 ^ 30) \<longrightarrow> (\<forall>packet\<in>set (fst r). packet_ok packet))"

lemma drain_partitions_ok:
  "drain_partitions p_map = (packets, p_map') \<Longrightarrow>
     \<exists>rs. list_all2 drained p_map rs \<and> packets = concat (map fst rs) \<and> p_map' = map snd rs"
proof (induction p_map arbitrary: packets p_map')
  case (Cons x p_map)
  obtain ps rest where t: "take_packets kBinlogSendPacketNum (snd x) = (ps, rest)" by fastforce
  obtain ps' m' where d: "drain_partitions p_map = (ps', m')" by fastforce
  obtain rs where rs: "list_all2 drained p_map rs" "ps' = concat (map fst rs)" "m' = map snd rs" using Cons.IH [OF d] by blast
  have "drained x (ps, fst x, rest)" using take_packets_ok [OF t] by (simp add: drained_def)
  then show ?case using Cons.prems t d rs by (intro exI [of _ "(ps, fst x, rest) # rs"]) auto
qed simp

text \<open>Everything a slave is sent in one round: the packets of all its partitions, one partition after the other.\<close>

definition slave_drained :: "string \<times> (u32 \<times> WriteTask list) list \<Rightarrow> WriteTask list list \<times> string \<times> (u32 \<times> WriteTask list) list \<Rightarrow> bool" where
  "slave_drained e r \<longleftrightarrow> fst (snd r) = fst e
     \<and> (\<exists>rs. list_all2 drained (snd e) rs \<and> fst r = concat (map fst rs) \<and> snd (snd r) = map snd rs)"

lemma drain_queues_ok:
  "drain_queues q = (to_send_map, q') \<Longrightarrow>
     \<exists>rs. list_all2 slave_drained q rs \<and> to_send_map = map (\<lambda>r. (fst (snd r), fst r)) (filter (\<lambda>r. fst r \<noteq> []) rs) \<and> q' = map snd rs"
proof (induction q arbitrary: to_send_map q')
  case (Cons x q)
  obtain ps m where p: "drain_partitions (snd x) = (ps, m)" by fastforce
  obtain tm q1 where d: "drain_queues q = (tm, q1)" by fastforce
  obtain rs where rs: "list_all2 slave_drained q rs" "tm = map (\<lambda>r. (fst (snd r), fst r)) (filter (\<lambda>r. fst r \<noteq> []) rs)" "q1 = map snd rs"
    using Cons.IH [OF d] by blast
  have "slave_drained x (ps, fst x, m)" using drain_partitions_ok [OF p] by (auto simp: slave_drained_def)
  then show ?case using Cons.prems p d rs by (intro exI [of _ "(ps, fst x, m) # rs"]) auto
qed simp


definition wq_task :: WriteTask where
  "wq_task = \<lparr>wt_rm_node = RmNode_new ''1.2.3.4'' 9221 ''db0'' 0 0, wt_binlog_chip = \<lparr>bc_offset = LogOffset0, bc_binlog = ''abc''\<rparr>,
     wt_prev_offset = LogOffset0\<rparr>"


section \<open>Purging\<close>

lemma cloud_purge_loop_iff:
  "cloud_purge_loop index slaves \<longleftrightarrow>
     (\<forall>(_, sn)\<in>set slaves. sn_slave_state sn \<noteq> kSlaveDbSync
        \<and> (sn_slave_state sn = kSlaveBinlogSync \<longrightarrow> index < bo_filenum (b_offset (sn_acked_offset sn))))"
  by (induction index slaves rule: cloud_purge_loop.induct) (auto simp: not_le)

text \<open>
  C28: A purge of the log files of a partition, asking \<^verbatim>\<open>BinlogCloudPurge\<close> before every file, deletes no file
  that a slave in binlog synchronisation has not left behind with its acknowledged offset, and deletes
  nothing while a slave copies the data base.
\<close>

theorem purge_keeps_slave_files:
  assumes "slash_fs E fs hpos" and "disk_ok E fs" and "GetBinlogFiles E string2l (sl_log_path sl) w = Some binlogs"
    and "\<forall>it\<in>set binlogs. fs w (sl_log_path sl @ snd it) \<noteq> None"
    and "pe_cloud_purge P = (\<lambda>index. Some (BinlogCloudPurge index sm))"
    and "PurgeFiles E C string2l P to manual sl w = Some (ret, sl', w')"
    and "(key, sn) \<in> set (sm_slaves sm)" and "it \<in> set binlogs"
    and "sn_slave_state sn = kSlaveDbSync \<or> sn_slave_state sn = kSlaveBinlogSync \<and> bo_filenum (b_offset (sn_acked_offset sn)) \<le> fst it"
  shows "fs w' (sl_log_path sl @ snd it) = fs w (sl_log_path sl @ snd it)"
proof -
  obtain k ret1 w1 upd where k: "PurgeFiles E C string2l P to manual sl w
      = map_option (\<lambda>sl. (ret1, sl, w1)) (case upd of None \<Rightarrow> Some sl | Some f \<Rightarrow> UpdateFirstOffset E C f sl w1)"
    "fs w1 = without (sl_log_path sl) (take k binlogs) (fs w)"
    "\<forall>it\<in>set (take k binlogs). pe_cloud_purge P (fst it) = Some True"
    using PurgeFiles_prefix [OF assms(1-4), of C P to manual] by blast
  have w': "w' = w1" using k(1) assms(6) by (auto dest!: sym [of "Some _"])
  have "it \<notin> set (take k binlogs)"
  proof
    assume "it \<in> set (take k binlogs)"
    then have "BinlogCloudPurge (fst it) sm" using k(3) assms(5) by auto
    then have "cloud_purge_loop (fst it) (sm_slaves sm)" by (auto simp: BinlogCloudPurge_def split: prod.splits option.splits if_splits)
    then show False using assms(7,9) by (fastforce simp: cloud_purge_loop_iff)
  qed
  moreover have "distinct (map snd binlogs)" using GetBinlogFiles_ok [OF assms(3)] by simp
  ultimately have "snd it \<notin> snd ` set (take k binlogs)"
    using assms(8) by (metis (no_types, lifting) distinct_map image_iff inj_onD in_set_takeD)
  then show ?thesis unfolding w' k(2) by (auto simp: without_def)
qed

text \<open>A partition with one slave that has acknowledged all of the first file.\<close>

definition purge_master :: "(unit, unit, string \<times> nat) SyncMasterPartition" where
  "purge_master = \<lparr>sm_partition_info = \<lparr>pi_table_name = ''db0'', pi_partition_id = 0\<rparr>, sm_session_id = 0,
     sm_coordinator = \<lparr>cc_committed_index = LogOffset0, cc_context = wit_ctx, cc_term = 7, cc_table_name = ''db0'', cc_partition_id = 0,
       cc_sync_pros = SyncProgress0\<lparr>sp_slaves := [(''1.2.3.4:9221'',
         (SlaveNode_new ''1.2.3.4'' 9221 ''db0'' 0 0)\<lparr>sn_slave_state := kSlaveBinlogSync,
            sn_acked_offset := \<lparr>b_offset = BinlogOffset 1 0, l_offset = LogicOffset0\<rparr>\<rparr>)]\<rparr>,
       cc_stable_logger = dir_log, cc_mem_logger = \<lparr>ml_logs = [], ml_last_offset = LogOffset0\<rparr>,
       cc_scheduled = [], cc_io_error_tables = []\<rparr>\<rparr>"

abbreviation purge_slaves :: "mem_world purge_env" where
  "purge_slaves \<equiv> dir_purge\<lparr>pe_cloud_purge := \<lambda>index. Some (BinlogCloudPurge index purge_master)\<rparr>"

lemma purge_master_cloud: "BinlogCloudPurge 0 purge_master" "\<not> BinlogCloudPurge 1 purge_master"
  by (simp_all add: BinlogCloudPurge_def Binlog_GetProducerStatus_def purge_master_def sm_logger_def cc_binlog_def dir_log_def dir_version_def
      sm_slaves_def GetAllSlaveNodes_def word_less_def)

lemma purge_slaves_run: "\<exists>w'. PurgeFiles (dir_env dir_names) le_coding dec_parse purge_slaves 1 True dir_log dir_world = Some (False, dir_log, w')"
proof -
  let ?bs = "[(0, ''write2file0''), (1, ''write2file1'')] :: (u32 \<times> string) list"
  have "\<exists>d w'. purge_loop (dir_env dir_names) purge_slaves (sl_log_path dir_log) 1 True (length ?bs) 0
      (int (length ?bs) - pe_expire_logs_nums purge_slaves) ?bs dir_world = (False, d, w')"
    by (auto simp: purge_condition_def purge_master_cloud Let_def split: prod.splits)
  then obtain d w' where "purge_loop (dir_env dir_names) purge_slaves (sl_log_path dir_log) 1 True (length ?bs) 0
      (int (length ?bs) - pe_expire_logs_nums purge_slaves) ?bs dir_world = (False, d, w')" by blast
  then show ?thesis unfolding PurgeFiles_def dir_files option.case by (simp only: Let_def prod.case) simp
qed

theorem purge_keeps_slave_files_witness:
  "\<exists>w'. PurgeFiles (dir_env dir_names) le_coding dec_parse purge_slaves 1 True dir_log dir_world = Some (False, dir_log, w')
    \<and> mw_files w' ''d/write2file1'' = Some []"
proof -
  obtain w' where p: "PurgeFiles (dir_env dir_names) le_coding dec_parse purge_slaves 1 True dir_log dir_world = Some (False, dir_log, w')"
    using purge_slaves_run by blast
  have sl: "(''1.2.3.4:9221'', (SlaveNode_new ''1.2.3.4'' 9221 ''db0'' 0 0)\<lparr>sn_slave_state := kSlaveBinlogSync,
      sn_acked_offset := \<lparr>b_offset = BinlogOffset 1 0, l_offset = LogicOffset0\<rparr>\<rparr>) \<in> set (sm_slaves purge_master)"
    by (simp add: purge_master_def sm_slaves_def GetAllSlaveNodes_def)
  have "mw_files w' (sl_log_path dir_log @ snd (1 :: u32, ''write2file1'')) = mw_files dir_world (sl_log_path dir_log @ snd (1 :: u32, ''write2file1''))"
    by (rule purge_keeps_slave_files [OF dir_env_fs dir_env_disk_ok dir_files _ _ p sl]) (simp_all add: dir_log_def dir_world_def)
  with p show ?thesis by (simp add: dir_log_def dir_world_def)
qed

text \<open>
  With fewer than ten files the bound \<^verbatim>\<open>filenum - 10\<close> wraps around: nothing keeps the current file from
  being cleared for deletion when there is no slave.
\<close>

lemma cloud_purge_wraps:
  assumes "bl_opened (sm_logger sm)" and "ver_pro_num (bl_version (sm_logger sm)) < 10" and "sm_slaves sm = []"
  shows "BinlogCloudPurge (ver_pro_num (bl_version (sm_logger sm))) sm"
proof -
  let ?f = "ver_pro_num (bl_version (sm_logger sm))"
  have f: "uint ?f < 10" using assms(2) by (simp add: word_less_def)
  have "uint (?f - 10) = (uint ?f - 10) mod 2 ^ 32" by (simp add: uint_word_ariths)
  also have "\<dots> = (uint ?f - 10 + 2 ^ 32) mod 2 ^ 32" by (simp only: mod_add_self2)
  also have "\<dots> = uint ?f - 10 + 2 ^ 32" using f by (intro mod_pos_pos_trivial) simp_all
  finally have "\<not> ?f > ?f - 10" using f by (simp add: word_less_def)
  then show ?thesis using assms(1,3) by (simp add: BinlogCloudPurge_def Binlog_GetProducerStatus_def)
qed

section \<open>The lag of a slave\<close>

lemma mod_add_cancel: "(a + k) mod m = (b + k) mod m \<Longrightarrow> a mod m = b mod m" for a b k m :: int
  by (simp add: mod_eq_dvd_iff)

text \<open>
  The lag reported for a slave is the number of bytes, counted in full files, between its acknowledged
  offset and the end of the log exactly when the files in between are less than 4 GB: the product of the
  number of files and their size is computed with 32 bits.
\<close>

theorem slave_lag_exact_iff:
  assumes "0 \<le> sint file_size" and "uint (bo_filenum acked) \<le> uint filenum"
    and "lag = (uint filenum - uint (bo_filenum acked)) * sint file_size + uint offset - uint (bo_offset acked)" and "0 \<le> lag" and "lag < 2 ^ 64"
  shows "uint (slave_lag file_size filenum offset acked) = lag \<longleftrightarrow> (uint filenum - uint (bo_filenum acked)) * sint file_size < 2 ^ 32"
proof -
  let ?d = "uint filenum - uint (bo_filenum acked)" and ?o = "uint offset - uint (bo_offset acked)"
  let ?p = "?d * sint file_size"
  have f: "uint filenum < 2 ^ 32" "0 \<le> uint (bo_filenum acked)" using uint_lt2p [of filenum] by simp_all
  have d: "0 \<le> ?d" "?d < 2 ^ 32" using assms(2) f by linarith+
  moreover have "sint file_size < 2 ^ 31" using sint_lt [of file_size] by simp
  ultimately have d: "0 \<le> ?d" "?d < 2 ^ 32" "sint file_size < 2 ^ 31" "0 \<le> ?p" using assms(1) by simp_all
  have us: "uint (ucast file_size :: u32) = sint file_size"
    using assms(1) d(3) by (simp add: uint_sint take_bit_int_eq_self)
  have "uint ((filenum - bo_filenum acked) * (ucast file_size :: u32)) = ?p mod 2 ^ 32"
    using us by (simp add: uint_word_ariths mod_mult_left_eq)
  then have u: "uint (slave_lag file_size filenum offset acked) = (?p mod 2 ^ 32 + ?o) mod 2 ^ 64"
    by (simp add: slave_lag_def uint_word_ariths unsigned_ucast_eq mod_add_right_eq take_bit_eq_mod)
  show ?thesis
  proof
    assume "?p < 2 ^ 32"
    then have "?p mod 2 ^ 32 = ?p" using d(4) by simp
    then show "uint (slave_lag file_size filenum offset acked) = lag" using u assms(3-5) by (simp add: algebra_simps)
  next
    assume "uint (slave_lag file_size filenum offset acked) = lag"
    then have "(?p mod 2 ^ 32 + ?o) mod 2 ^ 64 = (?p + ?o) mod 2 ^ 64" using u assms(3-5) by (simp add: algebra_simps)
    then have "(?p mod 2 ^ 32) mod 2 ^ 64 = ?p mod 2 ^ 64" by (rule mod_add_cancel)
    moreover have "?p < 2 ^ 64"
      using mult_strict_mono' [of ?d "2 ^ 32" "sint file_size" "2 ^ 31"] d assms(1) by simp
    moreover have m: "0 \<le> ?p mod 2 ^ 32" "?p mod 2 ^ 32 < 2 ^ 32" by simp_all
    ultimately have "?p mod 2 ^ 32 = ?p" using d(4) by (simp add: mod_pos_pos_trivial)
    with m show "?p < 2 ^ 32" by simp
  qed
qed

theorem slave_lag_exact_iff_witness:
  "uint (slave_lag 104857600 3 7 (BinlogOffset 1 2)) = 209715205 \<and> uint (slave_lag 104857600 50 0 (BinlogOffset 0 0)) \<noteq> 5242880000"
  using slave_lag_exact_iff [of 104857600 "BinlogOffset 1 2" 3 209715205 7]
    slave_lag_exact_iff [of 104857600 "BinlogOffset 0 0" 50 5242880000 0] by simp

end
