(* ===== verification/Pika_Sync_Stream.thy ===== *)
theory Pika_Sync_Stream
  imports Pika_Write_Queue Pika_Negotiate
begin

text \<open>
  The whole way of a binlog item to one slave: the binlog it is appended to, the reader of the slave, the
  window, the write queue and the packets on the wire, with the acknowledgements that come back.
\<close>

section \<open>What is relayed\<close>

text \<open>
  The tasks made of items: each carries the encoded item and its logical offset, names the offset of the
  one before as the previous one, and lies behind it.
\<close>

abbreviation task_offset :: "WriteTask \<Rightarrow> LogOffset" where
  "task_offset t \<equiv> bc_offset (wt_binlog_chip t)"

fun relayed :: "slash_coding \<Rightarrow> LogOffset \<Rightarrow> BinlogItem list \<Rightarrow> WriteTask list \<Rightarrow> bool" where
  "relayed C prev [] ts \<longleftrightarrow> ts = []"
| "relayed C prev (it # its) [] \<longleftrightarrow> False"
| "relayed C prev (it # its) (t # ts) \<longleftrightarrow>
     bc_binlog (wt_binlog_chip t) = enc_item C it \<and> l_offset (task_offset t) = item_logic it \<and> wt_prev_offset t = prev
     \<and> b_offset prev < b_offset (task_offset t) \<and> relayed C (task_offset t) its ts"

lemma relayed_append:
  "relayed C prev its ts \<Longrightarrow> relayed C (last (prev # map task_offset ts)) its' ts' \<Longrightarrow> relayed C prev (its @ its') (ts @ ts')"
  by (induction C prev its ts rule: relayed.induct) (auto split: if_splits)

lemma relayed_sorted:
  "relayed C prev its ts \<Longrightarrow> offsets_sorted (prev # map task_offset ts)"
proof (induction C prev its ts rule: relayed.induct)
  case (3 C prev it its t ts)
  then have "offsets_sorted (task_offset t # map task_offset ts)" "b_offset prev < b_offset (task_offset t)" by auto
  then show ?case by (auto intro: less_trans)
qed auto

lemma sorted_last: "offsets_sorted (x # xs) \<Longrightarrow> y \<in> set (x # xs) \<Longrightarrow> b_offset y \<le> b_offset (last (x # xs))"
  by (induction xs arbitrary: x y) (auto simp: order_less_imp_le split: if_splits)

section \<open>Reading for a slave\<close>

text \<open>No file of the log has so many bytes that an offset would wrap.\<close>

definition files_small :: "('w \<Rightarrow> string \<Rightarrow> bytes option) \<Rightarrow> Binlog \<Rightarrow> 'w \<Rightarrow> bool" where
  "files_small fs b w \<longleftrightarrow> (\<forall>f c. log_files fs b w f = Some c \<longrightarrow> length c < 2 ^ 64)"

text \<open>Where the reader of a slave is, relative to the last offset sent, and what it has still to read.\<close>

definition reading ::
  "('w \<Rightarrow> string \<Rightarrow> bytes option) \<Rightarrow> ('h \<Rightarrow> string \<times> nat) \<Rightarrow> slash_coding \<Rightarrow> Binlog \<Rightarrow> 'w \<Rightarrow> 'h SlaveNode \<Rightarrow> BinlogItem list \<Rightarrow> bool" where
  "reading fs hpos C b w sn its \<longleftrightarrow>
     (\<exists>r n. sn_binlog_reader sn = Some r \<and> reader_ok hpos b r n \<and> items_ahead fs b w (rd_cur_filenum r) n (map (enc_item C) its)
        \<and> n < 2 ^ 64 \<and> b_offset (sn_sent_offset sn) \<le> BinlogOffset (rd_cur_filenum r) (of_nat n))"

lemma BinlogOffset_less: "BinlogOffset f a < BinlogOffset g b \<longleftrightarrow> unat f < unat g \<or> f = g \<and> a < b"
  unfolding less_BinlogOffset_def BinlogOffset_lt_def word_less_nat_alt [of f g, symmetric] by simp

lemma slave_rep_push:
  assumes "slave_rep a0 sn p A" and "\<forall>y\<in>set p. b_offset y < b_offset x" and "b_offset x \<notin> A" and "b_offset x \<noteq> BinlogOffset0"
    and "sn_sync_win sn' = SyncWindow_Push (SyncWinItem_new x n) (sn_sync_win sn)" and "sn_acked_offset sn' = sn_acked_offset sn"
  shows "slave_rep a0 sn' (p @ [x]) A"
proof -
  have w: "win_rep (sn_sync_win sn) p A" "\<forall>y\<in>set p. b_offset y \<noteq> BinlogOffset0" "sn_acked_offset sn = reported a0 p A"
    using assms(1) by (auto simp: slave_rep_def)
  have "win_rep (win_push x (sn_sync_win sn)) (p @ [x]) A" by (rule win.rep_push [OF w(1) assms(2,3)])
  then have "win_rep (sn_sync_win sn') (p @ [x]) A" using assms(5) by (simp add: win_rep_def SyncWindow_Push_def)
  moreover have "cum_acked (p @ [x]) A = cum_acked p A" using assms(3) by (simp add: cum_acked_def takeWhile_append) (metis takeWhile_eq_all_conv)
  ultimately show ?thesis using w assms(4,6) by (simp add: slave_rep_def reported_def)
qed

text \<open>What one call to \<^verbatim>\<open>Get\<close> gives a slave.\<close>

context slash_fs
begin

lemma Get_reading:
  assumes "binlog_ok E fs b w" and "files_small fs b w" and "reading fs hpos C b w sn its" and "sn_binlog_reader sn = Some r"
  shows "\<exists>s msg f off r'. Get E b [] fnum0 off0 r w = Some (s, msg, f, off, r')
    \<and> (case its of
         [] \<Rightarrow> IsEndFile s \<and> reading fs hpos C b w (sn\<lparr>sn_binlog_reader := Some r'\<rparr>) []
       | it # its' \<Rightarrow> s = OK \<and> msg = enc_item C it \<and> b_offset (sn_sent_offset sn) < BinlogOffset f off
           \<and> (\<forall>sn'. sn_binlog_reader sn' = Some r' \<longrightarrow> b_offset (sn_sent_offset sn') = BinlogOffset f off \<longrightarrow> reading fs hpos C b w sn' its'))"
proof -
  obtain n where rd: "reader_ok hpos b r n" "items_ahead fs b w (rd_cur_filenum r) n (map (enc_item C) its)"
    "n < 2 ^ 64" "b_offset (sn_sent_offset sn) \<le> BinlogOffset (rd_cur_filenum r) (of_nat n)"
    using assms(3,4) by (auto simp: reading_def)
  have G: "Get E b [] fnum0 off0 r w = get_loop E b [] fnum0 off0 r w"
    using rd(1) reader_queue [OF rd(1)] by (auto simp: Get_def reader_ok_def)
  from get_loop_ahead [OF assms(1) rd(2,1) refl, of fnum0 off0] obtain s msg f off r' n' where
    g: "get_loop E b [] fnum0 off0 r w = Some (s, msg, f, off, r')" "reader_ok hpos b r' n'" and
    c: "case map (enc_item C) its of
          [] \<Rightarrow> IsEndFile s \<and> items_ahead fs b w (rd_cur_filenum r') n' []
            \<and> (unat (rd_cur_filenum r) < unat (rd_cur_filenum r') \<or> rd_cur_filenum r = rd_cur_filenum r' \<and> n \<le> n')
        | x # xs \<Rightarrow> s = OK \<and> msg = x \<and> f = rd_cur_filenum r' \<and> off = of_nat n' \<and> items_ahead fs b w (rd_cur_filenum r') n' xs
            \<and> (unat (rd_cur_filenum r) < unat (rd_cur_filenum r') \<or> rd_cur_filenum r = rd_cur_filenum r' \<and> n < n')
            \<and> (\<exists>c. log_files fs b w (rd_cur_filenum r') = Some c \<and> n' \<le> length c)" by blast
  show ?thesis
  proof (cases its)
    case Nil
    then have nil: "items_ahead fs b w (rd_cur_filenum r') n' []" "IsEndFile s"
        "unat (rd_cur_filenum r) < unat (rd_cur_filenum r') \<or> rd_cur_filenum r = rd_cur_filenum r' \<and> n \<le> n'" using c by simp_all
    have n': "n' < 2 ^ 64"
      using nil(1) assms(2) unsigned_less [of "ver_pro_offset (bl_version b)", where 'a = nat] by (cases rule: ahead.cases) (auto simp: files_small_def)
    have "BinlogOffset (rd_cur_filenum r) (of_nat n) \<le> BinlogOffset (rd_cur_filenum r') (of_nat n')"
      using nil(3) n' rd(3) by (auto simp: order_le_less BinlogOffset_less word_less_nat_alt unat_of_nat_small)
    then have "reading fs hpos C b w (sn\<lparr>sn_binlog_reader := Some r'\<rparr>) []" using nil(1) n' g(2) rd(4) by (auto simp: reading_def)
    then show ?thesis using G g(1) nil(2) Nil by simp
  next
    case (Cons it its')
    then have it: "s = OK" "msg = enc_item C it" "f = rd_cur_filenum r'" "off = of_nat n'" "items_ahead fs b w f n' (map (enc_item C) its')"
        "unat (rd_cur_filenum r) < unat f \<or> rd_cur_filenum r = f \<and> n < n'" "n' < 2 ^ 64"
      using c assms(2) by (auto simp: files_small_def intro: le_less_trans)
    have "BinlogOffset (rd_cur_filenum r) (of_nat n) < BinlogOffset f off"
      using it(4,6,7) rd(3) by (auto simp: BinlogOffset_less word_less_nat_alt unat_of_nat_small)
    then have "b_offset (sn_sent_offset sn) < BinlogOffset f off" using rd(4) by simp
    then show ?thesis using G g it Cons by (auto simp: reading_def)
  qed
qed

end

text \<open>
  One step of the loop of \<^verbatim>\<open>ReadBinlogFileToWq\<close> changes of the slave node only the reader, the window, the
  offset sent and the time.
\<close>

definition same_slave :: "'h SlaveNode \<Rightarrow> 'h SlaveNode \<Rightarrow> bool" where
  "same_slave sn sn' \<longleftrightarrow> rn_ip (sn_node sn') = rn_ip (sn_node sn) \<and> rn_port (sn_node sn') = rn_port (sn_node sn)
     \<and> sn_slave_state sn' = sn_slave_state sn \<and> sn_binlog_reader sn' \<noteq> None"

definition sends :: "slash_coding \<Rightarrow> 'h SlaveNode \<Rightarrow> BinlogItem list \<Rightarrow> WriteTask list \<Rightarrow> 'h SlaveNode \<Rightarrow> bool" where
  "sends C sn its ts sn' \<longleftrightarrow> relayed C (sn_sent_offset sn) its ts \<and> sn_sent_offset sn' = last (sn_sent_offset sn # map task_offset ts)
     \<and> same_slave sn sn'
     \<and> (\<forall>a0 p A. slave_rep a0 sn p A \<longrightarrow> A \<subseteq> b_offset ` set p \<longrightarrow> (\<forall>y\<in>set p. b_offset y \<le> b_offset (sn_sent_offset sn))
          \<longrightarrow> slave_rep a0 sn' (p @ map task_offset ts) A)"

lemma sends_trans: 
  assumes "sends C sn its ts sn'" and "sends C sn' its' ts' sn''"
  shows "sends C sn (its @ its') (ts @ ts') sn''"
proof -
  have r: "relayed C (sn_sent_offset sn) its ts" "sn_sent_offset sn' = last (sn_sent_offset sn # map task_offset ts)"
    "relayed C (sn_sent_offset sn') its' ts'" using assms by (simp_all add: sends_def)
  then have "relayed C (sn_sent_offset sn) (its @ its') (ts @ ts')" using relayed_append by metis
  moreover have "slave_rep a0 sn'' (p @ map task_offset (ts @ ts')) A"
    if p: "slave_rep a0 sn p A" "A \<subseteq> b_offset ` set p" "\<forall>y\<in>set p. b_offset y \<le> b_offset (sn_sent_offset sn)" for a0 p A
  proof -
    let ?p = "p @ map task_offset ts"
    have srt: "offsets_sorted (sn_sent_offset sn # map task_offset ts)" by (rule relayed_sorted [OF r(1)])
    have "b_offset y \<le> b_offset (sn_sent_offset sn')" if "y \<in> set ?p" for y
    proof (cases "y \<in> set p")
      case True
      then have "b_offset y \<le> b_offset (sn_sent_offset sn)" using p(3) by blast
      also have "\<dots> \<le> b_offset (sn_sent_offset sn')" unfolding r(2) by (rule sorted_last [OF srt]) simp
      finally show ?thesis .
    next
      case False
      with that show ?thesis unfolding r(2) by (intro sorted_last [OF srt]) simp
    qed
    moreover have "slave_rep a0 sn' ?p A" using assms(1) p unfolding sends_def by blast
    moreover have "A \<subseteq> b_offset ` set ?p" using p(2) by auto
    ultimately have "slave_rep a0 sn'' (?p @ map task_offset ts') A" using assms(2) unfolding sends_def by blast
    then show ?thesis by simp
  qed
  ultimately show ?thesis using assms r by (auto simp: sends_def same_slave_def)
qed

context slash_fs
begin

lemma read_chips_reading:
  assumes "fixed_coding C" and "binlog_ok E fs b w" and "files_small fs b w"
  shows "reading fs hpos C b w sn its \<Longrightarrow> \<exists>its1 its2 ts sn'. its = its1 @ its2
    \<and> read_chips E C sc b w k sn tasks = Some (OK, sn', tasks @ ts) \<and> reading fs hpos C b w sn' its2 \<and> sends C sn its1 ts sn'"
proof (induction k arbitrary: sn its tasks)
  case 0
  moreover from this have "sends C sn [] [] sn" by (auto simp: sends_def same_slave_def reading_def)
  ultimately show ?case by (intro exI [of _ "[]"] exI [of _ its] exI [of _ sn]) simp
next
  case (Suc k)
  have none: ?case if "read_chips E C sc b w (Suc k) sn tasks = Some (OK, sn', tasks)" "reading fs hpos C b w sn' its"
      "sends C sn [] [] sn'" for sn'
    using that by (intro exI [of _ "[]"] exI [of _ its] exI [of _ sn']) simp
  obtain r where r: "sn_binlog_reader sn = Some r" using Suc.prems by (auto simp: reading_def)
  show ?case
  proof (cases "uint (SyncWindow_GetTotalBinlogSize (sn_sync_win sn)) > PIKA_MAX_CONN_RBUF_HB * 2")
    case True
    then show ?thesis using Suc.prems r by (intro none [of sn]) (auto simp: sends_def same_slave_def)
  next
    case False
    from Get_reading [OF assms(2,3) Suc.prems r, of "fst (sc_indet sc)" "snd (sc_indet sc)"] obtain s msg f off r' where
      g: "Get E b [] (fst (sc_indet sc)) (snd (sc_indet sc)) r w = Some (s, msg, f, off, r')" and
      c: "case its of
         [] \<Rightarrow> IsEndFile s \<and> reading fs hpos C b w (sn\<lparr>sn_binlog_reader := Some r'\<rparr>) []
       | it # its' \<Rightarrow> s = OK \<and> msg = enc_item C it \<and> b_offset (sn_sent_offset sn) < BinlogOffset f off
           \<and> (\<forall>sn'. sn_binlog_reader sn' = Some r' \<longrightarrow> b_offset (sn_sent_offset sn') = BinlogOffset f off \<longrightarrow> reading fs hpos C b w sn' its')"
      by blast
    show ?thesis
    proof (cases its)
      case Nil
      then show ?thesis using c g r False
        by (intro none [of "sn\<lparr>sn_binlog_reader := Some r'\<rparr>"]) (auto simp: sends_def same_slave_def slave_rep_def)
    next
      case (Cons it its')
      then have it: "s = OK" "msg = enc_item C it" "b_offset (sn_sent_offset sn) < BinlogOffset f off"
        "\<And>sn'. sn_binlog_reader sn' = Some r' \<Longrightarrow> b_offset (sn_sent_offset sn') = BinlogOffset f off \<Longrightarrow> reading fs hpos C b w sn' its'"
        using c by auto
      obtain d where d: "BinlogItemWithoutContentDecode C TypeFirst (enc_item C it) BinlogItem0 = (True, d)"
        "bi_term_id d = bi_term_id it" "bi_logic_id d = bi_logic_id it"
        using fixed_coding.WithoutContentDecode_enc_item [OF assms(1)] by blast
      define sent where "sent = \<lparr>b_offset = BinlogOffset f off, l_offset = item_logic it\<rparr>"
      define sn1 where "sn1 = (set_send_time (sc_clock sc k) (sn\<lparr>sn_binlog_reader := Some r',
        sn_sync_win := SyncWindow_Push (SyncWinItem_new sent (of_nat (length msg))) (sn_sync_win sn)\<rparr>))\<lparr>sn_sent_offset := sent\<rparr>"
      define task where "task = \<lparr>wt_rm_node = RmNode_new (rn_ip (sn_node sn)) (rn_port (sn_node sn)) (pi_table_name (rn_partition_info (sn_node sn)))
        (pi_partition_id (rn_partition_info (sn_node sn))) (rn_session_id (sn_node sn)), wt_binlog_chip = \<lparr>bc_offset = sent, bc_binlog = msg\<rparr>,
        wt_prev_offset = sn_sent_offset sn\<rparr>"
      have step: "read_chips E C sc b w (Suc k) sn tasks = read_chips E C sc b w k sn1 (tasks @ [task])"
        using False r g it(1,2) d by (simp add: status_simps Let_def sn1_def task_def sent_def item_logic_def set_send_time_def)
      have "BinlogOffset f off \<noteq> BinlogOffset0" using it(3) by (metis BinlogOffset0_le leD)
      then have one: "sends C sn [it] [task] sn1"
        using it(2,3) by (auto simp: sends_def same_slave_def task_def sn1_def sent_def set_send_time_def intro!: slave_rep_push)
          (metis imageE leD subsetD)
      have "reading fs hpos C b w sn1 its'" by (rule it(4)) (simp_all add: sn1_def sent_def set_send_time_def)
      from Suc.IH [OF this, of "tasks @ [task]"] obtain its1 its2 ts sn' where ih: "its' = its1 @ its2"
        "read_chips E C sc b w k sn1 (tasks @ [task]) = Some (OK, sn', (tasks @ [task]) @ ts)" "reading fs hpos C b w sn' its2" "sends C sn1 its1 ts sn'"
        by blast
      show ?thesis using step ih Cons sends_trans [OF one ih(4)]
        by (intro exI [of _ "it # its1"] exI [of _ its2] exI [of _ "task # ts"] exI [of _ sn']) simp
    qed
  qed
qed

end

section \<open>The stream to a slave\<close>

text \<open>
  One partition with one slave: the binlog, the file system, the slave node, the write queues and the
  tasks sent so far. Sending, here, always succeeds and records the tasks.
\<close>

record ('w, 'h) sync_stream =
  ss_binlog :: Binlog
  ss_world :: 'w
  ss_slave :: "'h SlaveNode"
  ss_queues :: write_queues
  ss_wire :: "WriteTask list"

definition record_send :: "string \<Rightarrow> int \<Rightarrow> WriteTask list \<Rightarrow> WriteTask list \<Rightarrow> Status \<times> WriteTask list" where
  "record_send ip port tasks wire = (OK, wire @ tasks)"

text \<open>
  The events: the program appends an item to the binlog; the binlog is read for the slave, on its
  acknowledgement or when it is woken up; the queues are drained; an acknowledgement arrives. The list
  has the items appended so far.
\<close>

inductive streamed ::
  "('w, 'h) slash_env \<Rightarrow> slash_coding \<Rightarrow> send_conf \<Rightarrow> (string \<Rightarrow> (string \<times> int) option) \<Rightarrow> u32 \<Rightarrow> ('w, 'h) sync_stream
    \<Rightarrow> BinlogItem list \<Rightarrow> ('w, 'h) sync_stream \<Rightarrow> bool"
  for E :: "('w, 'h) slash_env" and C :: slash_coding and sc :: send_conf and parse :: "string \<Rightarrow> (string \<times> int) option"
    and partition_id :: u32 and s0 :: "('w, 'h) sync_stream" where
  stream_start: "streamed E C sc parse partition_id s0 [] s0"
| stream_put: "streamed E C sc parse partition_id s0 its s \<Longrightarrow> binlog_room (enc_item C it) (ss_binlog s)
    \<Longrightarrow> Binlog_Put E (enc_item C it) (ss_binlog s) (ss_world s) = Some (OK, b, w)
    \<Longrightarrow> streamed E C sc parse partition_id s0 (its @ [it]) (s\<lparr>ss_binlog := b, ss_world := w\<rparr>)"
| stream_read: "streamed E C sc parse partition_id s0 its s
    \<Longrightarrow> ReadBinlogFileToWq E C sc (ss_binlog s) partition_id (ss_slave s) (ss_queues s) (ss_world s) = Some (st, sn, q)
    \<Longrightarrow> streamed E C sc parse partition_id s0 its (s\<lparr>ss_slave := sn, ss_queues := q\<rparr>)"
| stream_send: "streamed E C sc parse partition_id s0 its s
    \<Longrightarrow> ConsumeWriteQueue record_send parse (ss_queues s) (ss_wire s) = (n, q, wire)
    \<Longrightarrow> streamed E C sc parse partition_id s0 its (s\<lparr>ss_queues := q, ss_wire := wire\<rparr>)"
| stream_ack: "streamed E C sc parse partition_id s0 its s
    \<Longrightarrow> SlaveNode_Update start stop upd (ss_slave s) = (st, upd', sn)
    \<Longrightarrow> streamed E C sc parse partition_id s0 its (s\<lparr>ss_slave := sn\<rparr>)"

definition queued :: "('w, 'h) sync_stream \<Rightarrow> u32 \<Rightarrow> WriteTask list" where
  "queued s partition_id = task_queue (queue_index (rn_ip (sn_node (ss_slave s))) (rn_port (sn_node (ss_slave s)))) partition_id (ss_queues s)"

text \<open>Only the queue of this slave and partition is in use.\<close>

definition one_queue :: "string \<Rightarrow> u32 \<Rightarrow> write_queues \<Rightarrow> bool" where
  "one_queue index partition_id q \<longleftrightarrow> q = [] \<or> (\<exists>ts. q = [(index, [(partition_id, ts)])])"

lemma ProduceWriteQueue_one:
  "one_queue (queue_index ip port) pid q \<Longrightarrow> one_queue (queue_index ip port) pid (ProduceWriteQueue ip port pid ts q)
     \<and> task_queue (queue_index ip port) pid (ProduceWriteQueue ip port pid ts q) = task_queue (queue_index ip port) pid q @ ts"
proof (induction ts arbitrary: q)
  case (Cons t ts)
  have "one_queue (queue_index ip port) pid (push_task (queue_index ip port) pid t q)"
    "task_queue (queue_index ip port) pid (push_task (queue_index ip port) pid t q) = task_queue (queue_index ip port) pid q @ [t]"
    using Cons.prems by (auto simp: one_queue_def push_task_def task_queue_def the_list_def)
  with Cons.IH show ?case by (auto simp: ProduceWriteQueue_def)
qed (simp add: ProduceWriteQueue_def)

lemma send_packets_record: "send_packets record_send i ip port packets wire = ([], wire @ concat packets)"
  by (induction packets arbitrary: wire) (simp_all add: record_send_def status_simps)

lemma ConsumeWriteQueue_one:
  assumes "one_queue index pid q" and "ConsumeWriteQueue record_send parse q wire = (n, q', wire')" and "parse index = Some (ip, port)"
  shows "one_queue index pid q' \<and> wire' @ task_queue index pid q' = wire @ task_queue index pid q"
proof (cases "q = []")
  case False
  then obtain ts where q: "q = [(index, [(pid, ts)])]" using assms(1) by (auto simp: one_queue_def)
  obtain packets rest where t: "take_packets kBinlogSendPacketNum ts = (packets, rest)" by fastforce
  have "concat packets @ rest = ts" using take_packets_ok(1) [OF t] by blast
  then show ?thesis using assms(2,3) q t
    by (auto simp: ConsumeWriteQueue_def send_packets_record one_queue_def task_queue_def the_list_def split: if_splits)
qed (use assms in \<open>auto simp: ConsumeWriteQueue_def one_queue_def\<close>)

text \<open>
  The invariant: what was sent, what is queued and what the reader has before it are, in this order, the
  items that were ahead at the start and those appended since, and the window knows the offsets sent.
\<close>

definition stream_inv ::
  "('w, 'h) slash_env \<Rightarrow> ('w \<Rightarrow> string \<Rightarrow> bytes option) \<Rightarrow> ('h \<Rightarrow> string \<times> nat) \<Rightarrow> slash_coding \<Rightarrow> u32 \<Rightarrow> 'h SlaveNode \<Rightarrow> BinlogItem list
    \<Rightarrow> ('w, 'h) sync_stream \<Rightarrow> bool" where
  "stream_inv E fs hpos C pid sn0 its s \<longleftrightarrow>
     binlog_ok E fs (ss_binlog s) (ss_world s) \<and> files_small fs (ss_binlog s) (ss_world s) \<and> same_slave sn0 (ss_slave s)
     \<and> one_queue (queue_index (rn_ip (sn_node sn0)) (rn_port (sn_node sn0))) pid (ss_queues s)
     \<and> (\<exists>its1 its2 A. its = its1 @ its2 \<and> reading fs hpos C (ss_binlog s) (ss_world s) (ss_slave s) its2
          \<and> relayed C (sn_sent_offset sn0) its1 (ss_wire s @ queued s pid)
          \<and> sn_sent_offset (ss_slave s) = last (sn_sent_offset sn0 # map task_offset (ss_wire s @ queued s pid))
          \<and> slave_rep (sn_sent_offset sn0) (ss_slave s) (map task_offset (ss_wire s @ queued s pid)) A
          \<and> A \<subseteq> b_offset ` set (map task_offset (ss_wire s @ queued s pid)))"

lemma stream_invI:
  assumes "binlog_ok E fs (ss_binlog s) (ss_world s)" and "files_small fs (ss_binlog s) (ss_world s)" and "same_slave sn0 (ss_slave s)"
    and "one_queue (queue_index (rn_ip (sn_node sn0)) (rn_port (sn_node sn0))) pid (ss_queues s)"
    and "reading fs hpos C (ss_binlog s) (ss_world s) (ss_slave s) its2" and "ss_wire s @ queued s pid = ts"
    and "relayed C (sn_sent_offset sn0) its1 ts" and "sn_sent_offset (ss_slave s) = last (sn_sent_offset sn0 # map task_offset ts)"
    and "slave_rep (sn_sent_offset sn0) (ss_slave s) (map task_offset ts) A" and "A \<subseteq> b_offset ` set (map task_offset ts)"
  shows "stream_inv E fs hpos C pid sn0 (its1 @ its2) s"
  unfolding stream_inv_def assms(6) using assms(1-5,7-10) by blast

lemma stream_invE:
  assumes "stream_inv E fs hpos C pid sn0 its s"
  obtains its1 its2 ts A where "its = its1 @ its2" "binlog_ok E fs (ss_binlog s) (ss_world s)" "files_small fs (ss_binlog s) (ss_world s)"
    "same_slave sn0 (ss_slave s)" "one_queue (queue_index (rn_ip (sn_node sn0)) (rn_port (sn_node sn0))) pid (ss_queues s)"
    "reading fs hpos C (ss_binlog s) (ss_world s) (ss_slave s) its2" "ss_wire s @ queued s pid = ts"
    "relayed C (sn_sent_offset sn0) its1 ts" "sn_sent_offset (ss_slave s) = last (sn_sent_offset sn0 # map task_offset ts)"
    "slave_rep (sn_sent_offset sn0) (ss_slave s) (map task_offset ts) A" "A \<subseteq> b_offset ` set (map task_offset ts)"
  using assms unfolding stream_inv_def by blast

lemma SlaveNode_Update_same:
  assumes "SlaveNode_Update start stop upd sn = (st, upd', sn')" and "slave_rep a0 sn p A" and "A \<subseteq> b_offset ` set p" and "sn_binlog_reader sn \<noteq> None"
  shows "same_slave sn sn' \<and> sn_binlog_reader sn' = sn_binlog_reader sn \<and> sn_sent_offset sn' = sn_sent_offset sn
    \<and> (\<exists>A. slave_rep a0 sn' p A \<and> A \<subseteq> b_offset ` set p)"
proof -
  have same: "same_slave sn sn' \<and> sn_binlog_reader sn' = sn_binlog_reader sn \<and> sn_sent_offset sn' = sn_sent_offset sn"
    using assms(1,4) by (auto simp: SlaveNode_Update_def same_slave_def Let_def split: if_splits prod.splits)
  show ?thesis
  proof (cases "st = OK")
    case True
    then have "slave_rep a0 sn' p (A \<union> ack_range p start stop)" using SlaveNode_Update_rep [OF assms(2)] assms(1) by blast
    moreover have "A \<union> ack_range p start stop \<subseteq> b_offset ` set p" using assms(3) by (auto simp: ack_range_def)
    ultimately show ?thesis using same by blast
  next
    case False
    have "win_rep (sn_sync_win sn) p A" using assms(2) by (simp add: slave_rep_def)
    from win.update_rejects [OF this] have "sn' = sn"
      using assms(1) False by (auto simp: SlaveNode_Update_def Let_def split: if_splits prod.splits)
    with assms(2,3) same show ?thesis by blast
  qed
qed

lemma reading_cong: "sn_binlog_reader sn' = sn_binlog_reader sn \<Longrightarrow> sn_sent_offset sn' = sn_sent_offset sn
    \<Longrightarrow> reading fs hpos C b w sn' its = reading fs hpos C b w sn its"
  by (simp add: reading_def)

lemma stream_ack_inv:
  assumes "stream_inv E fs hpos C pid sn0 its s" and "SlaveNode_Update start stop upd (ss_slave s) = (st, upd', sn)"
  shows "stream_inv E fs hpos C pid sn0 its (s\<lparr>ss_slave := sn\<rparr>)"
proof -
  from assms(1) obtain its1 its2 ts A where its: "its = its1 @ its2" and i: "binlog_ok E fs (ss_binlog s) (ss_world s)" "files_small fs (ss_binlog s) (ss_world s)"
    "same_slave sn0 (ss_slave s)" "one_queue (queue_index (rn_ip (sn_node sn0)) (rn_port (sn_node sn0))) pid (ss_queues s)"
    "reading fs hpos C (ss_binlog s) (ss_world s) (ss_slave s) its2" "ss_wire s @ queued s pid = ts"
    "relayed C (sn_sent_offset sn0) its1 ts" "sn_sent_offset (ss_slave s) = last (sn_sent_offset sn0 # map task_offset ts)"
    "slave_rep (sn_sent_offset sn0) (ss_slave s) (map task_offset ts) A" "A \<subseteq> b_offset ` set (map task_offset ts)" by (rule stream_invE)
  have "sn_binlog_reader (ss_slave s) \<noteq> None" using i(3) by (simp add: same_slave_def)
  from SlaveNode_Update_same [OF assms(2) i(9,10) this] obtain B where sn: "same_slave (ss_slave s) sn"
    "sn_binlog_reader sn = sn_binlog_reader (ss_slave s)" "sn_sent_offset sn = sn_sent_offset (ss_slave s)"
    "slave_rep (sn_sent_offset sn0) sn (map task_offset ts) B" "B \<subseteq> b_offset ` set (map task_offset ts)" by blast
  have "queued (s\<lparr>ss_slave := sn\<rparr>) pid = queued s pid" using sn(1) by (simp add: queued_def same_slave_def)
  moreover have "same_slave sn0 sn" using i(3) sn(1) by (simp add: same_slave_def)
  moreover have "reading fs hpos C (ss_binlog s) (ss_world s) sn its2" using i(5) by (simp only: reading_cong [OF sn(2,3)])
  ultimately show ?thesis
    unfolding its using i sn(3-5) by (intro stream_invI [where ts = ts and A = B]) simp_all
qed

lemma stream_send_inv:
  assumes "stream_inv E fs hpos C pid sn0 its s" and "ConsumeWriteQueue record_send parse (ss_queues s) (ss_wire s) = (n, q, wire)"
    and "parse (queue_index (rn_ip (sn_node sn0)) (rn_port (sn_node sn0))) = Some a"
  shows "stream_inv E fs hpos C pid sn0 its (s\<lparr>ss_queues := q, ss_wire := wire\<rparr>)"
proof -
  obtain ip port where a: "a = (ip, port)" by fastforce
  from assms(1) show ?thesis
  proof (rule stream_invE)
    fix its1 its2 ts A
    assume its: "its = its1 @ its2" and i: "binlog_ok E fs (ss_binlog s) (ss_world s)" "files_small fs (ss_binlog s) (ss_world s)"
    "same_slave sn0 (ss_slave s)" "one_queue (queue_index (rn_ip (sn_node sn0)) (rn_port (sn_node sn0))) pid (ss_queues s)"
    "reading fs hpos C (ss_binlog s) (ss_world s) (ss_slave s) its2" "ss_wire s @ queued s pid = ts"
    "relayed C (sn_sent_offset sn0) its1 ts" "sn_sent_offset (ss_slave s) = last (sn_sent_offset sn0 # map task_offset ts)"
    "slave_rep (sn_sent_offset sn0) (ss_slave s) (map task_offset ts) A" "A \<subseteq> b_offset ` set (map task_offset ts)"
    have q: "one_queue (queue_index (rn_ip (sn_node sn0)) (rn_port (sn_node sn0))) pid q"
      "wire @ task_queue (queue_index (rn_ip (sn_node sn0)) (rn_port (sn_node sn0))) pid q = ts"
      using ConsumeWriteQueue_one [OF i(4) assms(2), of ip port] assms(3) a i(3,6) by (auto simp: queued_def same_slave_def)
    then show ?thesis unfolding its using i by (intro stream_invI [where ts = ts and A = A]) (simp_all add: queued_def same_slave_def)
  qed
qed

context slash_fs
begin

lemma ReadBinlogFileToWq_reading:
  assumes "fixed_coding C" and "binlog_ok E fs b w" and "files_small fs b w" and "reading fs hpos C b w sn its"
    and "one_queue (queue_index (rn_ip (sn_node sn)) (rn_port (sn_node sn))) pid q"
  shows "\<exists>its1 its2 ts sn' q'. its = its1 @ its2 \<and> ReadBinlogFileToWq E C sc b pid sn q w = Some (OK, sn', q')
    \<and> reading fs hpos C b w sn' its2 \<and> sends C sn its1 ts sn' \<and> one_queue (queue_index (rn_ip (sn_node sn)) (rn_port (sn_node sn))) pid q'
    \<and> task_queue (queue_index (rn_ip (sn_node sn)) (rn_port (sn_node sn))) pid q'
      = task_queue (queue_index (rn_ip (sn_node sn)) (rn_port (sn_node sn))) pid q @ ts"
proof -
  obtain its1 its2 ts sn' where r: "its = its1 @ its2"
    "read_chips E C sc b w (nat (SyncWindow_Remaining (sc_sync_window_size sc) (sn_sync_win sn))) sn [] = Some (OK, sn', [] @ ts)"
    "reading fs hpos C b w sn' its2" "sends C sn its1 ts sn'"
    using read_chips_reading [OF assms(1-4)] by blast
  have "sn_binlog_reader sn \<noteq> None" using assms(4) by (auto simp: reading_def)
  moreover have "rn_ip (sn_node sn') = rn_ip (sn_node sn)" "rn_port (sn_node sn') = rn_port (sn_node sn)"
    using r(4) by (simp_all add: sends_def same_slave_def)
  ultimately have "ReadBinlogFileToWq E C sc b pid sn q w
      = Some (OK, sn', if ts \<noteq> [] then ProduceWriteQueue (rn_ip (sn_node sn)) (rn_port (sn_node sn)) pid ts q else q)"
    using r(2) by (auto simp: ReadBinlogFileToWq_def Let_def status_simps)
  moreover note ProduceWriteQueue_one [OF assms(5), of ts]
  ultimately show ?thesis using r assms(5) by (cases "ts = []") auto
qed

lemma stream_read_inv:
  assumes "fixed_coding C" and "stream_inv E fs hpos C pid sn0 its s"
    and "ReadBinlogFileToWq E C sc (ss_binlog s) pid (ss_slave s) (ss_queues s) (ss_world s) = Some (st, sn, q)"
  shows "stream_inv E fs hpos C pid sn0 its (s\<lparr>ss_slave := sn, ss_queues := q\<rparr>)"
  using assms(2)
proof (rule stream_invE)
  fix its1 its2 ts A
  assume its: "its = its1 @ its2" and i: "binlog_ok E fs (ss_binlog s) (ss_world s)" "files_small fs (ss_binlog s) (ss_world s)"
    "same_slave sn0 (ss_slave s)" "one_queue (queue_index (rn_ip (sn_node sn0)) (rn_port (sn_node sn0))) pid (ss_queues s)"
    "reading fs hpos C (ss_binlog s) (ss_world s) (ss_slave s) its2" "ss_wire s @ queued s pid = ts"
    "relayed C (sn_sent_offset sn0) its1 ts" "sn_sent_offset (ss_slave s) = last (sn_sent_offset sn0 # map task_offset ts)"
    "slave_rep (sn_sent_offset sn0) (ss_slave s) (map task_offset ts) A" "A \<subseteq> b_offset ` set (map task_offset ts)"
  have ix: "rn_ip (sn_node (ss_slave s)) = rn_ip (sn_node sn0)" "rn_port (sn_node (ss_slave s)) = rn_port (sn_node sn0)"
    using i(3) by (simp_all add: same_slave_def)
  from ReadBinlogFileToWq_reading [OF assms(1) i(1,2,5), unfolded ix, OF i(4), of sc] assms(3) obtain its3 its4 us where
    r: "its2 = its3 @ its4" "reading fs hpos C (ss_binlog s) (ss_world s) sn its4" "sends C (ss_slave s) its3 us sn"
      "one_queue (queue_index (rn_ip (sn_node sn0)) (rn_port (sn_node sn0))) pid q"
      "task_queue (queue_index (rn_ip (sn_node sn0)) (rn_port (sn_node sn0))) pid q = queued s pid @ us"
    by (auto simp: queued_def ix)
  have sn: "relayed C (sn_sent_offset (ss_slave s)) its3 us" "same_slave (ss_slave s) sn"
      "sn_sent_offset sn = last (sn_sent_offset (ss_slave s) # map task_offset us)" using r(3) by (simp_all add: sends_def)
  have "relayed C (sn_sent_offset sn0) (its1 @ its3) (ts @ us)" using relayed_append [OF i(7)] sn(1) i(8) by metis
  moreover have "sn_sent_offset sn = last (sn_sent_offset sn0 # map task_offset (ts @ us))" using sn(3) i(8) by simp
  moreover have "slave_rep (sn_sent_offset sn0) sn (map task_offset ts @ map task_offset us) A"
    using r(3) i(9,10) sorted_last [OF relayed_sorted [OF i(7)]] unfolding sends_def i(8) by (meson list.set_intros(2))
  moreover have "same_slave sn0 sn" using i(3) sn(2) by (simp add: same_slave_def)
  moreover have "ss_wire s @ queued (s\<lparr>ss_slave := sn, ss_queues := q\<rparr>) pid = ts @ us"
    using r(5) i(6) sn(2) ix by (simp add: queued_def same_slave_def flip: append_assoc)
  ultimately have "stream_inv E fs hpos C pid sn0 ((its1 @ its3) @ its4) (s\<lparr>ss_slave := sn, ss_queues := q\<rparr>)"
    using i(1,2,10) r(2,4) by (intro stream_invI [where ts = "ts @ us" and A = A]) auto
  then show ?thesis by (simp add: its r(1))
qed

lemma stream_put_inv:
  assumes "stream_inv E fs hpos C pid sn0 its s" and "binlog_room (enc_item C it) (ss_binlog s)"
    and "Binlog_Put E (enc_item C it) (ss_binlog s) (ss_world s) = Some (OK, b, w)"
  shows "stream_inv E fs hpos C pid sn0 (its @ [it]) (s\<lparr>ss_binlog := b, ss_world := w\<rparr>)"
  using assms(1)
proof (rule stream_invE)
  fix its1 its2 ts A
  assume its: "its = its1 @ its2" and i: "binlog_ok E fs (ss_binlog s) (ss_world s)" "files_small fs (ss_binlog s) (ss_world s)"
    "same_slave sn0 (ss_slave s)" "one_queue (queue_index (rn_ip (sn_node sn0)) (rn_port (sn_node sn0))) pid (ss_queues s)"
    "reading fs hpos C (ss_binlog s) (ss_world s) (ss_slave s) its2" "ss_wire s @ queued s pid = ts"
    "relayed C (sn_sent_offset sn0) its1 ts" "sn_sent_offset (ss_slave s) = last (sn_sent_offset sn0 # map task_offset ts)"
    "slave_rep (sn_sent_offset sn0) (ss_slave s) (map task_offset ts) A" "A \<subseteq> b_offset ` set (map task_offset ts)"
  have room: "enc_item C it \<noteq> []" "unat (ver_pro_offset (bl_version (ss_binlog s))) + 2 * length (enc_item C it) + 23 < 2 ^ 31"
    "unat (bl_pro_num (ss_binlog s)) < 2 ^ 32 - 1" "length (bl_filename (ss_binlog s)) \<le> 245"
    using assms(2) by (simp_all add: binlog_room_def)
  note ef = Put_effect [OF slash_fs_axioms i(1) assms(3) room(2)]
  then have ok: "binlog_ok E fs b w" and fn: "bl_filename b = bl_filename (ss_binlog s)" by blast+
  obtain k c where k: "fs w = (fs (ss_world s))(NewFileName (bl_filename (ss_binlog s)) k \<mapsto> c)" "k = bl_pro_num b"
    using ef by (auto split: if_splits)
  have "length c < 2 ^ 64" using ok k fn by (auto elim!: binlog_okE)
  then have "files_small fs b w"
    using i(2) log_files_upd [OF k(1) fn room(4)] by (auto simp: files_small_def)
  moreover have "reading fs hpos C b w (ss_slave s) (its2 @ [it])"
  proof -
    from i(5) obtain r n where rn: "sn_binlog_reader (ss_slave s) = Some r" "reader_ok hpos (ss_binlog s) r n" "n < 2 ^ 64"
      "items_ahead fs (ss_binlog s) (ss_world s) (rd_cur_filenum r) n (map (enc_item C) its2)"
      "b_offset (sn_sent_offset (ss_slave s)) \<le> BinlogOffset (rd_cur_filenum r) (of_nat n)" unfolding reading_def by blast
    from Put_ahead [OF i(1) assms(3) rn(4) room] rn show ?thesis
      unfolding reading_def by (intro exI [of _ r] exI [of _ n]) (simp add: reader_ok_filename [OF fn])
  qed
  ultimately have "stream_inv E fs hpos C pid sn0 (its1 @ (its2 @ [it])) (s\<lparr>ss_binlog := b, ss_world := w\<rparr>)"
    using i ok by (intro stream_invI [where ts = ts and A = A]) (auto simp: queued_def)
  then show ?thesis by (simp add: its)
qed

lemma streamed_inv:
  assumes "streamed E C sc parse pid s0 its s" and "fixed_coding C" and "stream_inv E fs hpos C pid sn0 its0 s0"
    and "parse (queue_index (rn_ip (sn_node sn0)) (rn_port (sn_node sn0))) = Some a"
  shows "stream_inv E fs hpos C pid sn0 (its0 @ its) s"
  using assms(1)
proof (induction rule: streamed.induct)
  case (stream_put its s it b w)
  then show ?case using stream_put_inv [OF stream_put.IH] by simp
next
  case (stream_send its s n q wire)
  show ?case by (rule stream_send_inv [OF stream_send.IH stream_send.hyps(2) assms(4)])
next
  case (stream_read its s st sn q)
  show ?case by (rule stream_read_inv [OF assms(2) stream_read.IH stream_read.hyps(2)])
next
  case (stream_ack its s start stop upd st upd' sn)
  show ?case by (rule stream_ack_inv [OF stream_ack.IH stream_ack.hyps(2)])
qed (simp add: assms(3))

end

lemma slave_rep_fresh: "sn_sync_win sn = SyncWindow0 \<Longrightarrow> sn_acked_offset sn = off \<Longrightarrow> slave_rep off sn [] {}"
  by (simp add: slave_rep_def win_rep_def reported_def cum_acked_def pending_def SyncWindow0_def)

lemma InitBinlogFileReader_reading:
  assumes "slash_fs E fs hpos" and "log_files fs b w f = Some c" and "n \<le> length c" and "n < 2 ^ 63" and "tail_ok (take n c)"
    and "items_ahead fs b w f n (map (enc_item C) its)"
    and "b_offset (sn_sent_offset sn) = BinlogOffset f (of_nat n)" and "InitBinlogFileReader E b (BinlogOffset f (of_nat n)) sn w = Some (st, sn')"
  shows "st = OK \<and> (\<exists>r. sn' = sn\<lparr>sn_binlog_reader := Some r\<rparr>) \<and> reading fs hpos C b w sn' its"
proof -
  obtain r where "Seek E b f (of_nat n) PikaBinlogReader_new0 w = Some (0, r)" "reader_ok hpos b r n" "rd_cur_filenum r = f"
    using slash_fs.Seek_at [OF assms(1) _ assms(3,5,4)] assms(2) unfolding log_files_def by blast
  then show ?thesis using assms(4,6-8) by (auto simp: InitBinlogFileReader_def reading_def intro!: exI [of _ n])
qed


text \<open>A slave set to the start of the empty log; one item is appended and read for it.\<close>

definition stream_slave :: "(string \<times> nat) SlaveNode" where
  "stream_slave = SlaveNode_new ''1.2.3.4'' 9221 ''db0'' 0 0"

definition stream_conf :: send_conf where
  "stream_conf = \<lparr>sc_sync_window_size = 9000, sc_clock = (\<lambda>_. 0), sc_indet = (0, 0), sc_ToString = (\<lambda>_. [])\<rparr>"

lemma stream_init: "\<exists>sn0. InitBinlogFileReader mem_env wit_binlog (b_offset LogOffset0)
    (stream_slave\<lparr>sn_slave_state := kSlaveBinlogSync, sn_sent_offset := LogOffset0, sn_acked_offset := LogOffset0\<rparr>) coord_world = Some (OK, sn0)"
proof -
  have "tail_ok (take 0 [])" by (simp add: tail_ok_full)
  then obtain r :: "(string \<times> nat) PikaBinlogReader" where "Seek mem_env wit_binlog 0 0 PikaBinlogReader_new0 coord_world = Some (0, r)"
    using mem.Seek_at [of coord_world wit_binlog 0 "[]" 0 PikaBinlogReader_new0] by (auto simp: wit_simps coord_world_def)
  then show ?thesis by (simp add: InitBinlogFileReader_def BinlogOffset0_def)
qed


end
