(* ===== verification/Pika_Inner_Message.thy ===== *)
theory Pika_Inner_Message
  imports Pika_Define
begin

text \<open>
  The messages of replication, \<^verbatim>\<open>src/pika_inner_message.proto\<close>. An optional field is an option; its accessor
  gives the default value where it is absent. How messages become bytes is a matter of protobuf.
\<close>

section \<open>Parts\<close>

datatype MsgType = kMetaSync | kTrySync | kDBSync | kBinlogSync | kHeatBeat | kRemoveSlaveNode

datatype StatusCode = kCodeOk | kCodeError | kCodeOther

record PbBinlogOffset =
  pb_filenum :: u32
  pb_offset :: u64
  pb_term :: "u32 option"
  pb_index :: "u64 option"

record PbNode =
  nd_ip :: string
  nd_port :: int

record ConsensusMeta =
  cm_term :: "u32 option"
  cm_log_offset :: "PbBinlogOffset option"
  cm_commit :: "PbBinlogOffset option"
  cm_reject :: "bool option"
  cm_hint :: "PbBinlogOffset list"

text \<open>Default instances, which the accessors of absent messages refer to.\<close>

definition PbBinlogOffset0 :: PbBinlogOffset where
  "PbBinlogOffset0 = \<lparr>pb_filenum = 0, pb_offset = 0, pb_term = None, pb_index = None\<rparr>"

definition PbNode0 :: PbNode where
  "PbNode0 = \<lparr>nd_ip = [], nd_port = 0\<rparr>"

definition PbPartition0 :: PartitionInfo where
  "PbPartition0 = \<lparr>pi_table_name = [], pi_partition_id = 0\<rparr>"

definition ConsensusMeta0 :: ConsensusMeta where
  "ConsensusMeta0 = \<lparr>cm_term = None, cm_log_offset = None, cm_commit = None, cm_reject = None, cm_hint = []\<rparr>"

definition or_default :: "'a \<Rightarrow> 'a option \<Rightarrow> 'a" where
  "or_default d x = (case x of None \<Rightarrow> d | Some a \<Rightarrow> a)"

lemma or_default_simps [simp]: "or_default d None = d" "or_default d (Some a) = a"
  by (simp_all add: or_default_def)

abbreviation meta_term :: "ConsensusMeta \<Rightarrow> u32" where
  "meta_term m \<equiv> or_default 0 (cm_term m)"

abbreviation meta_reject :: "ConsensusMeta \<Rightarrow> bool" where
  "meta_reject m \<equiv> or_default False (cm_reject m)"

section \<open>Requests\<close>

record MetaSyncRequest =
  ms_node :: PbNode
  ms_auth :: "string option"

record SyncRequest =
  sr_node :: PbNode
  sr_partition :: PartitionInfo
  sr_binlog_offset :: PbBinlogOffset

record BinlogSyncRequest =
  bq_node :: PbNode
  bq_table_name :: string
  bq_partition_id :: u32
  bq_ack_range_start :: PbBinlogOffset
  bq_ack_range_end :: PbBinlogOffset
  bq_session_id :: i32
  bq_first_send :: bool

record RemoveSlaveNodeMsg =
  rs_node :: PbNode
  rs_partition :: PartitionInfo

text \<open>\<^verbatim>\<open>TrySync\<close> and \<^verbatim>\<open>DBSync\<close> have the same fields.\<close>

record InnerRequest =
  rq_type :: MsgType
  rq_meta_sync :: "MetaSyncRequest option"
  rq_try_sync :: "SyncRequest option"
  rq_db_sync :: "SyncRequest option"
  rq_binlog_sync :: "BinlogSyncRequest option"
  rq_remove_slave_node :: "RemoveSlaveNodeMsg list"
  rq_consensus_meta :: "ConsensusMeta option"

definition MetaSyncRequest0 :: MetaSyncRequest where
  "MetaSyncRequest0 = \<lparr>ms_node = PbNode0, ms_auth = None\<rparr>"

definition SyncRequest0 :: SyncRequest where
  "SyncRequest0 = \<lparr>sr_node = PbNode0, sr_partition = PbPartition0, sr_binlog_offset = PbBinlogOffset0\<rparr>"

definition InnerRequest_new :: "MsgType \<Rightarrow> InnerRequest" where
  "InnerRequest_new type = \<lparr>rq_type = type, rq_meta_sync = None, rq_try_sync = None, rq_db_sync = None, rq_binlog_sync = None,
     rq_remove_slave_node = [], rq_consensus_meta = None\<rparr>"

section \<open>Responses\<close>

datatype ReplyCode = kReplyOk | kReplySyncPointBePurged | kReplySyncPointLarger | kReplyError

record MetaSyncResponse =
  mr_classic_mode :: bool
  mr_tables_info :: "(string \<times> i32) list"

record TrySyncResponse =
  tr_reply_code :: ReplyCode
  tr_partition :: PartitionInfo
  tr_binlog_offset :: "PbBinlogOffset option"
  tr_session_id :: "i32 option"

record DBSyncResponse =
  dr_partition :: PartitionInfo
  dr_session_id :: "i32 option"

record BinlogSyncChip =
  br_partition :: PartitionInfo
  br_binlog_offset :: PbBinlogOffset
  br_binlog :: bytes
  br_session_id :: i32

record InnerResponse =
  ir_type :: MsgType
  ir_code :: StatusCode
  ir_reply :: "string option"
  ir_meta_sync :: "MetaSyncResponse option"
  ir_db_sync :: "DBSyncResponse option"
  ir_try_sync :: "TrySyncResponse option"
  ir_binlog_sync :: "BinlogSyncChip list"
  ir_remove_slave_node :: "RemoveSlaveNodeMsg list"
  ir_consensus_meta :: "ConsensusMeta option"

definition MetaSyncResponse0 :: MetaSyncResponse where
  "MetaSyncResponse0 = \<lparr>mr_classic_mode = False, mr_tables_info = []\<rparr>"

definition TrySyncResponse0 :: TrySyncResponse where
  "TrySyncResponse0 = \<lparr>tr_reply_code = kReplyOk, tr_partition = PbPartition0, tr_binlog_offset = None, tr_session_id = None\<rparr>"

definition DBSyncResponse0 :: DBSyncResponse where
  "DBSyncResponse0 = \<lparr>dr_partition = PbPartition0, dr_session_id = None\<rparr>"

definition InnerResponse_new :: "MsgType \<Rightarrow> StatusCode \<Rightarrow> InnerResponse" where
  "InnerResponse_new type code = \<lparr>ir_type = type, ir_code = code, ir_reply = None, ir_meta_sync = None, ir_db_sync = None,
     ir_try_sync = None, ir_binlog_sync = [], ir_remove_slave_node = [], ir_consensus_meta = None\<rparr>"

section \<open>Offsets\<close>

text \<open>\<^verbatim>\<open>BuildBinlogOffset\<close> and \<^verbatim>\<open>ParseBinlogOffset\<close>.\<close>

definition BuildBinlogOffset :: "LogOffset \<Rightarrow> PbBinlogOffset" where
  "BuildBinlogOffset x = \<lparr>pb_filenum = bo_filenum (b_offset x), pb_offset = bo_offset (b_offset x),
     pb_term = Some (lo_term (l_offset x)), pb_index = Some (lo_index (l_offset x))\<rparr>"

definition ParseBinlogOffset :: "PbBinlogOffset \<Rightarrow> LogOffset" where
  "ParseBinlogOffset p = \<lparr>b_offset = BinlogOffset (pb_filenum p) (pb_offset p),
     l_offset = \<lparr>lo_term = or_default 0 (pb_term p), lo_index = or_default 0 (pb_index p)\<rparr>\<rparr>"

lemma Parse_Build [simp]: "ParseBinlogOffset (BuildBinlogOffset x) = x"
  by (simp add: ParseBinlogOffset_def BuildBinlogOffset_def)

end
