(* ===== verification/Pika_Replica.thy ===== *)
theory Pika_Replica
  imports Pika_Sync_Master Pika_Table Pika_Inner_Message
begin

text \<open>
  The slave side of a partition, \<^verbatim>\<open>SyncSlavePartition\<close>, and \<^verbatim>\<open>PikaReplicaManager\<close>, which has both sides of all
  partitions: \<^verbatim>\<open>src/pika_rm.cc\<close>. \<open>None\<close> stands for an abort: a failed assertion, a null pointer or a reader
  that does not return.
\<close>

unbundle bit_operations_syntax

section \<open>The slave side of a partition\<close>

definition kPortShiftReplServer :: int where "kPortShiftReplServer = 2000"

definition kPortShiftRSync :: int where "kPortShiftRSync = 1000"

definition PIKA_ROLE_SLAVE :: nat where "PIKA_ROLE_SLAVE = 1"

definition PIKA_ROLE_MASTER :: nat where "PIKA_ROLE_MASTER = 2"

primrec ReplStateMsg :: "ReplState \<Rightarrow> string" where
  "ReplStateMsg kNoConnect = ''kNoConnect''"
| "ReplStateMsg kTryConnect = ''kTryConnect''"
| "ReplStateMsg kTryDBSync = ''kTryDBSync''"
| "ReplStateMsg kWaitDBSync = ''kWaitDBSync''"
| "ReplStateMsg kWaitReply = ''kWaitReply''"
| "ReplStateMsg kConnected = ''kConnected''"
| "ReplStateMsg kError = ''kError''"
| "ReplStateMsg kDBNoConnect = ''kDBNoConnect''"

definition PartitionInfo_ToString :: "PartitionInfo \<Rightarrow> string" where
  "PartitionInfo_ToString p = ''('' @ pi_table_name p @ '':'' @ dec_string (uint (pi_partition_id p)) @ '')''"

record SyncSlavePartition =
  ssp_partition_info :: PartitionInfo
  ssp_m_info :: RmNode
  ssp_repl_state :: ReplState
  ssp_local_ip :: string

definition RmNode0 :: RmNode where
  "RmNode0 = RmNode_new [] 0 [] 0 0"

definition SyncSlavePartition_new :: "PartitionInfo \<Rightarrow> u64 \<Rightarrow> SyncSlavePartition" where
  "SyncSlavePartition_new p_info now =
     \<lparr>ssp_partition_info = p_info, ssp_m_info = RmNode0\<lparr>rn_last_recv_time := now\<rparr>, ssp_repl_state = kNoConnect, ssp_local_ip = []\<rparr>"

definition Deactivate :: "SyncSlavePartition \<Rightarrow> SyncSlavePartition" where
  "Deactivate s = s\<lparr>ssp_m_info := RmNode0, ssp_repl_state := kNoConnect\<rparr>"

definition SetReplState :: "ReplState \<Rightarrow> SyncSlavePartition \<Rightarrow> SyncSlavePartition" where
  "SetReplState repl_state s = (if repl_state = kNoConnect then Deactivate s else s\<lparr>ssp_repl_state := repl_state\<rparr>)"

definition ssp_SetLastRecvTime :: "u64 \<Rightarrow> SyncSlavePartition \<Rightarrow> SyncSlavePartition" where
  "ssp_SetLastRecvTime t s = s\<lparr>ssp_m_info := (ssp_m_info s)\<lparr>rn_last_recv_time := t\<rparr>\<rparr>"

definition SetMasterSessionId :: "i32 \<Rightarrow> SyncSlavePartition \<Rightarrow> SyncSlavePartition" where
  "SetMasterSessionId session_id s = s\<lparr>ssp_m_info := (ssp_m_info s)\<lparr>rn_session_id := session_id\<rparr>\<rparr>"

definition Activate :: "RmNode \<Rightarrow> ReplState \<Rightarrow> u64 \<Rightarrow> SyncSlavePartition \<Rightarrow> SyncSlavePartition" where
  "Activate master repl_state now s = s\<lparr>ssp_m_info := master\<lparr>rn_last_recv_time := now\<rparr>, ssp_repl_state := repl_state\<rparr>"

text \<open>\<^verbatim>\<open>CheckSyncTimeout\<close>; \<open>True\<close> is the call that has the server run its state machine again.\<close>

definition ssp_CheckSyncTimeout :: "u64 \<Rightarrow> SyncSlavePartition \<Rightarrow> SyncSlavePartition \<times> bool" where
  "ssp_CheckSyncTimeout now s =
     (if ssp_repl_state s \<noteq> kWaitDBSync \<and> ssp_repl_state s \<noteq> kConnected then (s, False)
      else if rn_last_recv_time (ssp_m_info s) + kRecvKeepAliveTimeout < now then (s\<lparr>ssp_repl_state := kTryConnect\<rparr>, True)
      else (s, False))"

definition ssp_GetInfo :: "SyncSlavePartition \<Rightarrow> string \<Rightarrow> string" where
  "ssp_GetInfo s info =
     info @ ''  Role: Slave'' @ kNewLine
       @ ''  master: '' @ rn_ip (ssp_m_info s) @ '':'' @ dec_string (rn_port (ssp_m_info s)) @ kNewLine
       @ ''  slave status: '' @ ReplStateMsg (ssp_repl_state s) @ kNewLine"

section \<open>The replica manager\<close>

record ('c, 'n, 'h) PikaReplicaManager =
  rm_sync_master_partitions :: "('c, 'n, 'h) SyncMasterPartition partition_map"
  rm_sync_slave_partitions :: "(PartitionInfo \<times> SyncSlavePartition) list"
  rm_write_queues :: write_queues

definition GetSyncMasterPartitionByName ::
  "PartitionInfo \<Rightarrow> ('c, 'n, 'h) PikaReplicaManager \<Rightarrow> ('c, 'n, 'h) SyncMasterPartition option option" where
  "GetSyncMasterPartitionByName p_info rm = PartitionMap_get p_info (rm_sync_master_partitions rm)"

definition GetSyncSlavePartitionByName :: "PartitionInfo \<Rightarrow> ('c, 'n, 'h) PikaReplicaManager \<Rightarrow> SyncSlavePartition option" where
  "GetSyncSlavePartitionByName p_info rm = map_of (rm_sync_slave_partitions rm) p_info"

text \<open>The partitions are shared objects: what is done to one is seen wherever it is referred to.\<close>

definition set_master ::
  "PartitionInfo \<Rightarrow> ('c, 'n, 'h) SyncMasterPartition \<Rightarrow> ('c, 'n, 'h) PikaReplicaManager \<Rightarrow> ('c, 'n, 'h) PikaReplicaManager" where
  "set_master p_info sm rm =
     (case PartitionMap_put p_info (Some sm) (rm_sync_master_partitions rm) of
        None \<Rightarrow> rm | Some m \<Rightarrow> rm\<lparr>rm_sync_master_partitions := m\<rparr>)"

definition set_slave_partition :: "PartitionInfo \<Rightarrow> SyncSlavePartition \<Rightarrow> ('c, 'n, 'h) PikaReplicaManager \<Rightarrow> ('c, 'n, 'h) PikaReplicaManager" where
  "set_slave_partition p_info s rm = rm\<lparr>rm_sync_slave_partitions := AList.update p_info s (rm_sync_slave_partitions rm)\<rparr>"

text \<open>
  \<^verbatim>\<open>InitPartition\<close>, called with both maps empty, and \<^verbatim>\<open>AddSyncPartition\<close> create the partitions one by one.
\<close>

record 'c rm_conf =
  rc_coord :: "'c coord_conf"
  rc_indet :: u32
  rc_indet_term :: u32
  rc_now :: u64

primrec create_partitions ::
  "('w, 'e) slash_env \<Rightarrow> slash_coding \<Rightarrow> 'c rm_conf \<Rightarrow> PartitionInfo list \<Rightarrow> ('c, 'n, 'h) PikaReplicaManager \<Rightarrow> 'w
    \<Rightarrow> (('c, 'n, 'h) PikaReplicaManager \<times> 'w) option" where
  "create_partitions E C rc [] rm w = Some (rm, w)"
| "create_partitions E C rc (p # ps) rm w =
     (case SyncMasterPartition_new E C (rc_coord rc) (rc_indet rc) (rc_indet_term rc) (pi_table_name p) (pi_partition_id p) w of
        None \<Rightarrow> None
      | Some (sm, w) \<Rightarrow>
          (case PartitionMap_put p (Some sm) (rm_sync_master_partitions rm) of
             None \<Rightarrow> None
           | Some m \<Rightarrow>
               create_partitions E C rc ps
                 (set_slave_partition p (SyncSlavePartition_new p (rc_now rc)) (rm\<lparr>rm_sync_master_partitions := m\<rparr>)) w))"

definition InitPartition ::
  "('w, 'e) slash_env \<Rightarrow> slash_coding \<Rightarrow> 'c rm_conf \<Rightarrow> TableStruct list \<Rightarrow> 'w \<Rightarrow> (('c, 'n, 'h) PikaReplicaManager \<times> 'w) option" where
  "InitPartition E C rc table_structs w =
     create_partitions E C rc
       (concat (map (\<lambda>t. map (\<lambda>i. \<lparr>pi_table_name = ts_table_name t, pi_partition_id = i\<rparr>) (ts_partition_ids t)) table_structs))
       \<lparr>rm_sync_master_partitions = PartitionMap_new, rm_sync_slave_partitions = [], rm_write_queues = []\<rparr> w"

text \<open>\<open>find\<close> on the map of the masters, as a test for the end of the map.\<close>

definition has_master :: "PartitionInfo \<Rightarrow> ('c, 'n, 'h) PikaReplicaManager \<Rightarrow> bool option" where
  "has_master p_info rm = map_option (\<lambda>r. r \<noteq> None) (PartitionMap_find p_info (rm_sync_master_partitions rm))"

definition has_slave :: "PartitionInfo \<Rightarrow> ('c, 'n, 'h) PikaReplicaManager \<Rightarrow> bool" where
  "has_slave p_info rm \<longleftrightarrow> map_of (rm_sync_slave_partitions rm) p_info \<noteq> None"

primrec AddSyncPartitionSanityCheck :: "PartitionInfo list \<Rightarrow> ('c, 'n, 'h) PikaReplicaManager \<Rightarrow> Status option" where
  "AddSyncPartitionSanityCheck [] rm = Some OK"
| "AddSyncPartitionSanityCheck (p # ps) rm =
     (case has_master p rm of
        None \<Rightarrow> None
      | Some found \<Rightarrow>
          if found \<or> has_slave p rm then Some (Corruption (''sync partition '' @ PartitionInfo_ToString p @ '' exist''))
          else AddSyncPartitionSanityCheck ps rm)"

definition AddSyncPartition ::
  "('w, 'e) slash_env \<Rightarrow> slash_coding \<Rightarrow> 'c rm_conf \<Rightarrow> PartitionInfo list \<Rightarrow> ('c, 'n, 'h) PikaReplicaManager \<Rightarrow> 'w
    \<Rightarrow> (Status \<times> ('c, 'n, 'h) PikaReplicaManager \<times> 'w) option" where
  "AddSyncPartition E C rc p_infos rm w =
     (case AddSyncPartitionSanityCheck p_infos rm of
        None \<Rightarrow> None
      | Some s \<Rightarrow>
          if \<not> ok s then Some (s, rm, w)
          else map_option (\<lambda>(rm, w). (OK, rm, w)) (create_partitions E C rc p_infos rm w))"

primrec RemoveSyncPartitionSanityCheck :: "PartitionInfo list \<Rightarrow> ('c, 'n, 'h) PikaReplicaManager \<Rightarrow> Status option" where
  "RemoveSyncPartitionSanityCheck [] rm = Some OK"
| "RemoveSyncPartitionSanityCheck (p # ps) rm =
     (case has_master p rm of
        None \<Rightarrow> None
      | Some found \<Rightarrow>
          if \<not> found \<or> \<not> has_slave p rm then Some (Corruption (''sync partition '' @ PartitionInfo_ToString p @ '' not found''))
          else (case (GetSyncMasterPartitionByName p rm, GetSyncSlavePartitionByName p rm) of
                  (Some (Some sm), Some ss) \<Rightarrow>
                    if GetNumberOfSlaveNode sm \<noteq> 0
                    then Some (Corruption (''sync master partition '' @ PartitionInfo_ToString p @ '' in syncing''))
                    else if ssp_repl_state ss \<noteq> kNoConnect \<and> ssp_repl_state ss \<noteq> kError
                    then Some (Corruption (''sync slave partition '' @ PartitionInfo_ToString p @ '' in ''
                                 @ ReplStateMsg (ssp_repl_state ss) @ '' state''))
                    else RemoveSyncPartitionSanityCheck ps rm
                | _ \<Rightarrow> None))"

text \<open>
  Removing closes the log and moves its directory aside. \<open>rename\<close> is \<^verbatim>\<open>RenameFile\<close> of slash, with \<open>True\<close> for a
  failure, \<open>purge\<close> is \<^verbatim>\<open>PurgeDir\<close> of the server, which has a directory deleted in the background.
\<close>

record 'w dir_ops =
  do_rename :: "string \<Rightarrow> string \<Rightarrow> 'w \<Rightarrow> bool \<times> 'w"
  do_purge :: "string \<Rightarrow> 'w \<Rightarrow> 'w"

definition RemoveStableLogDir :: "'w dir_ops \<Rightarrow> StableLog \<Rightarrow> 'w \<Rightarrow> 'w option" where
  "RemoveStableLogDir R sl w =
     (if sl_log_path sl = [] then None
      else let logpath = (if last (sl_log_path sl) = CHR ''/'' then butlast (sl_log_path sl) else sl_log_path sl) @ ''_deleting/''
           in case do_rename R (sl_log_path sl) logpath w of (failed, w) \<Rightarrow> Some (if failed then w else do_purge R logpath w))"

definition StableLog_Leave :: "'w dir_ops \<Rightarrow> StableLog \<Rightarrow> 'w \<Rightarrow> (StableLog \<times> 'w) option" where
  "StableLog_Leave R sl w = (let sl = StableLog_Close sl in map_option (\<lambda>w. (sl, w)) (RemoveStableLogDir R sl w))"

primrec remove_partitions ::
  "'w dir_ops \<Rightarrow> PartitionInfo list \<Rightarrow> ('c, 'n, 'h) PikaReplicaManager \<Rightarrow> 'w \<Rightarrow> (('c, 'n, 'h) PikaReplicaManager \<times> 'w) option" where
  "remove_partitions R [] rm w = Some (rm, w)"
| "remove_partitions R (p # ps) rm w =
     (case (PartitionMap_find p (rm_sync_master_partitions rm), PartitionMap_erase p (rm_sync_master_partitions rm)) of
        (Some found, Some m) \<Rightarrow>
          (case (case found of
                   None \<Rightarrow> Some w
                 | Some _ \<Rightarrow>
                     (case GetSyncMasterPartitionByName p rm of
                        Some (Some sm) \<Rightarrow> map_option snd (StableLog_Leave R (cc_stable_logger (sm_coordinator sm)) w)
                      | _ \<Rightarrow> None)) of
             None \<Rightarrow> None
           | Some w \<Rightarrow>
               remove_partitions R ps
                 (rm\<lparr>rm_sync_master_partitions := m, rm_sync_slave_partitions := AList.delete p (rm_sync_slave_partitions rm)\<rparr>) w)
      | _ \<Rightarrow> None)"

definition RemoveSyncPartition ::
  "'w dir_ops \<Rightarrow> PartitionInfo list \<Rightarrow> ('c, 'n, 'h) PikaReplicaManager \<Rightarrow> 'w \<Rightarrow> (Status \<times> ('c, 'n, 'h) PikaReplicaManager \<times> 'w) option" where
  "RemoveSyncPartition R p_infos rm w =
     (case RemoveSyncPartitionSanityCheck p_infos rm of
        None \<Rightarrow> None
      | Some s \<Rightarrow>
          if \<not> ok s then Some (s, rm, w)
          else map_option (\<lambda>(rm, w). (OK, rm, w)) (remove_partitions R p_infos rm w))"

section \<open>The slaves of all partitions\<close>

definition UpdateSyncBinlogStatus ::
  "('w, 'h) slash_env \<Rightarrow> slash_coding \<Rightarrow> 'c coord_conf \<Rightarrow> send_conf \<Rightarrow> RmNode \<Rightarrow> LogOffset \<Rightarrow> LogOffset
    \<Rightarrow> ('c, 'n, 'h) PikaReplicaManager \<Rightarrow> 'w \<Rightarrow> (Status \<times> ('c, 'n, 'h) PikaReplicaManager) option" where
  "UpdateSyncBinlogStatus E C cf sc slave range_start range_end rm w =
     (let p_info = rn_partition_info slave
      in case has_master p_info rm of
           None \<Rightarrow> None
         | Some False \<Rightarrow> Some (NotFound (RmNode_ToString slave @ '' not found''), rm)
         | Some True \<Rightarrow>
             (case GetSyncMasterPartitionByName p_info rm of
                Some (Some sm) \<Rightarrow>
                  (case ConsensusUpdateSlave cf (rn_ip slave) (rn_port slave) range_start range_end sm of
                     None \<Rightarrow> None
                   | Some (s, sm) \<Rightarrow>
                       if \<not> ok s then Some (s, set_master p_info sm rm)
                       else (case SyncBinlogToWq E C sc (rn_ip slave) (rn_port slave) sm (rm_write_queues rm) w of
                               None \<Rightarrow> None
                             | Some (s, sm, q) \<Rightarrow> Some (if \<not> ok s then s else OK, (set_master p_info sm rm)\<lparr>rm_write_queues := q\<rparr>)))
              | _ \<Rightarrow> None))"

definition CheckSlavePartitionState :: "string \<Rightarrow> int \<Rightarrow> ('c, 'n, 'h) PikaReplicaManager \<Rightarrow> bool" where
  "CheckSlavePartitionState ip port rm \<longleftrightarrow>
     \<not> (\<exists>(_, s)\<in>set (rm_sync_slave_partitions rm). ssp_repl_state s = kDBNoConnect
          \<and> rn_ip (ssp_m_info s) = ip \<and> rn_port (ssp_m_info s) + kPortShiftReplServer = port)"

definition on_masters ::
  "(('c, 'n, 'h) SyncMasterPartition \<Rightarrow> ('c, 'n, 'h) SyncMasterPartition) \<Rightarrow> ('c, 'n, 'h) PikaReplicaManager \<Rightarrow> ('c, 'n, 'h) PikaReplicaManager" where
  "on_masters f rm = rm\<lparr>rm_sync_master_partitions := map (\<lambda>(p, sm). (p, map_option f sm)) (rm_sync_master_partitions rm)\<rparr>"

definition LostConnection :: "string \<Rightarrow> int \<Rightarrow> ('c, 'n, 'h) PikaReplicaManager \<Rightarrow> ('c, 'n, 'h) PikaReplicaManager" where
  "LostConnection ip port rm =
     (let rm = on_masters (\<lambda>sm. snd (sm_RemoveSlaveNode ip port sm)) rm
      in rm\<lparr>rm_sync_slave_partitions :=
           map (\<lambda>(p, s). (p, if rn_ip (ssp_m_info s) = ip \<and> rn_port (ssp_m_info s) = port then Deactivate s else s))
             (rm_sync_slave_partitions rm)\<rparr>)"

primrec wake_masters ::
  "('w, 'h) slash_env \<Rightarrow> slash_coding \<Rightarrow> send_conf \<Rightarrow> ('c, 'n, 'h) SyncMasterPartition partition_map \<Rightarrow> write_queues \<Rightarrow> 'w
    \<Rightarrow> (Status \<times> ('c, 'n, 'h) SyncMasterPartition partition_map \<times> write_queues) option" where
  "wake_masters E C sc [] q w = Some (OK, [], q)"
| "wake_masters E C sc (e # ms) q w =
     (case snd e of
        None \<Rightarrow> map_option (\<lambda>(s, ms, q). (s, e # ms, q)) (wake_masters E C sc ms q w)
      | Some sm \<Rightarrow>
          (case WakeUpSlaveBinlogSync E C sc sm q w of
             None \<Rightarrow> None
           | Some (s, sm, q) \<Rightarrow>
               if \<not> ok s then Some (s, (fst e, Some sm) # ms, q)
               else map_option (\<lambda>(s, ms, q). (s, (fst e, Some sm) # ms, q)) (wake_masters E C sc ms q w)))"

definition WakeUpBinlogSync ::
  "('w, 'h) slash_env \<Rightarrow> slash_coding \<Rightarrow> send_conf \<Rightarrow> ('c, 'n, 'h) PikaReplicaManager \<Rightarrow> 'w \<Rightarrow> (Status \<times> ('c, 'n, 'h) PikaReplicaManager) option" where
  "WakeUpBinlogSync E C sc rm w =
     map_option (\<lambda>(s, ms, q). (s, rm\<lparr>rm_sync_master_partitions := ms, rm_write_queues := q\<rparr>))
       (wake_masters E C sc (rm_sync_master_partitions rm) (rm_write_queues rm) w)"

text \<open>Time-outs of all partitions; the last component tells whether the state machine is to run again.\<close>

primrec timeout_masters ::
  "(string \<Rightarrow> int \<Rightarrow> WriteTask list \<Rightarrow> 'x \<Rightarrow> Status \<times> 'x) \<Rightarrow> u64 \<Rightarrow> ('c, 'n, 'h) SyncMasterPartition partition_map \<Rightarrow> write_queues \<Rightarrow> 'x
    \<Rightarrow> ('c, 'n, 'h) SyncMasterPartition partition_map \<times> write_queues \<times> 'x" where
  "timeout_masters send now [] q x = ([], q, x)"
| "timeout_masters send now (e # ms) q x =
     (case snd e of
        None \<Rightarrow> (case timeout_masters send now ms q x of (ms, q, x) \<Rightarrow> (e # ms, q, x))
      | Some sm \<Rightarrow>
          (case sm_CheckSyncTimeout send now sm q x of
             (_, sm, q, x) \<Rightarrow> (case timeout_masters send now ms q x of (ms, q, x) \<Rightarrow> ((fst e, Some sm) # ms, q, x))))"

definition rm_CheckSyncTimeout ::
  "(string \<Rightarrow> int \<Rightarrow> WriteTask list \<Rightarrow> 'x \<Rightarrow> Status \<times> 'x) \<Rightarrow> u64 \<Rightarrow> ('c, 'n, 'h) PikaReplicaManager \<Rightarrow> 'x
    \<Rightarrow> ('c, 'n, 'h) PikaReplicaManager \<times> 'x \<times> bool" where
  "rm_CheckSyncTimeout send now rm x =
     (case timeout_masters send now (rm_sync_master_partitions rm) (rm_write_queues rm) x of
        (ms, q, x) \<Rightarrow>
          let ss = rm_sync_slave_partitions rm
          in (rm\<lparr>rm_sync_master_partitions := ms, rm_write_queues := q,
                 rm_sync_slave_partitions := map (\<lambda>(p, s). (p, fst (ssp_CheckSyncTimeout now s))) ss\<rparr>,
              x, list_ex (\<lambda>(p, s). snd (ssp_CheckSyncTimeout now s)) ss))"

section \<open>Roles and information\<close>

definition not_found_partition :: "string \<Rightarrow> u32 \<Rightarrow> Status" where
  "not_found_partition table partition_id = NotFound (table @ dec_string (uint partition_id) @ '' not found'')"

text \<open>The role is a set of bits: 1 for a slave, 2 for a master.\<close>

definition CheckPartitionRole :: "string \<Rightarrow> u32 \<Rightarrow> ('c, 'n, 'h) PikaReplicaManager \<Rightarrow> (Status \<times> nat) option" where
  "CheckPartitionRole table partition_id rm =
     (let p_info = \<lparr>pi_table_name = table, pi_partition_id = partition_id\<rparr>
      in case has_master p_info rm of
           None \<Rightarrow> None
         | Some False \<Rightarrow> Some (not_found_partition table partition_id, 0)
         | Some True \<Rightarrow>
             (case GetSyncSlavePartitionByName p_info rm of
                None \<Rightarrow> Some (not_found_partition table partition_id, 0)
              | Some ss \<Rightarrow>
                  (case GetSyncMasterPartitionByName p_info rm of
                     Some (Some sm) \<Rightarrow>
                       Some (OK, (if GetNumberOfSlaveNode sm \<noteq> 0 \<or> GetNumberOfSlaveNode sm = 0 \<and> ssp_repl_state ss = kNoConnect
                                  then PIKA_ROLE_MASTER else 0)
                                 + (if ssp_repl_state ss \<noteq> kNoConnect then PIKA_ROLE_SLAVE else 0))
                   | _ \<Rightarrow> None)))"

definition GetPartitionInfo :: "'c coord_conf \<Rightarrow> string \<Rightarrow> u32 \<Rightarrow> ('c, 'n, 'h) PikaReplicaManager \<Rightarrow> string \<Rightarrow> (Status \<times> string) option" where
  "GetPartitionInfo cf table partition_id rm info =
     (let p_info = \<lparr>pi_table_name = table, pi_partition_id = partition_id\<rparr>
      in case CheckPartitionRole table partition_id rm of
           None \<Rightarrow> None
         | Some (s, role) \<Rightarrow>
             if \<not> ok s then Some (s, info)
             else (case (GetSyncMasterPartitionByName p_info rm, GetSyncSlavePartitionByName p_info rm) of
                     (Some (Some sm), Some ss) \<Rightarrow>
                       (case (if role AND PIKA_ROLE_MASTER \<noteq> 0 then sm_GetInfo cf sm info else (OK, info)) of
                          (s, info) \<Rightarrow>
                            if \<not> ok s then Some (s, info)
                            else let info = (if role AND PIKA_ROLE_MASTER \<noteq> 0 \<and> role AND PIKA_ROLE_SLAVE \<noteq> 0
                                             then info @ ''  -----------'' @ kNewLine else info);
                                     info = (if role AND PIKA_ROLE_SLAVE \<noteq> 0 then ssp_GetInfo ss info else info)
                                 in Some (OK, info @ kNewLine))
                   | _ \<Rightarrow> None))"

text \<open>\<^verbatim>\<open>SelectLocalIp\<close> connects to the other node; it is an argument.\<close>

definition ActivateSyncSlavePartition ::
  "(string \<Rightarrow> int \<Rightarrow> Status + string) \<Rightarrow> RmNode \<Rightarrow> ReplState \<Rightarrow> u64 \<Rightarrow> ('c, 'n, 'h) PikaReplicaManager
    \<Rightarrow> Status \<times> ('c, 'n, 'h) PikaReplicaManager" where
  "ActivateSyncSlavePartition select_local_ip node repl_state now rm =
     (let p_info = rn_partition_info node
      in case GetSyncSlavePartitionByName p_info rm of
           None \<Rightarrow> (NotFound (''Sync Slave partition '' @ RmNode_ToString node @ '' not found''), rm)
         | Some ss \<Rightarrow>
             if ssp_repl_state ss \<noteq> kNoConnect \<and> ssp_repl_state ss \<noteq> kDBNoConnect
             then (Corruption (''Sync Slave partition in '' @ ReplStateMsg (ssp_repl_state ss)), rm)
             else (case select_local_ip (rn_ip node) (rn_port node) of
                     Inl s \<Rightarrow> (s, rm)
                   | Inr local_ip \<Rightarrow> (OK, set_slave_partition p_info (Activate node repl_state now (ss\<lparr>ssp_local_ip := local_ip\<rparr>)) rm)))"

definition DeactivateSyncSlavePartition :: "PartitionInfo \<Rightarrow> ('c, 'n, 'h) PikaReplicaManager \<Rightarrow> Status \<times> ('c, 'n, 'h) PikaReplicaManager" where
  "DeactivateSyncSlavePartition p_info rm =
     (case GetSyncSlavePartitionByName p_info rm of
        None \<Rightarrow> (NotFound (''Sync Slave partition '' @ PartitionInfo_ToString p_info), rm)
      | Some ss \<Rightarrow> (OK, set_slave_partition p_info (Deactivate ss) rm))"

definition SyncTableSanityCheck :: "string \<Rightarrow> ('c, 'n, 'h) PikaReplicaManager \<Rightarrow> Status" where
  "SyncTableSanityCheck table_name rm =
     (case find (\<lambda>(p, sm). sm \<noteq> None \<and> pi_table_name p = table_name) (rm_sync_master_partitions rm) of
        Some (p, _) \<Rightarrow> Corruption (''sync partition '' @ PartitionInfo_ToString p @ '' exist'')
      | None \<Rightarrow>
          (case find (\<lambda>(p, ss). pi_table_name p = table_name) (rm_sync_slave_partitions rm) of
             Some (p, _) \<Rightarrow> Corruption (''sync partition '' @ PartitionInfo_ToString p @ '' exist'')
           | None \<Rightarrow> OK))"

definition DelSyncTable :: "'w dir_ops \<Rightarrow> 'c coord_conf \<Rightarrow> string \<Rightarrow> ('c, 'n, 'h) PikaReplicaManager \<Rightarrow> 'w \<Rightarrow> Status \<times> 'w" where
  "DelSyncTable R cf table_name rm w =
     (let s = SyncTableSanityCheck table_name rm
      in if \<not> ok s then (s, w)
         else let table_log_path = cf_log_path cf @ ''log_'' @ table_name; table_log_path_tmp = table_log_path @ ''_deleting/''
              in case do_rename R table_log_path table_log_path_tmp w of
                   (failed, w) \<Rightarrow>
                     if failed then (Corruption ''Failed to move log to trash'', w) else (OK, do_purge R table_log_path_tmp w))"

section \<open>Replicas of everything\<close>

definition add_slot :: "string \<Rightarrow> (string \<times> nat) list \<Rightarrow> (string \<times> nat) list" where
  "add_slot name m = AList.update name (case map_of m name of None \<Rightarrow> 1 | Some k \<Rightarrow> k + 1) m"

definition FindCompleteReplica :: "('c, 'n, 'h) PikaReplicaManager \<Rightarrow> string list" where
  "FindCompleteReplica rm =
     (let ms = rm_sync_master_partitions rm;
          replica_slotnum = fold (\<lambda>e. case snd e of None \<Rightarrow> id | Some sm \<Rightarrow> fold add_slot (GetValidSlaveNames sm)) ms []
      in map fst (filter (\<lambda>item. snd item = length ms) replica_slotnum))"

primrec common_master :: "(PartitionInfo \<times> SyncSlavePartition) list \<Rightarrow> string \<Rightarrow> int \<Rightarrow> (string \<times> int) option" where
  "common_master [] ip port = Some (ip, port)"
| "common_master (e # ss) ip port =
     (if ssp_repl_state (snd e) \<noteq> kConnected then None
      else let tmp_ip = rn_ip (ssp_m_info (snd e)); tmp_port = rn_port (ssp_m_info (snd e)); unset = (ip = [] \<and> port = 0);
               ip = (if unset then tmp_ip else ip); port = (if unset then tmp_port else port)
           in if tmp_ip \<noteq> ip \<or> tmp_port \<noteq> port then None else common_master ss ip port)"

definition FindCommonMaster :: "('c, 'n, 'h) PikaReplicaManager \<Rightarrow> string \<Rightarrow> string" where
  "FindCommonMaster rm master =
     (case common_master (rm_sync_slave_partitions rm) [] 0 of
        None \<Rightarrow> master
      | Some (ip, port) \<Rightarrow> if ip \<noteq> [] \<and> port \<noteq> 0 then ip @ '':'' @ dec_string port else master)"

section \<open>Access to the partitions\<close>

lemma PartitionMap_slot_put: "PartitionMap_put k v m = Some m' \<Longrightarrow> PartitionMap_slot k' m' = PartitionMap_slot k' m"
  by (auto simp: PartitionMap_put_def PartitionMap_slot_def nth_list_update split: option.splits if_splits)

lemma PartitionMap_get_put: "PartitionMap_put k v m = Some m' \<Longrightarrow> PartitionMap_get k m' = Some v"
proof -
  assume p: "PartitionMap_put k v m = Some m'"
  then obtain i where i: "PartitionMap_slot k m = Some i" "m' = m[i := (fst (m ! i), v)]" by (auto simp: PartitionMap_put_def)
  then have "i < length m" by (auto simp: PartitionMap_slot_def split: if_splits option.splits)
  then show ?thesis using PartitionMap_slot_put [OF p, of k] i by (simp add: PartitionMap_get_def)
qed

lemma PartitionMap_put_defined: "PartitionMap_get k m = Some v \<Longrightarrow> \<exists>m'. PartitionMap_put k v' m = Some m'"
  by (auto simp: PartitionMap_put_def PartitionMap_get_def)

lemma get_set_master:
  assumes "GetSyncMasterPartitionByName k rm = Some v"
  shows "GetSyncMasterPartitionByName k (set_master k sm rm) = Some (Some sm)"
    and "rm_sync_slave_partitions (set_master k sm rm) = rm_sync_slave_partitions rm"
    and "rm_write_queues (set_master k sm rm) = rm_write_queues rm"
proof -
  obtain m' where "PartitionMap_put k (Some sm) (rm_sync_master_partitions rm) = Some m'"
    using PartitionMap_put_defined [OF assms [unfolded GetSyncMasterPartitionByName_def]] by blast
  then show "GetSyncMasterPartitionByName k (set_master k sm rm) = Some (Some sm)"
    "rm_sync_slave_partitions (set_master k sm rm) = rm_sync_slave_partitions rm"
    "rm_write_queues (set_master k sm rm) = rm_write_queues rm"
    using PartitionMap_get_put by (simp_all add: set_master_def GetSyncMasterPartitionByName_def)
qed

lemma get_set_slave [simp]:
  "GetSyncSlavePartitionByName k (set_slave_partition k' s rm) = (if k = k' then Some s else GetSyncSlavePartitionByName k rm)"
  "GetSyncMasterPartitionByName k (set_slave_partition k' s rm) = GetSyncMasterPartitionByName k rm"
  by (simp_all add: GetSyncSlavePartitionByName_def GetSyncMasterPartitionByName_def set_slave_partition_def update_conv')

end
