(* ===== verification/Pika_Server.thy ===== *)
theory Pika_Server
  imports Pika_Replica Pika_Partition
begin

text \<open>
  The replication state of the server, its list of slaves, the transfer of data bases and the slow log:
  \<^verbatim>\<open>src/pika_server.cc\<close>. \<open>None\<close> stands for an abort, here mostly a failed assertion or a null pointer.
\<close>

section \<open>Role and state\<close>

datatype ServerState = PIKA_REPL_NO_CONNECT | PIKA_REPL_SHOULD_META_SYNC | PIKA_REPL_META_SYNC_DONE | PIKA_REPL_ERROR

record SlaveItem =
  si_ip_port :: string
  si_ip :: string
  si_port :: int
  si_conn_fd :: int
  si_table_structs :: "TableStruct list"

record SlowlogEntry =
  sl_id :: int
  sl_start_time :: int
  sl_duration :: int
  sl_argv :: "string list"

record PikaServer =
  ps_host :: string
  ps_master_ip :: string
  ps_master_port :: int
  ps_repl_state :: ServerState
  ps_role :: nat
  ps_last_meta_sync_timestamp :: int
  ps_first_meta_sync :: bool
  ps_loop_partition_state_machine :: bool
  ps_force_full_sync :: bool
  ps_slaves :: "SlaveItem list"
  ps_db_sync_slaves :: "string list"
  ps_slowlog_list :: "SlowlogEntry list"
  ps_slowlog_entry_id :: u64

definition repl_state_str :: "PikaServer \<Rightarrow> string" where
  "repl_state_str ps =
     (case ps_repl_state ps of
        PIKA_REPL_NO_CONNECT \<Rightarrow> ''no connect''
      | PIKA_REPL_SHOULD_META_SYNC \<Rightarrow> ''should meta sync''
      | PIKA_REPL_META_SYNC_DONE \<Rightarrow> ''meta sync done''
      | PIKA_REPL_ERROR \<Rightarrow> ''error'')"

text \<open>\<^verbatim>\<open>role &= ~bits\<close>.\<close>

definition clear_role :: "nat \<Rightarrow> nat \<Rightarrow> nat" where
  "clear_role bits role = role - (role AND bits)"

definition BecomeMaster :: "PikaServer \<Rightarrow> PikaServer" where
  "BecomeMaster ps = ps\<lparr>ps_role := ps_role ps OR PIKA_ROLE_MASTER\<rparr>"

definition SyncError :: "PikaServer \<Rightarrow> PikaServer" where
  "SyncError ps = ps\<lparr>ps_repl_state := PIKA_REPL_ERROR\<rparr>"

definition SetMaster :: "string \<Rightarrow> int \<Rightarrow> PikaServer \<Rightarrow> bool \<times> PikaServer" where
  "SetMaster master_ip master_port ps =
     (let master_ip = (if master_ip = ''127.0.0.1'' then ps_host ps else master_ip)
      in if ps_role ps XOR PIKA_ROLE_SLAVE \<noteq> 0 \<and> ps_repl_state ps = PIKA_REPL_NO_CONNECT
         then (True, ps\<lparr>ps_master_ip := master_ip, ps_master_port := master_port, ps_role := ps_role ps OR PIKA_ROLE_SLAVE,
                        ps_repl_state := PIKA_REPL_SHOULD_META_SYNC\<rparr>)
         else (False, ps))"

definition ShouldMetaSync :: "PikaServer \<Rightarrow> bool" where
  "ShouldMetaSync ps \<longleftrightarrow> ps_repl_state ps = PIKA_REPL_SHOULD_META_SYNC"

definition MetaSyncDone :: "PikaServer \<Rightarrow> bool" where
  "MetaSyncDone ps \<longleftrightarrow> ps_repl_state ps = PIKA_REPL_META_SYNC_DONE"

definition FinishMetaSync :: "PikaServer \<Rightarrow> PikaServer option" where
  "FinishMetaSync ps =
     (if ps_repl_state ps = PIKA_REPL_SHOULD_META_SYNC then Some (ps\<lparr>ps_repl_state := PIKA_REPL_META_SYNC_DONE\<rparr>) else None)"

definition SetLoopPartitionStateMachine :: "bool \<Rightarrow> PikaServer \<Rightarrow> PikaServer option" where
  "SetLoopPartitionStateMachine need_loop ps =
     (if ps_repl_state ps = PIKA_REPL_META_SYNC_DONE then Some (ps\<lparr>ps_loop_partition_state_machine := need_loop\<rparr>) else None)"

section \<open>The partitions of the tables\<close>

primrec slot_infos :: "string \<Rightarrow> (u32 \<times> 'd Partition option) list \<Rightarrow> PartitionInfo list option" where
  "slot_infos name [] = Some []"
| "slot_infos name (slot # slots) =
     (case snd slot of
        None \<Rightarrow> None
      | Some p \<Rightarrow> map_option (Cons \<lparr>pi_table_name = name, pi_partition_id = pt_partition_id p\<rparr>) (slot_infos name slots))"

primrec table_infos :: "'d Partition tables \<Rightarrow> PartitionInfo list option" where
  "table_infos [] = Some []"
| "table_infos (item # items) =
     (case snd item of
        None \<Rightarrow> table_infos items
      | Some t \<Rightarrow>
          (case slot_infos (tb_table_name t) (tb_partitions t) of
             None \<Rightarrow> None
           | Some ps \<Rightarrow> map_option ((@) ps) (table_infos items)))"

text \<open>\<^verbatim>\<open>DoSameThingEveryPartition\<close> for \<^verbatim>\<open>kResetReplState\<close>.\<close>

primrec reset_slaves :: "PartitionInfo list \<Rightarrow> ('c, 'n, 'h) PikaReplicaManager \<Rightarrow> ('c, 'n, 'h) PikaReplicaManager option" where
  "reset_slaves [] rm = Some rm"
| "reset_slaves (p # ps) rm =
     (case GetSyncSlavePartitionByName p rm of
        None \<Rightarrow> None
      | Some ss \<Rightarrow> reset_slaves ps (set_slave_partition p (SetReplState kNoConnect ss) rm))"

definition ResetReplStates :: "'d Partition tables \<Rightarrow> ('c, 'n, 'h) PikaReplicaManager \<Rightarrow> ('c, 'n, 'h) PikaReplicaManager option" where
  "ResetReplStates tables rm = (case table_infos tables of None \<Rightarrow> None | Some ps \<Rightarrow> reset_slaves ps rm)"

text \<open>
  \<^verbatim>\<open>RemoveMaster\<close> and \<^verbatim>\<open>ResetMetaSyncStatus\<close>. Closing the connection to the master is an action on the network; \<open>now\<close>
  is the time in seconds.
\<close>

definition RemoveMaster ::
  "(string \<Rightarrow> int \<Rightarrow> 'x \<Rightarrow> 'x) \<Rightarrow> int \<Rightarrow> 'd Partition tables \<Rightarrow> PikaServer \<Rightarrow> ('c, 'n, 'h) PikaReplicaManager \<Rightarrow> 'x
    \<Rightarrow> (PikaServer \<times> ('c, 'n, 'h) PikaReplicaManager \<times> 'x) option" where
  "RemoveMaster close_conn now tables ps rm x =
     (let ps = ps\<lparr>ps_repl_state := PIKA_REPL_NO_CONNECT, ps_role := clear_role PIKA_ROLE_SLAVE (ps_role ps)\<rparr>;
          (ps, rm, x) =
            (if ps_master_ip ps \<noteq> [] \<and> ps_master_port ps \<noteq> - 1
             then (ps\<lparr>ps_loop_partition_state_machine := False, ps_last_meta_sync_timestamp := now\<rparr>,
                   LostConnection (ps_master_ip ps) (ps_master_port ps) rm,
                   close_conn (ps_master_ip ps) (ps_master_port ps + kPortShiftReplServer) x)
             else (ps, rm, x))
      in map_option (\<lambda>rm. (ps\<lparr>ps_master_ip := [], ps_master_port := - 1\<rparr>, rm, x)) (ResetReplStates tables rm))"

definition ResetMetaSyncStatus ::
  "'d Partition tables \<Rightarrow> PikaServer \<Rightarrow> ('c, 'n, 'h) PikaReplicaManager \<Rightarrow> (PikaServer \<times> ('c, 'n, 'h) PikaReplicaManager) option" where
  "ResetMetaSyncStatus tables ps rm =
     (if ps_role ps AND PIKA_ROLE_SLAVE \<noteq> 0
      then map_option (\<lambda>rm. (ps\<lparr>ps_repl_state := PIKA_REPL_SHOULD_META_SYNC, ps_loop_partition_state_machine := False\<rparr>, rm))
             (ResetReplStates tables rm)
      else Some (ps, rm))"

definition PreparePartitionTrySync ::
  "(string \<Rightarrow> int \<Rightarrow> Status + string) \<Rightarrow> u64 \<Rightarrow> 'd Partition tables \<Rightarrow> PikaServer \<Rightarrow> ('c, 'n, 'h) PikaReplicaManager
    \<Rightarrow> (PikaServer \<times> ('c, 'n, 'h) PikaReplicaManager) option" where
  "PreparePartitionTrySync select_local_ip now tables ps rm =
     (let state = (if ps_force_full_sync ps then kTryDBSync else kTryConnect)
      in case table_infos tables of
           None \<Rightarrow> None
         | Some infos \<Rightarrow>
             Some (ps\<lparr>ps_force_full_sync := False, ps_loop_partition_state_machine := True\<rparr>,
                   fold (\<lambda>p rm. snd (ActivateSyncSlavePartition select_local_ip
                                      (RmNode_new (ps_master_ip ps) (ps_master_port ps) (pi_table_name p) (pi_partition_id p) 0) state now rm))
                     infos rm))"

text \<open>
  \<^verbatim>\<open>AllPartitionConnectSuccess\<close>: a partition that is not connected ends the loop over the table, one that is not
  found the whole function. The left alternative is that return.
\<close>

primrec slots_connected :: "('c, 'n, 'h) PikaReplicaManager \<Rightarrow> string \<Rightarrow> (u32 \<times> 'd Partition option) list \<Rightarrow> (unit + bool) option" where
  "slots_connected rm name [] = Some (Inr True)"
| "slots_connected rm name (slot # slots) =
     (case snd slot of
        None \<Rightarrow> None
      | Some p \<Rightarrow>
          (case GetSyncSlavePartitionByName \<lparr>pi_table_name = name, pi_partition_id = pt_partition_id p\<rparr> rm of
             None \<Rightarrow> Some (Inl ())
           | Some ss \<Rightarrow> if ssp_repl_state ss \<noteq> kConnected then Some (Inr False) else slots_connected rm name slots))"

primrec tables_connected :: "('c, 'n, 'h) PikaReplicaManager \<Rightarrow> 'd Partition tables \<Rightarrow> bool \<Rightarrow> bool option" where
  "tables_connected rm [] all_success = Some all_success"
| "tables_connected rm (item # items) all_success =
     (case snd item of
        None \<Rightarrow> tables_connected rm items all_success
      | Some t \<Rightarrow>
          (case slots_connected rm (tb_table_name t) (tb_partitions t) of
             None \<Rightarrow> None
           | Some (Inl _) \<Rightarrow> Some False
           | Some (Inr c) \<Rightarrow> tables_connected rm items (all_success \<and> c)))"

definition AllPartitionConnectSuccess :: "'d Partition tables \<Rightarrow> ('c, 'n, 'h) PikaReplicaManager \<Rightarrow> bool option" where
  "AllPartitionConnectSuccess tables rm = tables_connected rm tables True"

section \<open>Slaves\<close>

definition TryAddSlave :: "(string \<Rightarrow> int \<Rightarrow> string) \<Rightarrow> string \<Rightarrow> int \<Rightarrow> int \<Rightarrow> TableStruct list \<Rightarrow> PikaServer \<Rightarrow> bool \<times> PikaServer" where
  "TryAddSlave IpPortString ip port fd table_structs ps =
     (let ip_port = IpPortString ip port
      in if \<exists>s\<in>set (ps_slaves ps). si_ip_port s = ip_port then (False, ps)
         else (True, ps\<lparr>ps_slaves := ps_slaves ps @ [\<lparr>si_ip_port = ip_port, si_ip = ip, si_port = port, si_conn_fd = fd,
                                                    si_table_structs = table_structs\<rparr>]\<rparr>))"

fun remove_conn :: "int \<Rightarrow> SlaveItem list \<Rightarrow> SlaveItem option \<times> SlaveItem list" where
  "remove_conn fd [] = (None, [])"
| "remove_conn fd (s # ss) = (if si_conn_fd s = fd then (Some s, ss) else apsnd (Cons s) (remove_conn fd ss))"

definition DeleteSlave :: "int \<Rightarrow> PikaServer \<Rightarrow> ('c, 'n, 'h) PikaReplicaManager \<Rightarrow> PikaServer \<times> ('c, 'n, 'h) PikaReplicaManager" where
  "DeleteSlave fd ps rm =
     (case remove_conn fd (ps_slaves ps) of
        (found, slaves) \<Rightarrow>
          let ps = ps\<lparr>ps_slaves := slaves\<rparr>;
              rm = (case found of
                      None \<Rightarrow> rm
                    | Some s \<Rightarrow>
                        let rm = LostConnection (si_ip s) (si_port s) rm
                        in rm\<lparr>rm_write_queues := DropItemInWriteQueue (si_ip s) (si_port s) (rm_write_queues rm)\<rparr>)
          in (if slaves = [] then ps\<lparr>ps_role := clear_role PIKA_ROLE_MASTER (ps_role ps)\<rparr> else ps, rm))"

section \<open>What a client may do\<close>

text \<open>\<open>distribute\<close> is \<^verbatim>\<open>DistributeKey\<close> of the command table manager in the thread of the caller.\<close>

definition readonly ::
  "bool \<Rightarrow> bool \<Rightarrow> (string \<Rightarrow> u32 \<Rightarrow> u32 option) \<Rightarrow> string \<Rightarrow> string \<Rightarrow> 'd Partition tables \<Rightarrow> PikaServer \<Rightarrow> ('c, 'n, 'h) PikaReplicaManager
    \<Rightarrow> bool option" where
  "readonly slave_read_only classic_mode distribute table_name key tables ps rm =
     (if ps_role ps AND PIKA_ROLE_SLAVE \<noteq> 0 \<and> slave_read_only then Some True
      else if \<not> classic_mode
      then (case GetTable table_name tables of
              None \<Rightarrow> None
            | Some None \<Rightarrow> Some False
            | Some (Some t) \<Rightarrow>
                (case distribute key (tb_partition_num t) of
                   None \<Rightarrow> None
                 | Some index \<Rightarrow>
                     (case CheckPartitionRole table_name index rm of
                        None \<Rightarrow> None
                      | Some (s, role) \<Rightarrow> Some (ok s \<and> role AND PIKA_ROLE_SLAVE \<noteq> 0))))
      else Some False)"

definition ConsensusCheck ::
  "'c coord_conf \<Rightarrow> (string \<Rightarrow> u32 \<Rightarrow> u32 option) \<Rightarrow> string \<Rightarrow> string \<Rightarrow> 'd Partition tables \<Rightarrow> ('c, 'n, 'h) PikaReplicaManager \<Rightarrow> bool option" where
  "ConsensusCheck cf distribute table_name key tables rm =
     (if cf_consensus_level cf \<noteq> 0
      then (case GetTable table_name tables of
              None \<Rightarrow> None
            | Some None \<Rightarrow> Some False
            | Some (Some t) \<Rightarrow>
                (case distribute key (tb_partition_num t) of
                   None \<Rightarrow> None
                 | Some index \<Rightarrow>
                     (case GetSyncMasterPartitionByName \<lparr>pi_table_name = table_name, pi_partition_id = index\<rparr> rm of
                        None \<Rightarrow> None
                      | Some None \<Rightarrow> Some False
                      | Some (Some sm) \<Rightarrow> Some (ok (CheckEnoughFollower cf (sm_coordinator sm))))))
      else Some True)"

definition GetTablePartitionBinlogOffset :: "string \<Rightarrow> u32 \<Rightarrow> ('c, 'n, 'h) PikaReplicaManager \<Rightarrow> BinlogOffset option option" where
  "GetTablePartitionBinlogOffset table_name partition_id rm =
     (case GetSyncMasterPartitionByName \<lparr>pi_table_name = table_name, pi_partition_id = partition_id\<rparr> rm of
        None \<Rightarrow> None
      | Some None \<Rightarrow> Some None
      | Some (Some sm) \<Rightarrow>
          (case Binlog_GetProducerStatus (sm_logger sm) of
             (_, None) \<Rightarrow> Some None
           | (_, Some (filenum, offset, _, _)) \<Rightarrow> Some (Some (BinlogOffset filenum offset))))"

section \<open>Taking over a copied data base\<close>

definition set_slave_state :: "PartitionInfo \<Rightarrow> ReplState \<Rightarrow> ('c, 'n, 'h) PikaReplicaManager \<Rightarrow> ('c, 'n, 'h) PikaReplicaManager" where
  "set_slave_state p_info state rm =
     (case GetSyncSlavePartitionByName p_info rm of None \<Rightarrow> rm | Some ss \<Rightarrow> set_slave_partition p_info (SetReplState state ss) rm)"

definition kBgsaveInfoFile :: string where "kBgsaveInfoFile = ''info''"

text \<open>Moving the log to the offset of the copy; the status is not looked at.\<close>

definition move_log ::
  "('w, 'e) slash_env \<Rightarrow> 'c coord_conf \<Rightarrow> dbsync_info \<Rightarrow> ('c, 'n, 'h) ConsensusCoordinator \<Rightarrow> 'w
    \<Rightarrow> (('c, 'n, 'h) ConsensusCoordinator \<times> 'w) option" where
  "move_log E cf i cc w =
     (if cf_consensus_level cf \<noteq> 0
      then map_option snd
             (Coordinator_Reset E \<lparr>b_offset = BinlogOffset (of_int (di_filenum i)) (of_int (di_offset i)),
                                   l_offset = \<lparr>lo_term = of_int (di_term i), lo_index = of_int (di_index i)\<rparr>\<rparr> cc w)
      else map_option (\<lambda>(_, b, w). (cc\<lparr>cc_stable_logger := (cc_stable_logger cc)\<lparr>sl_stable_logger := b\<rparr>\<rparr>, w))
             (Binlog_SetProducerStatus E (of_int (di_filenum i)) (of_int (di_offset i)) 0 0 (sl_stable_logger (cc_stable_logger cc)) w))"

text \<open>
  \<^verbatim>\<open>Partition::TryUpdateMasterOffset\<close>. \<open>open_info\<close> opens the info file and gives its text.
\<close>

definition TryUpdateMasterOffset ::
  "('w, 'e) slash_env \<Rightarrow> ('w, 'd) partition_env \<Rightarrow> (string \<Rightarrow> 'w \<Rightarrow> string option) \<Rightarrow> (string \<Rightarrow> int option) \<Rightarrow> 'c coord_conf
    \<Rightarrow> 'd Partition \<Rightarrow> ('c, 'n, 'h) PikaReplicaManager \<Rightarrow> 'w \<Rightarrow> (bool \<times> 'd Partition \<times> ('c, 'n, 'h) PikaReplicaManager \<times> 'w) option" where
  "TryUpdateMasterOffset E X open_info string2l cf p rm w =
     (let info_path = pt_dbsync_path p @ kBgsaveInfoFile;
          p_info = \<lparr>pi_table_name = pt_table_name p, pi_partition_id = pt_partition_id p\<rparr>;
          fail = (\<lambda>p w. Some (False, p, set_slave_state p_info kError rm, w))
      in if \<not> env_FileExists E info_path w then Some (False, p, rm, w)
         else case GetSyncSlavePartitionByName p_info rm of
                None \<Rightarrow> Some (False, p, rm, w)
              | Some ss \<Rightarrow>
                  (case open_info info_path w of
                     None \<Rightarrow> fail p w
                   | Some content \<Rightarrow>
                       (case info_loop string2l 0 (getlines content) dbsync_info0 of
                          None \<Rightarrow> fail p w
                        | Some i \<Rightarrow>
                            if di_master_ip i \<noteq> rn_ip (ssp_m_info ss) \<or> di_master_port i \<noteq> rn_port (ssp_m_info ss) then fail p w
                            else let (_, w) = env_DeleteFile E info_path w
                                 in case ChangeDb X (pt_dbsync_path p) p w of
                                      None \<Rightarrow> None
                                    | Some (changed, p, w) \<Rightarrow>
                                        if \<not> changed then fail p w
                                        else (case GetSyncMasterPartitionByName p_info rm of
                                                None \<Rightarrow> None
                                              | Some None \<Rightarrow> Some (False, p, rm, w)
                                              | Some (Some sm) \<Rightarrow>
                                                  map_option (\<lambda>(cc, w). (True, p, set_slave_state p_info kTryConnect
                                                                (set_master p_info (sm\<lparr>sm_coordinator := cc\<rparr>) rm), w))
                                                    (move_log E cf i (sm_coordinator sm) w)))))"

section \<open>Sending the data base\<close>

definition kDBSyncMaxGap :: u32 where "kDBSyncMaxGap = 50"

text \<open>\<^verbatim>\<open>snprintf\<close> into 256 bytes: the strings end at a NUL, and at most 255 characters are kept.\<close>

definition c_str :: "string \<Rightarrow> string" where
  "c_str s = takeWhile (\<lambda>c. c \<noteq> CHR 0x00) s"

definition DbSyncTaskIndex :: "string \<Rightarrow> int \<Rightarrow> string \<Rightarrow> u32 \<Rightarrow> string" where
  "DbSyncTaskIndex ip port table_name partition_id =
     take 255 (c_str ip @ '':'' @ dec_string port @ ''_'' @ c_str table_name @ '':'' @ dec_string (sint (ucast partition_id :: i32)))"

text \<open>\<^verbatim>\<open>DBSync\<close>: \<open>True\<close> when a task is scheduled.\<close>

definition DBSync :: "string \<Rightarrow> int \<Rightarrow> string \<Rightarrow> u32 \<Rightarrow> PikaServer \<Rightarrow> bool \<times> PikaServer" where
  "DBSync ip port table_name partition_id ps =
     (let task_index = DbSyncTaskIndex ip port table_name partition_id
      in if task_index \<in> set (ps_db_sync_slaves ps) then (False, ps)
         else (True, ps\<lparr>ps_db_sync_slaves := List.insert task_index (ps_db_sync_slaves ps)\<rparr>))"

text \<open>
  \<^verbatim>\<open>TryDBSync\<close> on the partition the tables have, if any. The results are whether a save and whether a transfer is
  scheduled.
\<close>

definition TryDBSync ::
  "('w, 'e) slash_env \<Rightarrow> (string \<Rightarrow> 'w \<Rightarrow> bool) \<Rightarrow> string \<Rightarrow> int \<Rightarrow> string \<Rightarrow> u32 \<Rightarrow> i32 \<Rightarrow> 'd Partition option
    \<Rightarrow> ('c, 'n, 'h) PikaReplicaManager \<Rightarrow> PikaServer \<Rightarrow> 'w \<Rightarrow> (bool \<times> bool \<times> 'd Partition option \<times> PikaServer) option" where
  "TryDBSync E is_dir ip port table_name partition_id top_filenum pt rm ps w =
     (case pt of
        None \<Rightarrow> Some (False, False, None, ps)
      | Some p \<Rightarrow>
          (case GetSyncMasterPartitionByName \<lparr>pi_table_name = table_name, pi_partition_id = partition_id\<rparr> rm of
             Some (Some sm) \<Rightarrow>
               let info = pt_bgsave_info p; filenum = bo_filenum (b_offset (bs_offset info));
                   (save, p) =
                     (if \<not> is_dir (bs_path info) w \<or> \<not> env_FileExists E (NewFileName (bl_filename (sm_logger sm)) filenum) w
                         \<or> (ucast top_filenum :: u32) - filenum > kDBSyncMaxGap
                      then BgSavePartition p else (False, p));
                   (send, ps) = DBSync ip port table_name partition_id ps
               in Some (save, send, Some p, ps)
           | _ \<Rightarrow> None))"

text \<open>
  \<^verbatim>\<open>DbSyncSendFile\<close>. The file transfer is rsync's: sending a file gives 0 for success; \<open>ry_local_ip\<close> is the address
  the connection to the slave has on this side, if it can be opened.
\<close>

record 'x rsync_env =
  ry_GetChildren :: "string \<Rightarrow> 'x \<Rightarrow> int \<times> string list"
  ry_IsDir :: "string \<Rightarrow> 'x \<Rightarrow> bool"
  ry_SendFile :: "string \<Rightarrow> string \<Rightarrow> 'x \<Rightarrow> int \<times> 'x"
  ry_SendClearTarget :: "string \<Rightarrow> string \<Rightarrow> 'x \<Rightarrow> 'x"
  ry_local_ip :: "'x \<Rightarrow> string option"
  ry_write_file :: "string \<Rightarrow> string \<Rightarrow> 'x \<Rightarrow> 'x"
  ry_DeleteFile :: "string \<Rightarrow> 'x \<Rightarrow> 'x"
  ry_time :: "'x \<Rightarrow> int"

primrec send_files :: "'x rsync_env \<Rightarrow> string \<Rightarrow> string \<Rightarrow> string list \<Rightarrow> int \<Rightarrow> 'x \<Rightarrow> int \<times> 'x" where
  "send_files Y bg_path remote_path [] ret x = (ret, x)"
| "send_files Y bg_path remote_path (f # fs) ret x =
     (if f = kBgsaveInfoFile then send_files Y bg_path remote_path fs ret x
      else let local_path = bg_path @ ''/'' @ f; target_path = remote_path @ ''/'' @ f;
               dir = (ry_IsDir Y local_path x \<and> last local_path \<noteq> CHR ''/'');
               (ret, x) = ry_SendFile Y (if dir then local_path @ ''/'' else local_path) (if dir then target_path @ ''/'' else target_path) x
           in if ret \<noteq> 0 then (ret, x) else send_files Y bg_path remote_path fs ret x)"

definition clear_targets :: "'x rsync_env \<Rightarrow> string \<Rightarrow> string \<Rightarrow> 'x \<Rightarrow> 'x" where
  "clear_targets Y bg_path remote_path x =
     fold (\<lambda>d. ry_SendClearTarget Y (bg_path @ d) (remote_path @ d)) [''/strings'', ''/hashes'', ''/lists'', ''/sets'', ''/zsets''] x"

definition send_info :: "'x rsync_env \<Rightarrow> partition_conf \<Rightarrow> string \<Rightarrow> string \<Rightarrow> LogOffset \<Rightarrow> 'x \<Rightarrow> 'x" where
  "send_info Y cf bg_path remote_path offset x =
     (let lip = (case ry_local_ip Y x of None \<Rightarrow> pc_host cf | Some ip \<Rightarrow> ip)
      in if lip \<noteq> pc_host cf
         then let fn = bg_path @ ''/'' @ kBgsaveInfoFile @ ''.'' @ dec_string (ry_time Y x);
                  x = ry_write_file Y fn (info_text (cf\<lparr>pc_host := lip\<rparr>) 0 offset) x;
                  (_, x) = ry_SendFile Y fn (remote_path @ ''/'' @ kBgsaveInfoFile) x
              in ry_DeleteFile Y fn x
         else snd (ry_SendFile Y (bg_path @ ''/'' @ kBgsaveInfoFile) (remote_path @ ''/'' @ kBgsaveInfoFile) x))"

definition DbSyncSendFile ::
  "'x rsync_env \<Rightarrow> (string \<Rightarrow> int \<Rightarrow> string) \<Rightarrow> partition_conf \<Rightarrow> string \<Rightarrow> int \<Rightarrow> string \<Rightarrow> u32 \<Rightarrow> 'd Partition option \<Rightarrow> PikaServer \<Rightarrow> 'x
    \<Rightarrow> PikaServer \<times> 'x" where
  "DbSyncSendFile Y IpPortString cf ip port table_name partition_id pt ps x =
     (case pt of
        None \<Rightarrow> (ps, x)
      | Some p \<Rightarrow>
          let bg_path = bs_path (pt_bgsave_info p); (ret, descendant) = ry_GetChildren Y bg_path x
          in if ret \<noteq> 0 then (ps\<lparr>ps_db_sync_slaves := removeAll (IpPortString ip port) (ps_db_sync_slaves ps)\<rparr>, x)
             else let remote_path = (if pc_classic_mode cf then table_name else table_name @ ''/'' @ dec_string (uint partition_id));
                      (ret, x) = send_files Y bg_path remote_path descendant 0 x;
                      x = clear_targets Y bg_path remote_path x;
                      x = (if ret = 0 then send_info Y cf bg_path remote_path (bs_offset (pt_bgsave_info p)) x else x)
                  in (ps\<lparr>ps_db_sync_slaves := removeAll (DbSyncTaskIndex ip port table_name partition_id) (ps_db_sync_slaves ps)\<rparr>, x))"

section \<open>The slow log\<close>

definition SLOWLOG_ENTRY_MAX_ARGC :: nat where "SLOWLOG_ENTRY_MAX_ARGC = 32"

definition SLOWLOG_ENTRY_MAX_STRING :: nat where "SLOWLOG_ENTRY_MAX_STRING = 128"

text \<open>The limit is an \<^verbatim>\<open>int\<close>, compared as an unsigned number of 32 bits.\<close>

definition SlowlogTrim :: "i32 \<Rightarrow> PikaServer \<Rightarrow> PikaServer" where
  "SlowlogTrim slowlog_max_len ps = ps\<lparr>ps_slowlog_list := take (unat (ucast slowlog_max_len :: u32)) (ps_slowlog_list ps)\<rparr>"

definition SlowlogReset :: "PikaServer \<Rightarrow> PikaServer" where
  "SlowlogReset ps = ps\<lparr>ps_slowlog_list := []\<rparr>"

definition SlowlogLen :: "PikaServer \<Rightarrow> u32" where
  "SlowlogLen ps = of_nat (length (ps_slowlog_list ps))"

text \<open>\<^verbatim>\<open>while (number-- && ...)\<close>: a negative number never reaches 0 before the list ends.\<close>

definition SlowlogObtain :: "int \<Rightarrow> PikaServer \<Rightarrow> SlowlogEntry list" where
  "SlowlogObtain number ps = (if number < 0 then ps_slowlog_list ps else take (nat number) (ps_slowlog_list ps))"

definition brief_arg :: "string \<Rightarrow> string" where
  "brief_arg arg =
     (if length arg > SLOWLOG_ENTRY_MAX_STRING
      then take SLOWLOG_ENTRY_MAX_STRING arg @ ''... ('' @ dec_string (int (length arg - SLOWLOG_ENTRY_MAX_STRING)) @ '' more bytes)''
      else arg)"

definition slowlog_args :: "string list \<Rightarrow> string list" where
  "slowlog_args argv =
     (let slargc = (if length argv < SLOWLOG_ENTRY_MAX_ARGC then length argv else SLOWLOG_ENTRY_MAX_ARGC)
      in map (\<lambda>idx. if slargc \<noteq> length argv \<and> idx = slargc - 1
                    then ''... ('' @ dec_string (int (length argv - slargc + 1)) @ '' more arguments)''
                    else brief_arg (argv ! idx)) [0..<slargc])"

definition SlowlogPushEntry :: "i32 \<Rightarrow> string list \<Rightarrow> int \<Rightarrow> int \<Rightarrow> PikaServer \<Rightarrow> PikaServer" where
  "SlowlogPushEntry slowlog_max_len argv time duration ps =
     (let entry = \<lparr>sl_id = sint (ps_slowlog_entry_id ps), sl_start_time = time, sl_duration = duration, sl_argv = slowlog_args argv\<rparr>
      in SlowlogTrim slowlog_max_len
           (ps\<lparr>ps_slowlog_entry_id := ps_slowlog_entry_id ps + 1, ps_slowlog_list := entry # ps_slowlog_list ps\<rparr>))"

section \<open>Properties of the slow log\<close>

definition slowlog_entry :: "u64 \<Rightarrow> string list \<times> int \<times> int \<Rightarrow> SlowlogEntry" where
  "slowlog_entry i e = \<lparr>sl_id = sint i, sl_start_time = fst (snd e), sl_duration = snd (snd e), sl_argv = slowlog_args (fst e)\<rparr>"

definition push_all :: "i32 \<Rightarrow> (string list \<times> int \<times> int) list \<Rightarrow> PikaServer \<Rightarrow> PikaServer" where
  "push_all m es ps = fold (\<lambda>e. SlowlogPushEntry m (fst e) (fst (snd e)) (snd (snd e))) es ps"

primrec slowlog_entries :: "u64 \<Rightarrow> (string list \<times> int \<times> int) list \<Rightarrow> SlowlogEntry list" where
  "slowlog_entries i [] = []"
| "slowlog_entries i (e # es) = slowlog_entry i e # slowlog_entries (i + 1) es"

lemma slowlog_entries_argv: "x \<in> set (slowlog_entries i es) \<Longrightarrow> \<exists>e\<in>set es. sl_argv x = slowlog_args (fst e)"
  by (induction es arbitrary: i) (auto simp: slowlog_entry_def)

lemma push_all_list:
  fixes m :: i32
  defines "k \<equiv> unat (ucast m :: u32)"
  assumes "length (ps_slowlog_list ps) \<le> k"
  shows "ps_slowlog_list (push_all m es ps) = take k (rev (slowlog_entries (ps_slowlog_entry_id ps) es) @ ps_slowlog_list ps)"
  using assms(2)
proof (induction es arbitrary: ps)
  case (Cons e es)
  let ?ps = "SlowlogPushEntry m (fst e) (fst (snd e)) (snd (snd e)) ps"
  have l: "ps_slowlog_list ?ps = take k (slowlog_entry (ps_slowlog_entry_id ps) e # ps_slowlog_list ps)"
    and i: "ps_slowlog_entry_id ?ps = ps_slowlog_entry_id ps + 1"
    by (simp_all add: SlowlogPushEntry_def SlowlogTrim_def slowlog_entry_def k_def Let_def)
  have tk: "take k (xs @ take k ys) = take k (xs @ ys)" for xs ys :: "SlowlogEntry list"
    by (simp add: min_def)
  have "push_all m (e # es) ps = push_all m es ?ps" by (simp add: push_all_def)
  then show ?case using Cons.IH [of ?ps] unfolding l i by (simp only: tk) simp
qed (simp add: push_all_def)

lemma length_slowlog_args: "length (slowlog_args argv) = min (length argv) 32"
  by (simp add: slowlog_args_def SLOWLOG_ENTRY_MAX_ARGC_def Let_def)

lemma slowlog_args_short:
  assumes "length argv \<le> 32" and "\<forall>a\<in>set argv. length a \<le> 128"
  shows "slowlog_args argv = argv"
proof -
  have b: "brief_arg (argv ! idx) = argv ! idx" if "idx < length argv" for idx
    using assms(2) nth_mem [OF that] by (simp add: brief_arg_def SLOWLOG_ENTRY_MAX_STRING_def not_less)
  have n: "(if length argv < SLOWLOG_ENTRY_MAX_ARGC then length argv else SLOWLOG_ENTRY_MAX_ARGC) = length argv"
    using assms(1) by (simp add: SLOWLOG_ENTRY_MAX_ARGC_def)
  have "slowlog_args argv = map (\<lambda>idx. brief_arg (argv ! idx)) [0..<length argv]"
    by (simp add: slowlog_args_def n)
  also have "\<dots> = map ((!) argv) [0..<length argv]" using b by (intro map_cong) auto
  finally show ?thesis by (simp add: map_nth)
qed

text \<open>
  After any entries have been pushed on an empty slow log it holds the latest of them, the newest first, as many
  as the limit allows (read as an unsigned number of 32 bits), with consecutive ids. An entry never has more
  than 32 arguments, and a command of at most 32 arguments of at most 128 bytes each is kept as it is.
\<close>

theorem slowlog_keeps_latest:
  assumes "ps_slowlog_list ps = []"
  shows "ps_slowlog_list (push_all slowlog_max_len es ps) =
      take (unat (ucast slowlog_max_len :: u32))
        (rev (slowlog_entries (ps_slowlog_entry_id ps) es))
    \<and> (\<forall>e\<in>set (ps_slowlog_list (push_all slowlog_max_len es ps)). length (sl_argv e) \<le> 32)
    \<and> (length argv \<le> 32 \<and> (\<forall>a\<in>set argv. length a \<le> 128) \<longrightarrow> sl_argv (slowlog_entry i (argv, start_time, duration)) = argv)"
proof (intro conjI)
  let ?l = "rev (slowlog_entries (ps_slowlog_entry_id ps) es)"
  show l: "ps_slowlog_list (push_all slowlog_max_len es ps) = take (unat (ucast slowlog_max_len :: u32)) ?l"
    using push_all_list [of ps slowlog_max_len es] assms by simp
  show "\<forall>e\<in>set (ps_slowlog_list (push_all slowlog_max_len es ps)). length (sl_argv e) \<le> 32"
    unfolding l by (auto dest!: in_set_takeD slowlog_entries_argv simp: length_slowlog_args)
qed (simp add: slowlog_args_short slowlog_entry_def)

section \<open>Properties of the transfer\<close>

lemma DBSync_again: "DbSyncTaskIndex ip port t i \<in> set (ps_db_sync_slaves ps) \<longleftrightarrow> \<not> fst (DBSync ip port t i ps)"
  by (simp add: DBSync_def Let_def)

lemma task_index_not_ip_port:
  assumes "CHR 0x00 \<notin> set ip" and "length (ip @ '':'' @ dec_string port) < 255"
  shows "DbSyncTaskIndex ip port t i \<noteq> ip @ '':'' @ dec_string port"
proof
  have c: "c_str ip = ip" using assms(1) by (auto simp: c_str_def takeWhile_eq_all_conv)
  assume "DbSyncTaskIndex ip port t i = ip @ '':'' @ dec_string port"
  then have "length (DbSyncTaskIndex ip port t i) = length (ip @ '':'' @ dec_string port)" by simp
  then show False using assms(2) by (simp add: DbSyncTaskIndex_def c)
qed

text \<open>
  C39: The transfer that a first \<^verbatim>\<open>DBSync\<close> schedules lets a slave ask for another one afterwards exactly if the
  directory of the backup could be read. If it could not, the task is left in the set of running ones, and
  every later request of that slave for the partition is dropped: what is erased is the address, not the task.
\<close>

theorem db_sync_task_released_iff:
  assumes "DBSync ip port t i ps = (True, ps1)" and "DbSyncSendFile Y IpPortString cf ip port t i (Some p) ps1 x = (ps2, x')"
    and "IpPortString ip port = ip @ '':'' @ dec_string port" and "CHR 0x00 \<notin> set ip" and "length (ip @ '':'' @ dec_string port) < 255"
  shows "fst (DBSync ip port t i ps2) \<longleftrightarrow> fst (ry_GetChildren Y (bs_path (pt_bgsave_info p)) x) = 0"
proof -
  have "DbSyncTaskIndex ip port t i \<in> set (ps_db_sync_slaves ps1)"
    using assms(1) by (auto simp: DBSync_def Let_def split: if_splits)
  then have "DbSyncTaskIndex ip port t i \<in> set (ps_db_sync_slaves ps2) \<longleftrightarrow> fst (ry_GetChildren Y (bs_path (pt_bgsave_info p)) x) \<noteq> 0"
    using assms(2) task_index_not_ip_port [OF assms(4,5), of t i]
    by (auto simp: DbSyncSendFile_def assms(3) Let_def split: prod.splits if_splits)
  then show ?thesis unfolding DBSync_again by blast
qed

section \<open>Taking over the offset of a copy\<close>

lemma set_slave_state_get:
  assumes "GetSyncSlavePartitionByName p rm = Some ss" and "state \<noteq> kNoConnect"
  shows "GetSyncSlavePartitionByName p (set_slave_state p state rm) = Some (ss\<lparr>ssp_repl_state := state\<rparr>)"
    and "GetSyncMasterPartitionByName p (set_slave_state p state rm) = GetSyncMasterPartitionByName p rm"
  using assms by (simp_all add: set_slave_state_def SetReplState_def)

lemma uint_less_63: "unat (x :: u64) < 2 ^ 31 \<Longrightarrow> uint x < 2 ^ 63"
proof -
  assume "unat x < 2 ^ 31"
  then have "nat (uint x) < 2147483648" by (simp only: unat_eq_nat_uint) simp
  then have "uint x < 9223372036854775808" by linarith
  then show ?thesis by simp
qed

lemma info_text_plain:
  assumes "pc_consensus_level cf = 0"
  shows "info_text cf seconds offset = info_text cf seconds (offset\<lparr>l_offset := LogicOffset0\<rparr>)"
  using assms by (simp add: info_text_def)

text \<open>
  C20: When a copy of the data base has arrived, the info file the master's save wrote names the slave's master,
  and the data base could be exchanged, \<^verbatim>\<open>TryUpdateMasterOffset\<close> succeeds: the log of the slave
  then ends at the offset of the save (less the bytes of its last block when they are too few for a
  record), it satisfies its invariant, and the partition tries to connect again.
\<close>

theorem db_sync_hands_over_offset:
  assumes "slash_fs E fs hpos" and "disk_ok E fs" and "slash_numbers ll2string string2l"
    and "p_info = \<lparr>pi_table_name = pt_table_name p, pi_partition_id = pt_partition_id p\<rparr>" and "info_path = pt_dbsync_path p @ kBgsaveInfoFile"
    and "env_FileExists E info_path w" and "open_info info_path w = Some (info_text pcf seconds offset)"
    and "CHR 0x0A \<notin> set (pc_host pcf)" and "0 \<le> pc_port pcf" and "pc_port pcf < 2 ^ 63" and "pc_consensus_level pcf = 0" and "cf_consensus_level cf = 0"
    and "GetSyncSlavePartitionByName p_info rm = Some ss" and "rn_ip (ssp_m_info ss) = pc_host pcf" and "rn_port (ssp_m_info ss) = pc_port pcf"
    and "env_DeleteFile E info_path w = (s1, w1)" and "ChangeDb X (pt_dbsync_path p) p w1 = Some (True, p1, w2)"
    and "GetSyncMasterPartitionByName p_info rm = Some (Some sm)" and "binlog_ok E fs (sm_logger sm) w2"
    and "env_RWData E (NewFileName (bl_filename (sm_logger sm)) 0) w2 = None
      \<and> env_RWData E (NewFileName (bl_filename (sm_logger sm)) (bo_filenum (b_offset offset))) w2 = None"
    and "unat (bo_offset (b_offset offset)) < 2 ^ 31" and "bo_offset (b_offset offset) < 4 \<or> kHeaderSize \<le> unat (bo_offset (b_offset offset))"
    and "TryUpdateMasterOffset E X open_info string2l cf p rm w = Some (r, p', rm', w')"
  shows "r \<and> p' = p1 \<and> GetSyncSlavePartitionByName p_info rm' = Some (ss\<lparr>ssp_repl_state := kTryConnect\<rparr>)
    \<and> (\<exists>sm'. GetSyncMasterPartitionByName p_info rm' = Some (Some sm') \<and> binlog_ok E fs (sm_logger sm') w'
        \<and> Binlog_GetProducerStatus (sm_logger sm') = (OK, Some (bo_filenum (b_offset offset), of_nat (set_file_length (bo_offset (b_offset offset))), 0, 0)))"
proof -
  let ?off = "offset\<lparr>l_offset := LogicOffset0\<rparr>" and ?f = "bo_filenum (b_offset offset)" and ?o = "bo_offset (b_offset offset)"
  have "info_loop string2l 0 (getlines (info_text pcf seconds ?off)) dbsync_info0 = Some (info_of pcf ?off)"
    by (intro info_loop_text [OF assms(3,8-10)]) (use uint_less_63 [OF assms(21)] in \<open>simp_all add: LogicOffset0_def\<close>)
  note i = this [folded info_text_plain [OF assms(11), of seconds offset]]
  from i assms(6,7,13-18,23) obtain cc where
    m: "move_log E cf (info_of pcf ?off) (sm_coordinator sm) w2 = Some (cc, w')" and r: "r" "p' = p1"
      "rm' = set_slave_state p_info kTryConnect (set_master p_info (sm\<lparr>sm_coordinator := cc\<rparr>) rm)"
    unfolding TryUpdateMasterOffset_def assms(4) [symmetric] assms(5) [symmetric]
    by (auto simp: Let_def info_of_def)
  from m assms(12) obtain s b where b: "Binlog_SetProducerStatus E ?f ?o 0 0 (sm_logger sm) w2 = Some (s, b, w')"
    "cc = (sm_coordinator sm)\<lparr>cc_stable_logger := (cc_stable_logger (sm_coordinator sm))\<lparr>sl_stable_logger := b\<rparr>\<rparr>"
    by (auto simp: move_log_def info_of_def sm_logger_def cc_binlog_def)
  let ?sm = "sm\<lparr>sm_coordinator := cc\<rparr>"
  note g = get_set_master [OF assms(18), of ?sm]
  have "GetSyncSlavePartitionByName p_info (set_master p_info ?sm rm) = Some ss"
    using g(2) assms(13) by (simp add: GetSyncSlavePartitionByName_def)
  note st = set_slave_state_get [OF this, of kTryConnect]
  have "sm_logger ?sm = b" by (simp add: b(2) sm_logger_def cc_binlog_def)
  with SetProducerStatus_ok [OF assms(1,2,19-22) b(1)] st g(1) r show ?thesis by auto
qed

section \<open>Roles\<close>

text \<open>
  The steps that change role and state: \<^verbatim>\<open>slaveof\<close>, the answers to a meta sync, lost connections, slaves that
  come and go. A slave is added and the server made a master in one handler.
\<close>

inductive server_step ::
  "'d Partition tables \<Rightarrow> PikaServer \<times> ('c, 'n, 'h) PikaReplicaManager \<Rightarrow> PikaServer \<times> ('c, 'n, 'h) PikaReplicaManager \<Rightarrow> bool"
  for tables :: "'d Partition tables" where
  step_set_master: "server_step tables (ps, rm) (snd (SetMaster ip port ps), rm)"
| step_remove_master: "RemoveMaster (\<lambda>_ _. id) now tables ps rm () = Some (ps', rm', ()) \<Longrightarrow> server_step tables (ps, rm) (ps', rm')"
| step_meta_sync: "PreparePartitionTrySync select_local_ip t tables ps rm = Some (ps1, rm') \<Longrightarrow> FinishMetaSync ps1 = Some ps'
    \<Longrightarrow> server_step tables (ps, rm) (ps', rm')"
| step_reset: "ResetMetaSyncStatus tables ps rm = Some (ps', rm') \<Longrightarrow> server_step tables (ps, rm) (ps', rm')"
| step_error: "server_step tables (ps, rm) (SyncError ps, rm)"
| step_add_slave: "TryAddSlave ip_port_string ip port fd table_structs ps = (True, ps') \<Longrightarrow> server_step tables (ps, rm) (BecomeMaster ps', rm)"
| step_delete_slave: "DeleteSlave fd ps rm = (ps', rm') \<Longrightarrow> server_step tables (ps, rm) (ps', rm')"
| step_loop: "SetLoopPartitionStateMachine need_loop ps = Some ps' \<Longrightarrow> server_step tables (ps, rm) (ps', rm)"

definition server_ok :: "PikaServer \<Rightarrow> bool" where
  "server_ok ps \<longleftrightarrow> ps_role ps \<in> {0, 1, 2, 3}
     \<and> (ps_repl_state ps \<in> {PIKA_REPL_SHOULD_META_SYNC, PIKA_REPL_META_SYNC_DONE} \<longrightarrow> ps_role ps AND PIKA_ROLE_SLAVE \<noteq> 0)
     \<and> (ps_role ps AND PIKA_ROLE_SLAVE \<noteq> 0 \<longrightarrow> ps_repl_state ps \<noteq> PIKA_REPL_NO_CONNECT)
     \<and> (ps_role ps AND PIKA_ROLE_MASTER \<noteq> 0 \<longleftrightarrow> ps_slaves ps \<noteq> [])
     \<and> distinct (map si_ip_port (ps_slaves ps))"

lemmas role_simps = PIKA_ROLE_SLAVE_def PIKA_ROLE_MASTER_def clear_role_def

lemma remove_conn_sub: "set (map si_ip_port (snd (remove_conn fd ss))) \<subseteq> set (map si_ip_port ss)"
  by (induction ss) auto

lemma remove_conn_distinct: "distinct (map si_ip_port ss) \<Longrightarrow> distinct (map si_ip_port (snd (remove_conn fd ss)))"
proof (induction ss)
  case (Cons s ss)
  with remove_conn_sub [of fd ss] show ?case by auto
qed simp

lemma role_cases:
  assumes "r \<in> {0, 1, 2, 3}"
  shows "r OR PIKA_ROLE_MASTER \<in> {0, 1, 2, 3}" "(r OR PIKA_ROLE_MASTER) AND PIKA_ROLE_SLAVE = r AND PIKA_ROLE_SLAVE"
    "(r OR PIKA_ROLE_MASTER) AND PIKA_ROLE_MASTER \<noteq> 0"
    "clear_role PIKA_ROLE_MASTER r \<in> {0, 1, 2, 3}" "clear_role PIKA_ROLE_MASTER r AND PIKA_ROLE_SLAVE = r AND PIKA_ROLE_SLAVE"
    "clear_role PIKA_ROLE_MASTER r AND PIKA_ROLE_MASTER = 0"
    "r OR PIKA_ROLE_SLAVE \<in> {0, 1, 2, 3}" "(r OR PIKA_ROLE_SLAVE) AND PIKA_ROLE_MASTER = r AND PIKA_ROLE_MASTER"
    "(r OR PIKA_ROLE_SLAVE) AND PIKA_ROLE_SLAVE \<noteq> 0"
    "clear_role PIKA_ROLE_SLAVE r \<in> {0, 1, 2, 3}" "clear_role PIKA_ROLE_SLAVE r AND PIKA_ROLE_MASTER = r AND PIKA_ROLE_MASTER"
    "clear_role PIKA_ROLE_SLAVE r AND PIKA_ROLE_SLAVE = 0"
  using assms by (auto simp: role_simps simp del: One_nat_def)

lemma RemoveMaster_fields:
  assumes "RemoveMaster close_conn now tables ps rm x = Some (ps', rm', x')"
  shows "ps_repl_state ps' = PIKA_REPL_NO_CONNECT" "ps_role ps' = clear_role PIKA_ROLE_SLAVE (ps_role ps)" "ps_slaves ps' = ps_slaves ps"
  using assms unfolding RemoveMaster_def Let_def
  by (cases "ps_master_ip ps \<noteq> [] \<and> ps_master_port ps \<noteq> - 1"; force)+

lemma ResetMetaSyncStatus_fields:
  assumes "ResetMetaSyncStatus tables ps rm = Some (ps', rm')"
  shows "ps_repl_state ps' = (if ps_role ps AND PIKA_ROLE_SLAVE \<noteq> 0 then PIKA_REPL_SHOULD_META_SYNC else ps_repl_state ps)"
    "ps_role ps' = ps_role ps" "ps_slaves ps' = ps_slaves ps"
  using assms by (auto simp: ResetMetaSyncStatus_def split: if_splits)

lemma server_step_ok: "server_step tables s s' \<Longrightarrow> server_ok (fst s) \<Longrightarrow> server_ok (fst s')"
proof (induction rule: server_step.induct)
  case (step_set_master ps rm ip port)
  note r = role_cases(7-9) [of "ps_role ps"]
  from step_set_master show ?case
    by (cases "ps_role ps XOR PIKA_ROLE_SLAVE \<noteq> 0 \<and> ps_repl_state ps = PIKA_REPL_NO_CONNECT")
      (use r in \<open>simp_all add: server_ok_def SetMaster_def Let_def\<close>)
next
  case (step_remove_master now ps rm ps' rm')
  note f = RemoveMaster_fields [OF step_remove_master.hyps]
  from step_remove_master.prems role_cases(10-12) [of "ps_role ps"] show ?case by (simp add: server_ok_def f)
next
  case (step_meta_sync select_local_ip t ps rm ps1 rm' ps')
  then have f: "ps_role ps' = ps_role ps" "ps_slaves ps' = ps_slaves ps" "ps_repl_state ps' = PIKA_REPL_META_SYNC_DONE"
    "ps_repl_state ps = PIKA_REPL_SHOULD_META_SYNC"
    by (auto simp: PreparePartitionTrySync_def FinishMetaSync_def Let_def split: if_splits option.splits)
  from step_meta_sync.prems show ?case by (simp add: server_ok_def f)
next
  case (step_reset ps rm ps' rm')
  note f = ResetMetaSyncStatus_fields [OF step_reset.hyps]
  from step_reset.prems show ?case
    by (cases "ps_role ps AND PIKA_ROLE_SLAVE = 0") (simp_all add: server_ok_def f)
next
  case (step_error ps rm)
  then show ?case by (simp add: server_ok_def SyncError_def)
next
  case (step_add_slave ip_port_string ip port fd table_structs ps ps' rm)
  then obtain e where "ps' = ps\<lparr>ps_slaves := ps_slaves ps @ [e]\<rparr>" "si_ip_port e \<notin> set (map si_ip_port (ps_slaves ps))"
    by (force simp: TryAddSlave_def Let_def split: if_splits)
  with step_add_slave.prems role_cases(1-3) [of "ps_role ps"] show ?case by (simp add: server_ok_def BecomeMaster_def)
next
  case (step_delete_slave fd ps rm ps' rm')
  let ?ss = "snd (remove_conn fd (ps_slaves ps))"
  from step_delete_slave have p: "ps_slaves ps' = ?ss" "ps_repl_state ps' = ps_repl_state ps"
    "ps_role ps' = (if ?ss = [] then clear_role PIKA_ROLE_MASTER (ps_role ps) else ps_role ps)"
    by (auto simp: DeleteSlave_def Let_def split: prod.splits if_splits)
  have "?ss \<noteq> [] \<Longrightarrow> ps_slaves ps \<noteq> []" by auto
  with step_delete_slave.prems remove_conn_distinct [of "ps_slaves ps" fd] role_cases(4-6) [of "ps_role ps"] show ?case
    by (cases "?ss = []") (simp_all add: server_ok_def p)
next
  case (step_loop need_loop ps ps' rm)
  then have "ps' = ps\<lparr>ps_loop_partition_state_machine := need_loop\<rparr>" by (simp add: SetLoopPartitionStateMachine_def split: if_splits)
  with step_loop.prems show ?case by (simp add: server_ok_def)
qed


definition server0 :: PikaServer where
  "server0 = \<lparr>ps_host = ''1.2.3.5'', ps_master_ip = [], ps_master_port = - 1, ps_repl_state = PIKA_REPL_NO_CONNECT, ps_role = 0,
     ps_last_meta_sync_timestamp = 0, ps_first_meta_sync = False, ps_loop_partition_state_machine = False, ps_force_full_sync = False,
     ps_slaves = [], ps_db_sync_slaves = [], ps_slowlog_list = [], ps_slowlog_entry_id = 0\<rparr>"

definition no_rm :: "(string, nat, string \<times> nat) PikaReplicaManager" where
  "no_rm = \<lparr>rm_sync_master_partitions = [], rm_sync_slave_partitions = [], rm_write_queues = []\<rparr>"


section \<open>Instances\<close>

theorem slowlog_keeps_latest_witness:
  "ps_slowlog_list (push_all 1 [([''GET'', ''a''], 5, 20000), ([''SET'', ''a'', ''b''], 6, 30000)] server0)
     = [\<lparr>sl_id = 1, sl_start_time = 6, sl_duration = 30000, sl_argv = [''SET'', ''a'', ''b'']\<rparr>]"
proof -
  have e: "ps_slowlog_list server0 = []" by (simp add: server0_def)
  from slowlog_keeps_latest [OF e, of 1 "[([''GET'', ''a''], 5, 20000), ([''SET'', ''a'', ''b''], 6, 30000)]" "[''SET'', ''a'', ''b'']" 1 6 30000]
  show ?thesis by (simp add: server0_def slowlog_entry_def)
qed

definition no_rsync :: "unit rsync_env" where
  "no_rsync = \<lparr>ry_GetChildren = (\<lambda>_ _. (2, [])), ry_IsDir = (\<lambda>_ _. False), ry_SendFile = (\<lambda>_ _ x. (0, x)), ry_SendClearTarget = (\<lambda>_ _ x. x),
     ry_local_ip = (\<lambda>_. None), ry_write_file = (\<lambda>_ _ x. x), ry_DeleteFile = (\<lambda>_ x. x), ry_time = (\<lambda>_. 0)\<rparr>"

definition plain_pcf :: partition_conf where
  "plain_pcf = \<lparr>pc_classic_mode = True, pc_db_sync_path = ''sync/'', pc_bgsave_path = ''dump/'', pc_bgsave_prefix = [], pc_consensus_level = 0,
     pc_host = ''1.2.3.4'', pc_port = 9221\<rparr>"

theorem db_sync_task_released_iff_witness:
  "\<exists>ps1 ps2 x'. DBSync ''1.2.3.5'' 10221 ''db0'' 0 server0 = (True, ps1)
    \<and> DbSyncSendFile no_rsync (\<lambda>ip port. ip @ '':'' @ dec_string port) plain_pcf ''1.2.3.5'' 10221 ''db0'' 0 (Some map_part) ps1 () = (ps2, x')
    \<and> \<not> fst (DBSync ''1.2.3.5'' 10221 ''db0'' 0 ps2)"
proof -
  let ?I = "\<lambda>(ip :: string) port. ip @ '':'' @ dec_string port"
  obtain ps1 where d: "DBSync ''1.2.3.5'' 10221 ''db0'' 0 server0 = (True, ps1)" by (simp add: DBSync_def server0_def)
  obtain ps2 x' where f: "DbSyncSendFile no_rsync ?I plain_pcf ''1.2.3.5'' 10221 ''db0'' 0 (Some map_part) ps1 () = (ps2, x')" using prod.exhaust_sel by blast
  have l: "length (''1.2.3.5'' @ '':'' @ dec_string 10221) < 255" by (simp add: dec_string_def dec_digits.simps)
  from db_sync_task_released_iff [OF d f _ _ l] d f show ?thesis by (simp add: no_rsync_def)
qed

text \<open>A copy that has arrived: the info file is there, and the data bases can be exchanged.\<close>

definition copy_px :: "(mem_world, nat) partition_env" where
  "copy_px = \<lparr>px_Rename = (\<lambda>_ _ w. (True, w)), px_DeleteDirIfExist = (\<lambda>_ w. (True, w)), px_CreatePath = (\<lambda>_ w. w), px_PurgeDir = (\<lambda>_ w. w),
     px_Open = (\<lambda>_ w. Some (1, w)), px_GetKeyNum = (\<lambda>_. (OK, [])), px_BackupOpen = (\<lambda>_. OK), px_SetBackupContent = (\<lambda>_. OK),
     px_CreateNewBackup = (\<lambda>_ _ w. (OK, w)), px_time = (\<lambda>_. 100), px_strftime = (\<lambda>_. []), px_ToString = (\<lambda>_. [])\<rparr>"

definition copy_offset :: LogOffset where
  "copy_offset = \<lparr>b_offset = BinlogOffset 3 0, l_offset = LogicOffset0\<rparr>"

definition copy_world :: mem_world where
  "copy_world = wit_world\<lparr>mw_files := (mw_files wit_world)(''sync/info'' \<mapsto> info_text plain_pcf 5 copy_offset)\<rparr>"

definition copy_open :: "string \<Rightarrow> mem_world \<Rightarrow> string option" where
  "copy_open path w = mw_files w path"

definition copy_info :: PartitionInfo where
  "copy_info = \<lparr>pi_table_name = ''db0'', pi_partition_id = 0\<rparr>"

definition copy_master :: "(string, nat, string \<times> nat) SyncMasterPartition" where
  "copy_master = \<lparr>sm_partition_info = copy_info, sm_session_id = 1, sm_coordinator = wit_coord\<rparr>"

definition copy_slave :: SyncSlavePartition where
  "copy_slave = \<lparr>ssp_partition_info = copy_info, ssp_m_info = RmNode_new ''1.2.3.4'' 9221 ''db0'' 0 1, ssp_repl_state = kWaitDBSync,
     ssp_local_ip = ''1.2.3.5''\<rparr>"

definition copy_rm :: "(string, nat, string \<times> nat) PikaReplicaManager" where
  "copy_rm = \<lparr>rm_sync_master_partitions = [(copy_info, Some copy_master)], rm_sync_slave_partitions = [(copy_info, copy_slave)], rm_write_queues = []\<rparr>"

lemma copy_get:
  "GetSyncSlavePartitionByName copy_info copy_rm = Some copy_slave" "GetSyncMasterPartitionByName copy_info copy_rm = Some (Some copy_master)"
  "sm_logger copy_master = wit_binlog"
  by (simp_all add: copy_rm_def GetSyncSlavePartitionByName_def GetSyncMasterPartitionByName_def PartitionMap_get_def PartitionMap_slot_def
      copy_info_def DbIdxFromStr_def copy_master_def sm_logger_def coord_simps)

lemma copy_delete: "env_DeleteFile mem_env ''sync/info'' copy_world = (OK, wit_world)"
  by (simp add: copy_world_def wit_simps NewFileName_def fun_upd_twist [of "''sync/info''"])

definition copy_conf :: "string coord_conf" where
  "copy_conf = wit_conf\<lparr>cf_consensus_level := 0\<rparr>"

lemma copy_set: "\<exists>b w. Binlog_SetProducerStatus mem_env 3 0 0 0 wit_binlog wit_world = Some (OK, b, w)"
  by (simp add: wit_simps Binlog_SetProducerStatus_def Binlog_AppendPadding_def Binlog_InitLogFile_def Version_StableSave_def Let_def)

lemma copy_change: "ChangeDb copy_px ''sync/'' map_part wit_world = Some (True, map_part\<lparr>pt_db := Some 1\<rparr>, wit_world)"
  by (simp add: ChangeDb_def copy_px_def map_part_def)

theorem db_sync_hands_over_offset_witness:
  "\<exists>rm' w' sm'. TryUpdateMasterOffset mem_env copy_px copy_open read_int copy_conf map_part copy_rm copy_world
      = Some (True, map_part\<lparr>pt_db := Some 1\<rparr>, rm', w')
    \<and> GetSyncMasterPartitionByName copy_info rm' = Some (Some sm') \<and> Binlog_GetProducerStatus (sm_logger sm') = (OK, Some (3, 0, 0, 0))"
proof -
  have h: "copy_info = \<lparr>pi_table_name = pt_table_name map_part, pi_partition_id = pt_partition_id map_part\<rparr>"
    "''sync/info'' = pt_dbsync_path map_part @ kBgsaveInfoFile" "pt_dbsync_path map_part = ''sync/''"
    by (simp_all add: copy_info_def map_part_def kBgsaveInfoFile_def)
  have f: "env_FileExists mem_env ''sync/info'' copy_world" "copy_open ''sync/info'' copy_world = Some (info_text plain_pcf 5 copy_offset)"
    by (simp_all add: copy_world_def copy_open_def mem_env_simps)
  have p: "CHR 0x0A \<notin> set (pc_host plain_pcf)" "0 \<le> pc_port plain_pcf" "pc_port plain_pcf < 2 ^ 63" "pc_consensus_level plain_pcf = 0"
    "cf_consensus_level copy_conf = 0" "rn_ip (ssp_m_info copy_slave) = pc_host plain_pcf" "rn_port (ssp_m_info copy_slave) = pc_port plain_pcf"
    by (simp_all add: plain_pcf_def copy_conf_def copy_slave_def RmNode_new_def)
  have b: "binlog_ok mem_env mw_files (sm_logger copy_master) wit_world"
    "env_RWData mem_env (NewFileName (bl_filename (sm_logger copy_master)) 0) wit_world = None
      \<and> env_RWData mem_env (NewFileName (bl_filename (sm_logger copy_master)) (bo_filenum (b_offset copy_offset))) wit_world = None"
    "unat (bo_offset (b_offset copy_offset)) < 2 ^ 31"
    "bo_offset (b_offset copy_offset) < 4 \<or> kHeaderSize \<le> unat (bo_offset (b_offset copy_offset))"
    using wit_binlog_ok wit_unmapped by (simp_all add: copy_get(3) copy_offset_def)
  have i: "info_loop read_int 0 (getlines (info_text plain_pcf 5 copy_offset)) dbsync_info0 = Some (info_of plain_pcf copy_offset)"
    by (rule info_loop_text [OF dec.slash_numbers_axioms]) (simp_all add: plain_pcf_def copy_offset_def LogicOffset0_def)
  obtain cc w1 where m: "move_log mem_env copy_conf (info_of plain_pcf copy_offset) (sm_coordinator copy_master) wit_world = Some (cc, w1)"
    using copy_set p(5) copy_get(3) by (auto simp: move_log_def info_of_def copy_offset_def sm_logger_def cc_binlog_def)
  have ip: "di_master_ip (info_of plain_pcf copy_offset) = pc_host plain_pcf" "di_master_port (info_of plain_pcf copy_offset) = pc_port plain_pcf"
    by (simp_all add: info_of_def)
  obtain r p' rm' w' where t: "TryUpdateMasterOffset mem_env copy_px copy_open read_int copy_conf map_part copy_rm copy_world = Some (r, p', rm', w')"
    unfolding TryUpdateMasterOffset_def Let_def h(1) [symmetric] h(2) [symmetric]
    by (simp only: f i copy_get copy_delete copy_change [folded h(3)] m ip p(6,7) option.case prod.case simp_thms if_False if_True option.map)
  from db_sync_hands_over_offset [OF mem.slash_fs_axioms mem_disk_ok dec.slash_numbers_axioms h(1,2) f p(1-5) copy_get(1) p(6,7) copy_delete
      copy_change [folded h(3)] copy_get(2) b t] t show ?thesis
    by (auto simp: copy_offset_def set_file_length_def set_offset_def)
qed

end
