(* ===== verification/Pika_Repl_Server.thy ===== *)
theory Pika_Repl_Server
  imports Pika_Server Pika_Negotiate Pika_Command
begin

text \<open>
  The master's end of the replication protocol: the connections of \<^verbatim>\<open>src/pika_repl_server.cc\<close> and the handlers
  of \<^verbatim>\<open>src/pika_repl_server_conn.cc\<close>. The network, with the encoding of protobuf, is the record \<open>net_env\<close>.
  \<open>None\<close> stands for an abort.
\<close>

section \<open>Connections\<close>

text \<open>
  \<open>nt_WriteResp\<close> gives \<open>True\<close> when it fails. A connection is known by its descriptor; \<open>nt_has_conn\<close> tells whether
  the thread of the server still has it.
\<close>

record 'x net_env =
  nt_serialize :: "InnerResponse \<Rightarrow> bytes option"
  nt_has_conn :: "int \<Rightarrow> 'x \<Rightarrow> bool"
  nt_WriteResp :: "int \<Rightarrow> bytes \<Rightarrow> 'x \<Rightarrow> bool \<times> 'x"
  nt_NotifyWrite :: "int \<Rightarrow> 'x \<Rightarrow> 'x"
  nt_NotifyClose :: "int \<Rightarrow> 'x \<Rightarrow> 'x"
  nt_IpPortString :: "string \<Rightarrow> int \<Rightarrow> string"

type_synonym conn_map = "(string \<times> int) list"

definition UpdateClientConnMap :: "string \<Rightarrow> int \<Rightarrow> conn_map \<Rightarrow> conn_map" where
  "UpdateClientConnMap ip_port fd m = AList.update ip_port fd m"

primrec RemoveClientConn :: "int \<Rightarrow> conn_map \<Rightarrow> conn_map" where
  "RemoveClientConn fd [] = []"
| "RemoveClientConn fd (e # m) = (if snd e = fd then m else e # RemoveClientConn fd m)"

definition ReplServer_Write :: "'x net_env \<Rightarrow> conn_map \<Rightarrow> string \<Rightarrow> int \<Rightarrow> bytes \<Rightarrow> 'x \<Rightarrow> Status \<times> 'x" where
  "ReplServer_Write N m ip port msg x =
     (let ip_port = nt_IpPortString N ip port
      in case map_of m ip_port of
           None \<Rightarrow> (NotFound (''The '' @ ip_port @ '' fd cannot be found''), x)
         | Some fd \<Rightarrow>
             if \<not> nt_has_conn N fd x then (NotFound (''The'' @ ip_port @ '' conn cannot be found''), x)
             else (case nt_WriteResp N fd msg x of
                     (failed, x) \<Rightarrow>
                       if failed then (Corruption (''The'' @ ip_port @ '' conn, Write Resp Failed''), nt_NotifyClose N fd x)
                       else (OK, nt_NotifyWrite N fd x)))"

section \<open>Sending binlogs\<close>

definition chip_of :: "WriteTask \<Rightarrow> BinlogSyncChip" where
  "chip_of task = \<lparr>br_partition = rn_partition_info (wt_rm_node task), br_binlog_offset = BuildBinlogOffset (bc_offset (wt_binlog_chip task)),
     br_binlog = bc_binlog (wt_binlog_chip task), br_session_id = rn_session_id (wt_rm_node task)\<rparr>"

text \<open>The previous offset of the first task that is not a mere sign of life.\<close>

definition first_prev :: "WriteTask list \<Rightarrow> LogOffset" where
  "first_prev tasks = (case find (\<lambda>t. bc_binlog (wt_binlog_chip t) \<noteq> []) tasks of None \<Rightarrow> LogOffset0 | Some t \<Rightarrow> wt_prev_offset t)"

definition BuildBinlogSyncResp :: "'c coord_conf \<Rightarrow> ('c, 'n, 'h) PikaReplicaManager \<Rightarrow> WriteTask list \<Rightarrow> InnerResponse option" where
  "BuildBinlogSyncResp cf rm tasks =
     (let response = (InnerResponse_new kBinlogSync kCodeOk)\<lparr>ir_binlog_sync := map chip_of tasks\<rparr>
      in if \<not> cf_consensus_level cf > 0 then Some response
         else case tasks of
                [] \<Rightarrow> Some response
              | task # _ \<Rightarrow>
                  let meta = ConsensusMeta0\<lparr>cm_log_offset := Some (BuildBinlogOffset (first_prev tasks))\<rparr>
                  in case GetSyncMasterPartitionByName (rn_partition_info (wt_rm_node task)) rm of
                       None \<Rightarrow> None
                     | Some None \<Rightarrow> Some (response\<lparr>ir_consensus_meta := Some meta\<rparr>)
                     | Some (Some sm) \<Rightarrow>
                         Some (response\<lparr>ir_consensus_meta :=
                           Some (meta\<lparr>cm_commit := Some (BuildBinlogOffset (cc_committed_index (sm_coordinator sm))),
                                      cm_term := Some (cc_term (sm_coordinator sm))\<rparr>)\<rparr>))"

text \<open>The loop that sends each task in a message of its own.\<close>

primrec send_single ::
  "'x net_env \<Rightarrow> 'c coord_conf \<Rightarrow> ('c, 'n, 'h) PikaReplicaManager \<Rightarrow> conn_map \<Rightarrow> string \<Rightarrow> int \<Rightarrow> WriteTask list \<Rightarrow> 'x
    \<Rightarrow> (Status \<times> 'x) option" where
  "send_single N cf rm m ip port [] x = Some (OK, x)"
| "send_single N cf rm m ip port (task # tasks) x =
     (case BuildBinlogSyncResp cf rm [task] of
        None \<Rightarrow> None
      | Some response \<Rightarrow>
          (case nt_serialize N response of
             None \<Rightarrow> Some (Corruption ''Serialized Failed'', x)
           | Some msg \<Rightarrow>
               (case ReplServer_Write N m ip port msg x of
                  (s, x) \<Rightarrow> if \<not> ok s then Some (s, x) else send_single N cf rm m ip port tasks x)))"

text \<open>The size limit is an \<^verbatim>\<open>int\<close> that is converted to \<^verbatim>\<open>size_t\<close>.\<close>

definition SendSlaveBinlogChips ::
  "'x net_env \<Rightarrow> 'c coord_conf \<Rightarrow> i32 \<Rightarrow> ('c, 'n, 'h) PikaReplicaManager \<Rightarrow> conn_map \<Rightarrow> string \<Rightarrow> int \<Rightarrow> WriteTask list \<Rightarrow> 'x
    \<Rightarrow> (Status \<times> 'x) option" where
  "SendSlaveBinlogChips N cf max_conn_rbuf_size rm m ip port tasks x =
     (case BuildBinlogSyncResp cf rm tasks of
        None \<Rightarrow> None
      | Some response \<Rightarrow>
          (case nt_serialize N response of
             None \<Rightarrow> Some (Corruption ''Serialized Failed'', x)
           | Some msg \<Rightarrow>
               if length msg > unat (scast max_conn_rbuf_size :: u64) then send_single N cf rm m ip port tasks x
               else Some (ReplServer_Write N m ip port msg x)))"

section \<open>State and configuration of the handlers\<close>

record ('c, 'n, 'h, 'd, 'x) master_side =
  md_rm :: "('c, 'n, 'h) PikaReplicaManager"
  md_ps :: PikaServer
  md_tables :: "'d Partition tables"
  md_conns :: conn_map
  md_net :: 'x

text \<open>
  \<open>rf_commit_previous\<close> is \<^verbatim>\<open>CommitPreviousLogs\<close>: it executes a command without effect to have a log of the new term.
  \<open>rf_now\<close> gives the readings of the clock.
\<close>

record ('c, 'n, 'h, 'w) repl_conf =
  rf_coord :: "'c coord_conf"
  rf_send :: send_conf
  rf_requirepass :: string
  rf_table_structs :: "TableStruct list"
  rf_replication_num :: int
  rf_port :: int
  rf_now :: "nat \<Rightarrow> u64"
  rf_is_dir :: "string \<Rightarrow> 'w \<Rightarrow> bool"
  rf_commit_previous :: "u32 \<Rightarrow> ('c, 'n, 'h) SyncMasterPartition \<Rightarrow> 'w \<Rightarrow> (('c, 'n, 'h) SyncMasterPartition \<times> 'w) option"

definition reply_to :: "'x net_env \<Rightarrow> int \<Rightarrow> InnerResponse \<Rightarrow> ('c, 'n, 'h, 'd, 'x) master_side \<Rightarrow> ('c, 'n, 'h, 'd, 'x) master_side" where
  "reply_to N fd response md =
     md\<lparr>md_net := (case nt_serialize N response of
                     None \<Rightarrow> nt_NotifyClose N fd (md_net md)
                   | Some reply_str \<Rightarrow>
                       (case nt_WriteResp N fd reply_str (md_net md) of
                          (failed, x) \<Rightarrow> if failed then nt_NotifyClose N fd x else nt_NotifyWrite N fd x))\<rparr>"

definition ConsensusUpdateTerm ::
  "('w, 'e) slash_env \<Rightarrow> ('c, 'n, 'h, 'w) repl_conf \<Rightarrow> PikaServer \<Rightarrow> u32 \<Rightarrow> ('c, 'n, 'h) SyncMasterPartition \<Rightarrow> 'w
    \<Rightarrow> (('c, 'n, 'h) SyncMasterPartition \<times> 'w) option" where
  "ConsensusUpdateTerm E rf ps trm sm w =
     (case UpdateTerm E trm (sm_coordinator sm) w of
        (cc, w) \<Rightarrow>
          let sm = sm\<lparr>sm_coordinator := cc\<rparr>
          in if ps_role ps AND PIKA_ROLE_MASTER \<noteq> 0 then rf_commit_previous rf trm sm w else Some (sm, w))"

section \<open>Meta data\<close>

definition HandleMetaSyncRequest ::
  "'x net_env \<Rightarrow> ('c, 'n, 'h, 'w) repl_conf \<Rightarrow> int \<Rightarrow> InnerRequest \<Rightarrow> ('c, 'n, 'h, 'd, 'x) master_side \<Rightarrow> ('c, 'n, 'h, 'd, 'x) master_side" where
  "HandleMetaSyncRequest N rf fd req md =
     (let meta = or_default MetaSyncRequest0 (rq_meta_sync req); node = ms_node meta; masterauth = or_default [] (ms_auth meta)
      in if rf_requirepass rf \<noteq> [] \<and> rf_requirepass rf \<noteq> masterauth
         then reply_to N fd ((InnerResponse_new kMetaSync kCodeError)\<lparr>ir_reply := Some ''Auth with master error, Invalid masterauth''\<rparr>) md
         else let (success, ps) = TryAddSlave (nt_IpPortString N) (nd_ip node) (nd_port node) fd (rf_table_structs rf) (md_ps md);
                  md = md\<lparr>md_conns := UpdateClientConnMap (nt_IpPortString N (nd_ip node) (nd_port node)) fd (md_conns md)\<rparr>
              in if \<not> success
                 then reply_to N fd ((InnerResponse_new kMetaSync kCodeOther)\<lparr>ir_reply := Some ''Slave AlreadyExist''\<rparr>) (md\<lparr>md_ps := ps\<rparr>)
                 else reply_to N fd
                        ((InnerResponse_new kMetaSync kCodeOk)\<lparr>ir_meta_sync := Some \<lparr>mr_classic_mode = cf_classic_mode (rf_coord rf),
                           mr_tables_info = map (\<lambda>t. (ts_table_name t, ucast (ts_partition_num t))) (rf_table_structs rf)\<rparr>\<rparr>)
                        (md\<lparr>md_ps := BecomeMaster ps\<rparr>))"

section \<open>Trying to synchronise\<close>

text \<open>Whether the log of this node has the offset of the slave as the start of a record.\<close>

definition TrySyncOffsetCheck ::
  "('w, 'h) slash_env \<Rightarrow> ('c, 'n, 'h) SyncMasterPartition \<Rightarrow> SyncRequest \<Rightarrow> TrySyncResponse \<Rightarrow> 'w \<Rightarrow> (bool \<times> TrySyncResponse) option" where
  "TrySyncOffsetCheck E sm sync_req tr w =
     (let slave_filenum = pb_filenum (sr_binlog_offset sync_req); slave_offset = pb_offset (sr_binlog_offset sync_req)
      in case Binlog_GetProducerStatus (sm_logger sm) of
           (_, None) \<Rightarrow> Some (False, tr\<lparr>tr_reply_code := kReplyError\<rparr>)
         | (_, Some (filenum, offset, _, _)) \<Rightarrow>
             let tr = tr\<lparr>tr_binlog_offset := Some (PbBinlogOffset0\<lparr>pb_filenum := filenum, pb_offset := offset\<rparr>)\<rparr>
             in if filenum < slave_filenum \<or> filenum = slave_filenum \<and> offset < slave_offset
                then Some (False, tr\<lparr>tr_reply_code := kReplySyncPointLarger\<rparr>)
                else if \<not> env_FileExists E (NewFileName (bl_filename (sm_logger sm)) slave_filenum) w
                then Some (False, tr\<lparr>tr_reply_code := kReplySyncPointBePurged\<rparr>)
                else (case Seek E (sm_logger sm) slave_filenum slave_offset PikaBinlogReader_new0 w of
                        None \<Rightarrow> None
                      | Some (_, r) \<Rightarrow>
                          if GetReaderStatus r \<noteq> (slave_filenum, slave_offset) then Some (False, tr\<lparr>tr_reply_code := kReplyError\<rparr>)
                          else Some (True, tr)))"

definition BuildConsensusMeta :: "bool \<Rightarrow> LogOffset list \<Rightarrow> u32 \<Rightarrow> ConsensusMeta" where
  "BuildConsensusMeta reject hints trm =
     ConsensusMeta0\<lparr>cm_term := Some trm, cm_reject := Some reject, cm_hint := (if \<not> reject then [] else map BuildBinlogOffset hints)\<rparr>"

text \<open>The last component is the consensus part of the response, if it is written.\<close>

definition TrySyncConsensusOffsetCheck ::
  "('w, 'h) slash_env \<Rightarrow> slash_coding \<Rightarrow> ('c, 'n, 'h, 'w) repl_conf \<Rightarrow> ('c, 'n, 'h) SyncMasterPartition \<Rightarrow> ConsensusMeta \<Rightarrow> TrySyncResponse \<Rightarrow> 'w
    \<Rightarrow> (bool \<times> TrySyncResponse \<times> ConsensusMeta option) option" where
  "TrySyncConsensusOffsetCheck E C rf sm meta tr w =
     (case LeaderNegotiate E C (rf_coord rf) (ParseBinlogOffset (or_default PbBinlogOffset0 (cm_log_offset meta))) [] (sm_coordinator sm) w of
        None \<Rightarrow> None
      | Some (s, reject, hints) \<Rightarrow>
          if \<not> ok s
          then Some (False, tr\<lparr>tr_reply_code := if IsNotFound s then kReplySyncPointBePurged else kReplyError\<rparr>, None)
          else Some (\<not> reject, tr\<lparr>tr_reply_code := kReplyOk\<rparr>, Some (BuildConsensusMeta reject hints (cc_term (sm_coordinator sm)))))"

definition TrySyncUpdateSlaveNode ::
  "'x net_env \<Rightarrow> ('c, 'n, 'h, 'w) repl_conf \<Rightarrow> int \<Rightarrow> ('c, 'n, 'h) SyncMasterPartition \<Rightarrow> SyncRequest \<Rightarrow> TrySyncResponse \<Rightarrow> conn_map
    \<Rightarrow> bool \<times> TrySyncResponse \<times> ('c, 'n, 'h) SyncMasterPartition \<times> conn_map" where
  "TrySyncUpdateSlaveNode N rf fd sm sync_req tr conns =
     (let ip = nd_ip (sr_node sync_req); port = nd_port (sr_node sync_req)
      in if \<not> CheckSlaveNodeExist ip port sm
         then let (session_id, sm) = GenSessionId sm
              in if session_id = -1 then (False, tr\<lparr>tr_reply_code := kReplyError\<rparr>, sm, conns)
                 else let tr = tr\<lparr>tr_session_id := Some session_id\<rparr>;
                          (s, sm) = sm_AddSlaveNode ip port session_id (rf_now rf 0) (rf_now rf 1) sm
                      in if \<not> ok s then (False, tr\<lparr>tr_reply_code := kReplyError\<rparr>, sm, conns)
                         else (True, tr\<lparr>tr_reply_code := kReplyOk\<rparr>, sm, UpdateClientConnMap (nt_IpPortString N ip port) fd conns)
         else (case GetSlaveNodeSession ip port sm of
                 (_, None) \<Rightarrow> (False, tr\<lparr>tr_reply_code := kReplyError\<rparr>, sm, conns)
               | (_, Some session_id) \<Rightarrow> (True, tr\<lparr>tr_reply_code := kReplyOk, tr_session_id := Some session_id\<rparr>, sm, conns)))"

text \<open>The part of the handler before the slave is registered.\<close>

definition try_sync_check ::
  "('w, 'h) slash_env \<Rightarrow> slash_coding \<Rightarrow> ('c, 'n, 'h, 'w) repl_conf \<Rightarrow> PikaServer \<Rightarrow> InnerRequest \<Rightarrow> SyncRequest
    \<Rightarrow> ('c, 'n, 'h) SyncMasterPartition \<Rightarrow> TrySyncResponse \<Rightarrow> 'w
    \<Rightarrow> (bool \<times> TrySyncResponse \<times> ConsensusMeta option \<times> ('c, 'n, 'h) SyncMasterPartition \<times> 'w) option" where
  "try_sync_check E C rf ps req sync_req sm tr w =
     (case rq_consensus_meta req of
        None \<Rightarrow> map_option (\<lambda>(pre_success, tr). (pre_success, tr, None, sm, w)) (TrySyncOffsetCheck E sm sync_req tr w)
      | Some meta \<Rightarrow>
          if GetNumberOfSlaveNode sm \<ge> rf_replication_num rf \<and> \<not> CheckSlaveNodeExist (nd_ip (sr_node sync_req)) (nd_port (sr_node sync_req)) sm
          then Some (False, tr, None, sm, w)
          else (case (if meta_term meta > cc_term (sm_coordinator sm) then ConsensusUpdateTerm E rf ps (meta_term meta) sm w else Some (sm, w)) of
                  None \<Rightarrow> None
                | Some (sm, w) \<Rightarrow>
                    map_option (\<lambda>(pre_success, tr, cm). (pre_success, tr, cm, sm, w)) (TrySyncConsensusOffsetCheck E C rf sm meta tr w)))"

definition HandleTrySyncRequest ::
  "('w, 'h) slash_env \<Rightarrow> slash_coding \<Rightarrow> 'x net_env \<Rightarrow> ('c, 'n, 'h, 'w) repl_conf \<Rightarrow> int \<Rightarrow> InnerRequest \<Rightarrow> ('c, 'n, 'h, 'd, 'x) master_side \<Rightarrow> 'w
    \<Rightarrow> (('c, 'n, 'h, 'd, 'x) master_side \<times> 'w) option" where
  "HandleTrySyncRequest E C N rf fd req md w =
     (let sync_req = or_default SyncRequest0 (rq_try_sync req); p_info = sr_partition sync_req;
          tr = TrySyncResponse0\<lparr>tr_reply_code := kReplyError, tr_partition := p_info\<rparr>;
          response = (\<lambda>code tr cm. (InnerResponse_new kTrySync code)\<lparr>ir_try_sync := Some tr, ir_consensus_meta := cm\<rparr>)
      in case GetSyncMasterPartitionByName p_info (md_rm md) of
           None \<Rightarrow> None
         | Some None \<Rightarrow> Some (reply_to N fd ((response kCodeError tr None)\<lparr>ir_reply := Some ''Partition not found''\<rparr>) md, w)
         | Some (Some sm) \<Rightarrow>
             (case try_sync_check E C rf (md_ps md) req sync_req sm tr w of
                None \<Rightarrow> None
              | Some (pre_success, tr, cm, sm, w) \<Rightarrow>
                  (case (if pre_success then TrySyncUpdateSlaveNode N rf fd sm sync_req tr (md_conns md) else (False, tr, sm, md_conns md)) of
                     (_, tr, sm, conns) \<Rightarrow>
                       Some (reply_to N fd (response kCodeOk tr cm) (md\<lparr>md_rm := set_master p_info sm (md_rm md), md_conns := conns\<rparr>), w))))"

section \<open>Copying the data base\<close>

text \<open>The registration of the slave: the code, the session id of the response and what became of the partition.\<close>

definition db_sync_register ::
  "'x net_env \<Rightarrow> ('c, 'n, 'h, 'w) repl_conf \<Rightarrow> int \<Rightarrow> PbNode \<Rightarrow> ('c, 'n, 'h) SyncMasterPartition \<Rightarrow> conn_map
    \<Rightarrow> StatusCode \<times> i32 \<times> ('c, 'n, 'h) SyncMasterPartition \<times> conn_map" where
  "db_sync_register N rf fd node sm conns =
     (let ip = nd_ip node; port = nd_port node
      in if \<not> CheckSlaveNodeExist ip port sm
         then let (session_id, sm) = GenSessionId sm
              in if session_id = -1 then (kCodeError, -1, sm, conns)
                 else let (s, sm) = sm_AddSlaveNode ip port session_id (rf_now rf 0) (rf_now rf 1) sm
                      in if ok s then (kCodeOk, session_id, sm, UpdateClientConnMap (nt_IpPortString N ip port) fd conns)
                         else (kCodeError, session_id, sm, conns)
         else (case GetSlaveNodeSession ip port sm of
                 (_, None) \<Rightarrow> (kCodeError, -1, sm, conns)
               | (_, Some session_id) \<Rightarrow> (kCodeOk, session_id, sm, conns)))"

definition set_partition :: "PartitionInfo \<Rightarrow> 'd Partition option \<Rightarrow> 'd Partition tables \<Rightarrow> 'd Partition tables" where
  "set_partition p_info pt tables =
     (case pt of None \<Rightarrow> tables | Some p \<Rightarrow> put_partition (pi_table_name p_info) (unat (pi_partition_id p_info)) p tables)"

definition HandleDBSyncRequest ::
  "('w, 'h) slash_env \<Rightarrow> 'x net_env \<Rightarrow> ('c, 'n, 'h, 'w) repl_conf \<Rightarrow> int \<Rightarrow> InnerRequest \<Rightarrow> ('c, 'n, 'h, 'd, 'x) master_side \<Rightarrow> 'w
    \<Rightarrow> (bool \<times> bool \<times> ('c, 'n, 'h, 'd, 'x) master_side) option" where
  "HandleDBSyncRequest E N rf fd req md w =
     (let sync_req = or_default SyncRequest0 (rq_db_sync req); p_info = sr_partition sync_req; node = sr_node sync_req
      in case GetSyncMasterPartitionByName p_info (md_rm md) of
           None \<Rightarrow> None
         | Some msm \<Rightarrow>
             let (code, session_id, md) =
                   (case msm of
                      None \<Rightarrow> (kCodeOk, None, md)
                    | Some sm \<Rightarrow>
                        let (code, session_id, sm, conns) = db_sync_register N rf fd node sm (md_conns md)
                        in (code, Some session_id, md\<lparr>md_rm := set_master p_info sm (md_rm md), md_conns := conns\<rparr>));
                 response = (InnerResponse_new kDBSync code)\<lparr>ir_db_sync := Some \<lparr>dr_partition = p_info, dr_session_id = session_id\<rparr>\<rparr>
             in case GetTablePartitionById (pi_table_name p_info) (pi_partition_id p_info) (md_tables md) of
                  None \<Rightarrow> None
                | Some pt \<Rightarrow>
                    map_option (\<lambda>(save, send, pt, ps).
                        (save, send, reply_to N fd response (md\<lparr>md_ps := ps, md_tables := set_partition p_info pt (md_tables md)\<rparr>)))
                      (TryDBSync E (rf_is_dir rf) (nd_ip node) (nd_port node + kPortShiftRSync) (pi_table_name p_info) (pi_partition_id p_info)
                         (ucast (pb_filenum (sr_binlog_offset sync_req))) pt (md_rm md) (md_ps md) w))"

section \<open>Acknowledgements\<close>

definition close_conn :: "'x net_env \<Rightarrow> int \<Rightarrow> ('c, 'n, 'h, 'd, 'x) master_side \<Rightarrow> ('c, 'n, 'h, 'd, 'x) master_side" where
  "close_conn N fd md = md\<lparr>md_net := nt_NotifyClose N fd (md_net md)\<rparr>"

text \<open>The steps behind the checks of term and session; the first component is the signal to the sending thread.\<close>

definition binlog_sync_ack ::
  "('w, 'h) slash_env \<Rightarrow> slash_coding \<Rightarrow> 'x net_env \<Rightarrow> ('c, 'n, 'h, 'w) repl_conf \<Rightarrow> int \<Rightarrow> BinlogSyncRequest \<Rightarrow> PartitionInfo
    \<Rightarrow> ('c, 'n, 'h) SyncMasterPartition \<Rightarrow> ('c, 'n, 'h, 'd, 'x) master_side \<Rightarrow> 'w \<Rightarrow> (bool \<times> ('c, 'n, 'h, 'd, 'x) master_side) option" where
  "binlog_sync_ack E C N rf fd sync_req p_info sm md w =
     (let ip = nd_ip (bq_node sync_req); port = nd_port (bq_node sync_req);
          range_start = ParseBinlogOffset (bq_ack_range_start sync_req); range_end = ParseBinlogOffset (bq_ack_range_end sync_req);
          (s, sm) = SetLastRecvTime ip port (rf_now rf 0) sm;
          put = (\<lambda>sm. md\<lparr>md_rm := set_master p_info sm (md_rm md)\<rparr>)
      in if \<not> ok s then Some (False, close_conn N fd (put sm))
         else if bq_first_send sync_req
         then if b_offset range_start \<noteq> b_offset range_end then Some (False, close_conn N fd (put sm))
              else map_option (\<lambda>(s, sm, q). (False, (if \<not> ok s then close_conn N fd else id)
                                                      (md\<lparr>md_rm := (set_master p_info sm (md_rm md))\<lparr>rm_write_queues := q\<rparr>\<rparr>)))
                     (ActivateSlaveBinlogSync E C (rf_send rf) ip port range_start sm (rm_write_queues (md_rm md)) w)
         else if b_offset range_start = BinlogOffset 0 0 \<and> b_offset range_end = BinlogOffset 0 0 then Some (False, put sm)
         else map_option (\<lambda>(s, rm). if \<not> ok s then (False, close_conn N fd (md\<lparr>md_rm := rm\<rparr>)) else (True, md\<lparr>md_rm := rm\<rparr>))
                (UpdateSyncBinlogStatus E C (rf_coord rf) (rf_send rf)
                   (RmNode_new ip port (pi_table_name p_info) (pi_partition_id p_info) 0) range_start range_end (md_rm (put sm)) w))"

definition HandleBinlogSyncRequest ::
  "('w, 'h) slash_env \<Rightarrow> slash_coding \<Rightarrow> 'x net_env \<Rightarrow> ('c, 'n, 'h, 'w) repl_conf \<Rightarrow> int \<Rightarrow> InnerRequest \<Rightarrow> ('c, 'n, 'h, 'd, 'x) master_side \<Rightarrow> 'w
    \<Rightarrow> (bool \<times> ('c, 'n, 'h, 'd, 'x) master_side \<times> 'w) option" where
  "HandleBinlogSyncRequest E C N rf fd req md w =
     (case rq_binlog_sync req of
        None \<Rightarrow> Some (False, md, w)
      | Some sync_req \<Rightarrow>
          let p_info = \<lparr>pi_table_name = bq_table_name sync_req, pi_partition_id = bq_partition_id sync_req\<rparr>
          in case GetSyncMasterPartitionByName p_info (md_rm md) of
               None \<Rightarrow> None
             | Some None \<Rightarrow> Some (False, md, w)
             | Some (Some sm) \<Rightarrow>
                 (case rq_consensus_meta req of
                    Some meta \<Rightarrow>
                      if meta_term meta < cc_term (sm_coordinator sm) then Some (False, md, w)
                      else (case (if meta_term meta > cc_term (sm_coordinator sm)
                                  then ConsensusUpdateTerm E rf (md_ps md) (meta_term meta) sm w else Some (sm, w)) of
                              None \<Rightarrow> None
                            | Some (sm, w) \<Rightarrow>
                                if \<not> CheckSessionId (nd_ip (bq_node sync_req)) (nd_port (bq_node sync_req)) (bq_session_id sync_req) sm
                                then Some (False, md\<lparr>md_rm := set_master p_info sm (md_rm md)\<rparr>, w)
                                else map_option (\<lambda>(signal, md). (signal, md, w)) (binlog_sync_ack E C N rf fd sync_req p_info sm md w))
                  | None \<Rightarrow>
                      if \<not> CheckSessionId (nd_ip (bq_node sync_req)) (nd_port (bq_node sync_req)) (bq_session_id sync_req) sm
                      then Some (False, md, w)
                      else map_option (\<lambda>(signal, md). (signal, md, w)) (binlog_sync_ack E C N rf fd sync_req p_info sm md w)))"

section \<open>Removing a slave\<close>

definition HandleRemoveSlaveNodeRequest ::
  "'x net_env \<Rightarrow> ('c, 'n, 'h, 'w) repl_conf \<Rightarrow> int \<Rightarrow> InnerRequest \<Rightarrow> ('c, 'n, 'h, 'd, 'x) master_side \<Rightarrow> ('c, 'n, 'h, 'd, 'x) master_side option" where
  "HandleRemoveSlaveNodeRequest N rf fd req md =
     (case rq_remove_slave_node req of
        [] \<Rightarrow> Some (close_conn N fd md)
      | r # _ \<Rightarrow>
          let p_info = rs_partition r; node = rs_node r
          in case GetSyncMasterPartitionByName p_info (md_rm md) of
               Some (Some sm) \<Rightarrow>
                 Some (reply_to N fd
                   ((InnerResponse_new kRemoveSlaveNode kCodeOk)\<lparr>ir_remove_slave_node :=
                      [\<lparr>rs_node = \<lparr>nd_ip = ps_host (md_ps md), nd_port = rf_port rf\<rparr>, rs_partition = p_info\<rparr>]\<rparr>)
                   (md\<lparr>md_rm := set_master p_info (snd (sm_RemoveSlaveNode (nd_ip node) (nd_port node) sm)) (md_rm md)\<rparr>))
             | _ \<Rightarrow> None)"

end
