(* ===== verification/Pika_Repl_Client.thy ===== *)
theory Pika_Repl_Client
  imports Pika_Repl_Server
begin

text \<open>
  The slave's end of the replication protocol: the requests of \<^verbatim>\<open>src/pika_repl_client.cc\<close> and \<^verbatim>\<open>src/pika_rm.cc\<close>, the
  handlers of \<^verbatim>\<open>src/pika_repl_client_conn.cc\<close> and the background workers of \<^verbatim>\<open>src/pika_repl_bgworker.cc\<close>.
  \<open>None\<close> stands for an abort.
\<close>

section \<open>State and network\<close>

text \<open>
  \<open>cn_local_ip\<close> opens a connection to a node and gives the own address on it; \<open>cn_Write\<close> is the writing of the
  client thread.
\<close>

record 'x client_net =
  cn_serialize :: "InnerRequest \<Rightarrow> bytes option"
  cn_local_ip :: "string \<Rightarrow> int \<Rightarrow> 'x \<Rightarrow> string option"
  cn_Write :: "string \<Rightarrow> int \<Rightarrow> bytes \<Rightarrow> 'x \<Rightarrow> Status \<times> 'x"
  cn_NotifyClose :: "'x \<Rightarrow> 'x"

record ('c, 'n, 'h, 'd, 'x) slave_side =
  sd_rm :: "('c, 'n, 'h) PikaReplicaManager"
  sd_ps :: PikaServer
  sd_tables :: "'d Partition tables"
  sd_write_binlog :: string
  sd_net :: 'x

definition set_state ::
  "PartitionInfo \<Rightarrow> ReplState \<Rightarrow> ('c, 'n, 'h, 'd, 'x) slave_side \<Rightarrow> ('c, 'n, 'h, 'd, 'x) slave_side" where
  "set_state p_info state sd = sd\<lparr>sd_rm := set_slave_state p_info state (sd_rm sd)\<rparr>"

definition client_send :: "'x client_net \<Rightarrow> string \<Rightarrow> int \<Rightarrow> InnerRequest \<Rightarrow> 'x \<Rightarrow> Status \<times> 'x" where
  "client_send M ip port req x =
     (case cn_serialize M req of
        None \<Rightarrow> (Corruption ''Serialize Failed'', x)
      | Some to_send \<Rightarrow> cn_Write M ip (port + kPortShiftReplServer) to_send x)"

section \<open>Requests\<close>

definition PIKA_META_SYNC_MAX_WAIT_TIME :: int where "PIKA_META_SYNC_MAX_WAIT_TIME = 10"

definition SendMetaSync ::
  "'x client_net \<Rightarrow> ('c, 'n, 'h, 'w) repl_conf \<Rightarrow> string \<Rightarrow> ('c, 'n, 'h, 'd, 'x) slave_side
    \<Rightarrow> (Status \<times> ('c, 'n, 'h, 'd, 'x) slave_side) option" where
  "SendMetaSync M rf masterauth sd =
     (let master_ip = ps_master_ip (sd_ps sd); master_port = ps_master_port (sd_ps sd)
      in case cn_local_ip M master_ip master_port (sd_net sd) of
           None \<Rightarrow>
             map_option (\<lambda>(ps, rm). (Corruption ''Connect master error'', sd\<lparr>sd_ps := ps, sd_rm := rm\<rparr>))
               (ResetMetaSyncStatus (sd_tables sd) (sd_ps sd) (sd_rm sd))
         | Some local_ip \<Rightarrow>
             let req = (InnerRequest_new kMetaSync)\<lparr>rq_meta_sync := Some \<lparr>ms_node = \<lparr>nd_ip = local_ip, nd_port = rf_port rf\<rparr>,
                          ms_auth = (if masterauth \<noteq> [] then Some masterauth else None)\<rparr>\<rparr>;
                 (s, x) = client_send M master_ip master_port req (sd_net sd)
             in Some (s, sd\<lparr>sd_net := x\<rparr>))"

text \<open>\<open>now\<close> is the time in seconds.\<close>

definition SendMetaSyncRequest ::
  "'x client_net \<Rightarrow> ('c, 'n, 'h, 'w) repl_conf \<Rightarrow> string \<Rightarrow> int \<Rightarrow> ('c, 'n, 'h, 'd, 'x) slave_side
    \<Rightarrow> (Status \<times> ('c, 'n, 'h, 'd, 'x) slave_side) option" where
  "SendMetaSyncRequest M rf masterauth now sd =
     (if now - ps_last_meta_sync_timestamp (sd_ps sd) \<ge> PIKA_META_SYNC_MAX_WAIT_TIME \<or> ps_first_meta_sync (sd_ps sd)
      then map_option (\<lambda>(s, sd). (s, if ok s then sd\<lparr>sd_ps := (sd_ps sd)\<lparr>ps_last_meta_sync_timestamp := now, ps_first_meta_sync := False\<rparr>\<rparr> else sd))
             (SendMetaSync M rf masterauth sd)
      else Some (OK, sd))"

definition sync_request :: "('c, 'n, 'h, 'w) repl_conf \<Rightarrow> PartitionInfo \<Rightarrow> BinlogOffset \<Rightarrow> string \<Rightarrow> SyncRequest" where
  "sync_request rf p_info boffset local_ip =
     \<lparr>sr_node = \<lparr>nd_ip = local_ip, nd_port = rf_port rf\<rparr>, sr_partition = p_info,
      sr_binlog_offset = PbBinlogOffset0\<lparr>pb_filenum := bo_filenum boffset, pb_offset := bo_offset boffset\<rparr>\<rparr>"

definition SendPartitionDBSync ::
  "'x client_net \<Rightarrow> ('c, 'n, 'h, 'w) repl_conf \<Rightarrow> string \<Rightarrow> int \<Rightarrow> PartitionInfo \<Rightarrow> BinlogOffset \<Rightarrow> string
    \<Rightarrow> ('c, 'n, 'h, 'd, 'x) slave_side \<Rightarrow> Status \<times> ('c, 'n, 'h, 'd, 'x) slave_side" where
  "SendPartitionDBSync M rf ip port p_info boffset local_ip sd =
     (case client_send M ip port ((InnerRequest_new kDBSync)\<lparr>rq_db_sync := Some (sync_request rf p_info boffset local_ip)\<rparr>) (sd_net sd) of
        (s, x) \<Rightarrow> (s, sd\<lparr>sd_net := x\<rparr>))"

text \<open>With consensus the slave raises its term by one with every attempt.\<close>

definition SendPartitionTrySync ::
  "('w, 'h) slash_env \<Rightarrow> 'x client_net \<Rightarrow> ('c, 'n, 'h, 'w) repl_conf \<Rightarrow> string \<Rightarrow> int \<Rightarrow> PartitionInfo \<Rightarrow> BinlogOffset \<Rightarrow> string
    \<Rightarrow> ('c, 'n, 'h, 'd, 'x) slave_side \<Rightarrow> 'w \<Rightarrow> (Status \<times> ('c, 'n, 'h, 'd, 'x) slave_side \<times> 'w) option" where
  "SendPartitionTrySync E M rf ip port p_info boffset local_ip sd w =
     (let req = (InnerRequest_new kTrySync)\<lparr>rq_try_sync := Some (sync_request rf p_info boffset local_ip)\<rparr>;
          send = (\<lambda>req sd. case client_send M ip port req (sd_net sd) of (s, x) \<Rightarrow> (s, sd\<lparr>sd_net := x\<rparr>))
      in if cf_consensus_level (rf_coord rf) = 0 then (case send req sd of (s, sd) \<Rightarrow> Some (s, sd, w))
         else (case GetSyncMasterPartitionByName p_info (sd_rm sd) of
                 None \<Rightarrow> None
               | Some None \<Rightarrow> Some (Corruption ''partition not found'', sd, w)
               | Some (Some sm) \<Rightarrow>
                   let last_index = ml_last_offset (cc_mem_logger (sm_coordinator sm)); trm = cc_term (sm_coordinator sm) + 1
                   in case ConsensusUpdateTerm E rf (sd_ps sd) trm sm w of
                        None \<Rightarrow> None
                      | Some (sm, w) \<Rightarrow>
                          (case send (req\<lparr>rq_consensus_meta := Some (ConsensusMeta0\<lparr>cm_term := Some trm, cm_log_offset := Some (BuildBinlogOffset last_index)\<rparr>)\<rparr>)
                                  (sd\<lparr>sd_rm := set_master p_info sm (sd_rm sd)\<rparr>) of
                             (s, sd) \<Rightarrow> Some (s, sd, w))))"

definition SendPartitionBinlogSync ::
  "'x client_net \<Rightarrow> ('c, 'n, 'h, 'w) repl_conf \<Rightarrow> string \<Rightarrow> int \<Rightarrow> PartitionInfo \<Rightarrow> LogOffset \<Rightarrow> LogOffset \<Rightarrow> string \<Rightarrow> bool
    \<Rightarrow> ('c, 'n, 'h, 'd, 'x) slave_side \<Rightarrow> Status \<times> ('c, 'n, 'h, 'd, 'x) slave_side" where
  "SendPartitionBinlogSync M rf ip port p_info ack_start ack_end local_ip is_first_send sd =
     (case GetSyncSlavePartitionByName p_info (sd_rm sd) of
        None \<Rightarrow> (NotFound ''SyncSlavePartition NotFound'', sd)
      | Some ss \<Rightarrow>
          let bq = \<lparr>bq_node = \<lparr>nd_ip = local_ip, nd_port = rf_port rf\<rparr>, bq_table_name = pi_table_name p_info, bq_partition_id = pi_partition_id p_info,
                    bq_ack_range_start = BuildBinlogOffset ack_start, bq_ack_range_end = BuildBinlogOffset ack_end,
                    bq_session_id = rn_session_id (ssp_m_info ss), bq_first_send = is_first_send\<rparr>;
              (s, x) = client_send M ip port ((InnerRequest_new kBinlogSync)\<lparr>rq_binlog_sync := Some bq\<rparr>) (sd_net sd)
          in (s, sd\<lparr>sd_net := x\<rparr>))"

definition SendRemoveSlaveNode ::
  "'x client_net \<Rightarrow> ('c, 'n, 'h, 'w) repl_conf \<Rightarrow> string \<Rightarrow> int \<Rightarrow> PartitionInfo \<Rightarrow> string
    \<Rightarrow> ('c, 'n, 'h, 'd, 'x) slave_side \<Rightarrow> Status \<times> ('c, 'n, 'h, 'd, 'x) slave_side" where
  "SendRemoveSlaveNode M rf ip port p_info local_ip sd =
     (case client_send M ip port ((InnerRequest_new kRemoveSlaveNode)\<lparr>rq_remove_slave_node :=
             [\<lparr>rs_node = \<lparr>nd_ip = local_ip, nd_port = rf_port rf\<rparr>, rs_partition = p_info\<rparr>]\<rparr>) (sd_net sd) of
        (s, x) \<Rightarrow> (s, sd\<lparr>sd_net := x\<rparr>))"

section \<open>Requests of a partition\<close>

definition SendRemoveSlaveNodeRequest ::
  "'x client_net \<Rightarrow> ('c, 'n, 'h, 'w) repl_conf \<Rightarrow> PartitionInfo \<Rightarrow> ('c, 'n, 'h, 'd, 'x) slave_side \<Rightarrow> Status \<times> ('c, 'n, 'h, 'd, 'x) slave_side" where
  "SendRemoveSlaveNodeRequest M rf p_info sd =
     (case GetSyncSlavePartitionByName p_info (sd_rm sd) of
        None \<Rightarrow> (NotFound (''Sync Slave partition '' @ PartitionInfo_ToString p_info), sd)
      | Some ss \<Rightarrow>
          (case SendRemoveSlaveNode M rf (rn_ip (ssp_m_info ss)) (rn_port (ssp_m_info ss)) p_info (ssp_local_ip ss) sd of
             (s, sd) \<Rightarrow> (s, if ok s then set_state p_info kDBNoConnect sd else sd)))"

definition SendPartitionTrySyncRequest ::
  "('w, 'h) slash_env \<Rightarrow> 'x client_net \<Rightarrow> ('c, 'n, 'h, 'w) repl_conf \<Rightarrow> PartitionInfo \<Rightarrow> ('c, 'n, 'h, 'd, 'x) slave_side \<Rightarrow> 'w
    \<Rightarrow> (Status \<times> ('c, 'n, 'h, 'd, 'x) slave_side \<times> 'w) option" where
  "SendPartitionTrySyncRequest E M rf p_info sd w =
     (case GetTablePartitionBinlogOffset (pi_table_name p_info) (pi_partition_id p_info) (sd_rm sd) of
        None \<Rightarrow> None
      | Some None \<Rightarrow> Some (Corruption ''Partition get binlog offset error'', sd, w)
      | Some (Some boffset) \<Rightarrow>
          (case GetSyncSlavePartitionByName p_info (sd_rm sd) of
             None \<Rightarrow> Some (Corruption ''Slave Partition not found'', sd, w)
           | Some ss \<Rightarrow>
               map_option (\<lambda>(s, sd, w). (s, set_state p_info (if ok s then kWaitReply else kError) sd, w))
                 (SendPartitionTrySync E M rf (rn_ip (ssp_m_info ss)) (rn_port (ssp_m_info ss)) p_info boffset (ssp_local_ip ss) sd w)))"

definition SendPartitionDBSyncRequest ::
  "('w, 'd) partition_env \<Rightarrow> 'x client_net \<Rightarrow> ('c, 'n, 'h, 'w) repl_conf \<Rightarrow> PartitionInfo \<Rightarrow> ('c, 'n, 'h, 'd, 'x) slave_side \<Rightarrow> 'w
    \<Rightarrow> (Status \<times> ('c, 'n, 'h, 'd, 'x) slave_side \<times> 'w) option" where
  "SendPartitionDBSyncRequest X M rf p_info sd w =
     (case GetTablePartitionBinlogOffset (pi_table_name p_info) (pi_partition_id p_info) (sd_rm sd) of
        None \<Rightarrow> None
      | Some None \<Rightarrow> Some (Corruption ''Partition get binlog offset error'', sd, w)
      | Some (Some boffset) \<Rightarrow>
          (case GetTablePartitionById (pi_table_name p_info) (pi_partition_id p_info) (sd_tables sd) of
             None \<Rightarrow> None
           | Some None \<Rightarrow> Some (Corruption ''Partition not found'', sd, w)
           | Some (Some p) \<Rightarrow>
               let w = PrepareRsync X p w
               in case GetSyncSlavePartitionByName p_info (sd_rm sd) of
                    None \<Rightarrow> Some (Corruption ''Slave Partition not found'', sd, w)
                  | Some ss \<Rightarrow>
                      (case SendPartitionDBSync M rf (rn_ip (ssp_m_info ss)) (rn_port (ssp_m_info ss)) p_info boffset (ssp_local_ip ss) sd of
                         (s, sd) \<Rightarrow> Some (s, set_state p_info (if ok s then kWaitReply else kError) sd, w))))"

definition SendPartitionBinlogSyncAckRequest ::
  "'x client_net \<Rightarrow> ('c, 'n, 'h, 'w) repl_conf \<Rightarrow> PartitionInfo \<Rightarrow> LogOffset \<Rightarrow> LogOffset \<Rightarrow> bool
    \<Rightarrow> ('c, 'n, 'h, 'd, 'x) slave_side \<Rightarrow> Status \<times> ('c, 'n, 'h, 'd, 'x) slave_side" where
  "SendPartitionBinlogSyncAckRequest M rf p_info ack_start ack_end is_first_send sd =
     (case GetSyncSlavePartitionByName p_info (sd_rm sd) of
        None \<Rightarrow> (Corruption ''Slave Partition not found'', sd)
      | Some ss \<Rightarrow>
          SendPartitionBinlogSync M rf (rn_ip (ssp_m_info ss)) (rn_port (ssp_m_info ss)) p_info ack_start ack_end (ssp_local_ip ss) is_first_send sd)"

section \<open>The state machine\<close>

text \<open>One partition; the results of the requests are not looked at.\<close>

definition run_partition ::
  "('w, 'h) slash_env \<Rightarrow> ('w, 'd) partition_env \<Rightarrow> (string \<Rightarrow> 'w \<Rightarrow> string option) \<Rightarrow> 'x client_net \<Rightarrow> ('c, 'n, 'h, 'w) repl_conf \<Rightarrow> PartitionInfo
    \<Rightarrow> SyncSlavePartition \<Rightarrow> ('c, 'n, 'h, 'd, 'x) slave_side \<Rightarrow> 'w \<Rightarrow> (('c, 'n, 'h, 'd, 'x) slave_side \<times> 'w) option" where
  "run_partition E X open_info M rf p_info ss sd w =
     (case ssp_repl_state ss of
        kTryConnect \<Rightarrow> map_option snd (SendPartitionTrySyncRequest E M rf p_info sd w)
      | kTryDBSync \<Rightarrow> map_option snd (SendPartitionDBSyncRequest X M rf p_info sd w)
      | kWaitDBSync \<Rightarrow>
          (case GetTablePartitionById (pi_table_name p_info) (pi_partition_id p_info) (sd_tables sd) of
             None \<Rightarrow> None
           | Some None \<Rightarrow> Some (sd, w)
           | Some (Some p) \<Rightarrow>
               map_option (\<lambda>(_, p, rm, w). (sd\<lparr>sd_rm := rm, sd_tables := set_partition p_info (Some p) (sd_tables sd)\<rparr>, w))
                 (TryUpdateMasterOffset E X open_info (cf_string2l (rf_coord rf)) (rf_coord rf) p (sd_rm sd) w))
      | _ \<Rightarrow> Some (sd, w))"

primrec run_partitions ::
  "('w, 'h) slash_env \<Rightarrow> ('w, 'd) partition_env \<Rightarrow> (string \<Rightarrow> 'w \<Rightarrow> string option) \<Rightarrow> 'x client_net \<Rightarrow> ('c, 'n, 'h, 'w) repl_conf
    \<Rightarrow> (PartitionInfo \<times> SyncSlavePartition) list \<Rightarrow> ('c, 'n, 'h, 'd, 'x) slave_side \<Rightarrow> 'w \<Rightarrow> (('c, 'n, 'h, 'd, 'x) slave_side \<times> 'w) option" where
  "run_partitions E X open_info M rf [] sd w = Some (sd, w)"
| "run_partitions E X open_info M rf (e # items) sd w =
     (case run_partition E X open_info M rf (fst e) (snd e) sd w of
        None \<Rightarrow> None
      | Some (sd, w) \<Rightarrow> run_partitions E X open_info M rf items sd w)"

definition RunSyncSlavePartitionStateMachine ::
  "('w, 'h) slash_env \<Rightarrow> ('w, 'd) partition_env \<Rightarrow> (string \<Rightarrow> 'w \<Rightarrow> string option) \<Rightarrow> 'x client_net \<Rightarrow> ('c, 'n, 'h, 'w) repl_conf
    \<Rightarrow> ('c, 'n, 'h, 'd, 'x) slave_side \<Rightarrow> 'w \<Rightarrow> (('c, 'n, 'h, 'd, 'x) slave_side \<times> 'w) option" where
  "RunSyncSlavePartitionStateMachine E X open_info M rf sd w =
     run_partitions E X open_info M rf (rm_sync_slave_partitions (sd_rm sd)) sd w"

section \<open>Responses\<close>

definition IsTableStructConsistent :: "TableStruct list \<Rightarrow> TableStruct list \<Rightarrow> bool" where
  "IsTableStructConsistent current_tables expect_tables \<longleftrightarrow>
     length current_tables = length expect_tables \<and> list_all (\<lambda>t. t \<in> set expect_tables) current_tables"

definition sync_failed :: "'x client_net \<Rightarrow> ('c, 'n, 'h, 'd, 'x) slave_side \<Rightarrow> ('c, 'n, 'h, 'd, 'x) slave_side" where
  "sync_failed M sd = sd\<lparr>sd_ps := SyncError (sd_ps sd), sd_net := cn_NotifyClose M (sd_net sd)\<rparr>"

text \<open>\<open>select_local_ip\<close> and \<open>now\<close> are for \<^verbatim>\<open>PreparePartitionTrySync\<close>.\<close>

definition HandleMetaSyncResponse ::
  "'x client_net \<Rightarrow> ('c, 'n, 'h, 'w) repl_conf \<Rightarrow> (string \<Rightarrow> int \<Rightarrow> Status + string) \<Rightarrow> InnerResponse \<Rightarrow> ('c, 'n, 'h, 'd, 'x) slave_side
    \<Rightarrow> ('c, 'n, 'h, 'd, 'x) slave_side option" where
  "HandleMetaSyncResponse M rf select_local_ip response sd =
     (if ir_code response = kCodeOther then Some sd
      else if ir_code response \<noteq> kCodeOk then Some (sync_failed M sd)
      else let meta_sync = or_default MetaSyncResponse0 (ir_meta_sync response)
           in if cf_classic_mode (rf_coord rf) \<noteq> mr_classic_mode meta_sync then Some (sync_failed M sd)
              else let master_table_structs =
                         map (\<lambda>(name, num). \<lparr>ts_table_name = name, ts_partition_num = ucast num, ts_partition_ids = [0]\<rparr>) (mr_tables_info meta_sync)
                   in if \<not> IsTableStructConsistent (rf_table_structs rf) master_table_structs then Some (sync_failed M sd)
                      else (case PreparePartitionTrySync select_local_ip (rf_now rf 0) (sd_tables sd) (sd_ps sd) (sd_rm sd) of
                              None \<Rightarrow> None
                            | Some (ps, rm) \<Rightarrow>
                                map_option (\<lambda>ps. sd\<lparr>sd_ps := ps, sd_rm := rm, sd_write_binlog := ''yes''\<rparr>) (FinishMetaSync ps)))"

definition HandleDBSyncResponse :: "InnerResponse \<Rightarrow> ('c, 'n, 'h, 'd, 'x) slave_side \<Rightarrow> ('c, 'n, 'h, 'd, 'x) slave_side" where
  "HandleDBSyncResponse response sd =
     (let r = or_default DBSyncResponse0 (ir_db_sync response); p_info = dr_partition r
      in case GetSyncSlavePartitionByName p_info (sd_rm sd) of
           None \<Rightarrow> sd
         | Some ss \<Rightarrow>
             if ir_code response \<noteq> kCodeOk then set_state p_info kError sd
             else sd\<lparr>sd_rm := set_slave_partition p_info
                               (SetReplState kWaitDBSync (SetMasterSessionId (or_default 0 (dr_session_id r)) ss)) (sd_rm sd)\<rparr>)"

definition TrySyncConsensusCheck ::
  "('w, 'h) slash_env \<Rightarrow> slash_coding \<Rightarrow> ('c, 'n, 'h, 'w) repl_conf \<Rightarrow> ConsensusMeta \<Rightarrow> PartitionInfo \<Rightarrow> ('c, 'n, 'h) SyncMasterPartition
    \<Rightarrow> ('c, 'n, 'h, 'd, 'x) slave_side \<Rightarrow> 'w \<Rightarrow> (Status \<times> ('c, 'n, 'h, 'd, 'x) slave_side \<times> 'w) option" where
  "TrySyncConsensusCheck E C rf meta p_info sm sd w =
     (case FollowerNegotiate E C (rf_coord rf) (map ParseBinlogOffset (cm_hint meta)) LogOffset0 (sm_coordinator sm) w of
        None \<Rightarrow> None
      | Some (s, _, cc, w) \<Rightarrow>
          let sd = sd\<lparr>sd_rm := set_master p_info (sm\<lparr>sm_coordinator := cc\<rparr>) (sd_rm sd)\<rparr>
          in if \<not> ok s then Some (s, sd, w) else Some (s, set_state p_info kTryConnect sd, w))"

text \<open>The reply code, after the checks of consensus.\<close>

definition try_sync_reply ::
  "'x client_net \<Rightarrow> ('c, 'n, 'h, 'w) repl_conf \<Rightarrow> TrySyncResponse \<Rightarrow> LogicOffset \<Rightarrow> PartitionInfo \<Rightarrow> ('c, 'n, 'h) SyncMasterPartition
    \<Rightarrow> ('c, 'n, 'h, 'd, 'x) slave_side \<Rightarrow> ('c, 'n, 'h, 'd, 'x) slave_side" where
  "try_sync_reply M rf tr logic_last_offset p_info sm sd =
     (case tr_reply_code tr of
        kReplyOk \<Rightarrow>
          let boffset = (case Binlog_GetProducerStatus (sm_logger sm) of
                           (_, None) \<Rightarrow> BinlogOffset 0 0 | (_, Some (filenum, offset, _, _)) \<Rightarrow> BinlogOffset filenum offset);
              on_slave_partition = (\<lambda>f sd. case GetSyncSlavePartitionByName p_info (sd_rm sd) of
                                             None \<Rightarrow> sd | Some ss \<Rightarrow> sd\<lparr>sd_rm := set_slave_partition p_info (f ss) (sd_rm sd)\<rparr>);
              sd = on_slave_partition (SetMasterSessionId (or_default 0 (tr_session_id tr))) sd;
              offset = \<lparr>b_offset = boffset, l_offset = logic_last_offset\<rparr>;
              (_, sd) = SendPartitionBinlogSyncAckRequest M rf p_info offset offset True sd
          in on_slave_partition (ssp_SetLastRecvTime (rf_now rf 0) \<circ> SetReplState kConnected) sd
      | kReplySyncPointBePurged \<Rightarrow> set_state p_info kTryDBSync sd
      | kReplySyncPointLarger \<Rightarrow> set_state p_info kError sd
      | kReplyError \<Rightarrow> set_state p_info kError sd)"

definition HandleTrySyncResponse ::
  "('w, 'h) slash_env \<Rightarrow> slash_coding \<Rightarrow> 'x client_net \<Rightarrow> ('c, 'n, 'h, 'w) repl_conf \<Rightarrow> InnerResponse \<Rightarrow> ('c, 'n, 'h, 'd, 'x) slave_side \<Rightarrow> 'w
    \<Rightarrow> (('c, 'n, 'h, 'd, 'x) slave_side \<times> 'w) option" where
  "HandleTrySyncResponse E C M rf response sd w =
     (if ir_code response \<noteq> kCodeOk then Some (sd, w)
      else let tr = or_default TrySyncResponse0 (ir_try_sync response); p_info = tr_partition tr
           in case GetSyncMasterPartitionByName p_info (sd_rm sd) of
                None \<Rightarrow> None
              | Some None \<Rightarrow> Some (sd, w)
              | Some (Some sm) \<Rightarrow>
                  (case GetSyncSlavePartitionByName p_info (sd_rm sd) of
                     None \<Rightarrow> Some (sd, w)
                   | Some ss \<Rightarrow>
                       (case ir_consensus_meta response of
                          None \<Rightarrow> Some (try_sync_reply M rf tr \<lparr>lo_term = 0, lo_index = 0\<rparr> p_info sm sd, w)
                        | Some meta \<Rightarrow>
                            if meta_term meta < cc_term (sm_coordinator sm) then Some (sd, w)
                            else (case (if meta_term meta > cc_term (sm_coordinator sm)
                                        then ConsensusUpdateTerm E rf (sd_ps sd) (meta_term meta) sm w else Some (sm, w)) of
                                    None \<Rightarrow> None
                                  | Some (sm, w) \<Rightarrow>
                                      let sd = sd\<lparr>sd_rm := set_master p_info sm (sd_rm sd)\<rparr>
                                      in if meta_reject meta
                                         then map_option (\<lambda>(s, sd, w). (if \<not> ok s then set_state p_info kError sd else sd, w))
                                                (TrySyncConsensusCheck E C rf meta p_info sm sd w)
                                         else Some (try_sync_reply M rf tr (l_offset (ml_last_offset (cc_mem_logger (sm_coordinator sm)))) p_info sm sd, w)))))"

text \<open>
  The chips of a response are grouped by partition, and a task is scheduled for every partition. The order of
  the partitions is that of a hash table; the model takes that of their first chips. The loop ends at a partition
  that does not exist.
\<close>

definition chip_groups :: "BinlogSyncChip list \<Rightarrow> (PartitionInfo \<times> nat list) list" where
  "chip_groups chips =
     map (\<lambda>p. (p, filter (\<lambda>i. br_partition (chips ! i) = p) [0..<length chips])) (rev (remdups (rev (map br_partition chips))))"

primrec dispatch_tasks ::
  "u64 \<Rightarrow> (PartitionInfo \<times> nat list) list \<Rightarrow> ('c, 'n, 'h) PikaReplicaManager
    \<Rightarrow> (PartitionInfo \<times> nat list) list \<times> ('c, 'n, 'h) PikaReplicaManager" where
  "dispatch_tasks now [] rm = ([], rm)"
| "dispatch_tasks now (g # gs) rm =
     (case GetSyncSlavePartitionByName (fst g) rm of
        None \<Rightarrow> ([], rm)
      | Some ss \<Rightarrow> apfst (Cons g) (dispatch_tasks now gs (set_slave_partition (fst g) (ssp_SetLastRecvTime now ss) rm)))"

definition DispatchBinlogRes ::
  "('c, 'n, 'h, 'w) repl_conf \<Rightarrow> InnerResponse \<Rightarrow> ('c, 'n, 'h, 'd, 'x) slave_side \<Rightarrow> (PartitionInfo \<times> nat list) list \<times> ('c, 'n, 'h, 'd, 'x) slave_side" where
  "DispatchBinlogRes rf res sd =
     (case dispatch_tasks (rf_now rf 0) (chip_groups (ir_binlog_sync res)) (sd_rm sd) of (tasks, rm) \<Rightarrow> (tasks, sd\<lparr>sd_rm := rm\<rparr>))"

text \<open>The worker of a task: the binlogs of a partition in one half of the workers, the commands of a key in the other.\<close>

definition GetHashIndex :: "(string \<Rightarrow> nat) \<Rightarrow> nat \<Rightarrow> string \<Rightarrow> bool \<Rightarrow> nat option" where
  "GetHashIndex str_hash workers key upper_half =
     (let hash_base = workers div 2
      in if hash_base = 0 then None else Some (str_hash key mod hash_base + (if upper_half then 0 else hash_base)))"

section \<open>Background work\<close>

text \<open>
  \<^verbatim>\<open>HandleWriteBinlog\<close>, which the parser calls with the command; \<open>False\<close> is the result -1, which makes the
  parser report an error.
\<close>

definition HandleWriteBinlog ::
  "('w, 'h) slash_env \<Rightarrow> 'c coord_conf \<Rightarrow> PartitionInfo \<Rightarrow> BinlogItem \<Rightarrow> string list \<Rightarrow> ('c, 'n, 'h) PikaReplicaManager \<Rightarrow> 'w
    \<Rightarrow> (bool \<times> ('c, 'n, 'h) PikaReplicaManager \<times> 'w) option" where
  "HandleWriteBinlog E cf p_info item argv rm w =
     (case InitCmd cf (pi_table_name p_info) argv of
        None \<Rightarrow> Some (False, rm, w)
      | Some cmd \<Rightarrow>
          (case GetSyncMasterPartitionByName p_info rm of
             Some (Some sm) \<Rightarrow>
               map_option (\<lambda>(_, cc, w). (True, set_master p_info (sm\<lparr>sm_coordinator := cc\<rparr>) rm, w))
                 (ProcessLeaderLog E cf cmd item (sm_coordinator sm) w)
           | _ \<Rightarrow> None))"

text \<open>The loop over the chips; \<open>False\<close> is an early return.\<close>

fun write_binlogs ::
  "('w, 'h) slash_env \<Rightarrow> slash_coding \<Rightarrow> 'c coord_conf \<Rightarrow> PikaServer \<Rightarrow> PartitionInfo \<Rightarrow> BinlogSyncChip list \<Rightarrow> BinlogItem
    \<Rightarrow> ('c, 'n, 'h) PikaReplicaManager \<Rightarrow> 'w \<Rightarrow> (bool \<times> BinlogItem \<times> ('c, 'n, 'h) PikaReplicaManager \<times> 'w) option" where
  "write_binlogs E C cf ps p_info [] item rm w = Some (True, item, rm, w)"
| "write_binlogs E C cf ps p_info (chip # chips) item rm w =
     (case GetSyncSlavePartitionByName p_info rm of
        None \<Rightarrow> None
      | Some ss \<Rightarrow>
          if cf_classic_mode cf \<and> ps_role ps AND PIKA_ROLE_SLAVE = 0 \<or> ssp_repl_state ss \<noteq> kConnected \<and> ssp_repl_state ss \<noteq> kWaitDBSync
          then Some (False, item, rm, w)
          else if rn_session_id (ssp_m_info ss) \<noteq> br_session_id chip then Some (False, item, set_slave_state p_info kTryConnect rm, w)
          else if br_binlog chip = [] then write_binlogs E C cf ps p_info chips item rm w
          else (case BinlogItemWithoutContentDecode C TypeFirst (br_binlog chip) item of
                  (res, item) \<Rightarrow>
                    if \<not> res then Some (False, item, set_slave_state p_info kTryConnect rm, w)
                    else (case cf_redis_parse cf (drop BINLOG_ENCODE_LEN (br_binlog chip)) of
                            None \<Rightarrow> Some (False, item, set_slave_state p_info kTryConnect rm, w)
                          | Some argv \<Rightarrow>
                              (case HandleWriteBinlog E cf p_info item argv rm w of
                                 None \<Rightarrow> None
                               | Some (done_ok, rm, w) \<Rightarrow>
                                   if \<not> done_ok then Some (False, item, set_slave_state p_info kTryConnect rm, w)
                                   else write_binlogs E C cf ps p_info chips item rm w))))"

definition chip_offset :: "BinlogSyncChip option \<Rightarrow> LogOffset" where
  "chip_offset c = (case c of None \<Rightarrow> LogOffset0 | Some chip \<Rightarrow> ParseBinlogOffset (br_binlog_offset chip))"

text \<open>The term of a response and its previous offset; \<open>False\<close> in the first component is an early return.\<close>

definition check_leader ::
  "('w, 'h) slash_env \<Rightarrow> ('c, 'n, 'h, 'w) repl_conf \<Rightarrow> ConsensusMeta \<Rightarrow> bool \<Rightarrow> PartitionInfo \<Rightarrow> ('c, 'n, 'h) SyncMasterPartition
    \<Rightarrow> ('c, 'n, 'h, 'd, 'x) slave_side \<Rightarrow> 'w \<Rightarrow> (bool \<times> ('c, 'n, 'h, 'd, 'x) slave_side \<times> 'w) option" where
  "check_leader E rf meta only_keepalive p_info sm sd w =
     (if meta_term meta < cc_term (sm_coordinator sm) then Some (False, sd, w)
      else case (if meta_term meta > cc_term (sm_coordinator sm)
                 then ConsensusUpdateTerm E rf (sd_ps sd) (meta_term meta) sm w else Some (sm, w)) of
             None \<Rightarrow> None
           | Some (sm, w) \<Rightarrow>
               let sd = sd\<lparr>sd_rm := set_master p_info sm (sd_rm sd)\<rparr>;
                   last_offset = ml_last_offset (cc_mem_logger (sm_coordinator sm));
                   prev_offset = ParseBinlogOffset (or_default PbBinlogOffset0 (cm_log_offset meta))
               in if \<not> only_keepalive \<and> lo_index (l_offset last_offset) \<noteq> 0
                     \<and> (l_offset last_offset \<noteq> l_offset prev_offset \<or> b_offset last_offset \<noteq> b_offset prev_offset)
                  then Some (False, set_state p_info kTryConnect sd, w)
                  else Some (True, sd, w))"

text \<open>The end of a task: the commit of the leader, and the acknowledgement.\<close>

definition finish_binlogs ::
  "'x client_net \<Rightarrow> ('c, 'n, 'h, 'w) repl_conf \<Rightarrow> InnerResponse \<Rightarrow> PartitionInfo \<Rightarrow> LogOffset \<Rightarrow> LogOffset \<Rightarrow> ('c, 'n, 'h, 'd, 'x) slave_side
    \<Rightarrow> ('c, 'n, 'h, 'd, 'x) slave_side option" where
  "finish_binlogs M rf res p_info pb_begin pb_end sd =
     (case GetSyncMasterPartitionByName p_info (sd_rm sd) of
        Some (Some sm) \<Rightarrow>
          let sm = (case ir_consensus_meta res of
                      None \<Rightarrow> sm
                    | Some meta \<Rightarrow>
                        sm\<lparr>sm_coordinator := snd (ProcessLocalUpdate (rf_coord rf)
                             (ParseBinlogOffset (or_default PbBinlogOffset0 (cm_commit meta))) (sm_coordinator sm))\<rparr>);
              sd = sd\<lparr>sd_rm := set_master p_info sm (sd_rm sd)\<rparr>;
              only_keepalive = LogOffset_eq pb_begin LogOffset0;
              ack_end = (if only_keepalive then LogOffset0
                         else case Binlog_GetProducerStatus (sm_logger sm) of
                                (_, None) \<Rightarrow> LogOffset0\<lparr>l_offset := \<lparr>lo_term = lo_term (l_offset pb_end), lo_index = 0\<rparr>\<rparr>
                              | (_, Some (filenum, offset, _, index)) \<Rightarrow>
                                  \<lparr>b_offset = BinlogOffset filenum offset, l_offset = \<lparr>lo_term = lo_term (l_offset pb_end), lo_index = index\<rparr>\<rparr>)
          in Some (snd (SendPartitionBinlogSyncAckRequest M rf p_info (if only_keepalive then LogOffset0 else pb_begin) ack_end False sd))
      | _ \<Rightarrow> None)"

definition HandleBGWorkerWriteBinlog ::
  "('w, 'h) slash_env \<Rightarrow> slash_coding \<Rightarrow> 'x client_net \<Rightarrow> ('c, 'n, 'h, 'w) repl_conf \<Rightarrow> InnerResponse \<Rightarrow> nat list \<Rightarrow> BinlogItem
    \<Rightarrow> ('c, 'n, 'h, 'd, 'x) slave_side \<Rightarrow> 'w \<Rightarrow> (BinlogItem \<times> ('c, 'n, 'h, 'd, 'x) slave_side \<times> 'w) option" where
  "HandleBGWorkerWriteBinlog E C M rf res index item sd w =
     (let chips = map (\<lambda>i. ir_binlog_sync res ! i) index;
          p_info = (case chips of [] \<Rightarrow> PbPartition0 | chip # _ \<Rightarrow> br_partition chip);
          pb_begin = chip_offset (find (\<lambda>c. br_binlog c \<noteq> []) chips);
          pb_end = chip_offset (find (\<lambda>c. br_binlog c \<noteq> []) (rev chips));
          only_keepalive = LogOffset_eq pb_begin LogOffset0
      in case GetSyncMasterPartitionByName p_info (sd_rm sd) of
           None \<Rightarrow> None
         | Some None \<Rightarrow> Some (item, sd, w)
         | Some (Some sm) \<Rightarrow>
             (case GetSyncSlavePartitionByName p_info (sd_rm sd) of
                None \<Rightarrow> Some (item, sd, w)
              | Some ss \<Rightarrow>
                  (case (case ir_consensus_meta res of
                           None \<Rightarrow> Some (True, sd, w)
                         | Some meta \<Rightarrow> check_leader E rf meta only_keepalive p_info sm sd w) of
                     None \<Rightarrow> None
                   | Some (go, sd, w) \<Rightarrow>
                       if \<not> go then Some (item, sd, w)
                       else (case write_binlogs E C (rf_coord rf) (sd_ps sd) p_info chips item (sd_rm sd) w of
                               None \<Rightarrow> None
                             | Some (go, item, rm, w) \<Rightarrow>
                                 let sd = sd\<lparr>sd_rm := rm\<rparr>
                                 in if \<not> go then Some (item, sd, w)
                                    else map_option (\<lambda>sd. (item, sd, w)) (finish_binlogs M rf res p_info pb_begin pb_end sd)))))"

text \<open>
  Applying a command. \<open>do_cmd\<close> is its \<^verbatim>\<open>Do\<close>, \<open>argv\<close> its arguments; \<open>start_us\<close> and \<open>end_us\<close> are the readings of the
  clock and \<open>slower_than\<close> the configured limit.
\<close>

definition HandleBGWorkerWriteDB ::
  "('w, 'h) slash_env \<Rightarrow> ('c, 'n, 'h, 'w) repl_conf \<Rightarrow> ('c \<Rightarrow> 'd Partition \<Rightarrow> 'd Partition) \<Rightarrow> string list \<Rightarrow> int \<Rightarrow> i32 \<Rightarrow> u64 \<Rightarrow> u64
    \<Rightarrow> 'c \<Rightarrow> LogOffset \<Rightarrow> PartitionInfo \<Rightarrow> ('c, 'n, 'h, 'd, 'x) slave_side \<Rightarrow> 'w \<Rightarrow> (('c, 'n, 'h, 'd, 'x) slave_side \<times> 'w) option" where
  "HandleBGWorkerWriteDB E rf do_cmd argv slower_than slowlog_max_len start_us end_us cmd offset p_info sd w =
     (case GetTablePartitionById (pi_table_name p_info) (pi_partition_id p_info) (sd_tables sd) of
        Some (Some p) \<Rightarrow>
          let sd = sd\<lparr>sd_tables := set_partition p_info (Some (do_cmd cmd p)) (sd_tables sd)\<rparr>;
              duration = sint (end_us - start_us);
              sd = (if slower_than \<ge> 0 \<and> duration > slower_than
                    then sd\<lparr>sd_ps := SlowlogPushEntry slowlog_max_len argv (sint (ucast (start_us div 1000000) :: i32)) duration (sd_ps sd)\<rparr>
                    else sd)
          in if cf_consensus_level (rf_coord rf) = 0 then Some (sd, w)
             else (case GetSyncMasterPartitionByName p_info (sd_rm sd) of
                     None \<Rightarrow> None
                   | Some None \<Rightarrow> Some (sd, w)
                   | Some (Some sm) \<Rightarrow>
                       map_option (\<lambda>(_, sm, w). (sd\<lparr>sd_rm := set_master p_info sm (sd_rm sd)\<rparr>, w)) (ConsensusUpdateAppliedIndex E offset sm w))
      | _ \<Rightarrow> None)"

end
