(* ===== verification/Pika_Handshake.thy ===== *)
theory Pika_Handshake
  imports Pika_Repl_Client
begin

text \<open>
  How a slave connects: the request of the slave, the check of the master, and what both know of each other
  afterwards; requests that come too late; replies that never help.
\<close>

lemma producer_status:
  "binlog_ok E fs b w \<Longrightarrow> Binlog_GetProducerStatus b = (OK, Some (bl_pro_num b, ver_pro_offset (bl_version b), ver_term (bl_version b), ver_logic_id (bl_version b)))"
  by (auto simp: Binlog_GetProducerStatus_def elim!: binlog_okE)

lemma PartitionInfo_collapse [simp]: "\<lparr>pi_table_name = pi_table_name p, pi_partition_id = pi_partition_id p\<rparr> = p"
  by (cases p) simp

section \<open>The decision of the master\<close>

lemma TrySyncOffsetCheck_accepts:
  assumes "slash_fs E fs hpos" and "binlog_ok E fs (sm_logger sm) w" and "fs w (NewFileName (bl_filename (sm_logger sm)) f) = Some c"
    and "n \<le> length c" and "tail_ok (take n c)" and "n < 2 ^ 63" and "BinlogOffset f (of_nat n) \<le> producer (sm_logger sm)"
    and "pb_filenum (sr_binlog_offset req) = f" and "pb_offset (sr_binlog_offset req) = of_nat n"
  shows "TrySyncOffsetCheck E sm req tr w = Some (True, tr\<lparr>tr_binlog_offset := Some (PbBinlogOffset0\<lparr>
    pb_filenum := bl_pro_num (sm_logger sm), pb_offset := ver_pro_offset (bl_version (sm_logger sm))\<rparr>)\<rparr>)"
proof -
  have b: "bl_opened (sm_logger sm)" "ver_pro_num (bl_version (sm_logger sm)) = bl_pro_num (sm_logger sm)"
    using assms(2) by (auto elim: binlog_okE)
  obtain r where r: "Seek E (sm_logger sm) f (of_nat n) PikaBinlogReader_new0 w = Some (0, r)" "GetReaderStatus r = (f, of_nat n)"
    using slash_fs.Seek_at [OF assms(1,3-6), of PikaBinlogReader_new0] by (auto simp: GetReaderStatus_def reader_ok_def reader_at_def)
  have "env_FileExists E (NewFileName (bl_filename (sm_logger sm)) f) w" using slash_fs.exists_iff [OF assms(1)] assms(3) by blast
  moreover have "\<not> (bl_pro_num (sm_logger sm) < f \<or> bl_pro_num (sm_logger sm) = f \<and> ver_pro_offset (bl_version (sm_logger sm)) < of_nat n)"
    using assms(7) unfolding producer_def less_BinlogOffset_iff [symmetric] by (simp add: not_less)
  ultimately show ?thesis
    using b r assms(8,9) by (simp add: TrySyncOffsetCheck_def Binlog_GetProducerStatus_def Let_def)
qed

text \<open>
  C21: What the master answers to the offset of a slave, without consensus. An offset behind the end of its log is
  too large, one in a file that does not exist any more asks for a copy of the data base, and one at which an
  item of an existing file ends is accepted.
\<close>

theorem try_sync_offset_decision:
  assumes "slash_fs E fs hpos" and "binlog_ok E fs (sm_logger sm) w"
    and "sr_binlog_offset req = PbBinlogOffset0\<lparr>pb_filenum := f, pb_offset := of_nat n\<rparr>"
    and "tr1 = tr\<lparr>tr_binlog_offset := Some (PbBinlogOffset0\<lparr>pb_filenum := bl_pro_num (sm_logger sm),
      pb_offset := ver_pro_offset (bl_version (sm_logger sm))\<rparr>)\<rparr>"
  shows "(producer (sm_logger sm) < BinlogOffset f (of_nat n)
      \<longrightarrow> TrySyncOffsetCheck E sm req tr w = Some (False, tr1\<lparr>tr_reply_code := kReplySyncPointLarger\<rparr>))
    \<and> (BinlogOffset f (of_nat n) \<le> producer (sm_logger sm) \<and> \<not> env_FileExists E (NewFileName (bl_filename (sm_logger sm)) f) w
      \<longrightarrow> TrySyncOffsetCheck E sm req tr w = Some (False, tr1\<lparr>tr_reply_code := kReplySyncPointBePurged\<rparr>))
    \<and> (BinlogOffset f (of_nat n) \<le> producer (sm_logger sm) \<and> n < 2 ^ 63
        \<and> (\<exists>c. fs w (NewFileName (bl_filename (sm_logger sm)) f) = Some c \<and> n \<le> length c \<and> tail_ok (take n c))
      \<longrightarrow> TrySyncOffsetCheck E sm req tr w = Some (True, tr1))"
proof (intro conjI impI)
  note b = producer_status [OF assms(2)]
  have lt: "(bl_pro_num (sm_logger sm) < f \<or> bl_pro_num (sm_logger sm) = f \<and> ver_pro_offset (bl_version (sm_logger sm)) < of_nat n)
      \<longleftrightarrow> producer (sm_logger sm) < BinlogOffset f (of_nat n)" unfolding producer_def less_BinlogOffset_iff ..
  show "TrySyncOffsetCheck E sm req tr w = Some (False, tr1\<lparr>tr_reply_code := kReplySyncPointLarger\<rparr>)"
    if "producer (sm_logger sm) < BinlogOffset f (of_nat n)"
    using that by (simp add: TrySyncOffsetCheck_def b assms(3,4) lt Let_def)
  show "TrySyncOffsetCheck E sm req tr w = Some (False, tr1\<lparr>tr_reply_code := kReplySyncPointBePurged\<rparr>)"
    if "BinlogOffset f (of_nat n) \<le> producer (sm_logger sm) \<and> \<not> env_FileExists E (NewFileName (bl_filename (sm_logger sm)) f) w"
    using that by (auto simp: TrySyncOffsetCheck_def b assms(3,4) lt Let_def)
  show "TrySyncOffsetCheck E sm req tr w = Some (True, tr1)"
    if "BinlogOffset f (of_nat n) \<le> producer (sm_logger sm) \<and> n < 2 ^ 63
        \<and> (\<exists>c. fs w (NewFileName (bl_filename (sm_logger sm)) f) = Some c \<and> n \<le> length c \<and> tail_ok (take n c))"
    using that TrySyncOffsetCheck_accepts [OF assms(1,2)] by (auto simp: assms(3,4))
qed

section \<open>Sessions\<close>

lemma sm_slave_add:
  assumes "sm_slave ip port sm = None"
  shows "\<exists>sn sm'. sm_AddSlaveNode ip port sid now1 now2 sm = (OK, sm') \<and> sm_slave ip port sm' = Some sn \<and> rn_session_id (sn_node sn) = sid"
  using assms
  by (simp add: sm_AddSlaveNode_def Coordinator_AddSlaveNode_def SyncProgress_AddSlaveNode_def sm_slave_def GetSlaveNode_def AList.update_conv'
      SlaveNode_new_def RmNode_new_def Let_def)

lemma TrySyncUpdateSlaveNode_session:
  assumes "sm_slave (nd_ip (sr_node req)) (nd_port (sr_node req)) sm = None \<longrightarrow> sm_session_id sm \<noteq> -1"
  shows "\<exists>sid sm' conns'. TrySyncUpdateSlaveNode N rf fd sm req tr conns = (True, tr\<lparr>tr_reply_code := kReplyOk, tr_session_id := Some sid\<rparr>, sm', conns')
    \<and> CheckSessionId (nd_ip (sr_node req)) (nd_port (sr_node req)) sid sm'"
proof (cases "sm_slave (nd_ip (sr_node req)) (nd_port (sr_node req)) sm")
  case None
  let ?sm = "sm\<lparr>sm_session_id := sm_session_id sm + 1\<rparr>"
  have "sm_slave (nd_ip (sr_node req)) (nd_port (sr_node req)) ?sm = None" using None by (simp add: sm_slave_def)
  from sm_slave_add [OF this, of "sm_session_id sm" "rf_now rf 0" "rf_now rf 1"] None assms show ?thesis
    by (auto simp: TrySyncUpdateSlaveNode_def CheckSlaveNodeExist_def GenSessionId_def CheckSessionId_def Let_def)
next
  case (Some sn)
  then show ?thesis
    by (simp add: TrySyncUpdateSlaveNode_def CheckSlaveNodeExist_def GetSlaveNodeSession_def CheckSessionId_def Let_def)
qed

section \<open>The handshake\<close>

definition try_sync_request :: "('c, 'n, 'h, 'w) repl_conf \<Rightarrow> PartitionInfo \<Rightarrow> BinlogOffset \<Rightarrow> string \<Rightarrow> InnerRequest" where
  "try_sync_request rf p boffset local_ip = (InnerRequest_new kTrySync)\<lparr>rq_try_sync := Some (sync_request rf p boffset local_ip)\<rparr>"

definition first_request :: "('c, 'n, 'h, 'w) repl_conf \<Rightarrow> PartitionInfo \<Rightarrow> string \<Rightarrow> i32 \<Rightarrow> BinlogOffset \<Rightarrow> InnerRequest" where
  "first_request rf p local_ip session boffset = (InnerRequest_new kBinlogSync)\<lparr>rq_binlog_sync := Some
     \<lparr>bq_node = \<lparr>nd_ip = local_ip, nd_port = rf_port rf\<rparr>, bq_table_name = pi_table_name p, bq_partition_id = pi_partition_id p,
      bq_ack_range_start = BuildBinlogOffset \<lparr>b_offset = boffset, l_offset = LogicOffset0\<rparr>,
      bq_ack_range_end = BuildBinlogOffset \<lparr>b_offset = boffset, l_offset = LogicOffset0\<rparr>, bq_session_id = session, bq_first_send = True\<rparr>\<rparr>"

lemma SendPartitionTrySyncRequest_sends:
  assumes "GetSyncMasterPartitionByName p (sd_rm sd) = Some (Some sm)" and "GetSyncSlavePartitionByName p (sd_rm sd) = Some ss"
    and "binlog_ok E fs (sm_logger sm) v" and "cf_consensus_level (rf_coord rf) = 0"
    and "client_send M (rn_ip (ssp_m_info ss)) (rn_port (ssp_m_info ss)) (try_sync_request rf p (producer (sm_logger sm)) (ssp_local_ip ss)) (sd_net sd) = (s, x)"
  shows "SendPartitionTrySyncRequest F M rf p sd w = Some (s, set_state p (if ok s then kWaitReply else kError) (sd\<lparr>sd_net := x\<rparr>), w)"
proof -
  have "GetTablePartitionBinlogOffset (pi_table_name p) (pi_partition_id p) (sd_rm sd) = Some (Some (producer (sm_logger sm)))"
    using assms(1) by (simp add: GetTablePartitionBinlogOffset_def producer_def producer_status [OF assms(3)])
  then show ?thesis
    using assms(2,4,5) by (simp add: SendPartitionTrySyncRequest_def SendPartitionTrySync_def try_sync_request_def)
qed

lemma HandleTrySyncRequest_accepts:
  assumes "slash_fs E fs hpos" and "binlog_ok E fs (sm_logger sm) w" and "fs w (NewFileName (bl_filename (sm_logger sm)) f) = Some c"
    and "n \<le> length c" and "tail_ok (take n c)" and "n < 2 ^ 63" and "BinlogOffset f (of_nat n) \<le> producer (sm_logger sm)"
    and "GetSyncMasterPartitionByName p (md_rm md) = Some (Some sm)" and "sm_slave ip (rf_port rff) sm = None \<longrightarrow> sm_session_id sm \<noteq> -1"
  shows "\<exists>sid tr sm' md1. HandleTrySyncRequest E C N rf fd (try_sync_request rff p (BinlogOffset f (of_nat n)) ip) md w
      = Some (reply_to N fd ((InnerResponse_new kTrySync kCodeOk)\<lparr>ir_try_sync := Some tr\<rparr>) md1, w)
    \<and> tr_partition tr = p \<and> tr_reply_code tr = kReplyOk \<and> tr_session_id tr = Some sid
    \<and> GetSyncMasterPartitionByName p (md_rm md1) = Some (Some sm') \<and> CheckSessionId ip (rf_port rff) sid sm'"
proof -
  let ?req = "sync_request rff p (BinlogOffset f (of_nat n)) ip" and ?tr = "TrySyncResponse0\<lparr>tr_reply_code := kReplyError, tr_partition := p\<rparr>"
  note a = TrySyncOffsetCheck_accepts [OF assms(1-7), of ?req]
  obtain tr1 where a1: "TrySyncOffsetCheck E sm ?req ?tr w = Some (True, tr1)" "tr_partition tr1 = p"
    using a [of ?tr] by (simp add: sync_request_def)
  obtain sid sm' conns where u: "TrySyncUpdateSlaveNode N rf fd sm ?req tr1 (md_conns md)
      = (True, tr1\<lparr>tr_reply_code := kReplyOk, tr_session_id := Some sid\<rparr>, sm', conns)" "CheckSessionId ip (rf_port rff) sid sm'"
    using TrySyncUpdateSlaveNode_session [of ?req sm N rf fd tr1 "md_conns md"] assms(9) by (auto simp: sync_request_def)
  have p: "sr_partition ?req = p" by (simp add: sync_request_def)
  have r: "(InnerResponse_new kTrySync kCodeOk)\<lparr>ir_try_sync := Some t, ir_consensus_meta := None\<rparr> = (InnerResponse_new kTrySync kCodeOk)\<lparr>ir_try_sync := Some t\<rparr>" for t
    by (simp add: InnerResponse_new_def)
  have "HandleTrySyncRequest E C N rf fd (try_sync_request rff p (BinlogOffset f (of_nat n)) ip) md w
      = Some (reply_to N fd ((InnerResponse_new kTrySync kCodeOk)\<lparr>ir_try_sync := Some (tr1\<lparr>tr_reply_code := kReplyOk, tr_session_id := Some sid\<rparr>)\<rparr>)
          (md\<lparr>md_rm := set_master p sm' (md_rm md), md_conns := conns\<rparr>), w)"
    using a1 u(1) assms(8) by (simp add: HandleTrySyncRequest_def try_sync_request_def try_sync_check_def InnerRequest_new_def p r Let_def)
  with a1(2) u(2) get_set_master(1) [OF assms(8), of sm'] show ?thesis
    by (intro exI [of _ sid] exI [of _ "tr1\<lparr>tr_reply_code := kReplyOk, tr_session_id := Some sid\<rparr>"] exI [of _ sm']
        exI [of _ "md\<lparr>md_rm := set_master p sm' (md_rm md), md_conns := conns\<rparr>"]) simp
qed

lemma HandleTrySyncResponse_connects:
  assumes "GetSyncMasterPartitionByName p (sd_rm sd) = Some (Some sm)" and "GetSyncSlavePartitionByName p (sd_rm sd) = Some ss"
    and "binlog_ok F gs (sm_logger sm) v" and "tr_partition tr = p" and "tr_reply_code tr = kReplyOk" and "tr_session_id tr = Some sid"
  shows "\<exists>sd' ss'. HandleTrySyncResponse F C M rf ((InnerResponse_new kTrySync kCodeOk)\<lparr>ir_try_sync := Some tr\<rparr>) sd v = Some (sd', v)
    \<and> GetSyncSlavePartitionByName p (sd_rm sd') = Some ss' \<and> ssp_repl_state ss' = kConnected \<and> rn_session_id (ssp_m_info ss') = sid
    \<and> sd_net sd' = snd (client_send M (rn_ip (ssp_m_info ss)) (rn_port (ssp_m_info ss))
        (first_request rf p (ssp_local_ip ss) sid (producer (sm_logger sm))) (sd_net sd))"
proof -
  note b = producer_status [OF assms(3)]
  let ?o = "\<lparr>b_offset = producer (sm_logger sm), l_offset = LogicOffset0\<rparr>"
  let ?sd = "sd\<lparr>sd_rm := set_slave_partition p (SetMasterSessionId sid ss) (sd_rm sd)\<rparr>"
  have snd_eq: "SendPartitionBinlogSyncAckRequest M rf p ?o ?o True ?sd =
      (let (s, x) = client_send M (rn_ip (ssp_m_info ss)) (rn_port (ssp_m_info ss))
          (first_request rf p (ssp_local_ip ss) sid (producer (sm_logger sm))) (sd_net sd) in (s, ?sd\<lparr>sd_net := x\<rparr>))"
    by (simp add: SendPartitionBinlogSyncAckRequest_def SendPartitionBinlogSync_def first_request_def SetMasterSessionId_def)
  obtain s x where cs: "client_send M (rn_ip (ssp_m_info ss)) (rn_port (ssp_m_info ss))
      (first_request rf p (ssp_local_ip ss) sid (producer (sm_logger sm))) (sd_net sd) = (s, x)" by fastforce
  have z: "\<lparr>lo_term = 0, lo_index = 0\<rparr> = LogicOffset0" by (simp add: LogicOffset0_def)
  have pr: "BinlogOffset (bl_pro_num (sm_logger sm)) (ver_pro_offset (bl_version (sm_logger sm))) = producer (sm_logger sm)" by (simp add: producer_def)
  have "try_sync_reply M rf tr LogicOffset0 p sm sd
      = ?sd\<lparr>sd_net := x, sd_rm := set_slave_partition p (ssp_SetLastRecvTime (rf_now rf 0) (SetReplState kConnected (SetMasterSessionId sid ss))) (sd_rm ?sd)\<rparr>"
    using assms(2,5,6) snd_eq cs by (simp add: try_sync_reply_def b pr Let_def)
  moreover have "HandleTrySyncResponse F C M rf ((InnerResponse_new kTrySync kCodeOk)\<lparr>ir_try_sync := Some tr\<rparr>) sd v
      = Some (try_sync_reply M rf tr LogicOffset0 p sm sd, v)"
    using assms(1,2,4) by (simp add: HandleTrySyncResponse_def InnerResponse_new_def z Let_def)
  ultimately show ?thesis by (simp add: cs SetReplState_def SetMasterSessionId_def ssp_SetLastRecvTime_def)
qed

text \<open>
  C9: The handshake, without consensus. A slave whose log ends at a place of the master's log sends its request and
  waits. The master accepts it, and registers the slave under a session. With the response the slave is connected,
  and the session it keeps is one the master's check accepts for its address.
\<close>

theorem handshake_connects:
  assumes "slash_fs E fs hpos" and "binlog_ok E fs (sm_logger sml) w" and "GetSyncMasterPartitionByName p (md_rm md) = Some (Some sml)"
    and "sm_slave (ssp_local_ip ss) (rf_port rff) sml = None \<longrightarrow> sm_session_id sml \<noteq> -1"
    and "binlog_ok F gs (sm_logger smf) v" and "GetSyncMasterPartitionByName p (sd_rm sd) = Some (Some smf)"
    and "GetSyncSlavePartitionByName p (sd_rm sd) = Some ss" and "cf_consensus_level (rf_coord rff) = 0"
    and "producer (sm_logger smf) = BinlogOffset f (of_nat n)" and "fs w (NewFileName (bl_filename (sm_logger sml)) f) = Some c"
    and "n \<le> length c" and "tail_ok (take n c)" and "n < 2 ^ 63" and "producer (sm_logger smf) \<le> producer (sm_logger sml)"
    and "client_send M (rn_ip (ssp_m_info ss)) (rn_port (ssp_m_info ss))
      (try_sync_request rff p (producer (sm_logger smf)) (ssp_local_ip ss)) (sd_net sd) = (OK, x)"
  shows "\<exists>sd1 response md1 sd2 ss2 sm'.
    SendPartitionTrySyncRequest F M rff p sd v = Some (OK, sd1, v)
    \<and> HandleTrySyncRequest E C N rfl fd (try_sync_request rff p (producer (sm_logger smf)) (ssp_local_ip ss)) md w
        = Some (reply_to N fd response md1, w)
    \<and> HandleTrySyncResponse F C M rff response sd1 v = Some (sd2, v)
    \<and> GetSyncSlavePartitionByName p (sd_rm sd2) = Some ss2 \<and> ssp_repl_state ss2 = kConnected
    \<and> GetSyncMasterPartitionByName p (md_rm md1) = Some (Some sm')
    \<and> CheckSessionId (ssp_local_ip ss) (rf_port rff) (rn_session_id (ssp_m_info ss2)) sm'"
proof -
  let ?sd1 = "set_state p kWaitReply (sd\<lparr>sd_net := x\<rparr>)" and ?ss1 = "ss\<lparr>ssp_repl_state := kWaitReply\<rparr>"
  have 1: "SendPartitionTrySyncRequest F M rff p sd v = Some (OK, ?sd1, v)"
    using SendPartitionTrySyncRequest_sends [OF assms(6,7,5,8,15)] by simp
  obtain sid tr sm' md1 where 2: "HandleTrySyncRequest E C N rfl fd (try_sync_request rff p (producer (sm_logger smf)) (ssp_local_ip ss)) md w
      = Some (reply_to N fd ((InnerResponse_new kTrySync kCodeOk)\<lparr>ir_try_sync := Some tr\<rparr>) md1, w)"
    "tr_partition tr = p" "tr_reply_code tr = kReplyOk" "tr_session_id tr = Some sid"
    "GetSyncMasterPartitionByName p (md_rm md1) = Some (Some sm')" "CheckSessionId (ssp_local_ip ss) (rf_port rff) sid sm'"
    using HandleTrySyncRequest_accepts [OF assms(1,2,10-13) assms(14) [unfolded assms(9)] assms(3,4), of C N rfl fd] unfolding assms(9) by blast
  have "GetSyncMasterPartitionByName p (sd_rm ?sd1) = Some (Some smf)" "GetSyncSlavePartitionByName p (sd_rm ?sd1) = Some ?ss1"
    using assms(6,7) by (simp_all add: set_state_def set_slave_state_def SetReplState_def)
  from HandleTrySyncResponse_connects [OF this assms(5) 2(2-4), of C M rff] 1 2(1,5,6) show ?thesis by blast
qed

section \<open>What is too late\<close>

lemma set_master_same: "GetSyncMasterPartitionByName p rm = Some (Some sm) \<Longrightarrow> set_master p sm rm = rm"
proof -
  assume "GetSyncMasterPartitionByName p rm = Some (Some sm)"
  then obtain i where i: "PartitionMap_slot p (rm_sync_master_partitions rm) = Some i" "snd (rm_sync_master_partitions rm ! i) = Some sm"
    by (auto simp: GetSyncMasterPartitionByName_def PartitionMap_get_def)
  have "(fst (rm_sync_master_partitions rm ! i), Some sm) = rm_sync_master_partitions rm ! i" using i(2) by (metis prod.collapse)
  with i(1) show ?thesis by (simp add: set_master_def PartitionMap_put_def)
qed



section \<open>Instances\<close>

definition peer_info :: PartitionInfo where
  "peer_info = \<lparr>pi_table_name = ''db0'', pi_partition_id = 0\<rparr>"

definition peer_master :: "(string, nat, string \<times> nat) SyncMasterPartition" where
  "peer_master = \<lparr>sm_partition_info = peer_info, sm_session_id = 1, sm_coordinator = wit_coord\<lparr>cc_mem_logger := MemLog0\<rparr>\<rparr>"

definition peer_slave :: SyncSlavePartition where
  "peer_slave = \<lparr>ssp_partition_info = peer_info, ssp_m_info = RmNode_new ''1.2.3.4'' 9221 ''db0'' 0 0, ssp_repl_state = kTryConnect,
     ssp_local_ip = ''1.2.3.5''\<rparr>"

definition peer_rm :: "(string, nat, string \<times> nat) PikaReplicaManager" where
  "peer_rm = \<lparr>rm_sync_master_partitions = [(peer_info, Some peer_master)], rm_sync_slave_partitions = [(peer_info, peer_slave)], rm_write_queues = []\<rparr>"

definition peer_conf :: "(string, nat, string \<times> nat, mem_world) repl_conf" where
  "peer_conf = \<lparr>rf_coord = wit_conf\<lparr>cf_consensus_level := 0\<rparr>,
     rf_send = \<lparr>sc_sync_window_size = 9000, sc_clock = (\<lambda>_. 0), sc_indet = (0, 0), sc_ToString = (\<lambda>_. [])\<rparr>, rf_requirepass = [], rf_table_structs = [],
     rf_replication_num = 0, rf_port = 9221, rf_now = (\<lambda>_. 0), rf_is_dir = (\<lambda>_ _. True), rf_commit_previous = (\<lambda>_ sm w. Some (sm, w))\<rparr>"

text \<open>Networks that count the messages.\<close>

definition count_client :: "nat client_net" where
  "count_client = \<lparr>cn_serialize = (\<lambda>_. Some []), cn_local_ip = (\<lambda>_ _ _. Some ''1.2.3.5''), cn_Write = (\<lambda>_ _ _ x. (OK, x + 1)), cn_NotifyClose = id\<rparr>"

definition count_net :: "nat net_env" where
  "count_net = \<lparr>nt_serialize = (\<lambda>_. Some []), nt_has_conn = (\<lambda>_ _. True), nt_WriteResp = (\<lambda>_ _ x. (False, x + 1)), nt_NotifyWrite = (\<lambda>_. id),
     nt_NotifyClose = (\<lambda>_. id), nt_IpPortString = (\<lambda>ip port. ip @ '':'' @ dec_string port)\<rparr>"

definition peer_client :: "(string, nat, string \<times> nat, nat, nat) slave_side" where
  "peer_client = \<lparr>sd_rm = peer_rm, sd_ps = server0, sd_tables = [], sd_write_binlog = ''yes'', sd_net = 0\<rparr>"

definition peer_server :: "(string, nat, string \<times> nat, nat, nat) master_side" where
  "peer_server = \<lparr>md_rm = peer_rm, md_ps = server0, md_tables = [], md_conns = [], md_net = 0\<rparr>"

lemma peer_get:
  "GetSyncSlavePartitionByName peer_info peer_rm = Some peer_slave" "GetSyncMasterPartitionByName peer_info peer_rm = Some (Some peer_master)"
  "sm_logger peer_master = wit_binlog"
  by (simp_all add: peer_rm_def GetSyncSlavePartitionByName_def GetSyncMasterPartitionByName_def PartitionMap_get_def PartitionMap_slot_def
      peer_info_def DbIdxFromStr_def peer_master_def sm_logger_def coord_simps)

lemma peer_binlog_ok: "binlog_ok mem_env mw_files (sm_logger peer_master) coord_world"
  using coord_binlog_ok by (simp add: coord_simps peer_get(3))

theorem try_sync_offset_decision_witness:
  "\<exists>tr. TrySyncOffsetCheck mem_env peer_master (sync_request peer_conf peer_info (BinlogOffset 1 (of_nat 0)) []) TrySyncResponse0 coord_world = Some (False, tr)
    \<and> tr_reply_code tr = kReplySyncPointLarger"
proof -
  have "sr_binlog_offset (sync_request peer_conf peer_info (BinlogOffset 1 (of_nat 0)) []) = PbBinlogOffset0\<lparr>pb_filenum := 1, pb_offset := of_nat 0\<rparr>"
    by (simp add: sync_request_def)
  moreover have "producer (sm_logger peer_master) < BinlogOffset 1 (of_nat 0)"
    by (simp add: peer_get(3) producer_def wit_simps less_BinlogOffset_iff)
  ultimately have "TrySyncOffsetCheck mem_env peer_master (sync_request peer_conf peer_info (BinlogOffset 1 (of_nat 0)) []) TrySyncResponse0 coord_world
      = Some (False, TrySyncResponse0\<lparr>tr_binlog_offset := Some (PbBinlogOffset0\<lparr>pb_filenum := bl_pro_num (sm_logger peer_master),
          pb_offset := ver_pro_offset (bl_version (sm_logger peer_master))\<rparr>), tr_reply_code := kReplySyncPointLarger\<rparr>)"
    using try_sync_offset_decision [OF mem.slash_fs_axioms peer_binlog_ok _ refl] by blast
  then show ?thesis by (intro exI conjI) (assumption, simp)
qed

theorem handshake_connects_witness:
  "\<exists>sd1 response md1 sd2 ss2.
    SendPartitionTrySyncRequest mem_env count_client peer_conf peer_info peer_client coord_world = Some (OK, sd1, coord_world)
    \<and> HandleTrySyncRequest mem_env le_coding count_net peer_conf 7 (try_sync_request peer_conf peer_info (BinlogOffset 0 0) ''1.2.3.5'') peer_server coord_world
        = Some (reply_to count_net 7 response md1, coord_world)
    \<and> HandleTrySyncResponse mem_env le_coding count_client peer_conf response sd1 coord_world = Some (sd2, coord_world)
    \<and> GetSyncSlavePartitionByName peer_info (sd_rm sd2) = Some ss2 \<and> ssp_repl_state ss2 = kConnected"
proof -
  have pr: "producer (sm_logger peer_master) = BinlogOffset 0 (of_nat 0)" by (simp add: peer_get(3) producer_def wit_simps)
  have m: "GetSyncMasterPartitionByName peer_info (md_rm peer_server) = Some (Some peer_master)"
    "sm_slave (ssp_local_ip peer_slave) (rf_port peer_conf) peer_master = None \<longrightarrow> sm_session_id peer_master \<noteq> -1"
    "GetSyncMasterPartitionByName peer_info (sd_rm peer_client) = Some (Some peer_master)"
    "GetSyncSlavePartitionByName peer_info (sd_rm peer_client) = Some peer_slave" "cf_consensus_level (rf_coord peer_conf) = 0"
    by (simp_all add: peer_server_def peer_client_def peer_get, simp_all add: peer_master_def peer_conf_def)
  have c: "mw_files coord_world (NewFileName (bl_filename (sm_logger peer_master)) 0) = Some []" "tail_ok (take 0 [])"
    by (simp_all add: peer_get(3) wit_simps coord_world_def tail_ok_full)
  have s: "client_send count_client (rn_ip (ssp_m_info peer_slave)) (rn_port (ssp_m_info peer_slave))
      (try_sync_request peer_conf peer_info (producer (sm_logger peer_master)) (ssp_local_ip peer_slave)) (sd_net peer_client) = (OK, 1)"
    by (simp add: client_send_def count_client_def peer_client_def)
  have ip: "ssp_local_ip peer_slave = ''1.2.3.5''" by (simp add: peer_slave_def)
  from handshake_connects [OF mem.slash_fs_axioms peer_binlog_ok m(1,2) peer_binlog_ok m(3-5) pr c(1) _ c(2) _ order.refl s,
      of le_coding count_net peer_conf 7] show ?thesis unfolding pr ip by auto
qed



end
