(* ===== verification/Pika_Replication.thy ===== *)
theory Pika_Replication
  imports Pika_Handshake Pika_Sync_Stream
begin

text \<open>
  Replication as a whole: what a follower does with the binlogs a leader sends, and that both logs stay at
  the same place.
\<close>

section \<open>Logs at the same place\<close>

text \<open>
  Two logs that end at the same position of files with the same number and have the same limit for a file. The
  logic ids agree as well.
\<close>

definition same_place :: "Binlog \<Rightarrow> Binlog \<Rightarrow> bool" where
  "same_place a b \<longleftrightarrow> producer a = producer b \<and> ver_logic_id (bl_version a) = ver_logic_id (bl_version b) \<and> bl_file_size a = bl_file_size b"

inductive appended :: "('w, 'h) slash_env \<Rightarrow> Binlog \<Rightarrow> 'w \<Rightarrow> bytes list \<Rightarrow> Binlog \<Rightarrow> 'w \<Rightarrow> bool" for E :: "('w, 'h) slash_env" where
  appended_nil: "appended E b w [] b w"
| appended_put: "Binlog_Put E x b w = Some (OK, b1, w1) \<Longrightarrow> binlog_room x b \<Longrightarrow> appended E b1 w1 xs b' w'
    \<Longrightarrow> appended E b w (x # xs) b' w'"

inductive_cases appended_nilE: "appended E b w [] b' w'"
inductive_cases appended_consE: "appended E b w (x # xs) b' w'"

lemma frames_more_length:
  assumes "frames bo beg item ds bo''" and "block_avail bo < length item"
  shows "\<exists>es. frames (block_start bo + (kHeaderSize + block_avail bo)) False (drop (block_avail bo) item) es bo''
    \<and> length ds = length (block_trailer bo) + 8 + block_avail bo + length es"
  using assms(1)
proof (cases rule: frames.cases)
  case frames_last
  then show ?thesis using assms(2) by simp
next
  case (frames_more es now)
  then show ?thesis using assms(2) by (intro exI [of _ es]) (simp add: min_def)
qed

lemma frames_last_length:
  assumes "frames bo beg item ds bo''" and "length item \<le> block_avail bo"
  shows "length ds = length (block_trailer bo) + 8 + length item"
  using assms by (cases rule: frames.cases) simp_all

lemma frames_same_length: "frames bo beg item bs bo' \<Longrightarrow> frames bo beg item ds bo'' \<Longrightarrow> length bs = length ds"
proof (induction arbitrary: ds bo'' rule: frames.induct)
  case (frames_last item bo beg now)
  show ?case using frames_last_length [OF frames_last.prems frames_last.hyps] by simp
next
  case (frames_more bo item bs bo' beg now)
  from frames_more_length [OF frames_more.prems frames_more.hyps(1)] obtain es where
    "frames (block_start bo + (kHeaderSize + block_avail bo)) False (drop (block_avail bo) item) es bo''"
    "length ds = length (block_trailer bo) + 8 + block_avail bo + length es" by blast
  with frames_more.IH frames_more.hyps(1) show ?case by (simp add: min_def)
qed

lemma InitLogFile_file_size: "Binlog_InitLogFile E b w = Some b' \<Longrightarrow> bl_file_size b' = bl_file_size b"
  by (auto simp: Binlog_InitLogFile_def Let_def split: option.splits if_splits)

lemma Put_file_size: "Binlog_Put E x b w = Some (s, b', w') \<Longrightarrow> bl_file_size b' = bl_file_size b"
  by (auto simp: Binlog_Put_def Binlog_Put_raw_def Binlog_roll_def Binlog_Produce_def Let_def
      dest!: InitLogFile_file_size split: option.splits prod.splits if_splits)

text \<open>Where a log ends after an item has been appended is a matter of where it ended before.\<close>

lemma Put_place:
  assumes "slash_fs E fs hpos" and "binlog_ok E fs b w" and "Binlog_Put E x b w = Some (OK, b', w')" and "binlog_room x b"
  shows "if bl_file_size b < ver_pro_offset (bl_version b)
    then bl_pro_num b' = bl_pro_num b + 1 \<and> (\<exists>bs bo. frames 0 True x bs bo \<and> unat (ver_pro_offset (bl_version b')) = length bs)
    else bl_pro_num b' = bl_pro_num b \<and> (\<exists>bs bo. frames (unat (ver_pro_offset (bl_version b)) mod kBlockSize) True x bs bo
      \<and> unat (ver_pro_offset (bl_version b')) = unat (ver_pro_offset (bl_version b)) + length bs)"
proof -
  have g: "unat (ver_pro_offset (bl_version b)) + 2 * length x + 23 < 2 ^ 31" using assms(4) by (simp add: binlog_room_def)
  note ef = Put_effect [OF assms(1-3) g]
  have po: "length c = unat (ver_pro_offset (bl_version b))"
    if "binlog_ok E fs b w" "fs w (NewFileName (bl_filename b) (bl_pro_num b)) = Some c" for b w c using that by (auto elim!: binlog_okE)
  show ?thesis
  proof (cases "bl_file_size b < ver_pro_offset (bl_version b)")
    case True
    with ef obtain bs bo where "frames 0 True x bs bo" "fs w' = (fs w)(NewFileName (bl_filename b) (bl_pro_num b + 1) \<mapsto> bs)"
      "bl_pro_num b' = bl_pro_num b + 1" "binlog_ok E fs b' w'" "bl_filename b' = bl_filename b" by auto
    with True po [of b' w' bs] show ?thesis by auto
  next
    case False
    with ef obtain c bs bo where "fs w (NewFileName (bl_filename b) (bl_pro_num b)) = Some c" "frames (length c mod kBlockSize) True x bs bo"
      "fs w' = (fs w)(NewFileName (bl_filename b) (bl_pro_num b) \<mapsto> c @ bs)" "bl_pro_num b' = bl_pro_num b" "binlog_ok E fs b' w'"
      "bl_filename b' = bl_filename b" by auto
    with False po [of b' w' "c @ bs"] po [OF assms(2), of c] show ?thesis by auto
  qed
qed

lemma Put_same_place:
  assumes "slash_fs E fs hpos" and "binlog_ok E fs a v" and "Binlog_Put E x a v = Some (OK, a', v')" and "binlog_room x a"
    and "slash_fs F gs gpos" and "binlog_ok F gs b w" and "Binlog_Put F x b w = Some (OK, b', w')" and "binlog_room x b"
    and "same_place a b"
  shows "same_place a' b'"
proof -
  have e: "bl_pro_num a = bl_pro_num b" "ver_pro_offset (bl_version a) = ver_pro_offset (bl_version b)" "bl_file_size a = bl_file_size b"
    "ver_logic_id (bl_version a) = ver_logic_id (bl_version b)" using assms(9) by (simp_all add: same_place_def producer_def)
  note p = Put_place [OF assms(1-4)] Put_place [OF assms(5-8)]
  have "bl_pro_num a' = bl_pro_num b' \<and> unat (ver_pro_offset (bl_version a')) = unat (ver_pro_offset (bl_version b'))"
    using p frames_same_length unfolding e by (cases "bl_file_size b < ver_pro_offset (bl_version b)") fastforce+
  then have "producer a' = producer b'" by (simp add: producer_def word_unat_eq_iff)
  moreover have "ver_logic_id (bl_version a') = ver_logic_id (bl_version b')"
    using Put_effect [OF assms(1-3)] Put_effect [OF assms(5-7)] assms(4,8) e(4) by (simp add: binlog_room_def)
  ultimately show ?thesis
    using Put_file_size [OF assms(3)] Put_file_size [OF assms(7)] e(3) by (simp add: same_place_def)
qed

lemma appended_binlog_ok: "appended E b w xs b' w' \<Longrightarrow> slash_fs E fs hpos \<Longrightarrow> binlog_ok E fs b w \<Longrightarrow> binlog_ok E fs b' w'"
proof (induction rule: appended.induct)
  case (appended_put x b w b1 w1 xs b' w')
  with Put_effect [OF appended_put.prems appended_put.hyps(1)] show ?case by (auto simp: binlog_room_def)
qed

lemma appended_same_place:
  assumes "appended E a v xs a' v'" and "appended F b w xs b' w'" and "slash_fs E fs hpos" and "binlog_ok E fs a v"
    and "slash_fs F gs gpos" and "binlog_ok F gs b w" and "same_place a b"
  shows "same_place a' b'"
  using assms(1,2,4,6,7)
proof (induction arbitrary: b w rule: appended.induct)
  case (appended_nil a v)
  then show ?case by (auto elim: appended_nilE)
next
  case (appended_put x a v a1 v1 xs a' v')
  from appended_put.prems(1) obtain b1 w1 where b: "Binlog_Put F x b w = Some (OK, b1, w1)" "binlog_room x b" "appended F b1 w1 xs b' w'"
    by (rule appended_consE)
  have "binlog_ok E fs a1 v1" "binlog_ok F gs b1 w1"
    using Put_effect [OF assms(3) appended_put.prems(2) appended_put.hyps(1)] Put_effect [OF assms(5) appended_put.prems(3) b(1)]
      appended_put.hyps(2) b(2) by (auto simp: binlog_room_def)
  moreover have "same_place a1 b1"
    using Put_same_place [OF assms(3) appended_put.prems(2) appended_put.hyps(1,2) assms(5) appended_put.prems(3) b(1,2) appended_put.prems(4)] .
  ultimately show ?case using appended_put.IH [OF b(3)] by blast
qed

section \<open>The follower\<close>

context fixed_coding
begin

lemma decode_enc_item:
  "\<exists>d. BinlogItemWithoutContentDecode C TypeFirst (enc_item C it) item = (True, d) \<and> item_binlog cf cmd d = item_binlog cf cmd it
    \<and> bi_logic_id d = bi_logic_id it"
  by (simp add: enc_item_def BinlogEncode_eq WithoutContentDecode_item_header item_binlog_def)

lemma drop_enc_item: "drop BINLOG_ENCODE_LEN (enc_item C it) = bi_content it"
  using length_item_header by (simp add: enc_item_def BinlogEncode_eq transverter_consts)

end

text \<open>The coordinator of a follower without consensus after it has taken over some logs.\<close>

definition follow :: "Binlog \<Rightarrow> 'c list \<Rightarrow> ('c, 'n, 'h) ConsensusCoordinator \<Rightarrow> ('c, 'n, 'h) ConsensusCoordinator" where
  "follow b cmds cc = cc\<lparr>cc_stable_logger := (cc_stable_logger cc)\<lparr>sl_stable_logger := b\<rparr>,
     cc_scheduled := cc_scheduled cc @ map (\<lambda>cmd. WriteDBTask \<lparr>li_offset = LogOffset0, li_cmd = cmd, li_conn = None\<rparr> (cc_table_name cc) (cc_partition_id cc)) cmds\<rparr>"

lemma follow_simps [simp]:
  "cc_binlog (follow b cmds cc) = b" "cc_mem_logger (follow b cmds cc) = cc_mem_logger cc"
  "follow b' cmds' (follow b cmds cc) = follow b' (cmds @ cmds') cc"
  by (simp_all add: follow_def cc_binlog_def)

lemma follow_id: "follow (cc_binlog cc) [] cc = cc"
  by (simp add: follow_def cc_binlog_def)

lemma ProcessLeaderLog_follow:
  assumes "cf_consensus_level cf = 0" and "lo_index (l_offset (ml_last_offset (cc_mem_logger cc))) = 0"
    and "Binlog_Put E (item_binlog cf cmd d) (cc_binlog cc) w = Some (OK, b, w')" and "bl_opened b"
  shows "ProcessLeaderLog E cf cmd d cc w = Some (OK, follow b [cmd] cc, w')"
  using assms
  by (simp add: ProcessLeaderLog_def InternalAppendLog_def InternalAppendBinlog_def item_binlog_def cc_binlog_def
      Binlog_GetProducerStatus_def InternalApplyFollower_def follow_def)

definition replayable :: "slash_coding \<Rightarrow> 'c coord_conf \<Rightarrow> string \<Rightarrow> (BinlogItem \<Rightarrow> 'c) \<Rightarrow> BinlogItem \<Rightarrow> bool" where
  "replayable C cf table_name cmd_of it \<longleftrightarrow>
     (case cf_redis_parse cf (bi_content it) of
        None \<Rightarrow> False
      | Some argv \<Rightarrow> (case InitCmd cf table_name argv of None \<Rightarrow> False
                      | Some _ \<Rightarrow> InitCmd cf table_name argv = Some (cmd_of it) \<and> item_binlog cf (cmd_of it) it = enc_item C it))"

lemma replayableE:
  assumes "replayable C cf table_name cmd_of it"
  obtains argv where "cf_redis_parse cf (bi_content it) = Some argv" "InitCmd cf table_name argv = Some (cmd_of it)"
    "item_binlog cf (cmd_of it) it = enc_item C it"
  using assms by (auto simp: replayable_def split: option.splits)

text \<open>A slave that takes binlogs.\<close>

definition receiving :: "'c coord_conf \<Rightarrow> PikaServer \<Rightarrow> SyncSlavePartition \<Rightarrow> bool" where
  "receiving cf ps ss \<longleftrightarrow> (cf_classic_mode cf \<longrightarrow> ps_role ps AND PIKA_ROLE_SLAVE \<noteq> 0) \<and> ssp_repl_state ss \<in> {kConnected, kWaitDBSync}"

lemma write_binlogs_follow:
  assumes "slash_fs E fs hpos" and "fixed_coding C" and "cf_consensus_level cf = 0" and "receiving cf ps ss"
    and "list_all2 (\<lambda>c it. br_binlog c = enc_item C it \<and> br_session_id c = rn_session_id (ssp_m_info ss)) chips its"
    and "list_all (replayable C cf (pi_table_name p) cmd_of) its"
    and "GetSyncSlavePartitionByName p rm = Some ss" and "GetSyncMasterPartitionByName p rm = Some (Some sm)"
    and "lo_index (l_offset (ml_last_offset (cc_mem_logger (sm_coordinator sm)))) = 0" and "binlog_ok E fs (sm_logger sm) w"
    and "appended E (sm_logger sm) w (map (enc_item C) its) b' w'"
  shows "\<exists>item' rm'. write_binlogs E C cf ps p chips item rm w = Some (True, item', rm', w')
    \<and> GetSyncMasterPartitionByName p rm' = Some (Some (sm\<lparr>sm_coordinator := follow b' (map cmd_of its) (sm_coordinator sm)\<rparr>))
    \<and> GetSyncSlavePartitionByName p rm' = Some ss"
  using assms(5-11)
proof (induction its arbitrary: chips item rm sm w rule: list.induct)
  case Nil
  then have "b' = sm_logger sm" "w' = w" by (auto elim: appended_nilE)
  moreover from Nil.prems(1) have "chips = []" by simp
  ultimately show ?case using Nil.prems(3,4) by (simp add: sm_logger_def follow_id)
next
  case (Cons it its)
  from Cons.prems(1) obtain c cs where c: "chips = c # cs" "br_binlog c = enc_item C it" "br_session_id c = rn_session_id (ssp_m_info ss)"
    and cs: "list_all2 (\<lambda>c it. br_binlog c = enc_item C it \<and> br_session_id c = rn_session_id (ssp_m_info ss)) cs its"
    by (auto simp: list_all2_Cons2)
  from Cons.prems(2) obtain argv where a: "cf_redis_parse cf (bi_content it) = Some argv"
    "InitCmd cf (pi_table_name p) argv = Some (cmd_of it)" "item_binlog cf (cmd_of it) it = enc_item C it" by (auto elim: replayableE)
  from Cons.prems(7) obtain b1 w1 where put: "Binlog_Put E (enc_item C it) (sm_logger sm) w = Some (OK, b1, w1)"
    "binlog_room (enc_item C it) (sm_logger sm)" "appended E b1 w1 (map (enc_item C) its) b' w'" by (auto elim: appended_consE)
  have ok1: "binlog_ok E fs b1 w1"
    using Put_effect [OF assms(1) Cons.prems(6) put(1)] put(2) by (auto simp: binlog_room_def)
  then have op: "bl_opened b1" by (auto elim: binlog_okE)
  obtain d where d: "BinlogItemWithoutContentDecode C TypeFirst (enc_item C it) item = (True, d)"
    "item_binlog cf (cmd_of it) d = item_binlog cf (cmd_of it) it" using fixed_coding.decode_enc_item [OF assms(2), of it item cf "cmd_of it"] by blast
  let ?sm = "sm\<lparr>sm_coordinator := follow b1 [cmd_of it] (sm_coordinator sm)\<rparr>" and ?rm = "set_master p (sm\<lparr>sm_coordinator := follow b1 [cmd_of it] (sm_coordinator sm)\<rparr>) rm"
  have "HandleWriteBinlog E cf p d argv rm w = Some (True, ?rm, w1)"
    using ProcessLeaderLog_follow [OF assms(3) Cons.prems(5) _ op, of E "cmd_of it" d w w1] put(1) a d(2) Cons.prems(4)
    by (simp add: HandleWriteBinlog_def sm_logger_def)
  moreover have "enc_item C it \<noteq> []" using put(2) by (simp add: binlog_room_def)
  ultimately have w: "write_binlogs E C cf ps p chips item rm w = write_binlogs E C cf ps p cs d ?rm w1"
    using assms(4) c Cons.prems(3) d(1) a(1) fixed_coding.drop_enc_item [OF assms(2), of it] by (auto simp: receiving_def)
  note g = get_set_master [OF Cons.prems(4), of ?sm]
  have "GetSyncSlavePartitionByName p ?rm = Some ss" using g(2) Cons.prems(3) by (simp add: GetSyncSlavePartitionByName_def)
  from Cons.IH [OF cs _ this g(1), of w1 d] Cons.prems(2,5) ok1 put(3) show ?case by (simp add: w sm_logger_def)
qed

section \<open>From the leader to the follower and back\<close>

text \<open>The acknowledgement a slave sends.\<close>

definition ack_request :: "('c, 'n, 'h, 'w) repl_conf \<Rightarrow> PartitionInfo \<Rightarrow> SyncSlavePartition \<Rightarrow> LogOffset \<Rightarrow> LogOffset \<Rightarrow> InnerRequest" where
  "ack_request rf p ss ack_start ack_end = (InnerRequest_new kBinlogSync)\<lparr>rq_binlog_sync := Some
     \<lparr>bq_node = \<lparr>nd_ip = ssp_local_ip ss, nd_port = rf_port rf\<rparr>, bq_table_name = pi_table_name p, bq_partition_id = pi_partition_id p,
      bq_ack_range_start = BuildBinlogOffset ack_start, bq_ack_range_end = BuildBinlogOffset ack_end,
      bq_session_id = rn_session_id (ssp_m_info ss), bq_first_send = False\<rparr>\<rparr>"

text \<open>The end of a log, with a given term.\<close>

definition log_end :: "u32 \<Rightarrow> Binlog \<Rightarrow> LogOffset" where
  "log_end trm b = \<lparr>b_offset = producer b, l_offset = \<lparr>lo_term = trm, lo_index = ver_logic_id (bl_version b)\<rparr>\<rparr>"

lemma same_place_log_end: "same_place a b \<Longrightarrow> log_end trm a = log_end trm b"
  by (simp add: same_place_def log_end_def)

lemma remdups_same: "xs \<noteq> [] \<Longrightarrow> set xs \<subseteq> {p} \<Longrightarrow> remdups xs = [p]"
proof (induction xs)
  case (Cons x xs)
  then show ?case by (cases xs) auto
qed simp

lemma chip_groups_same:
  assumes "chips \<noteq> []" and "\<forall>c\<in>set chips. br_partition c = p"
  shows "chip_groups chips = [(p, [0..<length chips])]"
proof -
  have "remdups (rev (map br_partition chips)) = [p]" using assms by (intro remdups_same) auto
  moreover have "filter (\<lambda>i. br_partition (chips ! i) = p) [0..<length chips] = [0..<length chips]"
    using assms(2) by (intro filter_True) auto
  ultimately show ?thesis by (simp add: chip_groups_def)
qed

lemma relayed_binlogs: "relayed C prev its ts \<Longrightarrow> list_all2 (\<lambda>t it. bc_binlog (wt_binlog_chip t) = enc_item C it) ts its"
  by (induction C prev its ts rule: relayed.induct) auto

lemma relayed_hd: "relayed C prev its ts \<Longrightarrow> ts \<noteq> [] \<Longrightarrow> b_offset (task_offset (hd ts)) \<noteq> BinlogOffset0"
  by (cases "(C, prev, its, ts)" rule: relayed.cases) (auto simp: leD [OF BinlogOffset0_le])

lemma relayed_last: "relayed C prev its ts \<Longrightarrow> ts \<noteq> [] \<Longrightarrow> l_offset (task_offset (last ts)) = item_logic (last its)"
  by (induction C prev its ts rule: relayed.induct) (auto elim: relayed.elims)

lemma find_all: "xs \<noteq> [] \<Longrightarrow> \<forall>x\<in>set xs. P x \<Longrightarrow> find P xs = Some (hd xs)"
  by (cases xs) auto

lemma finish_binlogs_ack:
  assumes "GetSyncMasterPartitionByName p (sd_rm sd) = Some (Some sm)" and "GetSyncSlavePartitionByName p (sd_rm sd) = Some ss"
    and "ir_consensus_meta res = None" and "b_offset pb_begin \<noteq> BinlogOffset0" and "binlog_ok E fs (sm_logger sm) w"
  shows "\<exists>sd'. finish_binlogs M rf res p pb_begin pb_end sd = Some sd' \<and> GetSyncMasterPartitionByName p (sd_rm sd') = Some (Some sm)
    \<and> sd_net sd' = snd (client_send M (rn_ip (ssp_m_info ss)) (rn_port (ssp_m_info ss))
        (ack_request rf p ss pb_begin (log_end (lo_term (l_offset pb_end)) (sm_logger sm))) (sd_net sd))"
proof -
  let ?rm = "set_master p sm (sd_rm sd)"
  have "bl_opened (sm_logger sm)" "ver_pro_num (bl_version (sm_logger sm)) = bl_pro_num (sm_logger sm)"
    using assms(5) by (auto elim: binlog_okE)
  then have ps: "Binlog_GetProducerStatus (sm_logger sm) = (OK, Some (bl_pro_num (sm_logger sm), ver_pro_offset (bl_version (sm_logger sm)),
      ver_term (bl_version (sm_logger sm)), ver_logic_id (bl_version (sm_logger sm))))" by (simp add: Binlog_GetProducerStatus_def)
  note g = get_set_master [OF assms(1), of sm]
  have "GetSyncSlavePartitionByName p ?rm = Some ss" using g(2) assms(2) by (simp add: GetSyncSlavePartitionByName_def)
  moreover have "\<not> LogOffset_eq pb_begin LogOffset0" using assms(4) by (simp add: LogOffset_eq_def)
  ultimately show ?thesis
    using assms(1,3) g(1) ps
    by (simp add: finish_binlogs_def SendPartitionBinlogSyncAckRequest_def SendPartitionBinlogSync_def ack_request_def log_end_def
        producer_def Let_def split: prod.splits)
qed

lemma chips_relayed:
  assumes "relayed C off its ts" and "\<forall>t\<in>set ts. rn_partition_info (wt_rm_node t) = p \<and> rn_session_id (wt_rm_node t) = session"
  shows "list_all2 (\<lambda>c it. br_binlog c = enc_item C it \<and> br_session_id c = session) (map chip_of ts) its"
  using relayed_binlogs [OF assms(1)] assms(2)
  by (auto simp: list_all2_conv_all_nth chip_of_def)

lemma HandleBGWorkerWriteBinlog_follow:
  assumes "slash_fs E fs hpos" and "fixed_coding C" and "cf_consensus_level (rf_coord rf) = 0" and "receiving (rf_coord rf) (sd_ps sd) ss"
    and "ts \<noteq> []" and "relayed C off its ts" and "\<forall>t\<in>set ts. rn_partition_info (wt_rm_node t) = p \<and> rn_session_id (wt_rm_node t) = rn_session_id (ssp_m_info ss)"
    and "list_all (replayable C (rf_coord rf) (pi_table_name p) cmd_of) its"
    and "GetSyncSlavePartitionByName p (sd_rm sd) = Some ss" and "GetSyncMasterPartitionByName p (sd_rm sd) = Some (Some sm)"
    and "lo_index (l_offset (ml_last_offset (cc_mem_logger (sm_coordinator sm)))) = 0" and "binlog_ok E fs (sm_logger sm) w"
    and "appended E (sm_logger sm) w (map (enc_item C) its) b' w'"
    and "ir_binlog_sync res = map chip_of ts" and "ir_consensus_meta res = None"
  shows "\<exists>item' sd'. HandleBGWorkerWriteBinlog E C M rf res [0..<length ts] item sd w = Some (item', sd', w')
    \<and> GetSyncMasterPartitionByName p (sd_rm sd') = Some (Some (sm\<lparr>sm_coordinator := follow b' (map cmd_of its) (sm_coordinator sm)\<rparr>))
    \<and> sd_net sd' = snd (client_send M (rn_ip (ssp_m_info ss)) (rn_port (ssp_m_info ss))
        (ack_request rf p ss (task_offset (hd ts)) (log_end (bi_term_id (last its)) b')) (sd_net sd))"
proof -
  let ?cs = "map chip_of ts" and ?sm = "sm\<lparr>sm_coordinator := follow b' (map cmd_of its) (sm_coordinator sm)\<rparr>"
  have l: "list_all2 (\<lambda>t it. bc_binlog (wt_binlog_chip t) = enc_item C it) ts its" by (rule relayed_binlogs [OF assms(6)])
  have room: "x \<noteq> []" if "appended E b w xs b' w'" "x \<in> set xs" for b w x and xs :: "bytes list"
    using that by (induction rule: appended.induct) (auto simp: binlog_room_def)
  have "\<forall>it\<in>set its. enc_item C it \<noteq> []" using room [OF assms(13)] by auto
  then have ne: "\<forall>c\<in>set ?cs. br_binlog c \<noteq> []" using l by (force simp: chip_of_def list_all2_conv_all_nth in_set_conv_nth)
  have chips: "map (\<lambda>i. ir_binlog_sync res ! i) [0..<length ts] = ?cs" using assms(14) map_nth [of ?cs] by simp
  have p: "(case ?cs of [] \<Rightarrow> PbPartition0 | chip # _ \<Rightarrow> br_partition chip) = p" using assms(5,7) by (cases ts) (auto simp: chip_of_def)
  have b: "chip_offset (find (\<lambda>c. br_binlog c \<noteq> []) ?cs) = task_offset (hd ts)"
    using find_all [OF _ ne] assms(5) by (simp add: chip_offset_def chip_of_def hd_map)
  have e: "chip_offset (find (\<lambda>c. br_binlog c \<noteq> []) (rev ?cs)) = task_offset (last ts)"
    using find_all [of "rev ?cs" "\<lambda>c. br_binlog c \<noteq> []"] ne assms(5) by (simp add: chip_offset_def chip_of_def hd_rev last_map)
  obtain item' rm' where w: "write_binlogs E C (rf_coord rf) (sd_ps sd) p ?cs item (sd_rm sd) w = Some (True, item', rm', w')"
    "GetSyncMasterPartitionByName p rm' = Some (Some ?sm)" "GetSyncSlavePartitionByName p rm' = Some ss"
    using write_binlogs_follow [OF assms(1-4) chips_relayed [OF assms(6,7)] assms(8-13), of item] by blast
  have "binlog_ok E fs (sm_logger ?sm) w'" using appended_binlog_ok [OF assms(13,1,12)] by (simp add: sm_logger_def)
  from finish_binlogs_ack [of p "sd\<lparr>sd_rm := rm'\<rparr>" ?sm ss res "task_offset (hd ts)", OF _ _ assms(15) relayed_hd [OF assms(6,5)] this, of M rf "task_offset (last ts)"]
  obtain sd' where "finish_binlogs M rf res p (task_offset (hd ts)) (task_offset (last ts)) (sd\<lparr>sd_rm := rm'\<rparr>) = Some sd'"
    "GetSyncMasterPartitionByName p (sd_rm sd') = Some (Some ?sm)"
    "sd_net sd' = snd (client_send M (rn_ip (ssp_m_info ss)) (rn_port (ssp_m_info ss))
        (ack_request rf p ss (task_offset (hd ts)) (log_end (lo_term (l_offset (task_offset (last ts)))) (sm_logger ?sm))) (sd_net sd))"
    using w(2,3) by auto
  then show ?thesis
    using assms(9,10,15) w(1) relayed_last [OF assms(6,5)]
    by (simp add: HandleBGWorkerWriteBinlog_def Let_def chips p b e sm_logger_def item_logic_def)
qed

text \<open>
  C2: A follower without consensus takes over binlogs of the leader. Let the leader append items to its log and
  send them in one message, as its stream of tasks, to a slave whose log ends at the same place with the same
  limit for a file. The slave dispatches the message to one worker, which appends exactly these items to the log
  of the slave and schedules their commands, in order. Afterwards the logs of both end at the same
  place again, and the slave acknowledges the range from the first binlog to the end of the leader's log.
\<close>

theorem follower_keeps_up:
  assumes "slash_fs F gs gpos" and "binlog_ok F gs a v" and "appended F a v (map (enc_item C) its) a' v'"
    and "ts \<noteq> []" and "relayed C off its ts" and "BuildBinlogSyncResp cfl rml ts = Some res" and "\<not> cf_consensus_level cfl > 0"
    and "slash_fs E fs hpos" and "fixed_coding C" and "cf_consensus_level (rf_coord rf) = 0" and "receiving (rf_coord rf) (sd_ps sd) ss"
    and "\<forall>t\<in>set ts. rn_partition_info (wt_rm_node t) = p \<and> rn_session_id (wt_rm_node t) = rn_session_id (ssp_m_info ss)"
    and "list_all (replayable C (rf_coord rf) (pi_table_name p) cmd_of) its"
    and "GetSyncSlavePartitionByName p (sd_rm sd) = Some ss" and "GetSyncMasterPartitionByName p (sd_rm sd) = Some (Some sm)"
    and "lo_index (l_offset (ml_last_offset (cc_mem_logger (sm_coordinator sm)))) = 0" and "binlog_ok E fs (sm_logger sm) w"
    and "appended E (sm_logger sm) w (map (enc_item C) its) b' w'" and "same_place a (sm_logger sm)"
    and "DispatchBinlogRes rf res sd = (tasks, sd1)"
  shows "tasks = [(p, [0..<length ts])] \<and> same_place a' b'
    \<and> (\<exists>item' sd'. HandleBGWorkerWriteBinlog E C M rf res [0..<length ts] item sd1 w = Some (item', sd', w')
        \<and> GetSyncMasterPartitionByName p (sd_rm sd') = Some (Some (sm\<lparr>sm_coordinator := follow b' (map cmd_of its) (sm_coordinator sm)\<rparr>))
        \<and> sd_net sd' = snd (client_send M (rn_ip (ssp_m_info ss)) (rn_port (ssp_m_info ss))
            (ack_request rf p ss (task_offset (hd ts)) (log_end (bi_term_id (last its)) a')) (sd_net sd)))"
proof -
  have res: "ir_binlog_sync res = map chip_of ts" "ir_consensus_meta res = None"
    using assms(6,7) by (auto simp: BuildBinlogSyncResp_def InnerResponse_new_def)
  have "chip_groups (ir_binlog_sync res) = [(p, [0..<length ts])]"
    unfolding res(1) using chip_groups_same [of "map chip_of ts" p] assms(4,12) by (simp add: chip_of_def)
  with assms(14,20) have t: "tasks = [(p, [0..<length ts])]" and sd1: "sd1 = sd\<lparr>sd_rm := set_slave_partition p (ssp_SetLastRecvTime (rf_now rf 0) ss) (sd_rm sd)\<rparr>"
    by (simp_all add: DispatchBinlogRes_def)
  have sp: "same_place a' b'" by (rule appended_same_place [OF assms(3,18,1,2,8,17,19)])
  let ?ss = "ssp_SetLastRecvTime (rf_now rf 0) ss"
  have ss: "receiving (rf_coord rf) (sd_ps sd1) ?ss" "GetSyncSlavePartitionByName p (sd_rm sd1) = Some ?ss"
    "GetSyncMasterPartitionByName p (sd_rm sd1) = Some (Some sm)" "rn_session_id (ssp_m_info ?ss) = rn_session_id (ssp_m_info ss)"
    "rn_ip (ssp_m_info ?ss) = rn_ip (ssp_m_info ss)" "rn_port (ssp_m_info ?ss) = rn_port (ssp_m_info ss)" "sd_net sd1 = sd_net sd"
    "ack_request rf p ?ss x y = ack_request rf p ss x y" for x y
    using assms(11,15) by (simp_all add: sd1 receiving_def ssp_SetLastRecvTime_def ack_request_def)
  show ?thesis
    using HandleBGWorkerWriteBinlog_follow [OF assms(8-10) ss(1) assms(4,5) _ assms(13) ss(2,3) assms(16-18) res, of M item] assms(12)
    by (simp add: ss(4-8) t sp same_place_log_end [OF sp])
qed

text \<open>The peers of the handshake, when the slave is connected.\<close>

definition witness_slave :: SyncSlavePartition where
  "witness_slave = peer_slave\<lparr>ssp_m_info := RmNode_new ''1.2.3.4'' 9221 ''db0'' 0 1, ssp_repl_state := kConnected\<rparr>"

definition witness_side :: "(string, nat, string \<times> nat, nat, nat) slave_side" where
  "witness_side = peer_client\<lparr>sd_rm := peer_rm\<lparr>rm_sync_slave_partitions := [(peer_info, witness_slave)]\<rparr>, sd_ps := server0\<lparr>ps_role := 1\<rparr>\<rparr>"

definition witness_task :: WriteTask where
  "witness_task = \<lparr>wt_rm_node = RmNode_new ''1.2.3.5'' 9221 ''db0'' 0 1, wt_binlog_chip = \<lparr>bc_offset = \<lparr>b_offset = BinlogOffset 0 42,
     l_offset = item_logic first_item\<rparr>, bc_binlog = enc_item le_coding first_item\<rparr>, wt_prev_offset = LogOffset0\<rparr>"

lemma witness_get:
  "GetSyncSlavePartitionByName peer_info (sd_rm witness_side) = Some witness_slave"
  "GetSyncMasterPartitionByName peer_info (sd_rm witness_side) = Some (Some peer_master)"
  using peer_get(2) by (simp_all add: witness_side_def GetSyncSlavePartitionByName_def GetSyncMasterPartitionByName_def)

lemma witness_replayable: "replayable le_coding (rf_coord peer_conf) ''db0'' bi_content it"
  by (simp add: replayable_def peer_conf_def wit_conf_def InitCmd_def item_binlog_def enc_item_def)

lemma witness_appended: "\<exists>b' w'. appended mem_env wit_binlog coord_world [enc_item le_coding first_item] b' w'"
proof -
  have len: "length (enc_item le_coding first_item) = 34" by (rule length_first_item)
  then have ne: "enc_item le_coding first_item \<noteq> []" by force
  with len obtain b' w' where "Binlog_Put mem_env (enc_item le_coding first_item) wit_binlog coord_world = Some (OK, b', w')"
    using coord_put [of "enc_item le_coding first_item"] by auto
  moreover have "binlog_room (enc_item le_coding first_item) wit_binlog" using len ne by (simp add: binlog_room_def wit_simps)
  ultimately show ?thesis by (blast intro: appended.intros)
qed

theorem follower_keeps_up_witness:
  "\<exists>res b' w' item' sd' sd1. BuildBinlogSyncResp (wit_conf\<lparr>cf_consensus_level := 0\<rparr>) (sd_rm witness_side) [witness_task] = Some res
    \<and> DispatchBinlogRes peer_conf res witness_side = ([(peer_info, [0])], sd1)
    \<and> appended mem_env wit_binlog coord_world [enc_item le_coding first_item] b' w'
    \<and> HandleBGWorkerWriteBinlog mem_env le_coding count_client peer_conf res [0] BinlogItem0 sd1 coord_world = Some (item', sd', w')
    \<and> GetSyncMasterPartitionByName peer_info (sd_rm sd') = Some (Some (peer_master\<lparr>sm_coordinator := follow b' [[]] (sm_coordinator peer_master)\<rparr>))
    \<and> sd_net sd' = 1"
proof -
  obtain b' w' where ap: "appended mem_env wit_binlog coord_world (map (enc_item le_coding) [first_item]) b' w'"
    using witness_appended by auto
  obtain res where r: "BuildBinlogSyncResp (wit_conf\<lparr>cf_consensus_level := 0\<rparr>) (sd_rm witness_side) [witness_task] = Some res"
    by (simp add: BuildBinlogSyncResp_def)
  obtain tasks sd1 where d: "DispatchBinlogRes peer_conf res witness_side = (tasks, sd1)" by fastforce
  have rel: "relayed le_coding LogOffset0 [first_item] [witness_task]"
    by (simp add: witness_task_def BinlogOffset0_def less_BinlogOffset_iff)
  have h: "[witness_task] \<noteq> []" "\<not> cf_consensus_level (wit_conf\<lparr>cf_consensus_level := 0\<rparr>) > 0"
    "cf_consensus_level (rf_coord peer_conf) = 0" "receiving (rf_coord peer_conf) (sd_ps witness_side) witness_slave"
    "\<forall>t\<in>set [witness_task]. rn_partition_info (wt_rm_node t) = peer_info \<and> rn_session_id (wt_rm_node t) = rn_session_id (ssp_m_info witness_slave)"
    "list_all (replayable le_coding (rf_coord peer_conf) (pi_table_name peer_info) bi_content) [first_item]"
    "lo_index (l_offset (ml_last_offset (cc_mem_logger (sm_coordinator peer_master)))) = 0"
    using witness_replayable
    by (simp_all add: witness_task_def witness_slave_def witness_side_def peer_conf_def peer_info_def peer_master_def peer_slave_def receiving_def
        PIKA_ROLE_SLAVE_def RmNode_new_def MemLog0_def LogicOffset0_def)
  have sp: "same_place wit_binlog (sm_logger peer_master)" by (simp add: same_place_def peer_get(3))
  have ok: "binlog_ok mem_env mw_files wit_binlog coord_world" "binlog_ok mem_env mw_files (sm_logger peer_master) coord_world"
    using coord_binlog_ok by (simp_all add: coord_simps peer_get(3))
  note main = follower_keeps_up [OF mem.slash_fs_axioms ok(1) ap h(1) rel r h(2) mem.slash_fs_axioms le.fixed_coding_axioms h(3-6)
      witness_get(1,2) h(7) ok(2) ap [folded peer_get(3)] sp d, where M = count_client and item = BinlogItem0]
  then obtain item' sd' where "HandleBGWorkerWriteBinlog mem_env le_coding count_client peer_conf res [0] BinlogItem0 sd1 coord_world = Some (item', sd', w')"
    "GetSyncMasterPartitionByName peer_info (sd_rm sd') = Some (Some (peer_master\<lparr>sm_coordinator := follow b' [[]] (sm_coordinator peer_master)\<rparr>))"
    "sd_net sd' = 1"
    by (auto simp: first_item_def client_send_def count_client_def witness_side_def peer_client_def)
  with r d ap main show ?thesis by auto
qed

end
