(* ===== verification/Pika_Client_Conn.thy ===== *)
theory Pika_Client_Conn
  imports Pika_Server Pika_Command
begin

text \<open>
  The connection of a client, \<^verbatim>\<open>src/pika_client_conn.cc\<close>: its authentication, the checks a command passes before it
  is executed, and the batches of pipelined commands, whose answers are written together when the last of them is
  there. A command carries the connection it came from; what the command does to the connection is seen there.
  The monitors, the statistics and the metrics are not modelled. \<open>None\<close> stands for an abort.
\<close>

section \<open>Authentication\<close>

datatype StatType = kNoAuthed | kAdminAuthed | kLimitAuthed

definition AuthStat_Init :: "string \<Rightarrow> string \<Rightarrow> StatType" where
  "AuthStat_Init userpass requirepass =
     (let stat = (if userpass = [] then kLimitAuthed else kNoAuthed)
      in if stat = kLimitAuthed \<and> requirepass = [] then kAdminAuthed else stat)"

definition kCmdNameAuth :: string where "kCmdNameAuth = ''auth''"

definition IsAuthed :: "string list \<Rightarrow> ('n, 'x) Cmd_scheme \<Rightarrow> StatType \<Rightarrow> bool" where
  "IsAuthed blacklist c stat =
     (if cmd_name c = kCmdNameAuth then True
      else case stat of
             kNoAuthed \<Rightarrow> False
           | kAdminAuthed \<Rightarrow> True
           | kLimitAuthed \<Rightarrow> \<not> (is_admin_require c \<or> cmd_name c \<in> set blacklist))"

definition ChecknUpdate :: "string \<Rightarrow> StatType \<Rightarrow> bool \<times> StatType" where
  "ChecknUpdate message stat =
     (if message = ''USER'' then (True, kLimitAuthed) else if message = ''ROOT'' then (True, kAdminAuthed) else (False, stat))"

section \<open>The connection\<close>

text \<open>\<open>pc_written\<close> is what was handed to the network, response by response.\<close>

record PikaClientConn =
  pc_current_table :: string
  pc_is_pubsub :: bool
  pc_auth_stat :: StatType
  pc_resp_num :: int
  pc_resp_array :: "string list"
  pc_written :: "string list"

text \<open>
  The counter of outstanding responses is not initialised; \<open>indet\<close> is what is found there.
\<close>

definition PikaClientConn_new :: "string \<Rightarrow> string \<Rightarrow> string \<Rightarrow> int \<Rightarrow> PikaClientConn" where
  "PikaClientConn_new default_table userpass requirepass indet =
     \<lparr>pc_current_table = default_table, pc_is_pubsub = False, pc_auth_stat = AuthStat_Init userpass requirepass,
      pc_resp_num = indet, pc_resp_array = [], pc_written = []\<rparr>"

text \<open>
  The configuration, the table of commands with their virtual functions, and the readings of the clock before and
  after a command.
\<close>

record ('x, 's, 'd) client_conf =
  cl_GetCmd :: "string \<Rightarrow> (PikaClientConn, 'x) Cmd_scheme option"
  cl_dummy :: "(PikaClientConn, 'x) Cmd_scheme"
  cl_vt :: "(PikaClientConn, 'x) Cmd_scheme \<Rightarrow> ((PikaClientConn, 'x) Cmd_scheme, 's, 'd) cmd_vtable"
  cl_blacklist :: "string list"
  cl_slave_read_only :: bool
  cl_distribute :: "string \<Rightarrow> u32 \<Rightarrow> u32 option"
  cl_slowlog_slower_than :: int
  cl_slowlog_max_len :: i32
  cl_start_us :: u64
  cl_end_us :: u64

definition ProcessSlowlog :: "('x, 's, 'd) client_conf \<Rightarrow> string list \<Rightarrow> PikaServer \<Rightarrow> PikaServer" where
  "ProcessSlowlog cl argv ps =
     (let start_time = sint (ucast (cl_start_us cl div 1000000) :: i32); duration = sint (cl_end_us cl - cl_start_us cl)
      in if duration > cl_slowlog_slower_than cl then SlowlogPushEntry (cl_slowlog_max_len cl) argv start_time duration ps else ps)"

definition slow_check :: "('x, 's, 'd) client_conf \<Rightarrow> string list \<Rightarrow> PikaServer \<Rightarrow> PikaServer" where
  "slow_check cl argv ps = (if cl_slowlog_slower_than cl \<ge> 0 then ProcessSlowlog cl argv ps else ps)"

section \<open>Commands\<close>

definition refuse :: "string \<Rightarrow> ('n, 'x) Cmd_scheme \<Rightarrow> ('n, 'x) Cmd_scheme" where
  "refuse msg c = set_cmd_res (SetRes_content kErrOther msg) c"

definition pubsub_context :: "string list" where
  "pubsub_context = [''subscribe'', ''unsubscribe'', ''ping'', ''psubscribe'', ''punsubscribe'']"

text \<open>The checks of a write. \<open>Some (Some msg)\<close> is a refusal with this text.\<close>

definition check_write ::
  "('x, 's, 'd) client_conf \<Rightarrow> bool \<Rightarrow> string \<Rightarrow> (PikaClientConn, 'x) Cmd_scheme \<Rightarrow> 'd Partition tables \<Rightarrow> PikaServer \<Rightarrow> ('c, 'n, 'h) PikaReplicaManager
    \<Rightarrow> string option option" where
  "check_write cl classic_mode table_name c tables ps rm =
     (if \<not> is_write c then Some None
      else case IsTableBinlogIoError table_name tables of
             None \<Rightarrow> None
           | Some True \<Rightarrow> Some (Some ''Writing binlog failed, maybe no space left on device'')
           | Some False \<Rightarrow>
               (case vt_current_key (cl_vt cl c) c of
                  [] \<Rightarrow> Some (Some ''Internal ERROR'')
                | key # _ \<Rightarrow>
                    map_option (\<lambda>ro. if ro then Some ''Server in read-only'' else None)
                      (readonly (cl_slave_read_only cl) classic_mode (cl_distribute cl) table_name key tables ps rm)))"

text \<open>
  \<open>rm\<close> is asked for the roles of partitions only. The masters of its partitions are those of the node.
\<close>

definition DoCmd ::
  "('w, 'e) slash_env \<Rightarrow> (PikaClientConn, 'x) Cmd_scheme coord_conf \<Rightarrow> cmd_conf
    \<Rightarrow> ('x, ((PikaClientConn, 'x) Cmd_scheme, PikaClientConn, 'h, 'd, 't) node \<times> 'w, 'd) client_conf \<Rightarrow> 't \<Rightarrow> string list \<Rightarrow> string
    \<Rightarrow> ('c, 'n, 'g) PikaReplicaManager \<Rightarrow> PikaClientConn \<Rightarrow> ((PikaClientConn, 'x) Cmd_scheme, PikaClientConn, 'h, 'd, 't) node \<Rightarrow> PikaServer \<Rightarrow> 'w
    \<Rightarrow> ((PikaClientConn, 'x) Cmd_scheme \<times> PikaClientConn \<times> ((PikaClientConn, 'x) Cmd_scheme, PikaClientConn, 'h, 'd, 't) node \<times> PikaServer \<times> 'w) option" where
  "DoCmd E cf cn cl tid argv opt rm conn nd ps w =
     (case cl_GetCmd cl opt of
        None \<Rightarrow> Some (refuse (''unknown or unsupported command \"'' @ opt @ ''\"'') (cl_dummy cl), conn, nd, ps, w)
      | Some c \<Rightarrow>
          let c = c\<lparr>cmd_conn := Some conn, cmd_resp := True\<rparr>
          in if \<not> IsAuthed (cl_blacklist cl) c (pc_auth_stat conn)
             then Some (refuse (if is_admin_require c then ''NOAUTH Authentication required.'' else ''Command is in blacklist.'') c, conn, nd, ps, w)
             else case Cmd_Initial (cl_vt cl c) argv (pc_current_table conn) c of
                    None \<Rightarrow> None
                  | Some c \<Rightarrow>
                      if \<not> CmdRes_ok (cmd_res c) then Some (c, conn, nd, ps, w)
                      else if pc_is_pubsub conn \<and> opt \<notin> set pubsub_context
                      then Some (refuse ''only (P)SUBSCRIBE / (P)UNSUBSCRIBE / PING / QUIT allowed in this context'' c, conn, nd, ps, w)
                      else (case check_write cl (cf_classic_mode cf) (pc_current_table conn) c (nd_tables nd) ps rm of
                              None \<Rightarrow> None
                            | Some (Some msg) \<Rightarrow> Some (refuse msg c, conn, nd, ps, w)
                            | Some None \<Rightarrow>
                                map_option (\<lambda>(c, nd, w). (c, case cmd_conn c of None \<Rightarrow> conn | Some conn \<Rightarrow> conn, nd, slow_check cl argv ps, w))
                                  (Execute E cf cn (cl_vt cl c) tid c nd w)))"

section \<open>Batches\<close>

definition answer :: "nat \<Rightarrow> string \<Rightarrow> PikaClientConn \<Rightarrow> PikaClientConn" where
  "answer i msg conn = conn\<lparr>pc_resp_array := (pc_resp_array conn)[i := msg], pc_resp_num := pc_resp_num conn - 1\<rparr>"

definition TryWriteResp :: "PikaClientConn \<Rightarrow> PikaClientConn" where
  "TryWriteResp conn =
     (if pc_resp_num conn = 0 then conn\<lparr>pc_resp_num := - 1, pc_written := pc_written conn @ pc_resp_array conn, pc_resp_array := []\<rparr> else conn)"

definition kClusterPrefix :: string where "kClusterPrefix = ''pkcluster''"

text \<open>\<open>i\<close> is the place of the response in the batch.\<close>

definition ExecRedisCmd ::
  "('w, 'e) slash_env \<Rightarrow> (PikaClientConn, 'x) Cmd_scheme coord_conf \<Rightarrow> cmd_conf
    \<Rightarrow> ('x, ((PikaClientConn, 'x) Cmd_scheme, PikaClientConn, 'h, 'd, 't) node \<times> 'w, 'd) client_conf \<Rightarrow> 't \<Rightarrow> string list \<Rightarrow> nat
    \<Rightarrow> ('c, 'n, 'g) PikaReplicaManager \<Rightarrow> PikaClientConn \<Rightarrow> ((PikaClientConn, 'x) Cmd_scheme, PikaClientConn, 'h, 'd, 't) node \<Rightarrow> PikaServer \<Rightarrow> 'w
    \<Rightarrow> (PikaClientConn \<times> ((PikaClientConn, 'x) Cmd_scheme, PikaClientConn, 'h, 'd, 't) node \<times> PikaServer \<times> 'w) option" where
  "ExecRedisCmd E cf cn cl tid argv i rm conn nd ps w =
     (case argv of
        [] \<Rightarrow> None
      | opt # _ \<Rightarrow>
          if opt = kClusterPrefix then None
          else map_option (\<lambda>(c, conn, nd, ps, w).
                   (if cf_consensus_level cf = 0 \<or> \<not> CmdRes_ok (cmd_res c) \<or> \<not> is_write c then answer i (CmdRes_message (cmd_res c)) conn else conn,
                    nd, ps, w))
                 (DoCmd E cf cn cl tid argv opt rm conn nd ps w))"

primrec exec_cmds ::
  "('w, 'e) slash_env \<Rightarrow> (PikaClientConn, 'x) Cmd_scheme coord_conf \<Rightarrow> cmd_conf
    \<Rightarrow> ('x, ((PikaClientConn, 'x) Cmd_scheme, PikaClientConn, 'h, 'd, 't) node \<times> 'w, 'd) client_conf \<Rightarrow> 't \<Rightarrow> string list list
    \<Rightarrow> ('c, 'n, 'g) PikaReplicaManager \<Rightarrow> PikaClientConn \<Rightarrow> ((PikaClientConn, 'x) Cmd_scheme, PikaClientConn, 'h, 'd, 't) node \<Rightarrow> PikaServer \<Rightarrow> 'w
    \<Rightarrow> (PikaClientConn \<times> ((PikaClientConn, 'x) Cmd_scheme, PikaClientConn, 'h, 'd, 't) node \<times> PikaServer \<times> 'w) option" where
  "exec_cmds E cf cn cl tid [] rm conn nd ps w = Some (conn, nd, ps, w)"
| "exec_cmds E cf cn cl tid (argv # argvs) rm conn nd ps w =
     (let conn = conn\<lparr>pc_resp_array := pc_resp_array conn @ [[]]\<rparr>
      in case ExecRedisCmd E cf cn cl tid argv (length (pc_resp_array conn) - 1) rm conn nd ps w of
           None \<Rightarrow> None
         | Some (conn, nd, ps, w) \<Rightarrow> exec_cmds E cf cn cl tid argvs rm conn nd ps w)"

definition BatchExecRedisCmd ::
  "('w, 'e) slash_env \<Rightarrow> (PikaClientConn, 'x) Cmd_scheme coord_conf \<Rightarrow> cmd_conf
    \<Rightarrow> ('x, ((PikaClientConn, 'x) Cmd_scheme, PikaClientConn, 'h, 'd, 't) node \<times> 'w, 'd) client_conf \<Rightarrow> 't \<Rightarrow> string list list
    \<Rightarrow> ('c, 'n, 'g) PikaReplicaManager \<Rightarrow> PikaClientConn \<Rightarrow> ((PikaClientConn, 'x) Cmd_scheme, PikaClientConn, 'h, 'd, 't) node \<Rightarrow> PikaServer \<Rightarrow> 'w
    \<Rightarrow> (PikaClientConn \<times> ((PikaClientConn, 'x) Cmd_scheme, PikaClientConn, 'h, 'd, 't) node \<times> PikaServer \<times> 'w) option" where
  "BatchExecRedisCmd E cf cn cl tid argvs rm conn nd ps w =
     map_option (\<lambda>(conn, nd, ps, w). (TryWriteResp conn, nd, ps, w))
       (exec_cmds E cf cn cl tid argvs rm (conn\<lparr>pc_resp_num := int (length argvs)\<rparr>) nd ps w)"

text \<open>
  The commands of a background task: up to and including the first \<^verbatim>\<open>quit\<close>, or none at all when a command without
  arguments comes before it.
\<close>

fun until_quit :: "string list list \<Rightarrow> string list list option" where
  "until_quit [] = Some []"
| "until_quit ([] # argvs) = None"
| "until_quit ((opt # args) # argvs) =
     (if opt = ''quit'' then Some [opt # args] else map_option (Cons (opt # args)) (until_quit argvs))"

text \<open>\<^verbatim>\<open>GetCmdRouting\<close> of the server says that all commands are local, so that nothing is forwarded to a proxy.\<close>

definition GetCmdRouting :: "string list list \<Rightarrow> Status \<times> bool" where
  "GetCmdRouting redis_cmds = (OK, True)"

definition DoBackgroundTask ::
  "('w, 'e) slash_env \<Rightarrow> (PikaClientConn, 'x) Cmd_scheme coord_conf \<Rightarrow> cmd_conf
    \<Rightarrow> ('x, ((PikaClientConn, 'x) Cmd_scheme, PikaClientConn, 'h, 'd, 't) node \<times> 'w, 'd) client_conf \<Rightarrow> 't \<Rightarrow> string list list
    \<Rightarrow> ('c, 'n, 'g) PikaReplicaManager \<Rightarrow> PikaClientConn \<Rightarrow> ((PikaClientConn, 'x) Cmd_scheme, PikaClientConn, 'h, 'd, 't) node \<Rightarrow> PikaServer \<Rightarrow> 'w
    \<Rightarrow> (PikaClientConn \<times> ((PikaClientConn, 'x) Cmd_scheme, PikaClientConn, 'h, 'd, 't) node \<times> PikaServer \<times> 'w) option" where
  "DoBackgroundTask E cf cn cl tid redis_cmds rm conn nd ps w =
     (if redis_cmds = [] then Some (conn, nd, ps, w)
      else case until_quit redis_cmds of
             None \<Rightarrow> Some (conn, nd, ps, w)
           | Some redis_cmds \<Rightarrow>
               (case GetCmdRouting redis_cmds of
                  (s, all_local) \<Rightarrow>
                    if \<not> ok s \<or> \<not> all_local then Some (conn, nd, ps, w) else BatchExecRedisCmd E cf cn cl tid redis_cmds rm conn nd ps w))"

text \<open>
  With consensus a write is answered by the task that the coordinator schedules when its log is committed. The
  slow log is reached through the connection, which a command without a client does not have.
\<close>

definition conn_DoExecTask ::
  "('w, 'e) slash_env \<Rightarrow> (PikaClientConn, 'x) Cmd_scheme coord_conf \<Rightarrow> cmd_conf
    \<Rightarrow> ('x, ((PikaClientConn, 'x) Cmd_scheme, PikaClientConn, 'h, 'd, 't) node \<times> 'w, 'd) client_conf \<Rightarrow> 't \<Rightarrow> (PikaClientConn, 'x) Cmd_scheme
    \<Rightarrow> nat \<Rightarrow> LogOffset \<Rightarrow> PartitionInfo \<Rightarrow> PikaClientConn option \<Rightarrow> ((PikaClientConn, 'x) Cmd_scheme, PikaClientConn, 'h, 'd, 't) node \<Rightarrow> PikaServer \<Rightarrow> 'w
    \<Rightarrow> (PikaClientConn option \<times> ((PikaClientConn, 'x) Cmd_scheme, PikaClientConn, 'h, 'd, 't) node \<times> PikaServer \<times> 'w) option" where
  "conn_DoExecTask E cf cn cl tid c i offset p_info conn nd ps w =
     (case Execute E cf cn (cl_vt cl c) tid (c\<lparr>cmd_stage := kExecuteStage\<rparr>) nd w of
        None \<Rightarrow> None
      | Some (c, nd, w) \<Rightarrow>
          if cl_slowlog_slower_than cl \<ge> 0 \<and> conn = None then None
          else let ps = slow_check cl (cmd_argv c) ps
               in case PartitionMap_get p_info (nd_masters nd) of
                    None \<Rightarrow> None
                  | Some None \<Rightarrow> Some (conn, nd, ps, w)
                  | Some (Some st) \<Rightarrow>
                      (case UpdateAppliedIndex E offset (cc_context st) w of
                         None \<Rightarrow> None
                       | Some (ctx, w) \<Rightarrow>
                           map_option (\<lambda>masters. (map_option (TryWriteResp \<circ> answer i (CmdRes_message (cmd_res c))) conn, nd\<lparr>nd_masters := masters\<rparr>, ps, w))
                             (PartitionMap_put p_info (Some (st\<lparr>cc_context := ctx\<rparr>)) (nd_masters nd))))"

section \<open>What a client gets past\<close>

lemma refuse_not_ok [simp]: "\<not> CmdRes_ok (cmd_res (refuse msg c))"
  by (simp add: refuse_def CmdRes_ok_def SetRes_content_def Let_def)

lemma check_write_passes:
  assumes "check_write cl classic_mode table_name c tables ps rm = Some None" and "is_write c"
  shows "IsTableBinlogIoError table_name tables = Some False \<and> vt_current_key (cl_vt cl c) c \<noteq> []
    \<and> readonly (cl_slave_read_only cl) classic_mode (cl_distribute cl) table_name (hd (vt_current_key (cl_vt cl c) c)) tables ps rm = Some False"
  using assms by (auto simp: check_write_def split: option.splits bool.splits list.splits if_splits)

lemma DoCmd_gate:
  assumes "DoCmd E cf cn cl tid argv opt rm conn nd ps w = Some (c', conn', nd', ps', w')"
  shows "(\<not> CmdRes_ok (cmd_res c') \<and> conn' = conn \<and> nd' = nd \<and> ps' = ps \<and> w' = w)
    \<or> (\<exists>c c1. cl_GetCmd cl opt = Some c \<and> IsAuthed (cl_blacklist cl) c (pc_auth_stat conn)
        \<and> Cmd_Initial (cl_vt cl (c\<lparr>cmd_conn := Some conn, cmd_resp := True\<rparr>)) argv (pc_current_table conn) (c\<lparr>cmd_conn := Some conn, cmd_resp := True\<rparr>)
            = Some c1
        \<and> CmdRes_ok (cmd_res c1) \<and> (pc_is_pubsub conn \<longrightarrow> opt \<in> set pubsub_context)
        \<and> (is_write c1 \<longrightarrow> IsTableBinlogIoError (pc_current_table conn) (nd_tables nd) = Some False
             \<and> vt_current_key (cl_vt cl c1) c1 \<noteq> [] \<and> \<not> (ps_role ps AND PIKA_ROLE_SLAVE \<noteq> 0 \<and> cl_slave_read_only cl))
        \<and> Execute E cf cn (cl_vt cl c1) tid c1 nd w = Some (c', nd', w'))"
proof (cases "cl_GetCmd cl opt")
  case None
  with assms show ?thesis by (auto simp: DoCmd_def Let_def)
next
  case (Some c)
  let ?c = "c\<lparr>cmd_conn := Some conn, cmd_resp := True\<rparr>"
  have a: "IsAuthed (cl_blacklist cl) ?c (pc_auth_stat conn) = IsAuthed (cl_blacklist cl) c (pc_auth_stat conn)"
    by (cases "pc_auth_stat conn") (simp_all add: IsAuthed_def is_admin_require_def)
  show ?thesis
  proof (cases "IsAuthed (cl_blacklist cl) c (pc_auth_stat conn)")
    case False
    with assms Some a show ?thesis by (auto simp: DoCmd_def Let_def)
  next
    case True
    with assms Some a obtain c1 where c1: "Cmd_Initial (cl_vt cl ?c) argv (pc_current_table conn) ?c = Some c1"
      by (auto simp: DoCmd_def Let_def split: option.splits)
    let ?k = "check_write cl (cf_classic_mode cf) (pc_current_table conn) c1 (nd_tables nd) ps rm"
    consider "\<not> CmdRes_ok (cmd_res c1)" | "CmdRes_ok (cmd_res c1)" "pc_is_pubsub conn \<and> opt \<notin> set pubsub_context"
      | msg where "CmdRes_ok (cmd_res c1)" "\<not> (pc_is_pubsub conn \<and> opt \<notin> set pubsub_context)" "?k = Some (Some msg)"
      | "CmdRes_ok (cmd_res c1)" "\<not> (pc_is_pubsub conn \<and> opt \<notin> set pubsub_context)" "?k = Some None"
      using assms Some a True c1 by (cases ?k) (auto simp: DoCmd_def Let_def split: if_splits)
    then show ?thesis
    proof cases
      case 4
      then have "Execute E cf cn (cl_vt cl c1) tid c1 nd w = Some (c', nd', w')"
        using assms Some a True c1 by (auto simp: DoCmd_def Let_def)
      moreover have "\<not> (ps_role ps AND PIKA_ROLE_SLAVE \<noteq> 0 \<and> cl_slave_read_only cl)" if "is_write c1"
        using check_write_passes [OF 4(3) that] by (auto simp: readonly_def split: if_splits)
      ultimately show ?thesis using Some True c1 4 check_write_passes [OF 4(3)] by blast
    qed (use assms Some a True c1 in \<open>auto simp: DoCmd_def Let_def\<close>)
  qed
qed


section \<open>How the answers of a batch interleave\<close>

text \<open>
  The thread of the connection goes through the commands of a batch; each is answered at once, or later by the
  worker that executes it. The answer of a worker and its attempt to write are two steps, between which others can come.
\<close>

datatype batch_pc = Issuing nat | Executing nat | Trying | Finished

record batch =
  ba_conn :: PikaClientConn
  ba_main :: batch_pc
  ba_pending :: "nat set"
  ba_trying :: "nat set"

inductive batch_step :: "(nat \<Rightarrow> string) \<Rightarrow> nat \<Rightarrow> batch \<Rightarrow> batch \<Rightarrow> bool" for msg n where
  issue: "ba_main b = Issuing i \<Longrightarrow> i < n
    \<Longrightarrow> batch_step msg n b (b\<lparr>ba_conn := (ba_conn b)\<lparr>pc_resp_array := pc_resp_array (ba_conn b) @ [[]]\<rparr>, ba_main := Executing i\<rparr>)"
| answer_now: "ba_main b = Executing i \<Longrightarrow> batch_step msg n b (b\<lparr>ba_conn := answer i (msg i) (ba_conn b), ba_main := Issuing (Suc i)\<rparr>)"
| answer_later: "ba_main b = Executing i \<Longrightarrow> batch_step msg n b (b\<lparr>ba_main := Issuing (Suc i), ba_pending := insert i (ba_pending b)\<rparr>)"
| issued: "ba_main b = Issuing n \<Longrightarrow> batch_step msg n b (b\<lparr>ba_main := Trying\<rparr>)"
| try_main: "ba_main b = Trying \<Longrightarrow> batch_step msg n b (b\<lparr>ba_conn := TryWriteResp (ba_conn b), ba_main := Finished\<rparr>)"
| worker_answer: "i \<in> ba_pending b
    \<Longrightarrow> batch_step msg n b (b\<lparr>ba_conn := answer i (msg i) (ba_conn b), ba_pending := ba_pending b - {i}, ba_trying := insert i (ba_trying b)\<rparr>)"
| worker_try: "i \<in> ba_trying b \<Longrightarrow> batch_step msg n b (b\<lparr>ba_conn := TryWriteResp (ba_conn b), ba_trying := ba_trying b - {i}\<rparr>)"

definition batch_start :: "nat \<Rightarrow> PikaClientConn \<Rightarrow> batch" where
  "batch_start n conn = \<lparr>ba_conn = conn\<lparr>pc_resp_num := int n\<rparr>, ba_main = Issuing 0, ba_pending = {}, ba_trying = {}\<rparr>"

definition batch_done :: "batch \<Rightarrow> bool" where
  "batch_done b \<longleftrightarrow> ba_main b = Finished \<and> ba_pending b = {} \<and> ba_trying b = {}"

text \<open>The commands whose responses have a place, and those that have been answered.\<close>

primrec started :: "nat \<Rightarrow> batch_pc \<Rightarrow> nat" where
  "started n (Issuing i) = i"
| "started n (Executing i) = Suc i"
| "started n Trying = n"
| "started n Finished = n"

definition replied :: "nat \<Rightarrow> batch \<Rightarrow> nat set" where
  "replied n b = {..<started n (ba_main b)} - ba_pending b - (case ba_main b of Executing i \<Rightarrow> {i} | _ \<Rightarrow> {})"

definition batch_waiting :: "(nat \<Rightarrow> string) \<Rightarrow> nat \<Rightarrow> string list \<Rightarrow> batch \<Rightarrow> bool" where
  "batch_waiting msg n old b \<longleftrightarrow> pc_resp_num (ba_conn b) = int n - int (card (replied n b)) \<and> pc_written (ba_conn b) = old
     \<and> length (pc_resp_array (ba_conn b)) = started n (ba_main b) \<and> (\<forall>i\<in>replied n b. pc_resp_array (ba_conn b) ! i = msg i)
     \<and> (ba_main b = Finished \<and> ba_trying b = {} \<longrightarrow> replied n b \<noteq> {..<n})"

definition batch_written :: "(nat \<Rightarrow> string) \<Rightarrow> nat \<Rightarrow> string list \<Rightarrow> batch \<Rightarrow> bool" where
  "batch_written msg n old b \<longleftrightarrow> pc_resp_num (ba_conn b) = - 1 \<and> pc_written (ba_conn b) = old @ map msg [0..<n] \<and> replied n b = {..<n}"

definition batch_ok :: "(nat \<Rightarrow> string) \<Rightarrow> nat \<Rightarrow> string list \<Rightarrow> batch \<Rightarrow> bool" where
  "batch_ok msg n old b \<longleftrightarrow> started n (ba_main b) \<le> n \<and> ba_pending b \<subseteq> {..<started n (ba_main b)}
     \<and> (\<forall>i. ba_main b = Executing i \<longrightarrow> i \<notin> ba_pending b) \<and> (batch_waiting msg n old b \<or> batch_written msg n old b)"

lemma answered_finite [simp]: "finite (replied n b)"
  by (simp add: replied_def)

lemma answered_below: "replied n b \<subseteq> {..<started n (ba_main b)}"
  by (auto simp: replied_def)

lemma answered_all: "started n (ba_main b) \<le> n \<Longrightarrow> card (replied n b) = n \<Longrightarrow> replied n b = {..<n}"
  using answered_below [of n b] by (intro card_subset_eq) auto

lemma batch_try:
  assumes "batch_ok msg n old b" and "ba_conn b' = TryWriteResp (ba_conn b)" and "replied n b' = replied n b"
    and "started n (ba_main b') = started n (ba_main b)"
  shows "batch_waiting msg n old b' \<or> batch_written msg n old b'"
proof (cases "batch_written msg n old b")
  case True
  then show ?thesis using assms(2,3) by (simp add: batch_written_def TryWriteResp_def)
next
  case False
  with assms(1) have w: "batch_waiting msg n old b" and le: "started n (ba_main b) \<le> n" by (auto simp: batch_ok_def)
  show ?thesis
  proof (cases "card (replied n b) = n")
    case True
    then have a: "replied n b = {..<n}" using le by (rule answered_all [rotated])
    then have "started n (ba_main b) = n" using answered_below [of n b] le by (metis lessThan_subset_iff le_antisym)
    then have "pc_resp_array (ba_conn b) = map msg [0..<n]" using w a by (intro nth_equalityI) (auto simp: batch_waiting_def)
    moreover have "pc_resp_num (ba_conn b) = 0" "pc_written (ba_conn b) = old" using w True unfolding batch_waiting_def by simp_all
    ultimately have "batch_written msg n old b'" unfolding batch_written_def assms(2,3) using a by (simp add: TryWriteResp_def)
    then show ?thesis ..
  next
    case False
    then have "replied n b \<noteq> {..<n}" by (metis card_lessThan)
    moreover have "TryWriteResp (ba_conn b) = ba_conn b" using w False by (simp add: batch_waiting_def TryWriteResp_def)
    ultimately have "batch_waiting msg n old b'" using w unfolding batch_waiting_def assms(2-4) by simp
    then show ?thesis ..
  qed
qed

lemma batch_answer:
  assumes "batch_ok msg n old b" and "i \<notin> replied n b" and "i < started n (ba_main b)" and "ba_conn b' = answer i (msg i) (ba_conn b)"
    and "replied n b' = insert i (replied n b)" and "started n (ba_main b') = started n (ba_main b)" and "ba_main b' \<noteq> Finished \<or> ba_trying b' \<noteq> {}"
  shows "batch_waiting msg n old b'"
proof -
  have "\<not> batch_written msg n old b" using assms(1-3) by (auto simp: batch_ok_def batch_written_def)
  with assms(1) have "batch_waiting msg n old b" by (simp add: batch_ok_def)
  with assms(2-7) show ?thesis by (auto simp: batch_waiting_def answer_def nth_list_update)
qed

lemma batch_answered_simps:
  "ba_main b = Issuing i \<Longrightarrow> replied n b = {..<i} - ba_pending b"
  "ba_main b = Executing i \<Longrightarrow> replied n b = {..<i} - ba_pending b"
  "ba_main b = Trying \<Longrightarrow> replied n b = {..<n} - ba_pending b"
  "ba_main b = Finished \<Longrightarrow> replied n b = {..<n} - ba_pending b"
  by (auto simp: replied_def)

lemma batch_step_ok:
  assumes "batch_step msg n b b'" and "batch_ok msg n old b"
  shows "batch_ok msg n old b'"
  using assms
proof (induction rule: batch_step.induct)
  case (issue b i)
  have "\<not> batch_written msg n old b" using issue by (auto simp: batch_written_def batch_answered_simps)
  with issue have w: "batch_waiting msg n old b" by (simp add: batch_ok_def)
  have "batch_waiting msg n old (b\<lparr>ba_conn := (ba_conn b)\<lparr>pc_resp_array := pc_resp_array (ba_conn b) @ [[]]\<rparr>, ba_main := Executing i\<rparr>)"
    using w issue(1) by (auto simp: batch_waiting_def batch_answered_simps nth_append)
  with issue show ?case by (auto simp: batch_ok_def)
next
  case (answer_now b i)
  let ?b = "b\<lparr>ba_conn := answer i (msg i) (ba_conn b), ba_main := Issuing (Suc i)\<rparr>"
  have i: "i \<notin> ba_pending b" using answer_now by (auto simp: batch_ok_def)
  have "batch_waiting msg n old ?b"
    using answer_now i by (intro batch_answer [of msg n old b i]) (auto simp: batch_answered_simps)
  with answer_now i show ?case by (auto simp: batch_ok_def)
next
  case (answer_later b i)
  let ?b = "b\<lparr>ba_main := Issuing (Suc i), ba_pending := insert i (ba_pending b)\<rparr>"
  have a: "replied n ?b = replied n b" using answer_later by (auto simp: batch_answered_simps)
  then have "batch_waiting msg n old ?b \<or> batch_written msg n old ?b"
    using answer_later unfolding batch_ok_def by (auto simp: batch_waiting_def batch_written_def)
  with answer_later show ?case by (auto simp: batch_ok_def)
next
  case (issued b)
  have a: "replied n (b\<lparr>ba_main := Trying\<rparr>) = replied n b" using issued by (simp add: batch_answered_simps)
  then show ?case using issued unfolding batch_ok_def by (auto simp: batch_waiting_def batch_written_def)
next
  case (try_main b)
  let ?b = "b\<lparr>ba_conn := TryWriteResp (ba_conn b), ba_main := Finished\<rparr>"
  have "batch_waiting msg n old ?b \<or> batch_written msg n old ?b"
    using try_main by (intro batch_try [of msg n old b]) (simp_all add: batch_answered_simps)
  with try_main show ?case by (auto simp: batch_ok_def)
next
  case (worker_answer i b)
  let ?b = "b\<lparr>ba_conn := answer i (msg i) (ba_conn b), ba_pending := ba_pending b - {i}, ba_trying := insert i (ba_trying b)\<rparr>"
  have i: "i < started n (ba_main b)" "ba_main b \<noteq> Executing i" using worker_answer by (auto simp: batch_ok_def)
  have "replied n ?b = insert i (replied n b)" using i worker_answer(1) by (cases "ba_main b") (auto simp: replied_def)
  then have "batch_waiting msg n old ?b"
    using worker_answer i by (intro batch_answer [of msg n old b i]) (auto simp: replied_def)
  with worker_answer show ?case by (auto simp: batch_ok_def)
next
  case (worker_try i b)
  let ?b = "b\<lparr>ba_conn := TryWriteResp (ba_conn b), ba_trying := ba_trying b - {i}\<rparr>"
  have "batch_waiting msg n old ?b \<or> batch_written msg n old ?b"
    using worker_try by (intro batch_try [of msg n old b]) (simp_all add: replied_def)
  with worker_try show ?case by (auto simp: batch_ok_def)
qed

lemma batch_start_ok: "batch_ok msg n (pc_written conn) (batch_start n (conn\<lparr>pc_resp_array := []\<rparr>))"
  by (simp add: batch_ok_def batch_start_def batch_waiting_def batch_answered_simps)

lemma batch_run_ok: "(batch_step msg n)\<^sup>*\<^sup>* (batch_start n (conn\<lparr>pc_resp_array := []\<rparr>)) b \<Longrightarrow> batch_ok msg n (pc_written conn) b"
  by (induction rule: rtranclp_induct) (use batch_start_ok batch_step_ok in blast)+

lemma batch_progress:
  assumes "batch_ok msg n old b" and "\<not> batch_done b"
  shows "\<exists>b'. batch_step msg n b b'"
proof (cases "ba_main b")
  case (Issuing i)
  then have "i < n \<or> i = n" using assms(1) by (auto simp: batch_ok_def)
  with Issuing show ?thesis by (auto intro: batch_step.intros)
next
  case Finished
  then obtain i where "i \<in> ba_pending b \<or> i \<in> ba_trying b" using assms(2) by (auto simp: batch_done_def)
  then show ?thesis by (auto intro: batch_step.intros)
qed (auto intro: batch_step.intros)


section \<open>Writes with consensus\<close>

lemma GetPartitionByDbName_put:
  assumes "GetPartitionByDbName t tables = Some (Some p)"
  shows "GetPartitionByDbName t (put_partition t 0 p' tables) = Some (Some p')"
  using assms by (auto simp: GetPartitionByDbName_def GetTable_def GetPartitionById_def put_partition_def split: option.splits if_splits)

text \<open>A command on the partition of its table, in classic mode.\<close>

lemma Execute_classic:
  assumes "cf_classic_mode cf" and "cmd_special c = kGeneral" and "is_single_partition c"
    and "GetPartitionByDbName (cmd_table_name c) (nd_tables nd) = Some (Some p)"
  shows "Execute E cf cn vt tid c nd w = run_on E cf cn vt HintKeys0 (cmd_table_name c) 0 p c nd w"
  using assms by (simp add: Execute_def ProcessSinglePartitionCmd_def)

lemma run_on_done:
  assumes "run_on E cf cn vt hk t 0 p c nd w = Some (c', nd', w')" and "GetPartitionByDbName t (nd_tables nd) = Some (Some p)"
    and "PartitionMap_get (partition_info p) (nd_masters nd) \<noteq> Some None"
  obtains p' st st' where "ProcessCommand E cf cn vt hk c p st w = Some (c', p', st', w')"
    and "GetPartitionByDbName t (nd_tables nd') = Some (Some p')" and "PartitionMap_get (partition_info p) (nd_masters nd') = Some (Some st')"
  using assms GetPartitionByDbName_put [OF assms(2)] PartitionMap_get_put
  by (fastforce simp: run_on_def split: option.splits prod.splits)

lemma run_on_ok_master:
  "run_on E cf cn vt hk t 0 p c nd w = Some (c', nd', w') \<Longrightarrow> CmdRes_ok (cmd_res c') \<Longrightarrow> PartitionMap_get (partition_info p) (nd_masters nd) \<noteq> Some None"
  by (auto simp: run_on_def set_cmd_res_def CmdRes_ok_def SetRes_content_def Let_def)

lemma InternalProcessCommand_Do:
  assumes "InternalProcessCommand E cf cn vt HintKeys0 c p st w = Some (c', p', st', w')"
  shows "\<exists>c1. vt_Do vt c p = Some (c1, p')"
  using assms by (auto simp: InternalProcessCommand_def DoCommand_def HintKeys0_def HintKeys_empty_def split: option.splits)


section \<open>Instances\<close>

type_synonym client_state = "(PikaClientConn Cmd, PikaClientConn, string \<times> nat, nat, nat) node \<times> mem_world"

definition inc_vt :: "(PikaClientConn Cmd, client_state, nat) cmd_vtable" where
  "inc_vt = \<lparr>vt_current_key = (\<lambda>c. [cmd_argv c ! 1]),
     vt_Do = (\<lambda>c p. Some (set_cmd_res (SetRes kOk) c, p\<lparr>pt_db := map_option Suc (pt_db p)\<rparr>)),
     vt_Split = (\<lambda>_ c p. Some (c, p)), vt_Merge = id, vt_DoInitial = Some, vt_Clear = id, vt_Do_null = (\<lambda>c s. Some (c, s))\<rparr>"

definition client_cmd :: "PikaClientConn Cmd" where
  "client_cmd = \<lparr>cmd_name = ''set'', cmd_special = kGeneral, cmd_stage = kNoneStage, cmd_arity = -3,
     cmd_flag = kCmdFlagsWrite OR kCmdFlagsKv OR kCmdFlagsSinglePartition, cmd_res = CmdRes0, cmd_argv = [], cmd_table_name = [],
     cmd_conn = None, cmd_resp = False\<rparr>"

definition client_cl :: "(unit, client_state, nat) client_conf" where
  "client_cl = \<lparr>cl_GetCmd = (\<lambda>opt. if opt = ''set'' then Some client_cmd else None), cl_dummy = client_cmd, cl_vt = (\<lambda>_. inc_vt),
     cl_blacklist = [], cl_slave_read_only = True, cl_distribute = (\<lambda>_ _. None), cl_slowlog_slower_than = - 1, cl_slowlog_max_len = 0,
     cl_start_us = 0, cl_end_us = 0\<rparr>"

definition client_conn :: PikaClientConn where
  "client_conn = PikaClientConn_new ''db0'' [] [] 0"

definition client_node :: "(PikaClientConn Cmd, PikaClientConn, string \<times> nat, nat, nat) node" where
  "client_node = \<lparr>nd_tables = [(''db0'', Some ((Table_new ''db0'' 1 [] [])\<lparr>tb_partitions := [(0, Some map_part)]\<rparr>))],
     nd_masters = [(\<lparr>pi_table_name = ''db0'', pi_partition_id = 0\<rparr>, Some cmd_coord)], nd_dmap = Map.empty\<rparr>"

definition client_ready :: "string list \<Rightarrow> PikaClientConn Cmd" where
  "client_ready argv = client_cmd\<lparr>cmd_argv := argv, cmd_table_name := ''db0'', cmd_conn := Some client_conn, cmd_resp := True\<rparr>"

lemma client_initial: "Cmd_Initial inc_vt argv ''db0'' (client_cmd\<lparr>cmd_conn := Some client_conn, cmd_resp := True\<rparr>) = Some (client_ready argv)"
  by (simp add: Cmd_Initial_def inc_vt_def client_cmd_def client_ready_def CmdRes_clear_def CmdRes0_def)

lemma client_facts [simp]:
  "cl_GetCmd client_cl ''set'' = Some client_cmd" "cl_vt client_cl c = inc_vt" "pc_current_table client_conn = ''db0''" "\<not> pc_is_pubsub client_conn"
  "IsAuthed (cl_blacklist client_cl) (client_cmd\<lparr>cmd_conn := conn, cmd_resp := r\<rparr>) (pc_auth_stat client_conn)"
  "is_write (client_ready argv)" "is_single_partition (client_ready argv)" "CmdRes_ok (cmd_res (client_ready argv))"
  "cmd_special (client_ready argv) = kGeneral" "cmd_stage (client_ready argv) = kNoneStage" "cmd_table_name (client_ready argv) = ''db0''"
  "cmd_argv (client_ready argv) = argv" "cl_slave_read_only client_cl" "cl_slowlog_slower_than client_cl = - 1"
  by (simp_all add: client_cl_def client_conn_def PikaClientConn_new_def AuthStat_Init_def IsAuthed_def client_cmd_def client_ready_def
      is_write_def is_single_partition_def cmd_flag_defs CmdRes_ok_def CmdRes0_def)

lemma client_node_simps:
  "IsTableBinlogIoError ''db0'' (nd_tables client_node) = Some False" "GetPartitionByDbName ''db0'' (nd_tables client_node) = Some (Some map_part)"
  "PartitionMap_slot \<lparr>pi_table_name = ''db0'', pi_partition_id = 0\<rparr> (nd_masters client_node) = Some 0"
  by (simp_all add: client_node_def IsTableBinlogIoError_def GetTable_def DbIdxFromStr_def Table_new_def GetPartitionByDbName_def
      GetPartitionById_def PartitionMap_slot_def)



text \<open>A write of a client with consensus, and the task that follows it.\<close>

definition client_part :: "nat \<Rightarrow> nat Partition" where
  "client_part n = map_part\<lparr>pt_db := Some n\<rparr>"

lemma ProposeLog_context: "ProposeLog E cf c conn st w = Some (s, st', w') \<Longrightarrow> cc_context st' = cc_context st"
  by (auto simp: ProposeLog_def InternalAppendLog_def InternalAppendBinlog_def log_binlog_failure_def Let_def split: prod.splits option.splits if_splits)

lemma client_part_simps:
  "map_part = client_part 0" "partition_info (client_part n) = \<lparr>pi_table_name = ''db0'', pi_partition_id = 0\<rparr>"
  "vt_Do inc_vt c (client_part n) = Some (set_cmd_res (SetRes kOk) c, client_part (Suc n))"
  by (simp_all add: client_part_def partition_info_def map_part_def inc_vt_def)

lemma client_run:
  assumes "GetPartitionByDbName ''db0'' (nd_tables nd) = Some (Some (client_part n))"
    and "PartitionMap_slot \<lparr>pi_table_name = ''db0'', pi_partition_id = 0\<rparr> (nd_masters nd) = Some 0" and "nd_masters nd ! 0 = (p_info, Some st)"
    and "ProcessCommand E cf cn vt HintKeys0 c (client_part n) st w = Some (c', client_part m, st', w')"
  shows "run_on E cf cn vt HintKeys0 ''db0'' 0 (client_part n) c nd w
    = Some (c', nd\<lparr>nd_tables := put_partition ''db0'' 0 (client_part m) (nd_tables nd), nd_masters := (nd_masters nd)[0 := (p_info, Some st')]\<rparr>, w')"
  using assms(2-4) by (simp add: run_on_def client_part_simps PartitionMap_get_def PartitionMap_put_def)

lemma cmd_classic: "cf_classic_mode cmd_cf"
  by (simp add: cmd_cf_def)


end
