(* ===== verification/Pika_Admin.thy ===== *)
theory Pika_Admin
  imports Pika_Client_Conn Pika_Handshake Pika_Kv
begin

text \<open>
  Commands that administer the server, \<^verbatim>\<open>src/pika_admin.cc\<close>: authentication, choosing a master and a table, saving,
  compacting, purging and flushing, and the commands that only answer. One record holds the fields of all
  the classes; each command uses those its class declares. A command carries the connection of its client, and what it
  changes there is seen in that copy. \<open>None\<close> stands for an abort or an access out of range.
\<close>

section \<open>The fields of the commands\<close>

datatype SlowlogCondition = kGET | kLEN | kRESET

record AdminCmd = "PikaClientConn Cmd" +
  ac_is_noone :: bool
  ac_master_ip :: string
  ac_master_port :: int
  ac_db_name :: string
  ac_force_sync :: bool
  ac_have_offset :: bool
  ac_filenum :: int
  ac_offset :: int
  ac_pwd :: string
  ac_tables :: "string list"
  ac_struct_type :: string
  ac_num :: u32
  ac_table :: string
  ac_info :: string
  ac_operation :: string
  ac_args :: "string list"
  ac_body :: string
  ac_type :: DataType
  ac_pattern :: string
  ac_number :: int
  ac_condition :: SlowlogCondition

text \<open>What the functions take from elsewhere: the string functions of slash and the configuration.\<close>

record admin_env =
  ae_ll2string :: "int \<Rightarrow> string"
  ae_string2l :: "string \<Rightarrow> int option"
  ae_StringSplit :: "string \<Rightarrow> string list"
  ae_requirepass :: string
  ae_userpass :: string
  ae_classic_mode :: bool
  ae_databases :: int
  ae_default_table :: string
  ae_port :: int

definition argn :: "AdminCmd \<Rightarrow> int" where
  "argn c = int (length (cmd_argv c))"

definition bad_num :: "string \<Rightarrow> AdminCmd \<Rightarrow> AdminCmd" where
  "bad_num name c = set_cmd_res (SetRes_content kWrongNum name) c"

definition put_ret :: "CmdRet \<Rightarrow> AdminCmd \<Rightarrow> AdminCmd" where
  "put_ret ret c = set_cmd_res (SetRes ret) c"

definition put_text :: "CmdRet \<Rightarrow> string \<Rightarrow> AdminCmd \<Rightarrow> AdminCmd" where
  "put_text ret msg c = set_cmd_res (SetRes_content ret msg) c"

lemmas admin_res_simps = bad_num_def put_ret_def put_text_def refuse_def

text \<open>\<^verbatim>\<open>DoInitial\<close> of the commands that only check the number of their arguments.\<close>

definition plain_initial :: "string \<Rightarrow> AdminCmd \<Rightarrow> AdminCmd option" where
  "plain_initial name c = Some (if \<not> CheckArg (argn c) c then bad_num name c else c)"

definition alone_initial :: "string \<Rightarrow> AdminCmd \<Rightarrow> AdminCmd option" where
  "alone_initial name c = Some (if length (cmd_argv c) \<noteq> 1 then bad_num name c else c)"

section \<open>SLAVEOF\<close>

definition SlaveofCmd_Clear :: "AdminCmd \<Rightarrow> AdminCmd" where
  "SlaveofCmd_Clear c = c\<lparr>ac_is_noone := False, ac_master_ip := [], ac_master_port := 0\<rparr>"

definition SlaveofCmd_DoInitial :: "admin_env \<Rightarrow> AdminCmd \<Rightarrow> PikaServer \<Rightarrow> (AdminCmd \<times> PikaServer) option" where
  "SlaveofCmd_DoInitial e c ps =
     (if \<not> CheckArg (argn c) c then Some (bad_num ''slaveof'' c, ps)
      else if argn c > 4 then Some (bad_num ''slaveof'' c, ps)
      else case cmd_argv c of
             _ # ip # port # rest \<Rightarrow>
               if rest = [] \<and> same_word ip ''no'' \<and> same_word port ''one'' then Some (c\<lparr>ac_is_noone := True\<rparr>, ps)
               else if ps_role ps AND PIKA_ROLE_MASTER \<noteq> 0 then Some (refuse ''already master of others, invalid usage'' c, ps)
               else let c = c\<lparr>ac_master_ip := ip\<rparr>
                    in (case ae_string2l e port of
                          None \<Rightarrow> Some (put_ret kInvalidInt c, ps)
                        | Some n \<Rightarrow>
                            let c = c\<lparr>ac_master_port := n\<rparr>
                            in if n \<le> 0 then Some (put_ret kInvalidInt c, ps)
                               else if (ip = ''127.0.0.1'' \<or> ip = ps_host ps) \<and> n = ae_port e then Some (refuse ''you fucked up'' c, ps)
                               else (case rest of
                                       [] \<Rightarrow> Some (c, ps)
                                     | force # _ \<Rightarrow>
                                         if same_word force ''force'' then Some (c, ps\<lparr>ps_force_full_sync := True\<rparr>)
                                         else Some (bad_num ''slaveof'' c, ps)))
           | _ \<Rightarrow> None)"

text \<open>
  The second component is the text for \<^verbatim>\<open>SetSlaveof\<close> of the configuration, if it is called. \<^verbatim>\<open>SetMaster\<close> takes the port as
  \<^verbatim>\<open>int\<close> and the address by reference: for the loopback address the configuration gets that of the host.
\<close>

definition SlaveofCmd_Do ::
  "(string \<Rightarrow> int \<Rightarrow> 'x \<Rightarrow> 'x) \<Rightarrow> int \<Rightarrow> AdminCmd \<Rightarrow> ('c, 'n, 'h, 'd, 'x) slave_side
    \<Rightarrow> (AdminCmd \<times> string option \<times> ('c, 'n, 'h, 'd, 'x) slave_side) option" where
  "SlaveofCmd_Do disconnect now c sd =
     (let ps = sd_ps sd
      in if (ac_master_ip c = ''127.0.0.1'' \<or> ps_master_ip ps = ac_master_ip c) \<and> ps_master_port ps = ac_master_port c
         then Some (put_ret kOk c, None, sd)
         else case RemoveMaster disconnect now (sd_tables sd) ps (sd_rm sd) (sd_net sd) of
                None \<Rightarrow> None
              | Some (ps, rm, x) \<Rightarrow>
                  let sd = sd\<lparr>sd_ps := ps, sd_rm := rm, sd_net := x\<rparr>
                  in if ac_is_noone c then Some (put_ret kOk c, Some [], sd)
                     else case SetMaster (ac_master_ip c) (int32 (ac_master_port c)) ps of
                            (sm_ret, ps) \<Rightarrow>
                              let ip = (if ac_master_ip c = ''127.0.0.1'' then ps_host ps else ac_master_ip c); c = c\<lparr>ac_master_ip := ip\<rparr>
                              in if sm_ret
                                 then Some (put_ret kOk c, Some (ip @ '':'' @ dec_string (ac_master_port c)), sd\<lparr>sd_ps := ps\<lparr>ps_first_meta_sync := True\<rparr>\<rparr>)
                                 else Some (refuse ''Server is not in correct state for slaveof'' c, None, sd\<lparr>sd_ps := ps\<rparr>))"

section \<open>DBSLAVEOF\<close>

definition DbSlaveofCmd_Clear :: "AdminCmd \<Rightarrow> AdminCmd" where
  "DbSlaveofCmd_Clear c = c\<lparr>ac_db_name := [], ac_force_sync := False, ac_is_noone := False, ac_have_offset := False\<rparr>"

definition DbSlaveofCmd_DoInitial :: "admin_env \<Rightarrow> AdminCmd \<Rightarrow> PikaServer \<Rightarrow> 'p tables \<Rightarrow> AdminCmd option" where
  "DbSlaveofCmd_DoInitial e c ps tables =
     (if \<not> CheckArg (argn c) c then Some (bad_num ''dbslaveof'' c)
      else if \<not> ae_classic_mode e then Some (refuse ''DbSlaveof only support on classic mode'' c)
      else if ps_role ps XOR PIKA_ROLE_SLAVE \<noteq> 0 \<or> \<not> MetaSyncDone ps then Some (refuse ''Not currently a slave'' c)
      else if argn c > 4 then Some (bad_num ''dbslaveof'' c)
      else case cmd_argv c of
             _ # db_name # rest \<Rightarrow>
               (let c = c\<lparr>ac_db_name := db_name\<rparr>
                in case IsTableExist db_name tables of
                     None \<Rightarrow> None
                   | Some False \<Rightarrow> Some (refuse ''Invaild db name'' c)
                   | Some True \<Rightarrow>
                       (case rest of
                          [a] \<Rightarrow> Some (if same_word a ''force'' then c\<lparr>ac_force_sync := True\<rparr> else c)
                        | [a, b] \<Rightarrow>
                            if same_word a ''no'' \<and> same_word b ''one'' then Some (c\<lparr>ac_is_noone := True\<rparr>)
                            else (case ae_string2l e a of
                                    None \<Rightarrow> Some (put_ret kInvalidInt c)
                                  | Some i \<Rightarrow>
                                      let c = c\<lparr>ac_filenum := i\<rparr>
                                      in if i < 0 then Some (put_ret kInvalidInt c)
                                         else (case ae_string2l e b of
                                                 None \<Rightarrow> Some (put_ret kInvalidInt c)
                                               | Some j \<Rightarrow>
                                                   let c = c\<lparr>ac_offset := j\<rparr>
                                                   in if j < 0 then Some (put_ret kInvalidInt c) else Some (c\<lparr>ac_have_offset := True\<rparr>)))
                        | _ \<Rightarrow> Some c))
           | _ \<Rightarrow> None)"

text \<open>\<open>start_partition\<close> is the branch that moves the log and activates the partition.\<close>

definition start_partition ::
  "('w, 'e) slash_env \<Rightarrow> (string \<Rightarrow> int \<Rightarrow> Status + string) \<Rightarrow> u64 \<Rightarrow> AdminCmd \<Rightarrow> ('c, 'n, 'e, 'd, 'x) slave_side \<Rightarrow> 'w
    \<Rightarrow> (Status \<times> ('c, 'n, 'e, 'd, 'x) slave_side \<times> 'w) option" where
  "start_partition E select_local_ip now c sd w =
     (let p_info = \<lparr>pi_table_name = ac_db_name c, pi_partition_id = 0\<rparr>;
          activate = (\<lambda>sd. case ActivateSyncSlavePartition select_local_ip
                                  (RmNode_new (ps_master_ip (sd_ps sd)) (ps_master_port (sd_ps sd)) (ac_db_name c) 0 0)
                                  (if ac_force_sync c then kTryDBSync else kTryConnect) now (sd_rm sd) of
                             (s, rm) \<Rightarrow> (s, sd\<lparr>sd_rm := rm\<rparr>))
      in if ac_have_offset c
         then (case GetSyncMasterPartitionByName p_info (sd_rm sd) of
                 Some (Some sm) \<Rightarrow>
                   (let sl = cc_stable_logger (sm_coordinator sm)
                    in case Binlog_SetProducerStatus E (of_int (ac_filenum c)) (of_int (ac_offset c)) 0 0 (sl_stable_logger sl) w of
                         None \<Rightarrow> None
                       | Some (_, b, w) \<Rightarrow>
                           let sm = sm\<lparr>sm_coordinator := (sm_coordinator sm)\<lparr>cc_stable_logger := sl\<lparr>sl_stable_logger := b\<rparr>\<rparr>\<rparr>;
                               (s, sd) = activate (sd\<lparr>sd_rm := set_master p_info sm (sd_rm sd)\<rparr>)
                           in Some (s, sd, w))
               | _ \<Rightarrow> None)
         else (case activate sd of (s, sd) \<Rightarrow> Some (s, sd, w)))"

definition DbSlaveofCmd_Do ::
  "('w, 'e) slash_env \<Rightarrow> 'x client_net \<Rightarrow> ('c, 'n, 'e, 'w) repl_conf \<Rightarrow> (Status \<Rightarrow> string) \<Rightarrow> (string \<Rightarrow> int \<Rightarrow> Status + string) \<Rightarrow> AdminCmd
    \<Rightarrow> ('c, 'n, 'e, 'd, 'x) slave_side \<Rightarrow> 'w \<Rightarrow> (AdminCmd \<times> ('c, 'n, 'e, 'd, 'x) slave_side \<times> 'w) option" where
  "DbSlaveofCmd_Do E M rf to_string select_local_ip c sd w =
     (let p_info = \<lparr>pi_table_name = ac_db_name c, pi_partition_id = 0\<rparr>
      in case GetSyncSlavePartitionByName p_info (sd_rm sd) of
           None \<Rightarrow> Some (refuse ''Db not found'' c, sd, w)
         | Some ss \<Rightarrow>
             (case if ac_is_noone c then (case SendRemoveSlaveNodeRequest M rf p_info sd of (s, sd) \<Rightarrow> Some (s, sd, w))
                   else if ssp_repl_state ss = kNoConnect \<or> ssp_repl_state ss = kError \<or> ssp_repl_state ss = kDBNoConnect
                   then start_partition E select_local_ip (rf_now rf 0) c sd w
                   else Some (OK, sd, w) of
                None \<Rightarrow> None
              | Some (s, sd, w) \<Rightarrow> Some (if ok s then put_ret kOk c else refuse (to_string s) c, sd, w)))"

section \<open>AUTH, PING and SELECT\<close>

definition AuthCmd_DoInitial :: "AdminCmd \<Rightarrow> AdminCmd option" where
  "AuthCmd_DoInitial c =
     (if \<not> CheckArg (argn c) c then Some (bad_num ''auth'' c)
      else case cmd_argv c of _ # pwd # _ \<Rightarrow> Some (c\<lparr>ac_pwd := pwd\<rparr>) | _ \<Rightarrow> None)"

definition AuthCmd_Do :: "admin_env \<Rightarrow> AdminCmd \<Rightarrow> AdminCmd" where
  "AuthCmd_Do e c =
     (if ae_userpass e = [] \<and> ae_requirepass e = [] then refuse ''Client sent AUTH, but no password is set'' c
      else let c = (if ac_pwd c = ae_userpass e then put_text kOk ''USER'' c else c);
               c = (if ac_pwd c = ae_requirepass e then put_text kOk ''ROOT'' c else c)
           in if CmdRes_none (cmd_res c) then put_ret kInvalidPwd c
              else case cmd_conn c of
                     None \<Rightarrow> refuse ''ping'' c
                   | Some conn \<Rightarrow> c\<lparr>cmd_conn := Some (conn\<lparr>pc_auth_stat := snd (ChecknUpdate (cr_message (cmd_res c)) (pc_auth_stat conn))\<rparr>)\<rparr>)"

definition ConstructPinginPubSubResp :: "string list \<Rightarrow> string" where
  "ConstructPinginPubSubResp argv =
     (if length argv > 2 then ''-ERR wrong number of arguments for '' @ ''ping'' @ '' command'' @ kNewLine
      else ''*2'' @ kNewLine @ ''$4'' @ kNewLine @ ''pong'' @ kNewLine
           @ (if length argv = 2 then ''$'' @ dec_digits (length (argv ! 1)) @ kNewLine @ argv ! 1 @ kNewLine else ''$0'' @ kNewLine @ kNewLine))"

definition PingCmd_DoInitial :: "AdminCmd \<Rightarrow> AdminCmd option" where
  "PingCmd_DoInitial = plain_initial ''ping''"

definition PingCmd_Do :: "AdminCmd \<Rightarrow> AdminCmd" where
  "PingCmd_Do c =
     (case cmd_conn c of
        None \<Rightarrow> refuse ''ping'' c
      | Some conn \<Rightarrow> if pc_is_pubsub conn then put_text kNone (ConstructPinginPubSubResp (cmd_argv c)) c else put_ret kPong c)"

text \<open>\<^verbatim>\<open>atoi\<close> of the C library: blanks, a sign, digits; a \<^verbatim>\<open>long\<close> that saturates, cut down to an \<^verbatim>\<open>int\<close>.\<close>

definition atoi :: "string \<Rightarrow> int" where
  "atoi s =
     (let s = dropWhile (\<lambda>c. of_char c \<in> {9, 10, 11, 12, 13, 32 :: nat}) (c_str s);
          (neg, s) = (case s of [] \<Rightarrow> (False, []) | c # cs \<Rightarrow> if c = CHR ''-'' then (True, cs) else if c = CHR ''+'' then (False, cs) else (False, s));
          v = int (dec_val (takeWhile is_digit s))
      in int32 (max (- (2 ^ 63)) (min (2 ^ 63 - 1) (if neg then - v else v))))"

definition SelectCmd_DoInitial :: "admin_env \<Rightarrow> 'p tables \<Rightarrow> AdminCmd \<Rightarrow> AdminCmd option" where
  "SelectCmd_DoInitial e tables c =
     (if \<not> CheckArg (argn c) c then Some (bad_num ''select'' c)
      else case cmd_argv c of
             _ # arg # _ \<Rightarrow>
               (let index = atoi arg
                in if dec_string index \<noteq> arg then Some (put_text kInvalidIndex ''select'' c)
                   else if ae_classic_mode e \<and> (index < 0 \<or> index \<ge> ae_databases e)
                   then Some (put_text kInvalidIndex (''select'' @ '' DB index is out of range'') c)
                   else let c = c\<lparr>ac_table := ''db'' @ arg\<rparr>
                        in map_option (\<lambda>b. if b then c else put_text kInvalidTable ''select'' c) (IsTableExist (ac_table c) tables))
           | _ \<Rightarrow> None)"

definition SelectCmd_Do :: "AdminCmd \<Rightarrow> AdminCmd" where
  "SelectCmd_Do c =
     (case cmd_conn c of
        None \<Rightarrow> refuse ''select'' c
      | Some conn \<Rightarrow> put_ret kOk (c\<lparr>cmd_conn := Some (conn\<lparr>pc_current_table := ac_table c\<rparr>)\<rparr>))"

section \<open>Tasks on tables: BGSAVE and COMPACT\<close>

datatype TaskType = kCompactAll | kCompactStrings | kCompactHashes | kCompactSets | kCompactZSets | kCompactList | kResetReplState | kPurgeLog
  | kStartKeyScan | kStopKeyScan | kBgSave

text \<open>\<open>compact\<close> and \<open>stop_scan\<close> are functions of the database. An opened partition has one.\<close>

definition Partition_Compact :: "(DataType \<Rightarrow> 'd \<Rightarrow> 'd) \<Rightarrow> DataType \<Rightarrow> 'd Partition \<Rightarrow> 'd Partition" where
  "Partition_Compact compact type p = (if \<not> pt_opened p then p else p\<lparr>pt_db := map_option (compact type) (pt_db p)\<rparr>)"

definition table_task ::
  "(DataType \<Rightarrow> 'd \<Rightarrow> 'd) \<Rightarrow> ('d Partition \<Rightarrow> 'd Partition) \<Rightarrow> TaskType \<Rightarrow> 'd Partition Table \<Rightarrow> 'd Partition Table option" where
  "table_task compact stop_scan type t =
     (case type of
        kCompactAll \<Rightarrow> CompactTable (Partition_Compact compact kAll) t
      | kCompactStrings \<Rightarrow> CompactTable (Partition_Compact compact kStrings) t
      | kCompactHashes \<Rightarrow> CompactTable (Partition_Compact compact kHashes) t
      | kCompactSets \<Rightarrow> CompactTable (Partition_Compact compact kSets) t
      | kCompactZSets \<Rightarrow> CompactTable (Partition_Compact compact kZSets) t
      | kCompactList \<Rightarrow> CompactTable (Partition_Compact compact kLists) t
      | kStartKeyScan \<Rightarrow> Some (KeyScan t)
      | kStopKeyScan \<Rightarrow> StopKeyScan stop_scan t
      | kBgSave \<Rightarrow> BgSaveTable (snd \<circ> BgSavePartition) t
      | _ \<Rightarrow> Some t)"

primrec DoSameThingSpecificTable ::
  "('d Partition Table \<Rightarrow> 'd Partition Table option) \<Rightarrow> string list \<Rightarrow> 'd Partition tables \<Rightarrow> 'd Partition tables option" where
  "DoSameThingSpecificTable task names [] = Some []"
| "DoSameThingSpecificTable task names (item # items) =
     (case snd item of
        None \<Rightarrow> map_option (Cons item) (DoSameThingSpecificTable task names items)
      | Some t \<Rightarrow>
          if names \<noteq> [] \<and> fst item \<notin> set names then map_option (Cons item) (DoSameThingSpecificTable task names items)
          else (case task t of
                  None \<Rightarrow> None
                | Some t \<Rightarrow> map_option (Cons (fst item, Some t)) (DoSameThingSpecificTable task names items)))"

text \<open>The loop over the names of tables in an argument. \<open>False\<close> is the return at a table that does not exist.\<close>

primrec check_tables :: "string list \<Rightarrow> 'p tables \<Rightarrow> AdminCmd \<Rightarrow> (bool \<times> AdminCmd) option" where
  "check_tables [] tables c = Some (True, c)"
| "check_tables (name # names) tables c =
     (case IsTableExist name tables of
        None \<Rightarrow> None
      | Some False \<Rightarrow> Some (False, put_text kInvalidTable name c)
      | Some True \<Rightarrow> check_tables names tables (c\<lparr>ac_tables := List.insert name (ac_tables c)\<rparr>))"

definition BgsaveCmd_DoInitial :: "admin_env \<Rightarrow> 'p tables \<Rightarrow> AdminCmd \<Rightarrow> AdminCmd option" where
  "BgsaveCmd_DoInitial e tables c =
     (if \<not> CheckArg (argn c) c then Some (bad_num ''bgsave'' c)
      else case cmd_argv c of
             [_, names] \<Rightarrow> map_option snd (check_tables (ae_StringSplit e names) tables c)
           | _ \<Rightarrow> Some c)"

definition BgsaveCmd_Do :: "AdminCmd \<Rightarrow> 'd Partition tables \<Rightarrow> (AdminCmd \<times> 'd Partition tables) option" where
  "BgsaveCmd_Do c tables =
     map_option (Pair (set_cmd_res (AppendContent ''+Background saving started'') c))
       (DoSameThingSpecificTable (table_task (\<lambda>_. id) id kBgSave) (ac_tables c) tables)"

definition CompactCmd_DoInitial :: "admin_env \<Rightarrow> 'p tables \<Rightarrow> AdminCmd \<Rightarrow> AdminCmd option" where
  "CompactCmd_DoInitial e tables c =
     (if \<not> CheckArg (argn c) c \<or> argn c > 3 then Some (bad_num ''compact'' c)
      else if Server_IsKeyScaning tables then Some (refuse ''The info keyspace operation is executing, Try again later'' c)
      else case cmd_argv c of
             [_] \<Rightarrow> Some (c\<lparr>ac_struct_type := ''all''\<rparr>)
           | [_, type] \<Rightarrow> Some (c\<lparr>ac_struct_type := type\<rparr>)
           | [_, names, type] \<Rightarrow>
               map_option (\<lambda>(ok, c). if ok then c\<lparr>ac_struct_type := type\<rparr> else c) (check_tables (ae_StringSplit e names) tables c)
           | _ \<Rightarrow> Some c)"

definition compact_task :: "string \<Rightarrow> TaskType option" where
  "compact_task type =
     (if same_word type ''all'' then Some kCompactAll else if same_word type ''string'' then Some kCompactStrings
      else if same_word type ''hash'' then Some kCompactHashes else if same_word type ''set'' then Some kCompactSets
      else if same_word type ''zset'' then Some kCompactZSets else if same_word type ''list'' then Some kCompactList else None)"

definition CompactCmd_Do ::
  "(DataType \<Rightarrow> 'd \<Rightarrow> 'd) \<Rightarrow> AdminCmd \<Rightarrow> 'd Partition tables \<Rightarrow> (AdminCmd \<times> 'd Partition tables) option" where
  "CompactCmd_Do compact c tables =
     (case compact_task (ac_struct_type c) of
        None \<Rightarrow> Some (put_text kInvalidDbType (ac_struct_type c) c, tables)
      | Some task \<Rightarrow> map_option (Pair (put_ret kOk c)) (DoSameThingSpecificTable (table_task compact id task) (ac_tables c) tables))"

section \<open>PURGELOGSTO\<close>

definition kBinlogPrefixLen :: nat where "kBinlogPrefixLen = 10"

definition PurgelogstoCmd_DoInitial :: "admin_env \<Rightarrow> 'p tables \<Rightarrow> AdminCmd \<Rightarrow> AdminCmd option" where
  "PurgelogstoCmd_DoInitial e tables c =
     (if \<not> CheckArg (argn c) c \<or> argn c > 3 then Some (bad_num ''purgelogsto'' c)
      else case cmd_argv c of
             _ # filename # rest \<Rightarrow>
               if length filename \<le> kBinlogPrefixLen \<or> kBinlogPrefix \<noteq> take kBinlogPrefixLen filename then Some (put_ret kInvalidParameter c)
               else (case ae_string2l e (drop kBinlogPrefixLen filename) of
                       None \<Rightarrow> Some (put_ret kInvalidParameter c)
                     | Some num \<Rightarrow>
                         if num < 0 then Some (put_ret kInvalidParameter c)
                         else let c = c\<lparr>ac_num := of_int num, ac_table := (case rest of [t] \<Rightarrow> t | _ \<Rightarrow> ae_default_table e)\<rparr>
                              in map_option (\<lambda>b. if b then c else put_text kInvalidTable (ac_table c) c) (IsTableExist (ac_table c) tables))
           | _ \<Rightarrow> None)"

text \<open>The last component is the purge that is scheduled: the number it purges to, by hand.\<close>

definition PurgelogstoCmd_Do ::
  "AdminCmd \<Rightarrow> ('c, 'n, 'h) PikaReplicaManager \<Rightarrow> (AdminCmd \<times> ('c, 'n, 'h) PikaReplicaManager \<times> (u32 \<times> bool) option) option" where
  "PurgelogstoCmd_Do c rm =
     (let p_info = \<lparr>pi_table_name = ac_table c, pi_partition_id = 0\<rparr>
      in case GetSyncMasterPartitionByName p_info rm of
           None \<Rightarrow> None
         | Some None \<Rightarrow> Some (refuse ''Partition not found'' c, rm, None)
         | Some (Some sm) \<Rightarrow>
             (case PurgeStableLogs (cc_stable_logger (sm_coordinator sm)) of
                (scheduled, sl) \<Rightarrow>
                  Some (put_ret kOk c, set_master p_info (sm\<lparr>sm_coordinator := (sm_coordinator sm)\<lparr>cc_stable_logger := sl\<rparr>\<rparr>) rm,
                        if scheduled then Some (ac_num c, True) else None)))"

section \<open>FLUSHALL and FLUSHDB\<close>

text \<open>
  \<^verbatim>\<open>Partition::FlushDB\<close>. \<open>dirs\<close> are the directories of a database, \<open>remake\<close> removes and creates one of them, and \<open>tmp\<close> is
  the part of the name that \<^verbatim>\<open>tmpnam\<close> gives.
\<close>

definition FlushDB ::
  "('w, 'd) partition_env \<Rightarrow> ('d \<Rightarrow> string list) \<Rightarrow> (string \<Rightarrow> 'w \<Rightarrow> 'w) \<Rightarrow> string \<Rightarrow> 'd Partition \<Rightarrow> 'w \<Rightarrow> (bool \<times> 'd Partition \<times> 'w) option" where
  "FlushDB X dirs remake tmp p w =
     (if bs_bgsaving (pt_bgsave_info p) then Some (False, p, w)
      else case pt_db p of
             None \<Rightarrow> None
           | Some d \<Rightarrow>
               let old_dbpath = rev (dropWhile (\<lambda>ch. ch = CHR ''/'') (rev (pt_db_path p)))
               in if old_dbpath = [] then None
                  else let w = fold (\<lambda>dir w. if take (length old_dbpath) dir = old_dbpath then w else remake dir w) (dirs d) w;
                           dbpath = old_dbpath @ ''_deleting-'' @ tmp;
                           w = snd (px_Rename X (pt_db_path p) dbpath w)
                       in (case px_Open X (pt_db_path p) w of
                             None \<Rightarrow> None
                           | Some (db, w) \<Rightarrow> Some (True, p\<lparr>pt_db := Some db\<rparr>, px_PurgeDir X dbpath w)))"

definition FlushallCmd_DoInitial :: "AdminCmd \<Rightarrow> AdminCmd option" where
  "FlushallCmd_DoInitial = plain_initial ''flushall''"

definition FlushallCmd_Do ::
  "('w, 'd) partition_env \<Rightarrow> ('d \<Rightarrow> string list) \<Rightarrow> (string \<Rightarrow> 'w \<Rightarrow> 'w) \<Rightarrow> string \<Rightarrow> AdminCmd \<Rightarrow> 'd Partition option \<Rightarrow> 'w
    \<Rightarrow> (AdminCmd \<times> 'd Partition option \<times> 'w) option" where
  "FlushallCmd_Do X dirs remake tmp c p w =
     (case p of
        None \<Rightarrow> Some (c, None, w)
      | Some p \<Rightarrow> map_option (\<lambda>(_, p, w). (c, Some p, w)) (FlushDB X dirs remake tmp p w))"

definition FlushallCmd_ToBinlog ::
  "slash_coding \<Rightarrow> (int \<Rightarrow> string) \<Rightarrow> u32 \<Rightarrow> u32 \<Rightarrow> u64 \<Rightarrow> u32 \<Rightarrow> u64 \<Rightarrow> AdminCmd \<Rightarrow> bytes" where
  "FlushallCmd_ToBinlog C ll2string exec_time term_id logic_id filenum offset c =
     BinlogEncode C TypeFirst exec_time term_id logic_id filenum offset
       (append_arg ll2string ''flushdb'' (RedisAppendLen ll2string [] 1 ''*'')) []"

definition FlushdbCmd_DoInitial :: "AdminCmd \<Rightarrow> AdminCmd option" where
  "FlushdbCmd_DoInitial c =
     (if \<not> CheckArg (argn c) c then Some (bad_num ''flushdb'' c)
      else case cmd_argv c of
             [_] \<Rightarrow> Some (c\<lparr>ac_db_name := ''all''\<rparr>)
           | _ # struct_type # _ \<Rightarrow>
               Some (if same_word struct_type ''string'' then c\<lparr>ac_db_name := ''strings''\<rparr>
                     else if same_word struct_type ''hash'' then c\<lparr>ac_db_name := ''hashes''\<rparr>
                     else if same_word struct_type ''set'' then c\<lparr>ac_db_name := ''sets''\<rparr>
                     else if same_word struct_type ''zset'' then c\<lparr>ac_db_name := ''zsets''\<rparr>
                     else if same_word struct_type ''list'' then c\<lparr>ac_db_name := ''lists''\<rparr>
                     else put_ret kInvalidDbType c)
           | [] \<Rightarrow> None)"

definition FlushdbCmd_Do ::
  "('w, 'd) partition_env \<Rightarrow> ('d \<Rightarrow> string list) \<Rightarrow> (string \<Rightarrow> 'w \<Rightarrow> 'w) \<Rightarrow> string \<Rightarrow> AdminCmd \<Rightarrow> 'd Partition option \<Rightarrow> 'w
    \<Rightarrow> (AdminCmd \<times> 'd Partition option \<times> 'w) option" where
  "FlushdbCmd_Do X dirs remake tmp c p w =
     (case p of
        None \<Rightarrow> Some (c, None, w)
      | Some p \<Rightarrow>
          map_option (\<lambda>(_, p, w). (c, Some p, w))
            (if ac_db_name c = ''all'' then FlushDB X dirs remake tmp p w else FlushSubDB X (ac_db_name c) p w))"

section \<open>Authentication\<close>

lemma AuthCmd_Do_conn:
  assumes "CmdRes_none (cmd_res c)" and "cmd_conn c = Some conn"
  shows "cmd_conn (AuthCmd_Do e c) = Some (conn\<lparr>pc_auth_stat :=
      (if ae_userpass e = [] \<and> ae_requirepass e = [] then pc_auth_stat conn
       else if ac_pwd c = ae_requirepass e then kAdminAuthed else if ac_pwd c = ae_userpass e then kLimitAuthed else pc_auth_stat conn)\<rparr>)"
  using assms
  by (auto simp: AuthCmd_Do_def Let_def admin_res_simps set_cmd_res_def SetRes_def SetRes_content_def CmdRes_none_def ChecknUpdate_def)

text \<open>What a client has been granted after it sent AUTH with some passwords, one after the other; \<open>c0\<close> is the command as created.\<close>

definition try_auth :: "admin_env \<Rightarrow> AdminCmd \<Rightarrow> string \<Rightarrow> PikaClientConn \<Rightarrow> PikaClientConn option" where
  "try_auth e c0 pwd conn =
     (case AuthCmd_DoInitial (c0\<lparr>cmd_argv := [''auth'', pwd], cmd_conn := Some conn\<rparr>) of None \<Rightarrow> None | Some c \<Rightarrow> cmd_conn (AuthCmd_Do e c))"

primrec auth_session :: "admin_env \<Rightarrow> AdminCmd \<Rightarrow> string list \<Rightarrow> PikaClientConn \<Rightarrow> PikaClientConn option" where
  "auth_session e c0 [] conn = Some conn"
| "auth_session e c0 (pwd # pwds) conn = (case try_auth e c0 pwd conn of None \<Rightarrow> None | Some conn \<Rightarrow> auth_session e c0 pwds conn)"

definition known_pwds :: "admin_env \<Rightarrow> string list \<Rightarrow> string list" where
  "known_pwds e pwds = filter (\<lambda>p. p = ae_requirepass e \<or> p = ae_userpass e) pwds"

definition granted :: "admin_env \<Rightarrow> string list \<Rightarrow> StatType \<Rightarrow> StatType" where
  "granted e pwds stat =
     (if (ae_userpass e = [] \<and> ae_requirepass e = []) \<or> known_pwds e pwds = [] then stat
      else if last (known_pwds e pwds) = ae_requirepass e then kAdminAuthed else kLimitAuthed)"

lemma known_pwds_simps [simp]:
  "known_pwds e [] = []"
  "known_pwds e (pwd # pwds) = (if pwd = ae_requirepass e \<or> pwd = ae_userpass e then pwd # known_pwds e pwds else known_pwds e pwds)"
  by (simp_all add: known_pwds_def)

lemma auth_session_granted:
  assumes "cmd_arity c0 = 2" and "CmdRes_none (cmd_res c0)"
  shows "auth_session e c0 pwds conn = Some (conn\<lparr>pc_auth_stat := granted e pwds (pc_auth_stat conn)\<rparr>)"
proof (induction pwds arbitrary: conn)
  case Nil
  show ?case by (simp add: granted_def)
next
  case (Cons pwd pwds)
  let ?c = "c0\<lparr>cmd_argv := [''auth'', pwd], cmd_conn := Some conn\<rparr>"
  have "AuthCmd_DoInitial ?c = Some (?c\<lparr>ac_pwd := pwd\<rparr>)" using assms by (simp add: AuthCmd_DoInitial_def CheckArg_def argn_def)
  then have "try_auth e c0 pwd conn = Some (conn\<lparr>pc_auth_stat := granted e [pwd] (pc_auth_stat conn)\<rparr>)"
    using AuthCmd_Do_conn [of "?c\<lparr>ac_pwd := pwd\<rparr>" conn e] assms by (simp add: try_auth_def granted_def)
  moreover have "granted e pwds (granted e [pwd] stat) = granted e (pwd # pwds) stat" for stat
    by (cases "known_pwds e pwds = []") (simp_all add: granted_def)
  ultimately show ?case using Cons.IH by simp
qed

text \<open>
  C12: What a client may do depends on the passwords it has sent and on nothing else: on a server with a
  password, after any sequence of attempts it has the rights of the last password that was right, and those of a
  new connection if none was. It has all rights only if it sent the password of the administrator or if the server asks
  for none.
\<close>

theorem privileges_need_password:
  assumes "cmd_arity c0 = 2" and "CmdRes_none (cmd_res c0)" and "conn = PikaClientConn_new db (ae_userpass e) (ae_requirepass e) indet"
  shows "\<exists>conn'. auth_session e c0 pwds conn = Some conn'
    \<and> pc_auth_stat conn' = granted e pwds (AuthStat_Init (ae_userpass e) (ae_requirepass e))
    \<and> (pc_auth_stat conn' = kAdminAuthed \<longrightarrow> ae_requirepass e \<in> set pwds \<or> (ae_userpass e = [] \<and> ae_requirepass e = []))
    \<and> (pc_auth_stat conn' \<noteq> kNoAuthed \<longrightarrow> known_pwds e pwds \<noteq> [] \<or> ae_userpass e = [])"
proof -
  have init: "pc_auth_stat conn = AuthStat_Init (ae_userpass e) (ae_requirepass e)" by (simp add: assms(3) PikaClientConn_new_def)
  have "known_pwds e pwds \<noteq> [] \<Longrightarrow> last (known_pwds e pwds) \<in> set pwds"
    using last_in_set [of "known_pwds e pwds"] by (auto simp: known_pwds_def)
  then have "granted e pwds (AuthStat_Init (ae_userpass e) (ae_requirepass e)) = kAdminAuthed
      \<Longrightarrow> ae_requirepass e \<in> set pwds \<or> (ae_userpass e = [] \<and> ae_requirepass e = [])"
    by (auto simp: granted_def AuthStat_Init_def Let_def split: if_splits)
  moreover have "granted e pwds (AuthStat_Init (ae_userpass e) (ae_requirepass e)) \<noteq> kNoAuthed \<Longrightarrow> known_pwds e pwds \<noteq> [] \<or> ae_userpass e = []"
    by (auto simp: granted_def AuthStat_Init_def Let_def split: if_splits)
  ultimately show ?thesis using auth_session_granted [OF assms(1,2)] init by simp
qed

section \<open>Becoming a slave\<close>

lemma reset_slaves_ok:
  assumes "\<forall>p\<in>set infos. GetSyncSlavePartitionByName p rm \<noteq> None"
  shows "\<exists>rm'. reset_slaves infos rm = Some rm'
    \<and> (\<forall>p. GetSyncSlavePartitionByName p rm' = (if p \<in> set infos then map_option (SetReplState kNoConnect) (GetSyncSlavePartitionByName p rm)
                                               else GetSyncSlavePartitionByName p rm))"
  using assms
proof (induction infos arbitrary: rm)
  case (Cons p infos)
  then obtain ss where ss: "GetSyncSlavePartitionByName p rm = Some ss" by auto
  have idem: "SetReplState kNoConnect (SetReplState kNoConnect s) = SetReplState kNoConnect s" for s
    by (simp add: SetReplState_def Deactivate_def)
  have "\<forall>q\<in>set infos. GetSyncSlavePartitionByName q (set_slave_partition p (SetReplState kNoConnect ss) rm) \<noteq> None" using Cons.prems by auto
  from Cons.IH [OF this] show ?case using ss idem by auto
qed simp

lemma LostConnection_slaves: "GetSyncSlavePartitionByName p (LostConnection ip port rm) \<noteq> None \<longleftrightarrow> GetSyncSlavePartitionByName p rm \<noteq> None"
proof -
  have "map_of (map (\<lambda>(p, s). (p, f s)) xs) p = None \<longleftrightarrow> map_of xs p = None" for xs :: "(PartitionInfo \<times> SyncSlavePartition) list" and f
    by (induction xs) auto
  moreover have "rm_sync_slave_partitions (on_masters f rm) = rm_sync_slave_partitions rm" for f by (simp add: on_masters_def)
  ultimately show ?thesis unfolding LostConnection_def GetSyncSlavePartitionByName_def Let_def by (simp del: not_None_eq)
qed

text \<open>Every partition is there and is not connected.\<close>

definition slaves_idle :: "PartitionInfo list \<Rightarrow> ('c, 'n, 'h) PikaReplicaManager \<Rightarrow> bool" where
  "slaves_idle infos rm \<longleftrightarrow> (\<forall>p\<in>set infos. \<exists>ss. GetSyncSlavePartitionByName p rm = Some ss \<and> ssp_repl_state ss = kNoConnect)"

lemma RemoveMaster_idle:
  assumes "table_infos tables = Some infos" and "\<forall>p\<in>set infos. GetSyncSlavePartitionByName p rm \<noteq> None"
  obtains ps' rm' x' where "RemoveMaster disconnect now tables ps rm x = Some (ps', rm', x')" and "slaves_idle infos rm'"
    and "ps_repl_state ps' = PIKA_REPL_NO_CONNECT" and "ps_role ps' = clear_role PIKA_ROLE_SLAVE (ps_role ps)"
    and "ps_force_full_sync ps' = ps_force_full_sync ps" and "ps_host ps' = ps_host ps"
proof -
  let ?rm = "if ps_master_ip ps \<noteq> [] \<and> ps_master_port ps \<noteq> - 1 then LostConnection (ps_master_ip ps) (ps_master_port ps) rm else rm"
  have "\<forall>p\<in>set infos. GetSyncSlavePartitionByName p ?rm \<noteq> None" using assms(2) by (simp add: LostConnection_slaves del: not_None_eq)
  from reset_slaves_ok [OF this] obtain rm' where r: "reset_slaves infos ?rm = Some rm'"
    "\<forall>p\<in>set infos. GetSyncSlavePartitionByName p rm' = map_option (SetReplState kNoConnect) (GetSyncSlavePartitionByName p ?rm)" by auto
  have "slaves_idle infos rm'"
    using r(2) \<open>\<forall>p\<in>set infos. GetSyncSlavePartitionByName p ?rm \<noteq> None\<close> by (fastforce simp: slaves_idle_def SetReplState_def Deactivate_def)
  moreover obtain ps' x' where "RemoveMaster disconnect now tables ps rm x = Some (ps', rm', x')" "ps_repl_state ps' = PIKA_REPL_NO_CONNECT"
    "ps_role ps' = clear_role PIKA_ROLE_SLAVE (ps_role ps)" "ps_force_full_sync ps' = ps_force_full_sync ps" "ps_host ps' = ps_host ps"
    using r(1) assms(1) by (cases "ps_master_ip ps \<noteq> [] \<and> ps_master_port ps \<noteq> - 1") (simp_all add: RemoveMaster_def ResetReplStates_def Let_def)
  ultimately show thesis using that by blast
qed

definition tries :: "string \<Rightarrow> int \<Rightarrow> ReplState \<Rightarrow> SyncSlavePartition \<Rightarrow> bool" where
  "tries ip port state ss \<longleftrightarrow> ssp_repl_state ss = state \<and> rn_ip (ssp_m_info ss) = ip \<and> rn_port (ssp_m_info ss) = port"

definition trying :: "string \<Rightarrow> int \<Rightarrow> ReplState \<Rightarrow> ('c, 'n, 'h) PikaReplicaManager \<Rightarrow> PartitionInfo \<Rightarrow> bool" where
  "trying ip port state rm p \<longleftrightarrow> (\<exists>ss. GetSyncSlavePartitionByName p rm = Some ss \<and> tries ip port state ss)"

definition can_try :: "string \<Rightarrow> int \<Rightarrow> ReplState \<Rightarrow> ('c, 'n, 'h) PikaReplicaManager \<Rightarrow> PartitionInfo \<Rightarrow> bool" where
  "can_try ip port state rm p \<longleftrightarrow> (\<exists>ss. GetSyncSlavePartitionByName p rm = Some ss \<and> (ssp_repl_state ss = kNoConnect \<or> tries ip port state ss))"

definition activate ::
  "(string \<Rightarrow> int \<Rightarrow> Status + string) \<Rightarrow> string \<Rightarrow> int \<Rightarrow> ReplState \<Rightarrow> u64 \<Rightarrow> PartitionInfo \<Rightarrow> ('c, 'n, 'h) PikaReplicaManager \<Rightarrow> ('c, 'n, 'h) PikaReplicaManager" where
  "activate select_local_ip ip port state now p rm =
     snd (ActivateSyncSlavePartition select_local_ip (RmNode_new ip port (pi_table_name p) (pi_partition_id p) 0) state now rm)"

lemma activate_trying:
  assumes "select_local_ip ip port = Inr local_ip"
  shows "can_try ip port state rm p \<Longrightarrow> trying ip port state (activate select_local_ip ip port state now p rm) p"
    and "can_try ip port state rm q \<Longrightarrow> can_try ip port state (activate select_local_ip ip port state now p rm) q"
    and "trying ip port state rm q \<Longrightarrow> trying ip port state (activate select_local_ip ip port state now p rm) q"
  using assms
  by (auto simp: trying_def can_try_def activate_def ActivateSyncSlavePartition_def RmNode_new_def Activate_def tries_def Let_def split: option.split)

lemma activate_keeps:
  assumes "select_local_ip ip port = Inr local_ip" and "trying ip port state rm p"
  shows "trying ip port state (fold (activate select_local_ip ip port state now) infos rm) p"
  using assms(2) by (induction infos arbitrary: rm) (simp_all add: activate_trying [where select_local_ip = select_local_ip, OF assms(1)])

lemma activate_all:
  assumes "select_local_ip ip port = Inr local_ip" and "\<forall>p\<in>set infos. can_try ip port state rm p" and "p \<in> set infos"
  shows "trying ip port state (fold (activate select_local_ip ip port state now) infos rm) p"
  using assms(2,3)
proof (induction infos arbitrary: rm)
  case (Cons q infos)
  let ?rm = "activate select_local_ip ip port state now q rm"
  have "\<forall>r\<in>set infos. can_try ip port state ?rm r" "trying ip port state ?rm q"
    using Cons.prems(1) by (simp_all add: activate_trying [where select_local_ip = select_local_ip, OF assms(1)])
  with Cons show ?case by (auto simp: activate_keeps [where select_local_ip = select_local_ip, OF assms(1)])
qed simp

text \<open>The answer of a master to a meta sync that fits this server.\<close>

definition meta_agrees :: "('c, 'n, 'h, 'w) repl_conf \<Rightarrow> InnerResponse \<Rightarrow> bool" where
  "meta_agrees rf response \<longleftrightarrow> ir_code response = kCodeOk
     \<and> (case ir_meta_sync response of
          None \<Rightarrow> False
        | Some m \<Rightarrow> mr_classic_mode m = cf_classic_mode (rf_coord rf)
            \<and> IsTableStructConsistent (rf_table_structs rf)
                (map (\<lambda>(name, num). \<lparr>ts_table_name = name, ts_partition_num = ucast num, ts_partition_ids = [0]\<rparr>) (mr_tables_info m)))"

lemma clear_slave_role: "clear_role PIKA_ROLE_SLAVE r XOR PIKA_ROLE_SLAVE \<noteq> 0"
proof
  assume "clear_role PIKA_ROLE_SLAVE r XOR PIKA_ROLE_SLAVE = 0"
  then have "bit (clear_role PIKA_ROLE_SLAVE r XOR PIKA_ROLE_SLAVE) 0 = bit (0 :: nat) 0" by simp
  then show False by (simp add: role_simps bit_simps bit_0 minus_mod_eq_mult_div even_xor_iff)
qed


section \<open>Flushing\<close>

lemma flush_saving:
  assumes "bs_bgsaving (pt_bgsave_info p)"
  shows "FlushDB X dirs remake tmp p w = Some (False, p, w)" and "FlushSubDB X db_name p w = Some (False, p, w)"
    and "FlushdbCmd_Do X dirs remake tmp c (Some p) w = Some (c, Some p, w)" and "FlushallCmd_Do X dirs remake tmp c (Some p) w = Some (c, Some p, w)"
  using assms by (auto simp: FlushDB_def FlushSubDB_def FlushdbCmd_Do_def FlushallCmd_Do_def)

text \<open>\<open>flush_do\<close> is \<^verbatim>\<open>Do\<close> of the two commands as a command is executed on a partition; the directories are those of \<open>dw\<close>.\<close>

definition flush_do ::
  "bool \<Rightarrow> ('v, 'd) partition_env \<Rightarrow> ('d \<Rightarrow> string list) \<Rightarrow> (string \<Rightarrow> 'v \<Rightarrow> 'v) \<Rightarrow> string \<Rightarrow> 'v \<Rightarrow> AdminCmd \<Rightarrow> 'd Partition \<Rightarrow> (AdminCmd \<times> 'd Partition) option" where
  "flush_do all X dirs remake tmp dw c p =
     (case (if all then FlushallCmd_Do X dirs remake tmp c (Some p) dw else FlushdbCmd_Do X dirs remake tmp c (Some p) dw) of
        Some (c, Some p, _) \<Rightarrow> Some (c, p)
      | _ \<Rightarrow> None)"

text \<open>
  C31: While a partition is being saved FLUSHDB and FLUSHALL leave its database as it is, and no error is reported: the
  command succeeds and its item is appended to the binlog. A slave that replays the log loses data that its master
  still has.
\<close>

theorem flush_during_save_only_logged:
  assumes "binlog_ok E fs (cc_binlog st) w" and "bs_bgsaving (pt_bgsave_info p)" and "vt_Do vt = flush_do all X dirs remake tmp dw"
    and "CmdRes_ok (cmd_res c)" and "is_write c" and "cmd_conn c = Some conn" and "cmd_resp c" and "cn_write_binlog cn"
    and "ProposeLog E cf c (Some conn) st w = Some (OK, st', w')"
  shows "InternalProcessCommand E cf cn vt HintKeys0 c p st w = Some (c, p, st', w')
    \<and> Binlog_Put E (item_binlog cf c (propose_item E (cc_binlog st) w)) (cc_binlog st) w = Some (OK, cc_binlog st', w')"
proof -
  have "vt_Do vt c p = Some (c, p)" using assms(2,3) by (simp add: flush_do_def flush_saving)
  then have "InternalProcessCommand E cf cn vt HintKeys0 c p st w = map_option (\<lambda>(c, st, w). (c, p, st, w)) (DoBinlog E cf cn c st w)"
    by (simp add: InternalProcessCommand_def DoCommand_def HintKeys0_def HintKeys_empty_def)
  also have "\<dots> = Some (c, p, st', w')" using assms(4-9) by (simp add: DoBinlog_def)
  finally show ?thesis using ProposeLog_put [OF assms(1,9)] by simp
qed

section \<open>Tables\<close>

lemma select_exists:
  assumes "SelectCmd_DoInitial e tables c = Some c'" and "CmdRes_ok (cmd_res c')" and "cmd_conn c' = Some conn" and "CheckArg (argn c) c"
  shows "\<exists>conn'. cmd_conn (SelectCmd_Do c') = Some conn' \<and> IsTableExist (pc_current_table conn') tables = Some True"
  using assms
  by (auto simp: SelectCmd_DoInitial_def SelectCmd_Do_def admin_res_simps set_cmd_res_def SetRes_def SetRes_content_def CmdRes_ok_def Let_def
      split: list.splits if_splits option.splits)

lemma each_table_all:
  assumes "DoSameThingSpecificTable task names tables = Some tables'" and "(name, Some t) \<in> set tables" and "names = [] \<or> name \<in> set names"
  shows "\<exists>t'. task t = Some t' \<and> (name, Some t') \<in> set tables'"
  using assms by (induction tables arbitrary: tables') (auto split: option.splits if_splits)

lemma each_table_others:
  assumes "DoSameThingSpecificTable task names tables = Some tables'" and "names \<noteq> []" and "name \<notin> set names"
  shows "(name, t) \<in> set tables' \<longleftrightarrow> (name, t) \<in> set tables"
  using assms by (induction tables arbitrary: tables') (auto split: option.splits if_splits)

lemma each_partition_map: "each_partition f slots = Some slots' \<Longrightarrow> slots' = map (\<lambda>(i, p). (i, map_option f p)) slots \<and> (\<forall>s\<in>set slots. snd s \<noteq> None)"
  by (induction slots arbitrary: slots') (auto split: option.splits)

text \<open>
  BGSAVE marks every partition of the tables it names, or of all tables, as being saved; the tables that it
  does not name stay as they are.
\<close>

lemma bgsave_marks:
  assumes "BgsaveCmd_Do c tables = Some (c', tables')" and "(name, Some t) \<in> set tables"
  shows "if ac_tables c = [] \<or> name \<in> set (ac_tables c)
    then \<exists>t'. (name, Some t') \<in> set tables' \<and> map fst (tb_partitions t') = map fst (tb_partitions t)
           \<and> (\<forall>(i, p)\<in>set (tb_partitions t'). \<exists>q. p = Some q \<and> bs_bgsaving (pt_bgsave_info q))
    else (name, Some t) \<in> set tables'"
proof -
  have s: "DoSameThingSpecificTable (table_task (\<lambda>_. id) id kBgSave) (ac_tables c) tables = Some tables'"
    using assms(1) by (auto simp: BgsaveCmd_Do_def)
  show ?thesis
  proof (cases "ac_tables c = [] \<or> name \<in> set (ac_tables c)")
    case True
    from each_table_all [OF s assms(2) True] obtain t' where t': "BgSaveTable (snd \<circ> BgSavePartition) t = Some t'" "(name, Some t') \<in> set tables'"
      by (auto simp: table_task_def)
    then obtain ps where ps: "each_partition (snd \<circ> BgSavePartition) (tb_partitions t) = Some ps" "t' = t\<lparr>tb_partitions := ps\<rparr>"
      by (auto simp: BgSaveTable_def)
    have "bs_bgsaving (pt_bgsave_info (snd (BgSavePartition q)))" for q :: "'a Partition" by (simp add: BgSavePartition_def)
    with each_partition_map [OF ps(1)] ps(2) t'(2) True show ?thesis by (fastforce simp: case_prod_beta)
  next
    case False
    with each_table_others [OF s] assms(2) show ?thesis by auto
  qed
qed

section \<open>Instances\<close>

definition admin_e :: admin_env where
  "admin_e = \<lparr>ae_ll2string = dec_string, ae_string2l = read_int, ae_StringSplit = (\<lambda>s. [s]), ae_requirepass = ''root'', ae_userpass = ''user'',
     ae_classic_mode = True, ae_databases = 8, ae_default_table = ''db0'', ae_port = 9221\<rparr>"

definition admin_cmd :: "string \<Rightarrow> int \<Rightarrow> u16 \<Rightarrow> string list \<Rightarrow> AdminCmd" where
  "admin_cmd name arity flag argv = \<lparr>cmd_name = name, cmd_special = kGeneral, cmd_stage = kNoneStage, cmd_arity = arity, cmd_flag = flag,
     cmd_res = CmdRes0, cmd_argv = argv, cmd_table_name = ''db0'', cmd_conn = Some client_conn, cmd_resp = True,
     ac_is_noone = False, ac_master_ip = [], ac_master_port = 0, ac_db_name = [], ac_force_sync = False, ac_have_offset = False, ac_filenum = 0, ac_offset = 0,
     ac_pwd = [], ac_tables = [], ac_struct_type = [], ac_num = 0, ac_table = [], ac_info = [], ac_operation = [], ac_args = [], ac_body = [],
     ac_type = kAll, ac_pattern = [], ac_number = 0, ac_condition = kGET\<rparr>"

theorem privileges_need_password_witness:
  "\<exists>conn'. auth_session admin_e (admin_cmd ''auth'' 2 kCmdFlagsRead []) [''x'', ''user''] (PikaClientConn_new ''db0'' ''user'' ''root'' 0) = Some conn'
    \<and> pc_auth_stat conn' = kLimitAuthed"
proof -
  let ?c = "admin_cmd ''auth'' 2 kCmdFlagsRead []"
  have "cmd_arity ?c = 2" "CmdRes_none (cmd_res ?c)" by (simp_all add: admin_cmd_def CmdRes_none_def CmdRes0_def)
  moreover have "PikaClientConn_new ''db0'' ''user'' ''root'' 0 = PikaClientConn_new ''db0'' (ae_userpass admin_e) (ae_requirepass admin_e) 0"
    by (simp add: admin_e_def)
  ultimately have "\<exists>conn'. auth_session admin_e ?c [''x'', ''user''] (PikaClientConn_new ''db0'' ''user'' ''root'' 0) = Some conn'
      \<and> pc_auth_stat conn' = granted admin_e [''x'', ''user''] (AuthStat_Init (ae_userpass admin_e) (ae_requirepass admin_e))"
    using privileges_need_password [of ?c "PikaClientConn_new ''db0'' ''user'' ''root'' 0" "''db0''" admin_e 0 "[''x'', ''user'']"] by blast
  then show ?thesis by (simp add: granted_def admin_e_def)
qed

definition slave_cmd :: AdminCmd where
  "slave_cmd = (admin_cmd ''slaveof'' (-3) kCmdFlagsRead [''slaveof'', ''9.9.9.9'', ''9221''])\<lparr>ac_master_ip := ''9.9.9.9'', ac_master_port := 9221\<rparr>"

definition lone_slave :: "(string, nat, string \<times> nat, nat, nat) slave_side" where
  "lone_slave = peer_client\<lparr>sd_tables := [(''db0'', Some ((Table_new ''db0'' 1 [] [])\<lparr>tb_partitions := [(0, Some map_part)]\<rparr>))]\<rparr>"

definition meta_answer :: InnerResponse where
  "meta_answer = (InnerResponse_new kMetaSync kCodeOk)\<lparr>ir_meta_sync := Some \<lparr>mr_classic_mode = cf_classic_mode (rf_coord peer_conf), mr_tables_info = []\<rparr>\<rparr>"


definition admin_coord :: "(AdminCmd, PikaClientConn, string \<times> nat) ConsensusCoordinator" where
  "admin_coord = \<lparr>cc_committed_index = LogOffset0, cc_context = wit_ctx, cc_term = 7, cc_table_name = ''db0'', cc_partition_id = 0,
     cc_sync_pros = SyncProgress0, cc_stable_logger = cc_stable_logger wit_coord, cc_mem_logger = \<lparr>ml_logs = [], ml_last_offset = LogOffset0\<rparr>,
     cc_scheduled = [], cc_io_error_tables = []\<rparr>"

definition admin_cf :: "AdminCmd coord_conf" where
  "admin_cf = \<lparr>cf_consensus_level = 0, cf_log_path = [], cf_classic_mode = True, cf_binlog_file_size = 100, cf_default_table = ''db0'',
     cf_ToBinlog = (\<lambda>c e t l f off. FlushallCmd_ToBinlog le_coding dec_string e t l f off c), cf_table_name = cmd_table_name,
     cf_GetCmd = (\<lambda>_. None), cf_Initial = (\<lambda>argv tbl c. (True, c)), cf_GetTable = (\<lambda>_. True), cf_redis_parse = redis_parse,
     cf_string2l = read_int, cf_StringToLower = id\<rparr>"

definition flush_vt :: "(AdminCmd, unit, nat) cmd_vtable" where
  "flush_vt = \<lparr>vt_current_key = (\<lambda>c. [[]]), vt_Do = flush_do True map_px (\<lambda>_. []) (\<lambda>_. id) ''x'' Map.empty,
     vt_Split = (\<lambda>_ c p. Some (c, p)), vt_Merge = id, vt_DoInitial = FlushallCmd_DoInitial, vt_Clear = id, vt_Do_null = (\<lambda>c s. Some (c, s))\<rparr>"

definition saving_part :: "nat Partition" where
  "saving_part = map_part\<lparr>pt_bgsave_info := BgSaveInfo0\<lparr>bs_bgsaving := True\<rparr>\<rparr>"

theorem flush_during_save_only_logged_witness:
  "\<exists>st' w'. InternalProcessCommand mem_env admin_cf cmd_cn flush_vt HintKeys0 (admin_cmd ''flushall'' 1 kCmdFlagsWrite [''flushall'']) saving_part admin_coord coord_world
      = Some (admin_cmd ''flushall'' 1 kCmdFlagsWrite [''flushall''], saving_part, st', w')
    \<and> Binlog_Put mem_env (item_binlog admin_cf (admin_cmd ''flushall'' 1 kCmdFlagsWrite [''flushall'']) (propose_item mem_env (cc_binlog admin_coord) coord_world))
        (cc_binlog admin_coord) coord_world = Some (OK, cc_binlog st', w')"
proof -
  let ?c = "admin_cmd ''flushall'' 1 kCmdFlagsWrite [''flushall'']"
  have b: "cc_binlog admin_coord = wit_binlog" by (simp add: cc_binlog_def admin_coord_def wit_coord_def)
  have "length (item_binlog admin_cf ?c item) = 51" for item
    by (simp add: item_binlog_def admin_cf_def FlushallCmd_ToBinlog_def append_arg_def RedisAppendLen_def RedisAppendContent_def le.BinlogEncode_eq
        le.length_item_header transverter_consts kNewLine_def dec_string_def dec_digits.simps)
  then have "0 < length (item_binlog admin_cf ?c (propose_item mem_env wit_binlog coord_world))"
    "length (item_binlog admin_cf ?c (propose_item mem_env wit_binlog coord_world)) \<le> 100" by simp_all
  from fixture_propose [OF b this] obtain st' w' where p: "ProposeLog mem_env admin_cf ?c (Some client_conn) admin_coord coord_world = Some (OK, st', w')"
    by blast
  have ok: "binlog_ok mem_env mw_files (cc_binlog admin_coord) coord_world" using cmd_coord_ok by (simp add: cmd_coord_binlog b)
  have c: "bs_bgsaving (pt_bgsave_info saving_part)" "vt_Do flush_vt = flush_do True map_px (\<lambda>_. []) (\<lambda>_. id) ''x'' Map.empty"
    "CmdRes_ok (cmd_res ?c)" "is_write ?c" "cmd_conn ?c = Some client_conn" "cmd_resp ?c" "cn_write_binlog cmd_cn"
    by (simp_all add: saving_part_def flush_vt_def admin_cmd_def CmdRes_ok_def CmdRes0_def is_write_def cmd_flag_defs cmd_cn_def)
  from flush_during_save_only_logged [OF ok c p] show ?thesis by blast
qed

end
