(* ===== verification/Pika_Admin_Info.thy ===== *)
theory Pika_Admin_Info
  imports Pika_Admin Pika_Kv_Reply Pika_Cmd_Table
begin

text \<open>
  The other commands of \<^verbatim>\<open>src/pika_admin.cc\<close>: those that only answer, among them the slow log and the description of the
  commands, and those that check their arguments for what other parts do. INFO and the values of CONFIG are not
  modelled: they print the state of the whole process.
\<close>

section \<open>Arguments\<close>

definition ClientCmd_DoInitial :: "AdminCmd \<Rightarrow> AdminCmd option" where
  "ClientCmd_DoInitial c =
     (if \<not> CheckArg (argn c) c then Some (bad_num ''client'' c)
      else case cmd_argv c of
             _ # op # rest \<Rightarrow>
               Some (if same_word op ''list'' \<and> rest = [] then c\<lparr>ac_operation := op\<rparr>
                     else if same_word op ''list'' \<and> length rest = 3
                     then (if same_word (rest ! 0) ''order'' \<and> same_word (rest ! 1) ''by'' then c\<lparr>ac_info := rest ! 2, ac_operation := op\<rparr>
                           else refuse ''Syntax error, try CLIENT (LIST [order by [addr|idle])'' c)
                     else if same_word op ''kill'' \<and> length rest = 1 then c\<lparr>ac_info := rest ! 0, ac_operation := op\<rparr>
                     else refuse ''Syntax error, try CLIENT (LIST [order by [addr|idle]| KILL ip:port)'' c)
           | _ \<Rightarrow> None)"

record ClientInfo =
  cf_fd :: int
  cf_ip_port :: string
  cf_last_interaction :: int

fun str_less :: "string \<Rightarrow> string \<Rightarrow> bool" where
  "str_less xs [] = False"
| "str_less [] (y # ys) = True"
| "str_less (x # xs) (y # ys) =
     ((of_char x :: nat) < of_char y \<or> (x = y \<and> str_less xs ys))"

definition AddrCompare :: "ClientInfo \<Rightarrow> ClientInfo \<Rightarrow> bool" where
  "AddrCompare lhs rhs = str_less (cf_ip_port rhs) (cf_ip_port lhs)"

definition IdleCompare :: "ClientInfo \<Rightarrow> ClientInfo \<Rightarrow> bool" where
  "IdleCompare lhs rhs = (cf_last_interaction lhs < cf_last_interaction rhs)"

text \<open>\<^verbatim>\<open>std::sort\<close>; clients that are neither before nor after each other keep their order.\<close>

primrec insert_by :: "('a \<Rightarrow> 'a \<Rightarrow> bool) \<Rightarrow> 'a \<Rightarrow> 'a list \<Rightarrow> 'a list" where
  "insert_by lt x [] = [x]"
| "insert_by lt x (y # ys) = (if lt y x then y # insert_by lt x ys else x # y # ys)"

definition sort_by :: "('a \<Rightarrow> 'a \<Rightarrow> bool) \<Rightarrow> 'a list \<Rightarrow> 'a list" where
  "sort_by lt xs = foldr (insert_by lt) xs []"

text \<open>\<^verbatim>\<open>snprintf\<close> into 128 bytes.\<close>

definition client_line :: "int \<Rightarrow> ClientInfo \<Rightarrow> string" where
  "client_line now ci =
     take 127 (''addr='' @ c_str (cf_ip_port ci) @ '' fd='' @ dec_string (cf_fd ci) @ '' idle=''
               @ dec_string (if cf_last_interaction ci = 0 then 0 else now - cf_last_interaction ci) @ nl)"

text \<open>The connections are kept by the network library: \<open>clients\<close> lists them, \<open>kill_all\<close> and \<open>kill\<close> close them.\<close>

definition ClientCmd_Do ::
  "admin_env \<Rightarrow> ('x \<Rightarrow> ClientInfo list) \<Rightarrow> ('x \<Rightarrow> 'x) \<Rightarrow> (string \<Rightarrow> 'x \<Rightarrow> bool \<times> 'x) \<Rightarrow> int \<Rightarrow> AdminCmd \<Rightarrow> 'x \<Rightarrow> AdminCmd \<times> 'x" where
  "ClientCmd_Do e clients kill_all kill now c x =
     (if same_word (ac_operation c) ''list''
      then (let cs = clients x;
                cs = (if same_word (ac_info c) ''addr'' then sort_by AddrCompare cs else if same_word (ac_info c) ''idle'' then sort_by IdleCompare cs else cs)
            in (set_cmd_res (AppendString (ae_ll2string e) (concat (map (client_line now) cs))) c, x))
      else if same_word (ac_operation c) ''kill'' \<and> same_word (ac_info c) ''all'' then (put_ret kOk c, kill_all x)
      else (case kill (ac_info c) x of (found, x) \<Rightarrow> (if found then put_ret kOk c else refuse ''No such client'' c, x)))"

definition contains :: "string \<Rightarrow> string \<Rightarrow> bool" where
  "contains sub s = list_ex (\<lambda>k. take (length sub) (drop k s) = sub) [0..<length s + 1]"

definition ShutdownCmd_DoInitial :: "string \<Rightarrow> string \<Rightarrow> AdminCmd \<Rightarrow> AdminCmd option" where
  "ShutdownCmd_DoInitial host ip_port c =
     (if \<not> CheckArg (argn c) c then Some (bad_num ''shutdown'' c)
      else if is_local c
      then (case cmd_conn c of
              None \<Rightarrow> Some (refuse ''shutdown'' c)
            | Some _ \<Rightarrow>
                Some (if \<not> contains ''127.0.0.1'' ip_port \<and> \<not> contains host ip_port then refuse (''shutdown'' @ '' should be localhost'') c else c))
      else Some c)"

definition ConfigCmd_DoInitial :: "AdminCmd \<Rightarrow> AdminCmd option" where
  "ConfigCmd_DoInitial c =
     (if \<not> CheckArg (argn c) c then Some (bad_num ''config'' c)
      else case cmd_argv c of
             _ # op # _ \<Rightarrow>
               (let n = length (cmd_argv c); taken = c\<lparr>ac_args := drop 1 (cmd_argv c)\<rparr>
                in Some (if same_word op ''get'' then (if n \<noteq> 3 then refuse ''Wrong number of arguments for CONFIG get'' c else taken)
                         else if same_word op ''set''
                         then (if n = 3 \<and> cmd_argv c ! 2 \<noteq> ''*'' then refuse ''Wrong number of arguments for CONFIG set'' c
                               else if n \<noteq> 4 \<and> n \<noteq> 3 then refuse ''Wrong number of arguments for CONFIG set'' c else taken)
                         else if same_word op ''rewrite'' then (if n \<noteq> 2 then refuse ''Wrong number of arguments for CONFIG rewrite'' c else taken)
                         else if same_word op ''resetstat'' then (if n \<noteq> 2 then refuse ''Wrong number of arguments for CONFIG resetstat'' c else taken)
                         else refuse ''CONFIG subcommand must be one of GET, SET, RESETSTAT, REWRITE'' c))
           | _ \<Rightarrow> None)"

definition MonitorCmd_DoInitial :: "AdminCmd \<Rightarrow> AdminCmd option" where
  "MonitorCmd_DoInitial = alone_initial ''monitor''"

definition data_type :: "string \<Rightarrow> DataType option" where
  "data_type s =
     (if same_word s ''string'' then Some kStrings else if same_word s ''hash'' then Some kHashes else if same_word s ''set'' then Some kSets
      else if same_word s ''zset'' then Some kZSets else if same_word s ''list'' then Some kLists else None)"

definition ScandbCmd_DoInitial :: "AdminCmd \<Rightarrow> AdminCmd option" where
  "ScandbCmd_DoInitial c =
     (if \<not> CheckArg (argn c) c then Some (bad_num ''echo'' c)
      else case cmd_argv c of
             [_] \<Rightarrow> Some (c\<lparr>ac_type := kAll\<rparr>)
           | _ # type # _ \<Rightarrow> Some (case data_type type of None \<Rightarrow> put_ret kInvalidDbType c | Some t \<Rightarrow> c\<lparr>ac_type := t\<rparr>)
           | [] \<Rightarrow> None)"

text \<open>Scanning prints the keys of every partition to the standard output and changes nothing.\<close>

definition ScandbCmd_Do :: "AdminCmd \<Rightarrow> 'p tables \<Rightarrow> AdminCmd option" where
  "ScandbCmd_Do c tables =
     (case GetTable (cmd_table_name c) tables of
        None \<Rightarrow> None
      | Some None \<Rightarrow> Some (put_ret kInvalidTable c)
      | Some (Some t) \<Rightarrow> if list_all (\<lambda>slot. snd slot \<noteq> None) (tb_partitions t) then Some (put_ret kOk c) else None)"

definition PKPatternMatchDelCmd_DoInitial :: "AdminCmd \<Rightarrow> AdminCmd option" where
  "PKPatternMatchDelCmd_DoInitial c =
     (if \<not> CheckArg (argn c) c then Some (bad_num ''pkpatternmatchdel'' c)
      else case cmd_argv c of
             _ # pattern # type # _ \<Rightarrow>
               (let c = c\<lparr>ac_pattern := pattern\<rparr>
                in Some (case data_type type of None \<Rightarrow> put_text kInvalidDbType ''pkpatternmatchdel'' c | Some t \<Rightarrow> c\<lparr>ac_type := t\<rparr>))
           | _ \<Rightarrow> None)"

definition PKPatternMatchDelCmd_Do ::
  "admin_env \<Rightarrow> (DataType \<Rightarrow> string \<Rightarrow> 'd \<Rightarrow> Status \<times> int \<times> 'd) \<Rightarrow> (Status \<Rightarrow> string) \<Rightarrow> AdminCmd \<Rightarrow> 'd Partition \<Rightarrow> (AdminCmd \<times> 'd Partition) option" where
  "PKPatternMatchDelCmd_Do e match_del to_string c p =
     on_db p (\<lambda>d. case match_del (ac_type c) (ac_pattern c) d of
                    (s, ret, d) \<Rightarrow> (if ok s then set_cmd_res (AppendInteger (ae_ll2string e) ret) c else refuse (to_string s) c, d))"

section \<open>Commands that answer\<close>

definition DbsizeCmd_DoInitial :: "AdminCmd \<Rightarrow> AdminCmd option" where
  "DbsizeCmd_DoInitial = alone_initial ''dbsize''"

definition DbsizeCmd_Do :: "admin_env \<Rightarrow> AdminCmd \<Rightarrow> 'p tables \<Rightarrow> AdminCmd option" where
  "DbsizeCmd_Do e c tables =
     (case GetTable (cmd_table_name c) tables of
        None \<Rightarrow> None
      | Some None \<Rightarrow> Some (put_ret kInvalidTable c)
      | Some (Some t) \<Rightarrow>
          let key_infos = ks_key_infos (tb_key_scan_info t)
          in Some (if length key_infos \<noteq> 5 then refuse ''keyspace error'' c
                   else set_cmd_res (AppendInteger (ae_ll2string e) (sint (sum_list (map ki_keys key_infos)))) c))"

definition TimeCmd_DoInitial :: "AdminCmd \<Rightarrow> AdminCmd option" where
  "TimeCmd_DoInitial = alone_initial ''time''"

text \<open>\<open>Inl\<close> is the text of the error of \<^verbatim>\<open>gettimeofday\<close>.\<close>

definition TimeCmd_Do :: "admin_env \<Rightarrow> string + int \<times> int \<Rightarrow> AdminCmd \<Rightarrow> AdminCmd" where
  "TimeCmd_Do e tv c =
     (case tv of
        Inl msg \<Rightarrow> refuse msg c
      | Inr (sec, usec) \<Rightarrow>
          let buf1 = ae_ll2string e sec; buf2 = ae_ll2string e usec
          in set_cmd_res (AppendContent buf2 \<circ> AppendStringLen (ae_ll2string e) (int (length buf2))
                          \<circ> AppendContent buf1 \<circ> AppendStringLen (ae_ll2string e) (int (length buf1)) \<circ> AppendArrayLen (ae_ll2string e) 2) c)"

definition EchoCmd_DoInitial :: "AdminCmd \<Rightarrow> AdminCmd option" where
  "EchoCmd_DoInitial c =
     (if \<not> CheckArg (argn c) c then Some (bad_num ''echo'' c)
      else case cmd_argv c of _ # body # _ \<Rightarrow> Some (c\<lparr>ac_body := body\<rparr>) | _ \<Rightarrow> None)"

definition EchoCmd_Do :: "admin_env \<Rightarrow> AdminCmd \<Rightarrow> AdminCmd" where
  "EchoCmd_Do e c = set_cmd_res (AppendString (ae_ll2string e) (ac_body c)) c"

definition SlowlogCmd_Clear :: "AdminCmd \<Rightarrow> AdminCmd" where
  "SlowlogCmd_Clear c = c\<lparr>ac_number := 10, ac_condition := kGET\<rparr>"

definition SlowlogCmd_DoInitial :: "admin_env \<Rightarrow> AdminCmd \<Rightarrow> AdminCmd option" where
  "SlowlogCmd_DoInitial e c =
     (if \<not> CheckArg (argn c) c then Some (bad_num ''slowlog'' c)
      else case cmd_argv c of
             _ # op # rest \<Rightarrow>
               if rest = [] \<and> same_word op ''reset'' then Some (c\<lparr>ac_condition := kRESET\<rparr>)
               else if rest = [] \<and> same_word op ''len'' then Some (c\<lparr>ac_condition := kLEN\<rparr>)
               else if length rest \<le> 1 \<and> same_word op ''get''
               then (let c = c\<lparr>ac_condition := kGET\<rparr>
                     in case rest of
                          [] \<Rightarrow> Some c
                        | arg # _ \<Rightarrow> Some (case ae_string2l e arg of None \<Rightarrow> put_ret kInvalidInt c | Some n \<Rightarrow> c\<lparr>ac_number := n\<rparr>))
               else Some (refuse ''Unknown SLOWLOG subcommand or wrong # of args. Try GET, RESET, LEN.'' c)
           | _ \<Rightarrow> None)"

definition append_slowlog :: "(int \<Rightarrow> string) \<Rightarrow> SlowlogEntry \<Rightarrow> CmdRes \<Rightarrow> CmdRes" where
  "append_slowlog ll2string s r =
     fold (AppendString ll2string) (sl_argv s)
       (AppendArrayLen ll2string (int (length (sl_argv s)))
         (AppendInteger ll2string (sl_duration s) (AppendInteger ll2string (sl_start_time s) (AppendInteger ll2string (sl_id s) (AppendArrayLen ll2string 4 r)))))"

definition SlowlogCmd_Do :: "admin_env \<Rightarrow> AdminCmd \<Rightarrow> PikaServer \<Rightarrow> AdminCmd \<times> PikaServer" where
  "SlowlogCmd_Do e c ps =
     (case ac_condition c of
        kRESET \<Rightarrow> (put_ret kOk c, SlowlogReset ps)
      | kLEN \<Rightarrow> (set_cmd_res (AppendInteger (ae_ll2string e) (int (unat (SlowlogLen ps)))) c, ps)
      | kGET \<Rightarrow>
          let slowlogs = SlowlogObtain (ac_number c) ps
          in (set_cmd_res (fold (append_slowlog (ae_ll2string e)) slowlogs \<circ> AppendArrayLen (ae_ll2string e) (int (length slowlogs))) c, ps))"

definition PaddingCmd_DoInitial :: "AdminCmd \<Rightarrow> AdminCmd option" where
  "PaddingCmd_DoInitial = plain_initial ''padding''"

definition PaddingCmd_Do :: "AdminCmd \<Rightarrow> AdminCmd" where
  "PaddingCmd_Do c = put_ret kOk c"

definition PaddingCmd_ToBinlog :: "slash_coding \<Rightarrow> (int \<Rightarrow> string) \<Rightarrow> AdminCmd \<Rightarrow> bytes option" where
  "PaddingCmd_ToBinlog C ll2string c =
     (case cmd_argv c of
        _ # arg # _ \<Rightarrow>
          ConstructPaddingBinlog C ll2string TypeFirst
            (of_nat (length arg + BINLOG_ITEM_HEADER_SIZE + PADDING_BINLOG_PROTOCOL_SIZE + SPACE_STROE_PARAMETER_LENGTH))
      | _ \<Rightarrow> None)"

section \<open>DELBACKUP\<close>

definition DelbackupCmd_DoInitial :: "AdminCmd \<Rightarrow> AdminCmd option" where
  "DelbackupCmd_DoInitial = alone_initial ''delbackup''"

text \<open>\<^verbatim>\<open>strtol\<close> reads the whole C string: a number, or nothing at all from an empty string.\<close>

definition strtol_all :: "string \<Rightarrow> bool" where
  "strtol_all s =
     (let s = c_str s; t = dropWhile (\<lambda>ch. of_char ch \<in> {9, 10, 11, 12, 13, 32 :: nat}) s;
          ds = (case t of [] \<Rightarrow> [] | ch # cs \<Rightarrow> if ch = CHR ''-'' \<or> ch = CHR ''+'' then cs else t)
      in s = [] \<or> (ds \<noteq> [] \<and> list_all is_digit ds))"

definition is_dump :: "string \<Rightarrow> string \<Rightarrow> bool" where
  "is_dump db_sync_prefix dir \<longleftrightarrow> take (length db_sync_prefix) dir = db_sync_prefix \<and> length dir = length db_sync_prefix + 8
     \<and> strtol_all (drop (length db_sync_prefix) dir)"

definition DelbackupCmd_Do ::
  "(string \<Rightarrow> 'w \<Rightarrow> bool) \<Rightarrow> (string \<Rightarrow> 'w \<Rightarrow> string list option) \<Rightarrow> (string \<Rightarrow> 'w \<Rightarrow> 'w) \<Rightarrow> string \<Rightarrow> string \<Rightarrow> AdminCmd \<Rightarrow> PikaServer \<Rightarrow> 'w \<Rightarrow> AdminCmd \<times> 'w" where
  "DelbackupCmd_Do exists children delete db_sync_prefix db_sync_path c ps w =
     (put_ret kOk c,
      if \<not> exists db_sync_path w then w
      else case children db_sync_path w of
             None \<Rightarrow> w
           | Some dump_dir \<Rightarrow>
               fold (\<lambda>dir w. if \<not> is_dump db_sync_prefix dir then w
                             else if ps_db_sync_slaves ps = [] then delete (db_sync_path @ dir @ ''/'' @ cmd_table_name c) w else w)
                 dump_dir w)"

section \<open>COMMAND\<close>

datatype CommandResponseInfo =
  CommandResponseInfo (ri_arity: int) (ri_first: int) (ri_last: int) (ri_step: int) (ri_cmd: string) (ri_flags: "string list")

definition command_response_info :: "CommandResponseInfo list" where
  "command_response_info = [
    CommandResponseInfo 3 1 1 1 ''append'' [''write'', ''denyoom''],
    CommandResponseInfo 2 0 0 0 ''auth'' [''noscript'', ''loading'', ''stale'', ''fast''],
    CommandResponseInfo (-1) 0 0 0 ''bgsave'' [''admin'', ''noscript''],
    CommandResponseInfo (-2) 1 1 1 ''bitcount'' [''readonly''],
    CommandResponseInfo (-4) 2 (-1) 1 ''bitop'' [''write'', ''denyoom''],
    CommandResponseInfo 4 1 1 1 ''lset'' [''write'', ''denyoom''],
    CommandResponseInfo (-3) 1 1 1 ''bitpos'' [''readonly''],
    CommandResponseInfo (-2) 0 0 0 ''client'' [''admin'', ''noscript''],
    CommandResponseInfo (-2) 0 0 0 ''config'' [''admin'', ''noscript'', ''loading'', ''stale''],
    CommandResponseInfo 1 0 0 0 ''dbsize'' [''readonly'', ''fast''],
    CommandResponseInfo 2 1 1 1 ''decr'' [''write'', ''denyoom'', ''fast''],
    CommandResponseInfo 3 1 1 1 ''decrby'' [''write'', ''denyoom'', ''fast''],
    CommandResponseInfo (-2) 1 (-1) 1 ''del'' [''write''],
    CommandResponseInfo 2 0 0 0 ''echo'' [''fast''],
    CommandResponseInfo (-2) 1 (-1) 1 ''exists'' [''readonly'', ''fast''],
    CommandResponseInfo 3 1 1 1 ''expire'' [''write'', ''fast''],
    CommandResponseInfo 3 1 1 1 ''expireat'' [''write'', ''fast''],
    CommandResponseInfo (-1) 0 0 0 ''flushall'' [''write''],
    CommandResponseInfo (-1) 0 0 0 ''flushdb'' [''write''],
    CommandResponseInfo (-5) 1 1 1 ''geoadd'' [''write'', ''denyoom''],
    CommandResponseInfo (-4) 1 1 1 ''geodist'' [''readonly''],
    CommandResponseInfo (-2) 1 1 1 ''geohash'' [''readonly''],
    CommandResponseInfo (-2) 1 1 1 ''geopos'' [''readonly''],
    CommandResponseInfo (-6) 1 1 1 ''georadius'' [''write'', ''movablekeys''],
    CommandResponseInfo (-5) 1 1 1 ''georadiusbymember'' [''write'', ''movablekeys''],
    CommandResponseInfo 2 1 1 1 ''get'' [''readonly'', ''fast''],
    CommandResponseInfo 3 1 1 1 ''getbit'' [''readonly'', ''fast''],
    CommandResponseInfo 4 1 1 1 ''getrange'' [''readonly''],
    CommandResponseInfo 3 1 1 1 ''getset'' [''write'', ''denyoom''],
    CommandResponseInfo (-3) 1 1 1 ''hdel'' [''write'', ''fast''],
    CommandResponseInfo 3 1 1 1 ''hexists'' [''readonly'', ''fast''],
    CommandResponseInfo 3 1 1 1 ''hget'' [''readonly'', ''fast''],
    CommandResponseInfo 2 1 1 1 ''hgetall'' [''readonly'', ''random''],
    CommandResponseInfo 4 1 1 1 ''hincrby'' [''write'', ''denyoom'', ''fast''],
    CommandResponseInfo 4 1 1 1 ''hincrbyfloat'' [''write'', ''denyoom'', ''fast''],
    CommandResponseInfo 2 1 1 1 ''hkeys'' [''readonly'', ''sort_for_script''],
    CommandResponseInfo 2 1 1 1 ''hlen'' [''readonly'', ''fast''],
    CommandResponseInfo (-3) 1 1 1 ''hmget'' [''readonly'', ''fast''],
    CommandResponseInfo (-4) 1 1 1 ''hmset'' [''write'', ''denyoom'', ''fast''],
    CommandResponseInfo (-3) 1 1 1 ''hscan'' [''readonly'', ''random''],
    CommandResponseInfo (-4) 1 1 1 ''hset'' [''write'', ''denyoom'', ''fast''],
    CommandResponseInfo 4 1 1 1 ''hsetnx'' [''write'', ''denyoom'', ''fast''],
    CommandResponseInfo 3 1 1 1 ''hstrlen'' [''readonly'', ''fast''],
    CommandResponseInfo 2 1 1 1 ''hvals'' [''readonly'', ''sort_for_script''],
    CommandResponseInfo 2 1 1 1 ''incr'' [''write'', ''denyoom'', ''fast''],
    CommandResponseInfo 3 1 1 1 ''incrby'' [''write'', ''denyoom'', ''fast''],
    CommandResponseInfo 3 1 1 1 ''incrbyfloat'' [''write'', ''denyoom'', ''fast''],
    CommandResponseInfo (-1) 0 0 0 ''info'' [''random'', ''loading'', ''stale''],
    CommandResponseInfo 2 0 0 0 ''keys'' [''readonly'', ''sort_for_script''],
    CommandResponseInfo 3 1 1 1 ''lindex'' [''readonly''],
    CommandResponseInfo 5 1 1 1 ''linsert'' [''write'', ''denyoom''],
    CommandResponseInfo 2 1 1 1 ''llen'' [''readonly'', ''fast''],
    CommandResponseInfo 2 1 1 1 ''lpop'' [''write'', ''fast''],
    CommandResponseInfo (-3) 1 1 1 ''lpush'' [''write'', ''denyoom'', ''fast''],
    CommandResponseInfo (-3) 1 1 1 ''lpushx'' [''write'', ''denyoom'', ''fast''],
    CommandResponseInfo 4 1 1 1 ''lrange'' [''readonly''],
    CommandResponseInfo 4 1 1 1 ''lrem'' [''write''],
    CommandResponseInfo 4 1 1 1 ''ltrim'' [''write''],
    CommandResponseInfo (-2) 1 (-1) 1 ''mget'' [''readonly'', ''fast''],
    CommandResponseInfo 1 0 0 0 ''monitor'' [''admin'', ''noscript''],
    CommandResponseInfo (-3) 1 (-1) 2 ''mset'' [''write'', ''denyoom''],
    CommandResponseInfo (-3) 1 (-1) 2 ''msetnx'' [''write'', ''denyoom''],
    CommandResponseInfo 2 1 1 1 ''persist'' [''write'', ''fast''],
    CommandResponseInfo 3 1 1 1 ''pexpire'' [''write'', ''fast''],
    CommandResponseInfo 3 1 1 1 ''pexpireat'' [''write'', ''fast''],
    CommandResponseInfo (-2) 1 1 1 ''pfadd'' [''write'', ''denyoom'', ''fast''],
    CommandResponseInfo (-2) 1 (-1) 1 ''pfcount'' [''readonly''],
    CommandResponseInfo (-2) 1 (-1) 1 ''pfmerge'' [''write'', ''denyoom''],
    CommandResponseInfo (-1) 0 0 0 ''ping'' [''stale'', ''fast''],
    CommandResponseInfo 4 1 1 1 ''psetex'' [''write'', ''denyoom''],
    CommandResponseInfo (-2) 0 0 0 ''psubscribe'' [''pubsub'', ''noscript'', ''loading'', ''stale''],
    CommandResponseInfo 2 1 1 1 ''pttl'' [''readonly'', ''random'', ''fast''],
    CommandResponseInfo 3 0 0 0 ''publish'' [''pubsub'', ''loading'', ''stale'', ''fast''],
    CommandResponseInfo (-2) 0 0 0 ''pubsub'' [''pubsub'', ''random'', ''loading'', ''stale''],
    CommandResponseInfo (-1) 0 0 0 ''punsubscribe'' [''pubsub'', ''noscript'', ''loading'', ''stale''],
    CommandResponseInfo 2 1 1 1 ''rpop'' [''write'', ''fast''],
    CommandResponseInfo 3 1 2 1 ''rpoplpush'' [''write'', ''denyoom''],
    CommandResponseInfo (-3) 1 1 1 ''rpush'' [''write'', ''denyoom'', ''fast''],
    CommandResponseInfo (-3) 1 1 1 ''rpushx'' [''write'', ''denyoom'', ''fast''],
    CommandResponseInfo (-3) 1 1 1 ''sadd'' [''write'', ''denyoom'', ''fast''],
    CommandResponseInfo (-2) 0 0 0 ''scan'' [''readonly'', ''random''],
    CommandResponseInfo 2 1 1 1 ''scard'' [''readonly'', ''fast''],
    CommandResponseInfo (-2) 1 (-1) 1 ''sdiff'' [''readonly'', ''sort_for_script''],
    CommandResponseInfo (-3) 1 (-1) 1 ''sdiffstore'' [''write'', ''denyoom''],
    CommandResponseInfo 2 0 0 0 ''select'' [''loading'', ''fast''],
    CommandResponseInfo (-3) 1 1 1 ''set'' [''write'', ''denyoom''],
    CommandResponseInfo 4 1 1 1 ''setbit'' [''write'', ''denyoom''],
    CommandResponseInfo 4 1 1 1 ''setex'' [''write'', ''denyoom''],
    CommandResponseInfo 3 1 1 1 ''setnx'' [''write'', ''denyoom'', ''fast''],
    CommandResponseInfo 4 1 1 1 ''setrange'' [''write'', ''denyoom''],
    CommandResponseInfo (-1) 0 0 0 ''shutdown'' [''admin'', ''noscript'', ''loading'', ''stale''],
    CommandResponseInfo (-2) 1 (-1) 1 ''sinter'' [''readonly'', ''sort_for_script''],
    CommandResponseInfo (-3) 1 (-1) 1 ''sinterstore'' [''write'', ''denyoom''],
    CommandResponseInfo 3 1 1 1 ''sismember'' [''readonly'', ''fast''],
    CommandResponseInfo 3 0 0 0 ''slaveof'' [''admin'', ''noscript'', ''stale''],
    CommandResponseInfo (-2) 0 0 0 ''slowlog'' [''admin'', ''random''],
    CommandResponseInfo 2 1 1 1 ''smembers'' [''readonly'', ''sort_for_script''],
    CommandResponseInfo 4 1 2 1 ''smove'' [''write'', ''fast''],
    CommandResponseInfo (-2) 1 1 1 ''spop'' [''write'', ''random'', ''fast''],
    CommandResponseInfo (-2) 1 1 1 ''srandmember'' [''readonly'', ''random''],
    CommandResponseInfo (-3) 1 1 1 ''srem'' [''write'', ''fast''],
    CommandResponseInfo (-3) 1 1 1 ''sscan'' [''readonly'', ''random''],
    CommandResponseInfo 2 1 1 1 ''strlen'' [''readonly'', ''fast''],
    CommandResponseInfo (-2) 0 0 0 ''subscribe'' [''pubsub'', ''noscript'', ''loading'', ''stale''],
    CommandResponseInfo (-2) 1 (-1) 1 ''sunion'' [''readonly'', ''sort_for_script''],
    CommandResponseInfo (-3) 1 (-1) 1 ''sunionstore'' [''write'', ''denyoom''],
    CommandResponseInfo 1 0 0 0 ''time'' [''random'', ''fast''],
    CommandResponseInfo 2 1 1 1 ''ttl'' [''readonly'', ''random'', ''fast''],
    CommandResponseInfo 2 1 1 1 ''type'' [''readonly'', ''fast''],
    CommandResponseInfo (-1) 0 0 0 ''unsubscribe'' [''pubsub'', ''noscript'', ''loading'', ''stale''],
    CommandResponseInfo (-4) 1 1 1 ''zadd'' [''write'', ''denyoom'', ''fast''],
    CommandResponseInfo 2 1 1 1 ''zcard'' [''readonly'', ''fast''],
    CommandResponseInfo 4 1 1 1 ''zcount'' [''readonly'', ''fast''],
    CommandResponseInfo 4 1 1 1 ''zincrby'' [''write'', ''denyoom'', ''fast''],
    CommandResponseInfo (-4) 0 0 0 ''zinterstore'' [''write'', ''denyoom'', ''movablekeys''],
    CommandResponseInfo 4 1 1 1 ''zlexcount'' [''readonly'', ''fast''],
    CommandResponseInfo (-2) 1 1 1 ''zpopmax'' [''write'', ''fast''],
    CommandResponseInfo (-2) 1 1 1 ''zpopmin'' [''write'', ''fast''],
    CommandResponseInfo (-4) 1 1 1 ''zrange'' [''readonly''],
    CommandResponseInfo (-4) 1 1 1 ''zrangebylex'' [''readonly''],
    CommandResponseInfo (-4) 1 1 1 ''zrangebyscore'' [''readonly''],
    CommandResponseInfo 3 1 1 1 ''zrank'' [''readonly'', ''fast''],
    CommandResponseInfo (-3) 1 1 1 ''zrem'' [''write'', ''fast''],
    CommandResponseInfo 4 1 1 1 ''zremrangebylex'' [''write''],
    CommandResponseInfo 4 1 1 1 ''zremrangebyrank'' [''write''],
    CommandResponseInfo 4 1 1 1 ''zremrangebyscore'' [''write''],
    CommandResponseInfo (-4) 1 1 1 ''zrevrange'' [''readonly''],
    CommandResponseInfo (-4) 1 1 1 ''zrevrangebylex'' [''readonly''],
    CommandResponseInfo (-4) 1 1 1 ''zrevrangebyscore'' [''readonly''],
    CommandResponseInfo 3 1 1 1 ''zrevrank'' [''readonly'', ''fast''],
    CommandResponseInfo (-3) 1 1 1 ''zscan'' [''readonly'', ''random''],
    CommandResponseInfo 3 1 1 1 ''zscore'' [''readonly'', ''fast''],
    CommandResponseInfo (-4) 0 0 0 ''zunionstore'' [''write'', ''denyoom'', ''movablekeys'']]"

definition local_append :: "(int \<Rightarrow> string) \<Rightarrow> CommandResponseInfo \<Rightarrow> CmdRes \<Rightarrow> CmdRes" where
  "local_append ll2string info r =
     AppendInteger ll2string (ri_step info) (AppendInteger ll2string (ri_last info) (AppendInteger ll2string (ri_first info)
       (fold (AppendString ll2string) (ri_flags info)
         (AppendArrayLen ll2string (int (length (ri_flags info)))
           (AppendInteger ll2string (ri_arity info) (AppendString ll2string (ri_cmd info) (AppendArrayLen ll2string 6 r)))))))"

text \<open>A name that is not found gives the end of the table, which is read all the same.\<close>

primrec append_infos :: "(int \<Rightarrow> string) \<Rightarrow> string list \<Rightarrow> CmdRes \<Rightarrow> CmdRes option" where
  "append_infos ll2string [] r = Some r"
| "append_infos ll2string (name # names) r =
     (case find (\<lambda>info. ri_cmd info = name) command_response_info of
        None \<Rightarrow> None
      | Some info \<Rightarrow> append_infos ll2string names (local_append ll2string info r))"

definition CommandCmd_Do :: "admin_env \<Rightarrow> AdminCmd \<Rightarrow> AdminCmd option" where
  "CommandCmd_Do e c =
     (if length (cmd_argv c) > 2 \<and> cmd_argv c ! 1 = ''info''
      then map_option (\<lambda>r. c\<lparr>cmd_res := r\<rparr>)
             (append_infos (ae_ll2string e) (drop 2 (cmd_argv c)) (AppendArrayLen (ae_ll2string e) (int (length (cmd_argv c)) - 2) (cmd_res c)))
      else Some (set_cmd_res (fold (local_append (ae_ll2string e)) command_response_info
                   \<circ> AppendArrayLen (ae_ll2string e) (int (length command_response_info))) c))"

section \<open>Replies\<close>

definition answers_well :: "AdminCmd \<Rightarrow> bool" where
  "answers_well c = reply (CmdRes_message (cmd_res c))"

lemma well_ret: "CmdRes_none (cmd_res c) \<Longrightarrow> ret \<noteq> kNone \<Longrightarrow> answers_well (put_ret ret c)"
  by (auto simp: answers_well_def put_ret_def CmdRes_none_def SetRes_def intro!: reply_code)

lemma well_refuse: "CmdRes_none (cmd_res c) \<Longrightarrow> one_line msg \<Longrightarrow> answers_well (refuse msg c)"
  by (auto simp: answers_well_def refuse_def CmdRes_none_def SetRes_content_def Let_def intro!: reply_code)

text \<open>Texts that are appended while the result has no code: the message grows by them.\<close>

definition grows :: "(CmdRes \<Rightarrow> CmdRes) \<Rightarrow> string \<Rightarrow> bool" where
  "grows f t \<longleftrightarrow> (\<forall>r. f r = r\<lparr>cr_message := cr_message r @ t\<rparr>)"

lemma grows_fold: "(\<And>x. grows (f x) (t x)) \<Longrightarrow> grows (fold f xs) (concat (map t xs))"
proof (induction xs)
  case (Cons x xs)
  then have "grows (fold f xs) (concat (map t xs))" "grows (f x) (t x)" by simp_all
  then show ?case by (simp add: grows_def)
qed (simp add: grows_def)

definition array_text :: "string list \<Rightarrow> string" where
  "array_text vs = ''*'' @ dec_digits (length vs) @ kNewLine @ concat vs"

definition integer_text :: "int \<Rightarrow> string" where
  "integer_text i = '':'' @ dec_string i @ kNewLine"

lemma append_eqs:
  "AppendArrayLen dec_string (int n) r = r\<lparr>cr_message := cr_message r @ ''*'' @ dec_digits n @ kNewLine\<rparr>"
  "AppendArrayLen dec_string (numeral k) r = r\<lparr>cr_message := cr_message r @ ''*'' @ dec_digits (numeral k) @ kNewLine\<rparr>"
  "AppendInteger dec_string i r = r\<lparr>cr_message := cr_message r @ integer_text i\<rparr>"
  "AppendString dec_string v r = r\<lparr>cr_message := cr_message r @ bulk v\<rparr>"
  "fold (AppendString dec_string) vs r = r\<lparr>cr_message := cr_message r @ concat (map bulk vs)\<rparr>"
  using grows_fold [of "AppendString dec_string" bulk vs]
  by (simp_all add: cmd_res_simps dec_string_def integer_text_def bulk_def grows_def)

lemma well_grown: "grows f t \<Longrightarrow> reply t \<Longrightarrow> CmdRes_none (cmd_res c) \<Longrightarrow> answers_well (set_cmd_res f c)"
  by (simp add: answers_well_def grows_def CmdRes_none_def CmdRes_message_def)

lemma reply_texts: "(\<And>v. v \<in> set vs \<Longrightarrow> reply v) \<Longrightarrow> reply (array_text vs)" "reply (integer_text i)" "reply (bulk v)"
  using reply.array [of vs] reply.integer [of i] reply.bulk [of v] by (auto simp: array_text_def integer_text_def)

definition slowlog_text :: "SlowlogEntry \<Rightarrow> string" where
  "slowlog_text s = array_text [integer_text (sl_id s), integer_text (sl_start_time s), integer_text (sl_duration s), array_text (map bulk (sl_argv s))]"

lemma grows_slowlog: "grows (append_slowlog dec_string s) (slowlog_text s)"
  by (simp add: grows_def append_slowlog_def slowlog_text_def array_text_def append_eqs eval_nat_numeral)

definition command_text :: "CommandResponseInfo \<Rightarrow> string" where
  "command_text i = array_text [bulk (ri_cmd i), integer_text (ri_arity i), array_text (map bulk (ri_flags i)), integer_text (ri_first i),
     integer_text (ri_last i), integer_text (ri_step i)]"

lemma grows_command: "grows (local_append dec_string i) (command_text i)"
  by (simp add: grows_def local_append_def command_text_def array_text_def append_eqs eval_nat_numeral)

lemma reply_entries: "reply (slowlog_text s)" "reply (command_text i)"
  by (auto simp: slowlog_text_def command_text_def intro!: reply_texts)

lemma grows_all:
  assumes "\<And>x. grows (f x) (t x)"
  shows "grows (fold f xs \<circ> AppendArrayLen dec_string (int (length xs))) (array_text (map t xs))"
  using grows_fold [of f t xs, OF assms] by (simp add: grows_def array_text_def append_eqs)

lemma append_infos_text:
  "append_infos dec_string names r = Some r' \<Longrightarrow> \<exists>is. length is = length names \<and> r' = r\<lparr>cr_message := cr_message r @ concat (map command_text is)\<rparr>"
proof (induction names arbitrary: r)
  case (Cons name names)
  then obtain i where "append_infos dec_string names (local_append dec_string i r) = Some r'" by (auto split: option.splits)
  from Cons.IH [OF this] obtain is' where "length is' = length names"
    "r' = r\<lparr>cr_message := cr_message r @ command_text i @ concat (map command_text is')\<rparr>" using grows_command [of i] by (auto simp: grows_def)
  then show ?case by (intro exI [of _ "i # is'"]) simp
qed simp

lemma well_command:
  assumes "CmdRes_none (cmd_res c)" and "ae_ll2string e = dec_string" and "CommandCmd_Do e c = Some c'"
  shows "answers_well c'"
proof (cases "length (cmd_argv c) > 2 \<and> cmd_argv c ! 1 = ''info''")
  case True
  let ?names = "drop 2 (cmd_argv c)"
  have n: "int (length (cmd_argv c)) - 2 = int (length ?names)" using True by auto
  have "CommandCmd_Do e c = map_option (\<lambda>r. c\<lparr>cmd_res := r\<rparr>) (append_infos dec_string ?names (AppendArrayLen dec_string (int (length ?names)) (cmd_res c)))"
    unfolding CommandCmd_Do_def assms(2) n using True by (simp only: if_True simp_thms)
  with assms(3) have "map_option (\<lambda>r. c\<lparr>cmd_res := r\<rparr>) (append_infos dec_string ?names (AppendArrayLen dec_string (int (length ?names)) (cmd_res c))) = Some c'"
    by (simp only:)
  then obtain r where r: "append_infos dec_string ?names (AppendArrayLen dec_string (int (length ?names)) (cmd_res c)) = Some r" "c' = c\<lparr>cmd_res := r\<rparr>"
    unfolding map_option_eq_Some by (elim exE conjE) (simp only:)
  from append_infos_text [OF this(1)] obtain is' where "length is' = length ?names"
    "r = (cmd_res c)\<lparr>cr_message := cr_message (cmd_res c) @ array_text (map command_text is')\<rparr>"
    by (auto simp: append_eqs array_text_def)
  moreover have "reply (array_text (map command_text is'))" for is' by (auto intro!: reply_texts reply_entries)
  ultimately show ?thesis using assms(1) r(2) by (simp add: answers_well_def CmdRes_none_def CmdRes_message_def)
next
  case False
  then have "c' = set_cmd_res (fold (local_append dec_string) command_response_info \<circ> AppendArrayLen dec_string (int (length command_response_info))) c"
    using assms(3) unfolding CommandCmd_Do_def assms(2) by (simp only: if_False option.inject)
  moreover have "reply (array_text (map command_text command_response_info))" by (auto intro!: reply_texts reply_entries)
  ultimately show ?thesis using well_grown [OF grows_all [of "local_append dec_string" command_text command_response_info, OF grows_command]] assms(1) by simp
qed

lemma well_slowlog:
  assumes "CmdRes_none (cmd_res c)" and "ae_ll2string e = dec_string"
  shows "answers_well (fst (SlowlogCmd_Do e c ps))"
proof (cases "ac_condition c")
  case kGET
  let ?s = "SlowlogObtain (ac_number c) ps"
  have "reply (array_text (map slowlog_text ?s))" by (auto intro!: reply_texts reply_entries)
  with well_grown [OF grows_all [of "append_slowlog dec_string" slowlog_text ?s, OF grows_slowlog] _ assms(1)] kGET assms(2) show ?thesis
    by (simp add: SlowlogCmd_Do_def Let_def)
next
  case kLEN
  have "grows (AppendInteger dec_string i) (integer_text i)" for i by (simp add: grows_def append_eqs)
  from well_grown [OF this reply_texts(2) assms(1)] kLEN assms(2) show ?thesis by (simp add: SlowlogCmd_Do_def)
next
  case kRESET
  with well_ret [OF assms(1)] show ?thesis by (simp add: SlowlogCmd_Do_def)
qed

lemma small_digits: "dec_digits 0 = ''0''" "dec_digits (Suc (Suc 0)) = ''2''" "dec_digits (Suc (Suc (Suc (Suc 0)))) = ''4''" "dec_digits 2 = ''2''"
  by code_simp+

lemma well_ping:
  assumes "CmdRes_none (cmd_res c)"
  shows "answers_well (PingCmd_Do c)"
proof (cases "cmd_conn c")
  case None
  with well_refuse [OF assms, of "''ping''"] show ?thesis by (simp add: PingCmd_Do_def)
next
  case (Some conn)
  have "reply (ConstructPinginPubSubResp argv)" for argv
  proof (cases "length argv > 2")
    case True
    then show ?thesis
      by (intro error_reply [where v = "''ERR wrong number of arguments for ping command''"]) (simp_all add: ConstructPinginPubSubResp_def)
  next
    case False
    then have "ConstructPinginPubSubResp argv = array_text [bulk ''pong'', bulk (if length argv = 2 then argv ! 1 else [])]"
      by (simp add: ConstructPinginPubSubResp_def array_text_def bulk_def small_digits)
    then show ?thesis by (auto intro!: reply_texts)
  qed
  moreover have "ConstructPinginPubSubResp argv \<noteq> []" for argv by (simp add: ConstructPinginPubSubResp_def)
  ultimately show ?thesis
    using Some assms well_ret [OF assms, of kPong]
    by (simp add: PingCmd_Do_def answers_well_def put_text_def SetRes_content_def CmdRes_none_def CmdRes_message_def Let_def)
qed

text \<open>
  C35: The commands that answer for the server, SLOWLOG, COMMAND, PING, ECHO, TIME, DBSIZE and CLIENT, leave exactly one
  well-formed reply of the protocol, whatever is in the slow log, in the tables and among the clients, also in a connection
  that has subscribed to channels. COMMAND INFO has no reply only if it is asked for a command that is not described.
\<close>

theorem admin_replies_wellformed:
  assumes "CmdRes_none (cmd_res c)" and "ae_ll2string e = dec_string"
  shows "answers_well (fst (SlowlogCmd_Do e c ps)) \<and> answers_well (PingCmd_Do c) \<and> answers_well (EchoCmd_Do e c)
    \<and> answers_well (TimeCmd_Do e (Inr (sec, usec)) c) \<and> (\<forall>c'. DbsizeCmd_Do e c tables = Some c' \<longrightarrow> answers_well c')
    \<and> answers_well (fst (ClientCmd_Do e clients kill_all kill now c x))
    \<and> (case CommandCmd_Do e c of
         None \<Rightarrow> \<exists>name\<in>set (drop 2 (cmd_argv c)). name \<notin> ri_cmd ` set command_response_info
       | Some c' \<Rightarrow> answers_well c')"
proof (intro conjI)
  have s: "answers_well (set_cmd_res (AppendString dec_string v) c)" for v
    by (rule well_grown [OF _ reply_texts(3) assms(1), of _ v]) (simp add: grows_def append_eqs)
  show "answers_well (EchoCmd_Do e c)" using s assms(2) by (simp add: EchoCmd_Do_def)
  show "answers_well (fst (ClientCmd_Do e clients kill_all kill now c x))"
    using s assms(2) well_ret [OF assms(1), of kOk] well_refuse [OF assms(1), of "''No such client''"]
    by (simp add: ClientCmd_Do_def Let_def split: prod.split)
  have "answers_well (set_cmd_res (AppendInteger dec_string i) c)" for i
    by (rule well_grown [OF _ reply_texts(2) assms(1), of _ i]) (simp add: grows_def append_eqs)
  then show "\<forall>c'. DbsizeCmd_Do e c tables = Some c' \<longrightarrow> answers_well c'"
    using assms well_ret [OF assms(1), of kInvalidTable] well_refuse [OF assms(1), of "''keyspace error''"]
    by (auto simp: DbsizeCmd_Do_def Let_def split: option.splits)
  have "reply (array_text [bulk (dec_string sec), bulk (dec_string usec)])" by (auto intro!: reply_texts)
  then show "answers_well (TimeCmd_Do e (Inr (sec, usec)) c)"
    using assms(1) unfolding TimeCmd_Do_def assms(2)
    by (simp add: answers_well_def CmdRes_none_def CmdRes_message_def cmd_res_simps array_text_def bulk_def dec_string_def small_digits)
  have "\<exists>name\<in>set names. name \<notin> ri_cmd ` set command_response_info" if "append_infos ll2string names r = None" for names ll2string r
    using that by (induction names arbitrary: r) (auto simp: find_None_iff split: option.splits)
  then show "case CommandCmd_Do e c of None \<Rightarrow> \<exists>name\<in>set (drop 2 (cmd_argv c)). name \<notin> ri_cmd ` set command_response_info | Some c' \<Rightarrow> answers_well c'"
    using well_command [OF assms] by (auto simp: CommandCmd_Do_def split: option.splits if_splits)
qed (fact well_slowlog [OF assms] well_ping [OF assms(1)])+

section \<open>COMMAND and the dispatcher\<close>

definition other_arity :: "string list" where
  "other_arity = [''bitop'', ''flushall'', ''hset'', ''keys'', ''lpushx'', ''monitor'', ''pfmerge'', ''ping'', ''rpushx'', ''shutdown'', ''slaveof'', ''spop'']"

text \<open>Where the described commands stand in the table.\<close>

definition described_at :: "nat list" where
  "described_at =
    [35, 2, 3, 133, 135, 87, 134, 10, 13, 15, 32, 33, 28, 18, 47, 48, 50, 8, 9, 139, 141, 142, 140, 143, 144, 27, 132, 44, 34, 61, 65, 63, 64, 66, 67, 68,
     69, 70, 71, 75, 62, 72, 73, 74, 29, 30, 31, 12, 37, 79, 80, 81, 82, 83, 84, 85, 86, 88, 36, 14, 42, 43, 54, 49, 51, 136, 137, 138, 6, 40, 148, 53,
     145, 150, 149, 89, 90, 91, 92, 116, 56, 118, 127, 128, 7, 26, 131, 39, 38, 45, 11, 124, 125, 126, 0, 20, 119, 129, 117, 130, 121, 120, 46, 146, 122,
     123, 16, 52, 55, 147, 93, 94, 101, 96, 104, 110, 114, 115, 97, 108, 99, 105, 102, 113, 111, 112, 98, 109, 100, 106, 95, 107, 103]"

lemma described_at_arities:
  "list_all2 (\<lambda>i k. k < length all_cmds \<and> fst (all_cmds ! k) = ri_cmd i \<and> (ri_arity i = fst (snd (all_cmds ! k))) = (ri_cmd i \<notin> set other_arity))
     command_response_info described_at"
  by code_simp

lemma described_arities:
  assumes "i \<in> set command_response_info"
  shows "\<exists>arity. map_of (map (\<lambda>e. (fst e, fst (snd e))) all_cmds) (ri_cmd i) = Some arity \<and> (ri_arity i = arity) = (ri_cmd i \<notin> set other_arity)"
proof -
  from described_at_arities assms obtain k where k: "k < length all_cmds" "fst (all_cmds ! k) = ri_cmd i"
    "(ri_arity i = fst (snd (all_cmds ! k))) = (ri_cmd i \<notin> set other_arity)"
    unfolding list_all2_conv_all_nth in_set_conv_nth by blast
  have "distinct (map fst (map (\<lambda>e. (fst e, fst (snd e))) all_cmds))" using all_cmds_distinct by (simp only: map_map comp_def fst_conv)
  moreover have "(ri_cmd i, fst (snd (all_cmds ! k))) \<in> set (map (\<lambda>e. (fst e, fst (snd e))) all_cmds)"
    using k(1,2) nth_mem [OF k(1)] by (metis (no_types, lifting) image_eqI list.set_map)
  ultimately have "map_of (map (\<lambda>e. (fst e, fst (snd e))) all_cmds) (ri_cmd i) = Some (fst (snd (all_cmds ! k)))" by (rule map_of_is_SomeI)
  with k(3) show ?thesis by blast
qed

lemma InitCmdTable_arity:
  obtains tab :: "'n Cmd list" where "InitCmdTable = Some tab"
    and "\<And>name. map_option cmd_arity (GetCmdFromTable name tab) = map_of (map (\<lambda>e. (fst e, fst (snd e))) all_cmds) name"
proof -
  let ?tab = "map (\<lambda>e. the (new_cmd e)) all_cmds :: 'n Cmd list"
  have short: "\<forall>e\<in>set all_cmds. length (fst e) < 31" using all_cmds_short by (simp add: list_all_iff)
  then have "InitCmdTable = Some ?tab" unfolding InitCmdTable_def using add_cmds_ok [OF all_cmds_distinct short, of "[]"] by simp
  moreover have "\<forall>e\<in>set es. length (fst e) < 31
      \<Longrightarrow> map_option cmd_arity (GetCmdFromTable name (map (\<lambda>e. the (new_cmd e)) es :: 'n Cmd list)) = map_of (map (\<lambda>e. (fst e, fst (snd e))) es) name" for es name
    by (induction es) (auto simp: GetCmdFromTable_def new_cmd_fields(1), auto simp: new_cmd_def Cmd_new_def)
  ultimately show thesis using that short by blast
qed


section \<open>Instances\<close>

theorem admin_replies_wellformed_witness:
  "answers_well (fst (SlowlogCmd_Do admin_e (admin_cmd ''slowlog'' (-2) kCmdFlagsRead [''slowlog'', ''get'']) (SlowlogPushEntry 10 [''get'', ''k''] 5 7 server0)))
    \<and> answers_well (the (CommandCmd_Do admin_e (admin_cmd ''command'' 0 kCmdFlagsRead [''command''])))"
proof -
  have c: "CmdRes_none (cmd_res (admin_cmd n a f argv))" for n a f argv by (simp add: admin_cmd_def CmdRes_none_def CmdRes0_def)
  have e: "ae_ll2string admin_e = dec_string" by (simp add: admin_e_def)
  let ?c = "admin_cmd ''command'' 0 kCmdFlagsRead [''command'']"
  obtain c' where c': "CommandCmd_Do admin_e ?c = Some c'" by (simp add: CommandCmd_Do_def admin_cmd_def)
  have "answers_well (fst (SlowlogCmd_Do admin_e (admin_cmd ''slowlog'' (-2) kCmdFlagsRead [''slowlog'', ''get'']) (SlowlogPushEntry 10 [''get'', ''k''] 5 7 server0)))"
    by (intro admin_replies_wellformed [OF c e, THEN conjunct1])
  moreover have "answers_well c'"
    using admin_replies_wellformed [OF c e, of "''command''" 0 kCmdFlagsRead "[''command'']" server0 0 0 "[] :: nat tables" "\<lambda>_. []" id "\<lambda>_ x. (False, x)" 0 "0 :: nat"] c'
    by simp
  ultimately show ?thesis using c' by simp
qed

end
