(* ===== verification/Spec2Isabelle.thy ===== *)
theory Spec2Isabelle
  imports Pika_Prelude Pika_Define Pika_Sync_Window Pika_Slash Pika_Transverter Pika_Binlog
    Pika_Binlog_Recovery Pika_Binlog_Reader Pika_Binlog_Channel Pika_Binlog_Seek
    Pika_Slave_Node Pika_Context Pika_Mem_Log Pika_Sync_Progress Pika_Stable_Log
    Pika_Consensus Pika_Commit Pika_Negotiate
    Pika_Data_Distribution Pika_Cmd_Res Pika_Table Pika_Partition Pika_Command Pika_Cmd_Table
    Pika_Kv Pika_Kv_Reply Pika_Kv_Log Pika_Sync_Stream Pika_Inner_Message Pika_Replica Pika_Server
    Pika_Repl_Server Pika_Repl_Client Pika_Handshake Pika_Replication
    Pika_Client_Conn Pika_Admin Pika_Admin_Info
begin

text \<open>
  A verification library for pika.
\<close>

end
